(* ===== verification/Moab_Prelude.thy ===== *)
theory Moab_Prelude
  imports
    "HOL-Library.Word"
    "HOL-Library.List_Lexorder"
    "HOL-Library.Product_Lexorder"
    "HOL-Library.Sublist"
    "HOL-Library.Signed_Division"
begin

text \<open>
  Shared vocabulary of the development.

  \<^item> Go's error values and the computations over a store transaction: a state
    transformer that returns an error or a result with the next state
    (\<open>go\<close>), with the loops \<open>go_for\<close> (a \<open>range\<close> loop) and
    \<open>go_scan\<close> (an index scan whose callback may stop it).
  \<^item> Go's fixed-width integers: \<open>uint64\<close> is \<^typ>\<open>64 word\<close>,
    \<open>int64\<close> and \<open>int32\<close> are integers with the wrap-around
    written out (\<open>i64\<close>, \<open>i32\<close>).
  \<^item> Plain big-endian byte strings and the order they induce.
\<close>

named_theorems go_run \<open>unfolding rules for the transaction computations\<close>

type_synonym byte = "8 word"
type_synonym bytes = "8 word list"
type_synonym uint64 = "64 word"

section \<open>Errors and transaction computations\<close>

text \<open>
  \<open>ErrNotFound\<close> is \<open>store.ErrNotFound\<close>; \<open>ErrWrap\<close> is
  \<open>fmt.Errorf\<close> with \<open>%w\<close>; \<open>Panic\<close> is a run-time panic,
  which leaves the handler without committing its transaction.
  \<open>OutOfFuel\<close> is no Go error: a loop that carries a step bound in the
  model ends with it when the bound is too small.
\<close>

datatype goerr =
    ErrNotFound
  | ErrNew string
  | ErrWrap string goerr
  | Panic string
  | OutOfFuel

fun errors_Is_NotFound :: "goerr \<Rightarrow> bool" where
  "errors_Is_NotFound ErrNotFound = True"
| "errors_Is_NotFound (ErrWrap _ e) = errors_Is_NotFound e"
| "errors_Is_NotFound (ErrNew _) = False"
| "errors_Is_NotFound (Panic _) = False"
| "errors_Is_NotFound OutOfFuel = False"

type_synonym ('s, 'a) go = "'s \<Rightarrow> goerr + ('a \<times> 's)"

definition go_ret :: "'a \<Rightarrow> ('s, 'a) go" where
  "go_ret x = (\<lambda>s. Inr (x, s))"

definition go_fail :: "goerr \<Rightarrow> ('s, 'a) go" where
  "go_fail e = (\<lambda>s. Inl e)"

text \<open>\<open>x, err := m; if err != nil { return err }; f(x)\<close>\<close>

definition go_bind :: "('s, 'a) go \<Rightarrow> ('a \<Rightarrow> ('s, 'b) go) \<Rightarrow> ('s, 'b) go" where
  "go_bind m f = (\<lambda>s. case m s of Inl e \<Rightarrow> Inl e | Inr (x, s') \<Rightarrow> f x s')"

definition go_seq :: "('s, unit) go \<Rightarrow> ('s, 'b) go \<Rightarrow> ('s, 'b) go" where
  "go_seq m n = go_bind m (\<lambda>_. n)"

text \<open>\<open>x, err := m; if err != nil { h(err) }; f(x)\<close>: the failed call has
  changed nothing.\<close>

definition go_try :: "('s, 'a) go \<Rightarrow> (goerr \<Rightarrow> ('s, 'b) go) \<Rightarrow> ('a \<Rightarrow> ('s, 'b) go) \<Rightarrow> ('s, 'b) go" where
  "go_try m h f = (\<lambda>s. case m s of Inl e \<Rightarrow> h e s | Inr (x, s') \<Rightarrow> f x s')"

definition go_when :: "bool \<Rightarrow> ('s, unit) go \<Rightarrow> ('s, unit) go" where
  "go_when b m = (if b then m else go_ret ())"

text \<open>Dereferencing a pointer, and slicing \<open>xs[i:j]\<close>.\<close>

definition go_deref :: "'a option \<Rightarrow> ('s, 'a) go" where
  "go_deref p = (case p of None \<Rightarrow> go_fail (Panic ''nil pointer dereference'') | Some x \<Rightarrow> go_ret x)"

definition go_slice :: "'a list \<Rightarrow> int \<Rightarrow> int \<Rightarrow> ('s, 'a list) go" where
  "go_slice xs i j = (if 0 \<le> i \<and> i \<le> j \<and> j \<le> int (length xs)
     then go_ret (take (nat (j - i)) (drop (nat i) xs))
     else go_fail (Panic ''slice bounds out of range''))"

text \<open>\<open>xs[i]\<close> on a slice.\<close>

definition go_index :: "'a list \<Rightarrow> int \<Rightarrow> ('s, 'a) go" where
  "go_index xs i = (if 0 \<le> i \<and> i < int (length xs) then go_ret (xs ! nat i)
     else go_fail (Panic ''index out of range''))"

text \<open>Loop over a slice, threading the loop's local variables.\<close>

fun go_for :: "('x \<Rightarrow> 'b \<Rightarrow> ('s, 'b) go) \<Rightarrow> 'x list \<Rightarrow> 'b \<Rightarrow> ('s, 'b) go" where
  "go_for f [] acc = go_ret acc"
| "go_for f (x # xs) acc = go_bind (f x acc) (\<lambda>acc'. go_for f xs acc')"

text \<open>An index scan: the callback returns whether to go on.\<close>

fun go_scan :: "('x \<Rightarrow> 'b \<Rightarrow> ('s, bool \<times> 'b) go) \<Rightarrow> 'x list \<Rightarrow> 'b \<Rightarrow> ('s, 'b) go" where
  "go_scan f [] acc = go_ret acc"
| "go_scan f (x # xs) acc = go_bind (f x acc) (\<lambda>(continue, acc').
     if continue then go_scan f xs acc' else go_ret acc')"

text \<open>A pure call that may return an error.\<close>

definition go_of_sum :: "goerr + 'a \<Rightarrow> ('s, 'a) go" where
  "go_of_sum r = (case r of Inl e \<Rightarrow> go_fail e | Inr x \<Rightarrow> go_ret x)"

text \<open>The state a successful computation ends in.\<close>

definition go_out :: "('s, 'a) go \<Rightarrow> 's \<Rightarrow> 's" where
  "go_out m s = snd (projr (m s))"

section \<open>Fixed-width integers\<close>

definition i64 :: "int \<Rightarrow> int" where
  "i64 x = (x + 2 ^ 63) mod 2 ^ 64 - 2 ^ 63"

definition i32 :: "int \<Rightarrow> int" where
  "i32 x = (x + 2 ^ 31) mod 2 ^ 32 - 2 ^ 31"

text \<open>Integer division: truncating, and a panic on a zero divisor.\<close>

definition go_div :: "int \<Rightarrow> int \<Rightarrow> ('s, int) go" where
  "go_div a b = (if b = 0 then go_fail (Panic ''integer divide by zero'') else go_ret (i64 (a sdiv b)))"

text \<open>The \<open>uint64\<close> bit pattern of an \<open>int64\<close>, as the byte encoders see it.\<close>

definition tw :: "int \<Rightarrow> uint64" where
  "tw x = word_of_int x"

text \<open>\<open>time.Second\<close> and the longer units, in nanoseconds.\<close>

definition time_Second :: int where "time_Second = 1000000000"
definition time_Minute :: int where "time_Minute = 60 * time_Second"
definition time_Hour :: int where "time_Hour = 60 * time_Minute"

text \<open>A request field with a default for values that are not positive.\<close>

definition orDefault :: "int \<Rightarrow> int \<Rightarrow> int" where
  "orDefault x dflt = (if x \<le> 0 then dflt else x)"

section \<open>Big-endian byte strings\<close>

fun be :: "nat \<Rightarrow> nat \<Rightarrow> bytes" where
  "be 0 n = []"
| "be (Suc k) n = of_nat (n div 256 ^ k) # be k (n mod 256 ^ k)"

definition unbe :: "bytes \<Rightarrow> nat" where
  "unbe bs = foldl (\<lambda>a b. a * 256 + unat b) 0 bs"

definition be64 :: "uint64 \<Rightarrow> bytes" where
  "be64 w = be 8 (unat w)"

definition be32 :: "32 word \<Rightarrow> bytes" where
  "be32 w = be 4 (unat w)"

definition str_bytes :: "string \<Rightarrow> bytes" where
  "str_bytes cs = map (\<lambda>c. of_nat (of_char c)) cs"

text \<open>The decimal rendering of \<open>fmt.Sprintf("%d", n)\<close> for an unsigned value.\<close>

fun fmt_nat :: "nat \<Rightarrow> string" where
  "fmt_nat n = (if n < 10 then [char_of (48 + n)] else fmt_nat (n div 10) @ [char_of (48 + n mod 10)])"

declare fmt_nat.simps [simp del]

definition fmt_int :: "int \<Rightarrow> string" where
  "fmt_int x = (if x < 0 then ''-'' @ fmt_nat (nat (- x)) else fmt_nat (nat x))"

section \<open>Lemmas on computations\<close>

lemma go_run_basic [simp]:
  "go_ret x s = Inr (x, s)"
  "go_fail e s = Inl e"
  by (simp_all add: go_ret_def go_fail_def)

lemma go_bind_Inr: "m s = Inr (x, s') \<Longrightarrow> go_bind m f s = f x s'"
  by (simp add: go_bind_def)

lemma go_bind_Inl: "m s = Inl e \<Longrightarrow> go_bind m f s = Inl e"
  by (simp add: go_bind_def)

lemma go_seq_Inr: "m s = Inr (x, s') \<Longrightarrow> go_seq m n s = n s'"
  by (simp add: go_seq_def go_bind_def)

lemma go_seq_Inl: "m s = Inl e \<Longrightarrow> go_seq m n s = Inl e"
  by (simp add: go_seq_def go_bind_def)

lemma go_try_Inr: "m s = Inr (x, s') \<Longrightarrow> go_try m h f s = f x s'"
  by (simp add: go_try_def)

lemma go_try_Inl: "m s = Inl e \<Longrightarrow> go_try m h f s = h e s"
  by (simp add: go_try_def)

lemma go_run_apply [go_run]:
  "go_bind m f s = (case m s of Inl e \<Rightarrow> Inl e | Inr p \<Rightarrow> f (fst p) (snd p))"
  "go_seq m' n s = (case m' s of Inl e \<Rightarrow> Inl e | Inr p \<Rightarrow> n (snd p))"
  "go_try m h f s = (case m s of Inl e \<Rightarrow> h e s | Inr p \<Rightarrow> f (fst p) (snd p))"
  "(if b then m else m2) s = (if b then m s else m2 s)"
  by (auto simp: go_bind_def go_seq_def go_try_def split: sum.splits)

lemma go_bind_ret [simp]: "go_bind (go_ret x) f = f x"
  by (simp add: go_bind_def go_ret_def)

lemma go_when_simps [simp]:
  "go_when True m = m"
  "go_when False m = go_ret ()"
  by (simp_all add: go_when_def)

lemma go_deref_Some [simp]: "go_deref (Some x) = go_ret x"
  by (simp add: go_deref_def)

lemma go_bind_Inr_iff: "go_bind m f s = Inr r \<longleftrightarrow> (\<exists>x s'. m s = Inr (x, s') \<and> f x s' = Inr r)"
  by (auto simp: go_bind_def split: sum.splits)

lemma go_for_append: "go_for f (xs @ ys) acc s = go_bind (go_for f xs acc) (\<lambda>acc'. go_for f ys acc') s"
  by (induction xs arbitrary: acc s) (auto simp: go_bind_def split: sum.splits)

lemma go_out_eq: "m s = Inr (x, s') \<Longrightarrow> go_out m s = s'"
  by (simp add: go_out_def)

text \<open>The loop rule: an invariant over the remaining items.\<close>

lemma go_for_inv:
  assumes "I xs acc s"
    and "\<And>x ys acc s. I (x # ys) acc s \<Longrightarrow> \<exists>acc' s'. f x acc s = Inr (acc', s') \<and> I ys acc' s'"
  shows "\<exists>acc' s'. go_for f xs acc s = Inr (acc', s') \<and> I [] acc' s'"
  using assms(1)
proof (induction xs arbitrary: acc s)
  case Nil
  then show ?case by simp
next
  case (Cons x xs)
  obtain acc1 s1 where "f x acc s = Inr (acc1, s1)" "I xs acc1 s1"
    using assms(2)[OF Cons.prems] by blast
  with Cons.IH show ?case by (simp add: go_bind_Inr)
qed

section \<open>Lemmas on fixed-width integers\<close>

lemma i64_id [simp]: "- (2 ^ 63) \<le> x \<Longrightarrow> x < 2 ^ 63 \<Longrightarrow> i64 x = x"
  by (simp add: i64_def)

lemma i64_range: "- (2 ^ 63) \<le> i64 x" "i64 x < 2 ^ 63"
proof -
  have "0 \<le> (x + 2 ^ 63) mod 2 ^ 64" "(x + 2 ^ 63) mod 2 ^ 64 < (2 ^ 64 :: int)"
    by simp_all
  then show "- (2 ^ 63) \<le> i64 x" "i64 x < 2 ^ 63"
    by (simp_all add: i64_def)
qed

lemma i64_cong: "i64 x = i64 y \<longleftrightarrow> x mod 2 ^ 64 = y mod 2 ^ 64"
  by (simp add: i64_def mod_eq_dvd_iff)

lemma i64_mod [simp]: "i64 x mod 2 ^ 64 = x mod 2 ^ 64"
  by (simp add: i64_def mod_diff_left_eq)

lemma i64_i64 [simp]: "i64 (i64 x) = i64 x"
  using i64_range[of x] by simp

lemma i64_add_left [simp]: "i64 (i64 x + y) = i64 (x + y)"
  unfolding i64_cong using i64_mod[of x] by (rule mod_add_cong) simp

lemma i64_add_right [simp]: "i64 (x + i64 y) = i64 (x + y)"
  unfolding i64_cong by (rule mod_add_cong) (simp_all only: i64_mod)

lemma i64_diff_left [simp]: "i64 (i64 x - y) = i64 (x - y)"
  unfolding i64_cong using i64_mod[of x] by (rule mod_diff_cong) simp

lemma i32_id [simp]: "- (2 ^ 31) \<le> x \<Longrightarrow> x < 2 ^ 31 \<Longrightarrow> i32 x = x"
  by (simp add: i32_def)

lemma tw_i64 [simp]: "tw (i64 x) = tw x"
proof -
  have "take_bit 64 (i64 x) = take_bit 64 x"
    unfolding take_bit_eq_mod by (rule i64_mod)
  then show ?thesis
    by (simp add: tw_def word_of_int_eq_iff)
qed

lemma sint_tw [simp]: "sint (tw x) = i64 x"
  by (simp add: tw_def i64_def sint_sbintrunc' signed_take_bit_eq_take_bit_shift take_bit_eq_mod)

lemma tw_sint [simp]: "tw (sint w) = w"
  by (simp add: tw_def)

lemma tw_inj: "i64 x = x \<Longrightarrow> i64 y = y \<Longrightarrow> tw x = tw y \<longleftrightarrow> x = y"
  by (metis sint_tw)

lemma uint_tw: "0 \<le> x \<Longrightarrow> x < 2 ^ 63 \<Longrightarrow> uint (tw x) = x"
  by (simp add: tw_def uint_word_of_int)

text \<open>Unsigned byte order agrees with \<open>int64\<close> order on non-negative times.\<close>

lemma tw_le_iff:
  "0 \<le> x \<Longrightarrow> x < 2 ^ 63 \<Longrightarrow> 0 \<le> y \<Longrightarrow> y < 2 ^ 63 \<Longrightarrow> tw x \<le> tw y \<longleftrightarrow> x \<le> y"
  by (simp add: word_le_def uint_tw)

section \<open>Lemmas on byte strings\<close>

lemma length_be [simp]: "length (be k n) = k"
  by (induction k arbitrary: n) simp_all

lemma be_step:
  fixes n :: nat
  assumes "n < 256 ^ Suc k"
  shows "n div 256 ^ k < 256" "n mod 256 ^ k < 256 ^ k" "unat (of_nat (n div 256 ^ k) :: byte) = n div 256 ^ k"
proof -
  show d: "n div 256 ^ k < 256"
    using assms by (simp add: less_mult_imp_div_less)
  show "n mod 256 ^ k < 256 ^ k" by simp
  show "unat (of_nat (n div 256 ^ k) :: byte) = n div 256 ^ k"
    using d by (simp add: unsigned_of_nat take_bit_nat_eq_self)
qed

lemma foldl_unbe: "foldl (\<lambda>a b. a * 256 + unat (b :: byte)) c bs = c * 256 ^ length bs + unbe bs"
proof (induction bs arbitrary: c)
  case Nil
  then show ?case by (simp add: unbe_def)
next
  case (Cons b bs)
  have "unbe (b # bs) = unat b * 256 ^ length bs + unbe bs"
    using Cons.IH[of "unat b"] by (simp add: unbe_def)
  then show ?case using Cons.IH[of "c * 256 + unat b"] by (simp add: algebra_simps)
qed

lemma unbe_Cons: "unbe (b # bs) = unat b * 256 ^ length bs + unbe bs"
  using foldl_unbe[of "unat b" bs] by (simp add: unbe_def)

lemma unbe_be: "n < 256 ^ k \<Longrightarrow> unbe (be k n) = n"
proof (induction k arbitrary: n)
  case 0
  then show ?case by (simp add: unbe_def)
next
  case (Suc k)
  then show ?case using be_step[of n k] by (simp add: unbe_Cons div_mult_mod_eq)
qed

lemma be_less_iff: "m < 256 ^ k \<Longrightarrow> n < 256 ^ k \<Longrightarrow> be k m < be k n \<longleftrightarrow> m < n"
proof (induction k arbitrary: m n)
  case 0
  then show ?case by simp
next
  case (Suc k)
  let ?p = "256 ^ k :: nat"
  note m = be_step[OF Suc.prems(1)] and n = be_step[OF Suc.prems(2)]
  have less: "(of_nat (m div ?p) :: byte) < of_nat (n div ?p) \<longleftrightarrow> m div ?p < n div ?p"
    and eq: "(of_nat (m div ?p) :: byte) = of_nat (n div ?p) \<longleftrightarrow> m div ?p = n div ?p"
    using m(3) n(3) by (simp_all add: word_less_nat_alt word_eq_iff_unsigned[where ?'a = nat])
  have "m < n \<longleftrightarrow> m div ?p < n div ?p \<or> m div ?p = n div ?p \<and> m mod ?p < n mod ?p"
  proof
    assume "m < n"
    then show "m div ?p < n div ?p \<or> m div ?p = n div ?p \<and> m mod ?p < n mod ?p"
      by (metis div_le_mono div_mult_mod_eq less_imp_le_nat nat_add_left_cancel_less nat_less_le)
  next
    assume "m div ?p < n div ?p \<or> m div ?p = n div ?p \<and> m mod ?p < n mod ?p"
    then show "m < n"
      by (metis div_le_mono div_mult_mod_eq linorder_not_le nat_add_left_cancel_less)
  qed
  then show ?case using Suc.IH[OF m(2) n(2)] less eq by simp
qed

lemma length_be64 [simp]: "length (be64 w) = 8"
  by (simp add: be64_def)

lemma length_be32 [simp]: "length (be32 w) = 4"
  by (simp add: be32_def)

lemma unat_256: "unat (w :: uint64) < 256 ^ 8" "unat (v :: 32 word) < 256 ^ 4"
  using unsigned_less[of w, where ?'a = nat] unsigned_less[of v, where ?'a = nat] by simp_all

lemma unbe_be64 [simp]: "of_nat (unbe (be64 w)) = w"
  using unat_256 by (simp add: be64_def unbe_be)

lemma be64_inject [simp]: "be64 v = be64 w \<longleftrightarrow> v = w"
  by (metis unbe_be64)

lemma be32_inject [simp]: "be32 v = be32 w \<longleftrightarrow> v = w"
  by (metis be32_def unat_256(2) unbe_be unsigned_word_eqI)

lemma be64_less [simp]: "be64 v < be64 w \<longleftrightarrow> v < w"
  using unat_256 by (simp add: be64_def be_less_iff word_less_nat_alt)

lemma be64_le [simp]: "be64 v \<le> be64 w \<longleftrightarrow> v \<le> w"
  by (simp add: linorder_not_less[symmetric])

lemma be64_append_inject [simp]: "be64 v @ x = be64 w @ y \<longleftrightarrow> v = w \<and> x = y"
  by (simp add: append_eq_append_conv)

lemma be32_append_inject [simp]: "be32 v @ x = be32 w @ y \<longleftrightarrow> v = w \<and> x = y"
  by (simp add: append_eq_append_conv)

lemma unat_of_char: "unat (of_nat (of_char c) :: byte) = of_char c"
proof -
  have "of_char c < (256 :: nat)" by (rule nat_of_char_less_256)
  then show ?thesis by (simp add: unsigned_of_nat take_bit_nat_eq_self)
qed

lemma str_bytes_inject [simp]: "str_bytes x = str_bytes y \<longleftrightarrow> x = y"
proof -
  have "inj (\<lambda>c. of_nat (of_char c) :: byte)"
    by (rule injI) (metis unat_of_char of_char_eq_iff)
  then show ?thesis
    by (simp add: str_bytes_def inj_map_eq_map)
qed

lemma length_str_bytes [simp]: "length (str_bytes x) = length x"
  by (simp add: str_bytes_def)

lemma append_less_append:
  fixes x y :: "'a :: linorder list"
  assumes "length x = length y"
  shows "x @ u < y @ v \<longleftrightarrow> x < y \<or> x = y \<and> u < v"
  using assms by (induction x y rule: list_induct2) auto

lemma be64_append_less [simp]:
  "be64 v @ x < be64 w @ y \<longleftrightarrow> v < w \<or> v = w \<and> x < y"
  by (simp add: append_less_append)

section \<open>Sorted listings of finite sets\<close>

lemma sorted_list_of_image:
  assumes "strict_mono_on A f" "finite A"
  shows "sorted_list_of_set (f ` A) = map f (sorted_list_of_set A)"
proof (rule sorted_distinct_set_unique)
  have inj: "inj_on f A" using assms(1) by (rule strict_mono_on_imp_inj_on)
  show "distinct (map f (sorted_list_of_set A))"
    using inj assms(2) by (simp add: distinct_map)
  have "sorted_wrt (\<lambda>x y. f x \<le> f y) (sorted_list_of_set A)"
    by (rule sorted_wrt_mono_rel[of _ "(\<le>)"])
      (use assms strict_mono_on_leD in \<open>auto\<close>)
  then show "sorted (map f (sorted_list_of_set A))"
    by (simp add: sorted_wrt_map)
qed (use assms in auto)

lemma sorted_list_of_filter:
  assumes "finite A"
  shows "sorted_list_of_set {x \<in> A. Q x} = filter Q (sorted_list_of_set A)"
  by (rule sorted_distinct_set_unique) (use assms in \<open>auto intro: sorted_wrt_filter\<close>)

lemma sorted_list_hd:
  assumes "finite A" "sorted_list_of_set A = x # xs"
  shows "x \<in> A" "\<And>y. y \<in> A \<Longrightarrow> x \<le> y"
proof -
  have s: "set (x # xs) = A" using assms by (metis set_sorted_list_of_set)
  then show "x \<in> A" by auto
  have "sorted (x # xs)" using assms by (metis sorted_list_of_set(2))
  then show "\<And>y. y \<in> A \<Longrightarrow> x \<le> y" using s by auto
qed

end
