(* ===== verification/Moab_Honey.thy ===== *)
theory Moab_Honey
  imports Moab_Prelude
begin

text \<open>
  The packages the program imports and whose code is not part of the
  repository.  Each is a parameter of the model: a record of the operations
  the program calls.

  \<^item> \<open>pkgs\<close>: the pure functions of \<open>monstera/utils\<close> (byte
    concatenation, shard keys) and \<open>yellowstone-common/encoding/base62\<close>.
  \<^item> \<open>BadgerStore\<close>: transactions of \<open>monstera/store\<close>, over a
    database of type \<open>'d\<close> and transactions of type \<open>'s\<close>.
  \<^item> \<open>BinaryTable\<close>, \<open>Uint64Table\<close>, \<open>OneToManySortedIndex\<close> and
    \<open>SortedIndex\<close>: the four table kinds of
    \<open>yellowstone-common/honey\<close>.  A listing with a callback is the list of
    items it visits; the caller runs its callback over them with
    \<open>go_scan\<close>.

  What the program relies on is stated as one locale per interface.  A table
  is seen through \<open>view\<close> (the content of all tables of a core as one value)
  and a field of that value: the locale says what each operation returns and
  which content it leaves.  Storage I/O is taken to succeed.
\<close>

section \<open>Operations\<close>

text \<open>The argument kinds \<open>utils.ConcatBytes\<close> is called with.\<close>

datatype concat_arg =
    CU64 uint64
  | CI64 int
  | CU32 "32 word"
  | CStr string
  | CBytes bytes

text \<open>\<open>cluster.ShardKey\<close>: a point of the 32-bit key space of an application.\<close>

type_synonym ShardKey = "32 word"

record pkgs =
  ConcatBytes :: "concat_arg list \<Rightarrow> bytes"
  BytesToUint64 :: "bytes \<Rightarrow> uint64"
  GetShardKey :: "bytes \<Rightarrow> ShardKey"
  base62_Encode :: "bytes \<Rightarrow> string"
  base62_DecodeString :: "string \<Rightarrow> bytes option"

record honey_PaginationToken =
  hpt_Key :: bytes
  hpt_Reverse :: bool

record 'v page =
  pg_Items :: "'v list"
  pg_NextPaginationToken :: "honey_PaginationToken option"
  pg_PreviousPaginationToken :: "honey_PaginationToken option"

record ('s, 'v) BinaryTable =
  bt_TableId :: bytes
  bt_Get :: "bytes \<Rightarrow> ('s, 'v) go"
  bt_Set :: "bytes \<Rightarrow> 'v \<Rightarrow> ('s, unit) go"
  bt_Delete :: "bytes \<Rightarrow> ('s, unit) go"
  bt_ListAll :: "bytes \<Rightarrow> ('s, 'v list) go"
  bt_ListPaginated :: "bytes \<Rightarrow> honey_PaginationToken option \<Rightarrow> int \<Rightarrow> ('s, 'v page) go"

record 's Uint64Table =
  ut_TableId :: bytes
  ut_Get :: "bytes \<Rightarrow> ('s, uint64) go"
  ut_Set :: "bytes \<Rightarrow> uint64 \<Rightarrow> ('s, unit) go"
  ut_Delete :: "bytes \<Rightarrow> ('s, unit) go"

record 's OneToManySortedIndex =
  oi_TableId :: bytes
  oi_Add :: "bytes \<Rightarrow> bytes \<Rightarrow> ('s, unit) go"
  oi_Delete :: "bytes \<Rightarrow> bytes \<Rightarrow> ('s, unit) go"
  oi_ListAll :: "bytes \<Rightarrow> ('s, bytes list) go"
  oi_ListInRange :: "bytes \<Rightarrow> bytes \<Rightarrow> bytes \<Rightarrow> ('s, bytes list) go"
  oi_ListPaginated :: "bytes \<Rightarrow> honey_PaginationToken option \<Rightarrow> int \<Rightarrow> ('s, bytes page) go"

record 's SortedIndex =
  si_TableId :: bytes
  si_Add :: "bytes \<Rightarrow> ('s, unit) go"
  si_Delete :: "bytes \<Rightarrow> ('s, unit) go"
  si_ListInRange :: "bytes \<Rightarrow> bytes \<Rightarrow> ('s, bytes list) go"

record ('d, 's) BadgerStore =
  bs_View :: "'d \<Rightarrow> 's"
  bs_Update :: "'d \<Rightarrow> 's"
  bs_Commit :: "'s \<Rightarrow> goerr + 'd"
  bs_DeletePrefix :: "bytes \<Rightarrow> 'd \<Rightarrow> goerr + 'd"

text \<open>\<open>mrpc\<close>: application errors and the response envelope; a response
  carries a payload or an application error.  The codes the program names are
  constructors of their own.\<close>

datatype mrpc_ErrorCode =
    ErrorCode_INVALID
  | ErrorCode_OK
  | NotFound
  | AlreadyExists
  | IDCollision
  | InvalidRequest
  | ResourceExhausted
  | mrpc_ErrorCode_other int

record mrpc_Error =
  err_Code :: mrpc_ErrorCode
  err_Message :: string
  err_Context :: "(string \<times> string) list"

datatype 'p response =
    Payload 'p
  | ApplicationError mrpc_Error

section \<open>Handlers\<close>

text \<open>
  A core method opens a transaction, runs, and either commits it, or returns
  without committing (the deferred \<open>txn.Discard()\<close>).  The body says which by
  \<open>Commit r\<close> or \<open>Discard r\<close>; an error or a panic never commits.
\<close>

datatype 'r verdict = Commit 'r | Discard 'r

type_synonym ('d, 'r) handler = "'d \<Rightarrow> (goerr + 'r) \<times> 'd"

definition in_update :: "('d, 's) BadgerStore \<Rightarrow> ('s, 'r verdict) go \<Rightarrow> ('d, 'r) handler" where
  "in_update bs body d = (case body (bs_Update bs d) of
       Inl e \<Rightarrow> (Inl e, d)
     | Inr (Discard r, _) \<Rightarrow> (Inr r, d)
     | Inr (Commit r, s') \<Rightarrow> (case bs_Commit bs s' of Inl e \<Rightarrow> (Inl e, d) | Inr d' \<Rightarrow> (Inr r, d')))"

definition in_view :: "('d, 's) BadgerStore \<Rightarrow> ('s, 'r) go \<Rightarrow> ('d, 'r) handler" where
  "in_view bs body d = (case body (bs_View bs d) of
       Inl e \<Rightarrow> (Inl e, d)
     | Inr (r, _) \<Rightarrow> (Inr r, d))"

section \<open>Contracts\<close>

text \<open>The bytes each argument kind contributes, plain big-endian.\<close>

fun concat_arg_bytes :: "concat_arg \<Rightarrow> bytes" where
  "concat_arg_bytes (CU64 w) = be64 w"
| "concat_arg_bytes (CI64 x) = be64 (tw x)"
| "concat_arg_bytes (CU32 w) = be32 w"
| "concat_arg_bytes (CStr s) = str_bytes s"
| "concat_arg_bytes (CBytes b) = b"

locale utils_pkg =
  fixes P :: pkgs
  assumes ConcatBytes_raw: "ConcatBytes P args = concat (map concat_arg_bytes args)"
    and BytesToUint64_be: "length b = 8 \<Longrightarrow> BytesToUint64 P b = of_nat (unbe b)"

text \<open>Rows of a table under a key prefix, and items of an index under a
  primary key, in byte order.\<close>

definition keys_under :: "(bytes \<Rightarrow> 'v option) \<Rightarrow> bytes \<Rightarrow> bytes list" where
  "keys_under m pfx = sorted_list_of_set {k \<in> dom m. prefix pfx k}"

definition rows_under :: "(bytes \<Rightarrow> 'v option) \<Rightarrow> bytes \<Rightarrow> 'v list" where
  "rows_under m pfx = map (\<lambda>k. the (m k)) (keys_under m pfx)"

definition items_under :: "bytes set \<Rightarrow> bytes \<Rightarrow> bytes list" where
  "items_under K pk = sorted_list_of_set {x. pk @ x \<in> K}"

text \<open>An item is in the range of two item prefixes when its own prefix lies
  between them, both ends included.\<close>

definition in_prefix_range :: "bytes \<Rightarrow> bytes \<Rightarrow> bytes \<Rightarrow> bool" where
  "in_prefix_range lo hi x \<longleftrightarrow> lo \<le> take (length lo) x \<and> take (length hi) x \<le> hi"

locale binary_table =
  fixes T :: "('s, 'v) BinaryTable"
    and view :: "'s \<Rightarrow> 'b"
    and get :: "'b \<Rightarrow> bytes \<Rightarrow> 'v option"
    and upd :: "((bytes \<Rightarrow> 'v option) \<Rightarrow> bytes \<Rightarrow> 'v option) \<Rightarrow> 'b \<Rightarrow> 'b"
  assumes Get: "bt_Get T k s = (case get (view s) k of None \<Rightarrow> Inl ErrNotFound | Some v \<Rightarrow> Inr (v, s))"
    and Set: "\<exists>s'. bt_Set T k v s = Inr ((), s') \<and> view s' = upd (\<lambda>m. m(k \<mapsto> v)) (view s)"
    and Delete_present: "get (view s) k = Some v \<Longrightarrow>
      \<exists>s'. bt_Delete T k s = Inr ((), s') \<and> view s' = upd (\<lambda>m. m(k := None)) (view s)"
    and Delete_absent: "get (view s) k = None \<Longrightarrow>
      bt_Delete T k s = Inl ErrNotFound \<or> (\<exists>s'. bt_Delete T k s = Inr ((), s') \<and> view s' = view s)"
    and dom_finite: "finite (dom (get (view s)))"
    and ListAll: "bt_ListAll T pfx s = Inr (rows_under (get (view s)) pfx, s)"
    and ListPaginated_first: "0 < n \<Longrightarrow> \<exists>pg. bt_ListPaginated T pfx None n s = Inr (pg, s) \<and>
      pg_Items pg = take (nat n) (rows_under (get (view s)) pfx) \<and>
      (nat n < length (rows_under (get (view s)) pfx) \<longrightarrow> pg_NextPaginationToken pg \<noteq> None) \<and>
      (rows_under (get (view s)) pfx = [] \<longrightarrow> pg_NextPaginationToken pg = None)"
begin

lemma Set_run:
  "bt_Set T k v s = Inr ((), go_out (bt_Set T k v) s)"
  "view (go_out (bt_Set T k v) s) = upd (\<lambda>m. m(k \<mapsto> v)) (view s)"
  using Set[of k v s] by (auto simp: go_out_def)

lemma Delete_run:
  assumes "get (view s) k = Some v"
  shows "bt_Delete T k s = Inr ((), go_out (bt_Delete T k) s)"
    and "view (go_out (bt_Delete T k) s) = upd (\<lambda>m. m(k := None)) (view s)"
  using Delete_present[OF assms] by (auto simp: go_out_def)

end

locale uint64_table =
  fixes T :: "'s Uint64Table"
    and view :: "'s \<Rightarrow> 'b"
    and get :: "'b \<Rightarrow> bytes \<Rightarrow> uint64 option"
    and upd :: "((bytes \<Rightarrow> uint64 option) \<Rightarrow> bytes \<Rightarrow> uint64 option) \<Rightarrow> 'b \<Rightarrow> 'b"
  assumes Get: "ut_Get T k s = (case get (view s) k of None \<Rightarrow> Inl ErrNotFound | Some v \<Rightarrow> Inr (v, s))"
    and Set: "\<exists>s'. ut_Set T k v s = Inr ((), s') \<and> view s' = upd (\<lambda>m. m(k \<mapsto> v)) (view s)"
    and Delete_present: "get (view s) k = Some v \<Longrightarrow>
      \<exists>s'. ut_Delete T k s = Inr ((), s') \<and> view s' = upd (\<lambda>m. m(k := None)) (view s)"
begin

lemma Set_run:
  "ut_Set T k v s = Inr ((), go_out (ut_Set T k v) s)"
  "view (go_out (ut_Set T k v) s) = upd (\<lambda>m. m(k \<mapsto> v)) (view s)"
  using Set[of k v s] by (auto simp: go_out_def)

lemma Delete_run:
  assumes "get (view s) k = Some v"
  shows "ut_Delete T k s = Inr ((), go_out (ut_Delete T k) s)"
    and "view (go_out (ut_Delete T k) s) = upd (\<lambda>m. m(k := None)) (view s)"
  using Delete_present[OF assms] by (auto simp: go_out_def)

end

text \<open>Adding an item that is there and deleting one that is not change
  nothing (\<open>deleteTask\<close> relies on the latter).  An index stores
  \<open>pk @ item\<close>, so a listing under a primary key also meets the items of a
  longer primary key it is a prefix of.\<close>

locale sorted_index =
  fixes T :: "'s OneToManySortedIndex"
    and view :: "'s \<Rightarrow> 'b"
    and get :: "'b \<Rightarrow> bytes set"
    and upd :: "(bytes set \<Rightarrow> bytes set) \<Rightarrow> 'b \<Rightarrow> 'b"
  assumes Add: "\<exists>s'. oi_Add T pk x s = Inr ((), s') \<and> view s' = upd (insert (pk @ x)) (view s)"
    and Delete: "\<exists>s'. oi_Delete T pk x s = Inr ((), s') \<and> view s' = upd (\<lambda>K. K - {pk @ x}) (view s)"
    and items_finite: "finite (get (view s))"
    and ListAll: "oi_ListAll T pk s = Inr (items_under (get (view s)) pk, s)"
    and ListInRange: "oi_ListInRange T pk lo hi s =
      Inr (filter (in_prefix_range lo hi) (items_under (get (view s)) pk), s)"
    and ListPaginated_first: "0 < n \<Longrightarrow> \<exists>pg. oi_ListPaginated T pk None n s = Inr (pg, s) \<and>
      pg_Items pg = take (nat n) (items_under (get (view s)) pk)"
begin

lemma Add_run:
  "oi_Add T pk x s = Inr ((), go_out (oi_Add T pk x) s)"
  "view (go_out (oi_Add T pk x) s) = upd (insert (pk @ x)) (view s)"
  using Add[of pk x s] by (auto simp: go_out_def)

lemma Delete_run:
  "oi_Delete T pk x s = Inr ((), go_out (oi_Delete T pk x) s)"
  "view (go_out (oi_Delete T pk x) s) = upd (\<lambda>K. K - {pk @ x}) (view s)"
  using Delete[of pk x s] by (auto simp: go_out_def)

end

locale global_index =
  fixes T :: "'s SortedIndex"
    and view :: "'s \<Rightarrow> 'b"
    and get :: "'b \<Rightarrow> bytes set"
    and upd :: "(bytes set \<Rightarrow> bytes set) \<Rightarrow> 'b \<Rightarrow> 'b"
  assumes Add: "\<exists>s'. si_Add T x s = Inr ((), s') \<and> view s' = upd (insert x) (view s)"
    and Delete: "\<exists>s'. si_Delete T x s = Inr ((), s') \<and> view s' = upd (\<lambda>K. K - {x}) (view s)"
    and items_finite: "finite (get (view s))"
    and ListInRange: "si_ListInRange T lo hi s =
      Inr (filter (in_prefix_range lo hi) (items_under (get (view s)) []), s)"
begin

lemma Add_run:
  "si_Add T x s = Inr ((), go_out (si_Add T x) s)"
  "view (go_out (si_Add T x) s) = upd (insert x) (view s)"
  using Add[of x s] by (auto simp: go_out_def)

lemma Delete_run:
  "si_Delete T x s = Inr ((), go_out (si_Delete T x) s)"
  "view (go_out (si_Delete T x) s) = upd (\<lambda>K. K - {x}) (view s)"
  using Delete[of x s] by (auto simp: go_out_def)

end

text \<open>A transaction starts from the database's content; committing installs
  the content the transaction has.\<close>

locale badger_store =
  fixes bs :: "('d, 's) BadgerStore"
    and view :: "'s \<Rightarrow> 'b"
    and dview :: "'d \<Rightarrow> 'b"
  assumes View: "view (bs_View bs d) = dview d"
    and Update: "view (bs_Update bs d) = dview d"
    and Commit_ok: "\<exists>d'. bs_Commit bs s = Inr d' \<and> dview d' = view s"
begin

lemma in_update_commit:
  assumes "body (bs_Update bs d) = Inr (Commit r, s')"
  shows "\<exists>d'. in_update bs body d = (Inr r, d') \<and> dview d' = view s'"
  using Commit_ok[of s'] assms by (auto simp: in_update_def)

lemma in_update_discard:
  assumes "body (bs_Update bs d) = Inr (Discard r, s')"
  shows "in_update bs body d = (Inr r, d)"
  using assms by (simp add: in_update_def)

end

text \<open>Whatever the body does, a handler that reports an error has changed
  nothing.\<close>

lemma in_update_error:
  "in_update bs body d = (Inl e, d') \<Longrightarrow> d' = d"
  by (auto simp: in_update_def split: sum.splits verdict.splits)

lemma in_view_unchanged: "snd (in_view bs body d) = d"
  by (auto simp: in_view_def split: sum.splits)

end
