(* ===== verification/Corepb.thy ===== *)
theory Corepb
  imports Moab_Prelude
begin

text \<open>
  The messages of \<open>pkg/corepb\<close> (the structs generated from
  \<open>common.proto\<close>, \<open>queues.proto\<close> and \<open>tasks.proto\<close>), one
  record per message and one datatype per enum.

  Protobuf enums are open, so each enum the code switches over has a
  constructor for a number outside the declared ones.  A message pointer is an
  option where the code may see nil; the \<open>Id\<close> of a stored row and
  \<open>Thread.HeadTaskId\<close> are always set by the code that writes the row and are
  kept as plain values.  The message-internal protobuf bookkeeping fields are
  left out.
\<close>

section \<open>common.proto\<close>

datatype PaginationToken_Type =
    PaginationToken_INVALID
  | PaginationToken_NEXT
  | PaginationToken_PREVIOUS
  | PaginationToken_Type_other int

record PaginationToken =
  pt_Type :: PaginationToken_Type
  pt_Value :: bytes

record RetryStrategy =
  rs_RetryIntervalsInSeconds :: "int list"

section \<open>queues.proto\<close>

datatype IntervalUnit =
    INTERVAL_UNIT_INVALID
  | INTERVAL_UNIT_SECONDS
  | INTERVAL_UNIT_MINUTES
  | INTERVAL_UNIT_HOURS
  | IntervalUnit_other int

record QueueId =
  qid_AccountId :: uint64
  qid_QueueId :: uint64

record DeadLetterQueueConfig =
  dlq_Enable :: bool
  dlq_MaxSize :: int
  dlq_RetentionPeriodInSeconds :: int

record TokenBucketRateLimiting =
  tb_MaxTokens :: int
  tb_Interval :: int
  tb_IntervalUnit :: IntervalUnit

record DequeuingSettings =
  ds_MaxInProgressTasks :: int
  ds_RateLimiting :: "TokenBucketRateLimiting option"
  ds_DequeuingPaused :: bool

record Queue =
  q_Id :: QueueId
  q_Name :: string
  q_Description :: string
  q_CreatedAt :: int
  q_UpdatedAt :: int
  q_Version :: int
  q_KeepaliveTimeoutInSeconds :: int
  q_RetryStrategy :: "RetryStrategy option"
  q_DequeuingSettings :: "DequeuingSettings option"
  q_DeadLetterQueueConfig :: "DeadLetterQueueConfig option"
  q_ExpiresInSeconds :: int
  q_SchedulesCount :: int

record ScheduleId =
  sid_AccountId :: uint64
  sid_QueueId :: uint64
  sid_ScheduleId :: uint64

record Schedule =
  sch_Id :: ScheduleId
  sch_Name :: string
  sch_Description :: string
  sch_CreatedAt :: int
  sch_UpdatedAt :: int
  sch_Version :: int
  sch_Cron :: string
  sch_Payload :: bytes
  sch_DedupeKey :: string
  sch_ExpiresInSeconds :: int
  sch_RetryStrategy :: "RetryStrategy option"
  sch_Timezone :: string
  sch_LastCheckedAt :: int
  sch_NextScheduledAt :: int
  sch_LastEnqueuedFor :: int

record CreateQueueRequest =
  cq_QueueId :: "QueueId option"
  cq_Name :: string
  cq_Description :: string
  cq_KeepaliveTimeoutInSeconds :: int
  cq_RetryStrategy :: "RetryStrategy option"
  cq_DequeuingSettings :: "DequeuingSettings option"
  cq_DeadLetterQueueConfig :: "DeadLetterQueueConfig option"
  cq_ExpiresInSeconds :: int
  cq_MaxNumberOfQueues :: int

record GetQueueByNameRequest =
  gqn_AccountId :: uint64
  gqn_QueueName :: string

record UpdateQueueRequest =
  uq_AccountId :: uint64
  uq_QueueName :: string
  uq_Description :: string
  uq_KeepaliveTimeoutInSeconds :: int
  uq_RetryStrategy :: "RetryStrategy option"
  uq_DequeuingSettings :: "DequeuingSettings option"
  uq_DeadLetterQueueConfig :: "DeadLetterQueueConfig option"
  uq_ExpiresInSeconds :: int
  uq_ExpectedVersion :: int

record DeleteQueueRequest =
  dq_AccountId :: uint64
  dq_QueueName :: string

record SwapQueueIdRequest =
  sw_AccountId :: uint64
  sw_QueueName :: string
  sw_NewQueueId :: uint64

record SwapQueueIdResponse =
  swr_Queue :: Queue
  swr_OldQueueId :: QueueId

record ListQueuesRequest =
  lq_AccountId :: uint64
  lq_PaginationToken :: "PaginationToken option"
  lq_Limit :: int

record ListQueuesResponse =
  lqr_Queues :: "Queue list"
  lqr_NextPaginationToken :: "PaginationToken option"
  lqr_PreviousPaginationToken :: "PaginationToken option"

record CreateScheduleRequest =
  cs_AccountId :: uint64
  cs_QueueName :: string
  cs_ScheduleId :: uint64
  cs_ScheduleName :: string
  cs_Description :: string
  cs_Cron :: string
  cs_Payload :: bytes
  cs_DedupeKey :: string
  cs_ExpiresInSeconds :: int
  cs_RetryStrategy :: "RetryStrategy option"
  cs_Timezone :: string
  cs_MaxNumberOfSchedulesPerQueue :: int

record GetScheduleRequest =
  gs_AccountId :: uint64
  gs_QueueName :: string
  gs_ScheduleName :: string

record ListSchedulesRequest =
  ls_QueueId :: "QueueId option"
  ls_PaginationToken :: "PaginationToken option"
  ls_Limit :: int

record ListSchedulesResponse =
  lsr_Schedules :: "Schedule list"
  lsr_NextPaginationToken :: "PaginationToken option"
  lsr_PreviousPaginationToken :: "PaginationToken option"

record UpdateScheduleRequest =
  us_AccountId :: uint64
  us_QueueName :: string
  us_ScheduleName :: string
  us_Description :: string
  us_Cron :: string
  us_Payload :: bytes
  us_DedupeKey :: string
  us_ExpiresInSeconds :: int
  us_RetryStrategy :: "RetryStrategy option"
  us_Timezone :: string
  us_ExpectedVersion :: int

record DeleteScheduleRequest =
  dsr_AccountId :: uint64
  dsr_QueueName :: string
  dsr_ScheduleName :: string

record DequeSchedulesResponseEntry =
  dse_Schedule :: Schedule
  dse_Queue :: Queue

record ReportSchedulesStatusRequest =
  rss_ScheduleId :: "ScheduleId option"
  rss_NextScheduledAt :: int
  rss_LastEnqueuedFor :: int

record QueuesCounter =
  qc_NumberOfQueues :: int

record QueuesGarbageCollectionRecord =
  qgc_QueueId :: QueueId

record RunQueuesGarbageCollectionRequest =
  rqgc_GcRecordsPageSize :: int
  rqgc_GcRecordSchedulesPageSize :: int
  rqgc_MaxVisitedSchedules :: int

section \<open>tasks.proto\<close>

datatype TaskState =
    TASK_STATE_INVALID
  | TASK_STATE_ENQUEUED
  | TASK_STATE_IN_PROGRESS
  | TASK_STATE_DEAD
  | TaskState_other int

record TaskId =
  tid_AccountId :: uint64
  tid_QueueId :: uint64
  tid_TaskId :: uint64

record Task =
  t_Id :: TaskId
  t_Payload :: bytes
  t_CreatedAt :: int
  t_ScheduledAt :: int
  t_ExpiresAt :: int
  t_DedupeKey :: string
  t_State :: TaskState
  t_Attempts :: int
  t_VisibleAt :: int
  t_LastFailedAt :: int
  t_DebugInfo :: bytes
  t_RetryStrategy :: "RetryStrategy option"
  t_ThreadId :: string

record Thread =
  th_ThreadId :: string
  th_HeadTaskId :: TaskId
  th_ScheduledAt :: int
  th_VisibleAt :: int

datatype OverwriteOnDuplicate =
    OVERWRITE_ON_DUPLICATE_INVALID
  | OVERWRITE_ON_DUPLICATE_PAYLOAD
  | OVERWRITE_ON_DUPLICATE_SCHEDULED_AT
  | OVERWRITE_ON_DUPLICATE_EXPIRES_AT
  | OverwriteOnDuplicate_other int

record EnqueueRequestEntry =
  ent_Payload :: bytes
  ent_ScheduledAt :: int
  ent_ExpiresAt :: int
  ent_DedupeKey :: string
  ent_RetryStrategy :: "RetryStrategy option"
  ent_OverwriteOnDuplicate :: "OverwriteOnDuplicate list"
  ent_ThreadId :: string

record EnqueueRequest =
  enq_QueueId :: "QueueId option"
  enq_Entries :: "EnqueueRequestEntry list"

record DequeueRequest =
  deq_QueueId :: "QueueId option"
  deq_DequeuingSettings :: "DequeuingSettings option"
  deq_DequeueLimit :: int
  deq_DeadLetterQueueConfig :: "DeadLetterQueueConfig option"
  deq_KeepaliveTimeoutInSeconds :: int

datatype ReportStatus_Status =
    STATUS_INVALID
  | STATUS_SUCCEEDED
  | STATUS_IN_PROGRESS
  | STATUS_FAILED
  | ReportStatus_Status_other int

datatype ReportStatus_Result =
    RESULT_INVALID
  | RESULT_OK
  | RESULT_NOT_FOUND
  | RESULT_NOT_IN_PROGRESS
  | RESULT_STALE_ATTEMPT

record ReportStatusRequestEntry =
  rse_TaskId :: "TaskId option"
  rse_Attempt :: int
  rse_Status :: ReportStatus_Status
  rse_KeepaliveTimeoutInSeconds :: int

record ReportStatusRequest =
  rsq_QueueId :: "QueueId option"
  rsq_Entries :: "ReportStatusRequestEntry list"
  rsq_DeadLetterQueueConfig :: "DeadLetterQueueConfig option"

record ReportStatusResponseEntry =
  rre_TaskId :: "TaskId option"
  rre_Result :: ReportStatus_Result

record DeleteTasksRequest =
  dt_QueueId :: "QueueId option"
  dt_TaskIds :: "uint64 list"

record RestartTasksRequestEntry =
  rte_TaskId :: uint64
  rte_ScheduledAt :: int
  rte_ExpiresAt :: int

record RestartTasksRequest =
  rt_QueueId :: "QueueId option"
  rt_Entries :: "RestartTasksRequestEntry list"

datatype RestartTasks_Result =
    RESTART_RESULT_INVALID
  | RESTART_RESULT_RESTARTED
  | RESTART_RESULT_NOT_FOUND
  | RESTART_RESULT_NOT_DEAD
  | RESTART_RESULT_DEDUPE_CONFLICT

record RestartTasksResponseEntry =
  rtr_TaskId :: uint64
  rtr_Result :: RestartTasks_Result
  rtr_Task :: "Task option"

record GetStatisticsResponse =
  st_EnqueuedTasksCount :: int
  st_InProgressTasksCount :: int
  st_DeadTasksCount :: int
  st_ProcessedTasksCount :: int
  st_ExpiredTasksCount :: int
  st_AgeOfOldestEnqueuedTask :: int
  st_TaskIdSequence :: int

record PurgeQueueGarbageCollectionRecord =
  pgc_QueueId :: QueueId

record RunPurgeQueueGarbageCollectionRequest =
  rpgc_GcRecordsPageSize :: int
  rpgc_GcRecordTasksPageSize :: int
  rpgc_MaxVisitedTasks :: int

record ListTasksRequest =
  lt_QueueId :: "QueueId option"
  lt_PaginationToken :: "PaginationToken option"
  lt_Limit :: int
  lt_State :: TaskState

record ListTasksResponse =
  ltr_Tasks :: "Task list"
  ltr_NextPaginationToken :: "PaginationToken option"
  ltr_PreviousPaginationToken :: "PaginationToken option"

record RunTasksGarbageCollectionRequest =
  rtgc_MaxVisitedTasks :: int
  rtgc_PageSize :: int

record TasksCounter =
  cnt_EnqueuedTasksCount :: int
  cnt_InProgressTasksCount :: int
  cnt_DeadTasksCount :: int
  cnt_ProcessedTasksCount :: int
  cnt_ExpiredTasksCount :: int

record QueueState =
  qs_TaskIdSequence :: uint64
  qs_LastVisitedEnqueued :: int
  qs_LastVisitedInProgress :: int

record RateLimiterState =
  rl_Tokens :: int
  rl_LastRefilledAt :: int

text \<open>The zero values \<open>&corepb.TasksCounter{}\<close>, \<open>&corepb.QueueState{}\<close>.\<close>

definition TasksCounter_zero :: TasksCounter where
  "TasksCounter_zero = \<lparr> cnt_EnqueuedTasksCount = 0, cnt_InProgressTasksCount = 0,
     cnt_DeadTasksCount = 0, cnt_ProcessedTasksCount = 0, cnt_ExpiredTasksCount = 0 \<rparr>"

definition QueueState_zero :: QueueState where
  "QueueState_zero = \<lparr> qs_TaskIdSequence = 0, qs_LastVisitedEnqueued = 0, qs_LastVisitedInProgress = 0 \<rparr>"

definition QueuesCounter_zero :: QueuesCounter where
  "QueuesCounter_zero = \<lparr> qc_NumberOfQueues = 0 \<rparr>"

end
