(* ===== verification/Ids_Pagination.thy ===== *)
theory Ids_Pagination
  imports Moab_Honey Corepb
begin

text \<open>
  The small shared packages: \<open>pkg/ids\<close> (external identifiers),
  \<open>pkg/pagination\<close> (limits and tokens), \<open>pkg/sharding\<close> and the
  shard keys of \<open>pkg/corepb/sharding.go\<close>.  The base-62 codec and the shard
  hash come from imported packages and are taken from \<open>pkgs\<close>.
\<close>

section \<open>pkg/ids\<close>

definition is_alnum :: "char \<Rightarrow> bool" where
  "is_alnum ch = (let n = (of_char ch :: nat) in
     48 \<le> n \<and> n \<le> 57 \<or> 65 \<le> n \<and> n \<le> 90 \<or> 97 \<le> n \<and> n \<le> 122)"

text \<open>The three patterns \<open>^<prefix>[0-9a-zA-Z]+$\<close>.\<close>

definition id_regex_match :: "string \<Rightarrow> string \<Rightarrow> bool" where
  "id_regex_match pfx s = (take (length pfx) s = pfx \<and> drop (length pfx) s \<noteq> [] \<and>
     list_all is_alnum (drop (length pfx) s))"

definition ErrInvalidId :: goerr where
  "ErrInvalidId = ErrNew ''invalid id''"

definition EncodeTaskId :: "pkgs \<Rightarrow> uint64 \<Rightarrow> string" where
  "EncodeTaskId P i = ''tsk_'' @ base62_Encode P (be64 i)"

definition DecodeTaskId :: "pkgs \<Rightarrow> string \<Rightarrow> goerr + uint64" where
  "DecodeTaskId P s =
    (if \<not> id_regex_match ''tsk_'' s then Inl ErrInvalidId
     else case base62_DecodeString P (drop 4 s) of
       None \<Rightarrow> Inl ErrInvalidId
     | Some b \<Rightarrow> if length b \<noteq> 8 then Inl ErrInvalidId
         else Inr (of_nat (unbe b)))"

definition EncodeQueueId :: "pkgs \<Rightarrow> QueueId \<Rightarrow> string" where
  "EncodeQueueId P i = ''que_'' @ base62_Encode P (be64 (qid_AccountId i) @ be64 (qid_QueueId i))"

definition DecodeQueueId :: "pkgs \<Rightarrow> string \<Rightarrow> goerr + QueueId" where
  "DecodeQueueId P s =
    (if \<not> id_regex_match ''que_'' s then Inl ErrInvalidId
     else case base62_DecodeString P (drop 4 s) of
       None \<Rightarrow> Inl ErrInvalidId
     | Some b \<Rightarrow> if length b \<noteq> 8 + 8 then Inl ErrInvalidId
         else Inr \<lparr> qid_AccountId = of_nat (unbe (take 8 b)),
                    qid_QueueId = of_nat (unbe (take 8 (drop 8 b))) \<rparr>)"

definition EncodeScheduleId :: "pkgs \<Rightarrow> ScheduleId \<Rightarrow> string" where
  "EncodeScheduleId P i = ''schdl_'' @ base62_Encode P
     (be64 (sid_AccountId i) @ be64 (sid_QueueId i) @ be64 (sid_ScheduleId i))"

definition DecodeScheduleId :: "pkgs \<Rightarrow> string \<Rightarrow> goerr + ScheduleId" where
  "DecodeScheduleId P s =
    (if \<not> id_regex_match ''schdl_'' s then Inl ErrInvalidId
     else case base62_DecodeString P (drop 6 s) of
       None \<Rightarrow> Inl ErrInvalidId
     | Some b \<Rightarrow> if length b \<noteq> 8 + 8 + 8 then Inl ErrInvalidId
         else Inr \<lparr> sid_AccountId = of_nat (unbe (take 8 b)),
                    sid_QueueId = of_nat (unbe (take 8 (drop 8 b))),
                    sid_ScheduleId = of_nat (unbe (take 8 (drop 16 b))) \<rparr>)"

section \<open>pkg/pagination\<close>

definition DefaultPaginationLimit :: int where "DefaultPaginationLimit = 100"
definition MaxPaginationLimit :: int where "MaxPaginationLimit = 250"

definition GetLimitWithDefaults :: "int \<Rightarrow> int" where
  "GetLimitWithDefaults requestedLimit =
    (if requestedLimit > 0 \<and> requestedLimit < MaxPaginationLimit then requestedLimit
     else if requestedLimit \<le> 0 then DefaultPaginationLimit
     else MaxPaginationLimit)"

definition CoreToMonstera :: "PaginationToken option \<Rightarrow> honey_PaginationToken option" where
  "CoreToMonstera tok = (case tok of None \<Rightarrow> None
     | Some t \<Rightarrow> Some \<lparr> hpt_Key = pt_Value t, hpt_Reverse = (pt_Type t = PaginationToken_PREVIOUS) \<rparr>)"

definition MonsteraToCore :: "honey_PaginationToken option \<Rightarrow> PaginationToken option" where
  "MonsteraToCore tok = (case tok of None \<Rightarrow> None
     | Some t \<Rightarrow> Some \<lparr> pt_Type = (if hpt_Reverse t then PaginationToken_PREVIOUS else PaginationToken_NEXT),
                          pt_Value = hpt_Key t \<rparr>)"

section \<open>pkg/sharding\<close>

definition ByAccount :: "pkgs \<Rightarrow> uint64 \<Rightarrow> ShardKey" where
  "ByAccount P accountId = GetShardKey P (ConcatBytes P [CU64 accountId])"

definition ByAccountAndQueue :: "pkgs \<Rightarrow> uint64 \<Rightarrow> uint64 \<Rightarrow> ShardKey" where
  "ByAccountAndQueue P accountId queueId = GetShardKey P (ConcatBytes P [CU64 accountId, CU64 queueId])"

section \<open>Properties\<close>

text \<open>What the identifiers rely on: base-62 text is non-empty for non-empty
  input, uses the 62 letters and digits only, and decodes to what was
  encoded.\<close>

locale base62_pkg =
  fixes P :: pkgs
  assumes Encode_nonempty: "b \<noteq> [] \<Longrightarrow> base62_Encode P b \<noteq> []"
    and Encode_alnum: "list_all is_alnum (base62_Encode P b)"
    and Decode_Encode: "base62_DecodeString P (base62_Encode P b) = Some b"
begin

lemma regex_encoded:
  assumes "b \<noteq> []"
  shows "id_regex_match pfx (pfx @ base62_Encode P b)"
  using Encode_nonempty[OF assms] Encode_alnum by (simp add: id_regex_match_def)

lemma be64_not_Nil [simp]: "be64 w \<noteq> []"
  by (metis length_be64 list.size(3) zero_neq_numeral)

lemma task_id_roundtrip: "DecodeTaskId P (EncodeTaskId P i) = Inr i"
  using regex_encoded[of "be64 i" "''tsk_''"]
  by (simp add: DecodeTaskId_def EncodeTaskId_def Decode_Encode)

lemma queue_id_roundtrip: "DecodeQueueId P (EncodeQueueId P i) = Inr i"
  using regex_encoded[of "be64 (qid_AccountId i) @ be64 (qid_QueueId i)" "''que_''"]
  by (simp add: DecodeQueueId_def EncodeQueueId_def Decode_Encode)

lemma schedule_id_roundtrip: "DecodeScheduleId P (EncodeScheduleId P i) = Inr i"
  using regex_encoded[of "be64 (sid_AccountId i) @ be64 (sid_QueueId i) @ be64 (sid_ScheduleId i)" "''schdl_''"]
  by (simp add: DecodeScheduleId_def EncodeScheduleId_def Decode_Encode)

end

lemma GetLimitWithDefaults_bounds:
  "0 < GetLimitWithDefaults n" "GetLimitWithDefaults n \<le> MaxPaginationLimit"
  by (auto simp: GetLimitWithDefaults_def MaxPaginationLimit_def DefaultPaginationLimit_def)

lemma pagination_token_roundtrip: "CoreToMonstera (MonsteraToCore tok) = tok"
  by (cases tok) (auto simp: CoreToMonstera_def MonsteraToCore_def)

end
