(* ===== verification/Tasks_Tables.thy ===== *)
theory Tasks_Tables
  imports Ids_Pagination
begin

text \<open>
  The leaf tables of the tasks core: \<open>pkg/tasks/tasks.go\<close>,
  \<open>expiration.go\<close>, \<open>threads.go\<close>, \<open>counters.go\<close>,
  \<open>queue_state.go\<close>, \<open>rate_limiters.go\<close>, \<open>purge_gc_records.go\<close> and
  \<open>table_prefixes.go\<close>.  Each Go struct is a record of the imported table
  objects it holds; each method is a definition that takes the imported
  packages and the receiver first.
\<close>

text \<open>The table constructors of the imported package, one per row type.\<close>

record 's honey =
  NewBinaryTable_Task :: "bytes \<Rightarrow> ('s, Task) BinaryTable"
  NewBinaryTable_Thread :: "bytes \<Rightarrow> ('s, Thread) BinaryTable"
  NewBinaryTable_TasksCounter :: "bytes \<Rightarrow> ('s, TasksCounter) BinaryTable"
  NewBinaryTable_QueueState :: "bytes \<Rightarrow> ('s, QueueState) BinaryTable"
  NewBinaryTable_RateLimiterState :: "bytes \<Rightarrow> ('s, RateLimiterState) BinaryTable"
  NewBinaryTable_PurgeRecord :: "bytes \<Rightarrow> ('s, PurgeQueueGarbageCollectionRecord) BinaryTable"
  NewUint64Table :: "bytes \<Rightarrow> 's Uint64Table"
  NewOneToManySortedIndex :: "bytes \<Rightarrow> 's OneToManySortedIndex"
  NewSortedIndex :: "bytes \<Rightarrow> 's SortedIndex"

section \<open>table\_prefixes.go\<close>

definition tablePrefixTasks :: bytes where "tablePrefixTasks = [0x00]"
definition tablePrefixDedupeKeysIndex :: bytes where "tablePrefixDedupeKeysIndex = [0x01]"
definition tablePrefixQueueIndex :: bytes where "tablePrefixQueueIndex = [0x02]"
definition tablePrefixInProgressIndex :: bytes where "tablePrefixInProgressIndex = [0x03]"
definition tablePrefixDeadTasksIndex :: bytes where "tablePrefixDeadTasksIndex = [0x04]"
definition tablePrefixExpirationIndex :: bytes where "tablePrefixExpirationIndex = [0x05]"
definition tablePrefixThreads :: bytes where "tablePrefixThreads = [0x06]"
definition tablePrefixThreadedTasksIndex :: bytes where "tablePrefixThreadedTasksIndex = [0x07]"
definition tablePrefixCounters :: bytes where "tablePrefixCounters = [0x08]"
definition tablePrefixQueueState :: bytes where "tablePrefixQueueState = [0x09]"
definition tablePrefixRateLimiters :: bytes where "tablePrefixRateLimiters = [0x0a]"
definition tablePrefixPurgeGCRecords :: bytes where "tablePrefixPurgeGCRecords = [0x0b]"

section \<open>expiration.go\<close>

record 's expirationIndex =
  ei_index :: "'s SortedIndex"

definition newExpirationIndex :: "pkgs \<Rightarrow> 's honey \<Rightarrow> bytes \<Rightarrow> 's expirationIndex" where
  "newExpirationIndex P H replicaPrefix =
    \<lparr> ei_index = NewSortedIndex H (ConcatBytes P [CBytes replicaPrefix, CBytes tablePrefixExpirationIndex]) \<rparr>"

definition expirationIndex_item :: "pkgs \<Rightarrow> int \<Rightarrow> TaskId \<Rightarrow> bytes" where
  "expirationIndex_item P expiresAt taskId = ConcatBytes P
    [CI64 expiresAt, CU64 (tid_AccountId taskId), CU64 (tid_QueueId taskId), CU64 (tid_TaskId taskId)]"

definition expirationIndex_itemPrefix :: "pkgs \<Rightarrow> int \<Rightarrow> bytes" where
  "expirationIndex_itemPrefix P expiresAt = ConcatBytes P [CI64 expiresAt]"

definition expirationIndex_add :: "pkgs \<Rightarrow> 's expirationIndex \<Rightarrow> TaskId \<Rightarrow> int \<Rightarrow> ('s, unit) go" where
  "expirationIndex_add P e taskId expiresAt = si_Add (ei_index e) (expirationIndex_item P expiresAt taskId)"

definition expirationIndex_remove :: "pkgs \<Rightarrow> 's expirationIndex \<Rightarrow> TaskId \<Rightarrow> int \<Rightarrow> ('s, unit) go" where
  "expirationIndex_remove P e taskId expiresAt = si_Delete (ei_index e) (expirationIndex_item P expiresAt taskId)"

record expiredTaskRef =
  ref_TaskId :: TaskId
  ref_ExpiresAt :: int

text \<open>The callback of \<open>ListDue\<close>: decode one item and append it.\<close>

definition ListDue_callback ::
  "pkgs \<Rightarrow> int \<Rightarrow> bytes \<Rightarrow> expiredTaskRef list \<Rightarrow> ('s, bool \<times> expiredTaskRef list) go" where
  "ListDue_callback P limit item refs =
    go_bind (go_slice item 8 16) (\<lambda>a.
    go_bind (go_slice item 16 24) (\<lambda>q.
    go_bind (go_slice item 24 32) (\<lambda>t.
    go_bind (go_slice item 0 8) (\<lambda>x.
    let refs' = refs @ [\<lparr> ref_TaskId = \<lparr> tid_AccountId = BytesToUint64 P a,
                                         tid_QueueId = BytesToUint64 P q,
                                         tid_TaskId = BytesToUint64 P t \<rparr>,
                          ref_ExpiresAt = sint (BytesToUint64 P x) \<rparr>]
    in go_ret (int (length refs') < limit, refs')))))"

definition expirationIndex_ListDue ::
  "pkgs \<Rightarrow> 's expirationIndex \<Rightarrow> int \<Rightarrow> int \<Rightarrow> ('s, expiredTaskRef list) go" where
  "expirationIndex_ListDue P e before limit =
    go_bind (si_ListInRange (ei_index e) (expirationIndex_itemPrefix P 0) (expirationIndex_itemPrefix P before))
      (\<lambda>items. go_scan (ListDue_callback P limit) items [])"

section \<open>tasks.go\<close>

record 's tasksTable =
  tt_table :: "('s, Task) BinaryTable"
  tt_dedupeKeysIndex :: "'s Uint64Table"
  tt_queueIndex :: "'s OneToManySortedIndex"
  tt_inProgressIndex :: "'s OneToManySortedIndex"
  tt_deadTasksIndex :: "'s OneToManySortedIndex"
  tt_expiration :: "'s expirationIndex"

definition newTasksTable :: "pkgs \<Rightarrow> 's honey \<Rightarrow> bytes \<Rightarrow> 's tasksTable" where
  "newTasksTable P H replicaPrefix =
    \<lparr> tt_table = NewBinaryTable_Task H (ConcatBytes P [CBytes replicaPrefix, CBytes tablePrefixTasks]),
      tt_dedupeKeysIndex = NewUint64Table H (ConcatBytes P [CBytes replicaPrefix, CBytes tablePrefixDedupeKeysIndex]),
      tt_queueIndex = NewOneToManySortedIndex H (ConcatBytes P [CBytes replicaPrefix, CBytes tablePrefixQueueIndex]),
      tt_inProgressIndex = NewOneToManySortedIndex H (ConcatBytes P [CBytes replicaPrefix, CBytes tablePrefixInProgressIndex]),
      tt_deadTasksIndex = NewOneToManySortedIndex H (ConcatBytes P [CBytes replicaPrefix, CBytes tablePrefixDeadTasksIndex]),
      tt_expiration = newExpirationIndex P H replicaPrefix \<rparr>"

definition tasksTable_tablePK :: "pkgs \<Rightarrow> uint64 \<Rightarrow> uint64 \<Rightarrow> bytes" where
  "tasksTable_tablePK P accountId queueId = ConcatBytes P [CU64 accountId, CU64 queueId]"

definition tasksTable_tableSK :: "pkgs \<Rightarrow> uint64 \<Rightarrow> bytes" where
  "tasksTable_tableSK P taskId = ConcatBytes P [CU64 taskId]"

definition dedupeKeysIndexPK :: "pkgs \<Rightarrow> uint64 \<Rightarrow> uint64 \<Rightarrow> string \<Rightarrow> bytes" where
  "dedupeKeysIndexPK P accountId queueId dedupeKey = ConcatBytes P [CU64 accountId, CU64 queueId, CStr dedupeKey]"

definition queueIndexItem :: "pkgs \<Rightarrow> int \<Rightarrow> uint64 \<Rightarrow> bytes" where
  "queueIndexItem P scheduledAt taskId = ConcatBytes P [CI64 scheduledAt, CU64 taskId]"

definition inProgressIndexItem :: "pkgs \<Rightarrow> int \<Rightarrow> uint64 \<Rightarrow> bytes" where
  "inProgressIndexItem P visibleAt taskId = ConcatBytes P [CI64 visibleAt, CU64 taskId]"

definition deadTasksIndexItem :: "pkgs \<Rightarrow> int \<Rightarrow> uint64 \<Rightarrow> bytes" where
  "deadTasksIndexItem P lastFailedAt taskId = ConcatBytes P [CI64 lastFailedAt, CU64 taskId]"

definition itemPrefix :: "pkgs \<Rightarrow> int \<Rightarrow> bytes" where
  "itemPrefix P t = ConcatBytes P [CI64 t]"

definition extractTaskIdFromIndexItem :: "pkgs \<Rightarrow> bytes \<Rightarrow> ('s, uint64) go" where
  "extractTaskIdFromIndexItem P item =
    go_bind (go_slice item (int (length item) - 8) (int (length item))) (\<lambda>b. go_ret (BytesToUint64 P b))"

definition extractTimeFromIndexItem :: "pkgs \<Rightarrow> bytes \<Rightarrow> ('s, int) go" where
  "extractTimeFromIndexItem P item =
    go_bind (go_slice item (int (length item) - 16) (int (length item) - 8)) (\<lambda>b.
    go_ret (sint (BytesToUint64 P b)))"

definition tasksTable_Get :: "pkgs \<Rightarrow> 's tasksTable \<Rightarrow> TaskId \<Rightarrow> ('s, Task) go" where
  "tasksTable_Get P t taskId = bt_Get (tt_table t) (ConcatBytes P
    [CBytes (tasksTable_tablePK P (tid_AccountId taskId) (tid_QueueId taskId)),
     CBytes (tasksTable_tableSK P (tid_TaskId taskId))])"

definition tasksTable_set :: "pkgs \<Rightarrow> 's tasksTable \<Rightarrow> Task \<Rightarrow> ('s, unit) go" where
  "tasksTable_set P t task = bt_Set (tt_table t) (ConcatBytes P
    [CBytes (tasksTable_tablePK P (tid_AccountId (t_Id task)) (tid_QueueId (t_Id task))),
     CBytes (tasksTable_tableSK P (tid_TaskId (t_Id task)))]) task"

definition tasksTable_delete :: "pkgs \<Rightarrow> 's tasksTable \<Rightarrow> TaskId \<Rightarrow> ('s, unit) go" where
  "tasksTable_delete P t taskId = bt_Delete (tt_table t) (ConcatBytes P
    [CBytes (tasksTable_tablePK P (tid_AccountId taskId) (tid_QueueId taskId)),
     CBytes (tasksTable_tableSK P (tid_TaskId taskId))])"

definition tasksTable_ListAll :: "pkgs \<Rightarrow> 's tasksTable \<Rightarrow> uint64 \<Rightarrow> uint64 \<Rightarrow> ('s, Task list) go" where
  "tasksTable_ListAll P t accountId queueId = bt_ListAll (tt_table t) (tasksTable_tablePK P accountId queueId)"

text \<open>\<open>listTasksResult\<close> has the fields of \<open>ListTasksResponse\<close>; a page read
  in reverse is turned around.\<close>

definition unreverse :: "honey_PaginationToken option \<Rightarrow> 'a list \<Rightarrow> 'a list" where
  "unreverse tok xs = (case tok of Some t \<Rightarrow> if hpt_Reverse t then rev xs else xs | None \<Rightarrow> xs)"

definition listFromIndex ::
  "pkgs \<Rightarrow> 's tasksTable \<Rightarrow> uint64 \<Rightarrow> uint64 \<Rightarrow> 's OneToManySortedIndex \<Rightarrow>
   honey_PaginationToken option \<Rightarrow> int \<Rightarrow> ('s, ListTasksResponse) go" where
  "listFromIndex P t accountId queueId index monsteraToken limit =
    go_bind (oi_ListPaginated index (tasksTable_tablePK P accountId queueId) monsteraToken limit) (\<lambda>result.
    let items = unreverse monsteraToken (pg_Items result) in
    go_bind (go_for (\<lambda>item tasks.
        go_bind (extractTaskIdFromIndexItem P item) (\<lambda>taskId.
        go_bind (tasksTable_Get P t \<lparr> tid_AccountId = accountId, tid_QueueId = queueId, tid_TaskId = taskId \<rparr>)
          (\<lambda>task. go_ret (tasks @ [task])))) items []) (\<lambda>tasks.
    go_ret \<lparr> ltr_Tasks = tasks,
             ltr_NextPaginationToken = MonsteraToCore (pg_NextPaginationToken result),
             ltr_PreviousPaginationToken = MonsteraToCore (pg_PreviousPaginationToken result) \<rparr>))"

definition tasksTable_List ::
  "pkgs \<Rightarrow> 's tasksTable \<Rightarrow> uint64 \<Rightarrow> uint64 \<Rightarrow> TaskState \<Rightarrow> PaginationToken option \<Rightarrow> int \<Rightarrow>
   ('s, ListTasksResponse) go" where
  "tasksTable_List P t accountId queueId state paginationToken limit =
    (let monsteraToken = CoreToMonstera paginationToken in
     case state of
       TASK_STATE_INVALID \<Rightarrow>
         go_bind (bt_ListPaginated (tt_table t) (tasksTable_tablePK P accountId queueId) monsteraToken limit) (\<lambda>result.
         go_ret \<lparr> ltr_Tasks = unreverse monsteraToken (pg_Items result),
                  ltr_NextPaginationToken = MonsteraToCore (pg_NextPaginationToken result),
                  ltr_PreviousPaginationToken = MonsteraToCore (pg_PreviousPaginationToken result) \<rparr>)
     | TASK_STATE_ENQUEUED \<Rightarrow> listFromIndex P t accountId queueId (tt_queueIndex t) monsteraToken limit
     | TASK_STATE_IN_PROGRESS \<Rightarrow> listFromIndex P t accountId queueId (tt_inProgressIndex t) monsteraToken limit
     | TASK_STATE_DEAD \<Rightarrow> listFromIndex P t accountId queueId (tt_deadTasksIndex t) monsteraToken limit
     | TaskState_other _ \<Rightarrow> go_fail (ErrNew ''unknown task state''))"

text \<open>Used when a snapshot is restored.\<close>

definition restoreIndexes :: "pkgs \<Rightarrow> 's tasksTable \<Rightarrow> Task \<Rightarrow> bool \<Rightarrow> ('s, unit) go" where
  "restoreIndexes P t task isHead =
    (let pk = tasksTable_tablePK P (tid_AccountId (t_Id task)) (tid_QueueId (t_Id task));
         taskId = tid_TaskId (t_Id task) in
     go_seq (tasksTable_set P t task)
    (go_seq (go_when (t_DedupeKey task \<noteq> [] \<and> t_State task \<noteq> TASK_STATE_DEAD)
       (ut_Set (tt_dedupeKeysIndex t)
         (dedupeKeysIndexPK P (tid_AccountId (t_Id task)) (tid_QueueId (t_Id task)) (t_DedupeKey task)) taskId))
    (go_seq (case t_State task of
         TASK_STATE_ENQUEUED \<Rightarrow> go_when isHead (oi_Add (tt_queueIndex t) pk (queueIndexItem P (t_ScheduledAt task) taskId))
       | TASK_STATE_IN_PROGRESS \<Rightarrow> oi_Add (tt_inProgressIndex t) pk (inProgressIndexItem P (t_VisibleAt task) taskId)
       | TASK_STATE_DEAD \<Rightarrow> oi_Add (tt_deadTasksIndex t) pk (deadTasksIndexItem P (t_LastFailedAt task) taskId)
       | _ \<Rightarrow> go_ret ())
    (expirationIndex_add P (tt_expiration t) (t_Id task) (t_ExpiresAt task)))))"

section \<open>threads.go\<close>

record 's threadsTable =
  tht_table :: "('s, Thread) BinaryTable"
  tht_threadedTasksIndex :: "'s OneToManySortedIndex"

definition newThreadsTable :: "pkgs \<Rightarrow> 's honey \<Rightarrow> bytes \<Rightarrow> 's threadsTable" where
  "newThreadsTable P H replicaPrefix =
    \<lparr> tht_table = NewBinaryTable_Thread H (ConcatBytes P [CBytes replicaPrefix, CBytes tablePrefixThreads]),
      tht_threadedTasksIndex = NewOneToManySortedIndex H (ConcatBytes P [CBytes replicaPrefix, CBytes tablePrefixThreadedTasksIndex]) \<rparr>"

definition threadsTable_tablePK :: "pkgs \<Rightarrow> uint64 \<Rightarrow> uint64 \<Rightarrow> string \<Rightarrow> bytes" where
  "threadsTable_tablePK P accountId queueId threadId = ConcatBytes P
    [CU64 accountId, CU64 queueId, CU32 (of_nat (length threadId)), CStr threadId]"

definition threadIndexPK :: "pkgs \<Rightarrow> uint64 \<Rightarrow> uint64 \<Rightarrow> string \<Rightarrow> bytes" where
  "threadIndexPK P accountId queueId threadId = ConcatBytes P
    [CU64 accountId, CU64 queueId, CU32 (of_nat (length threadId)), CStr threadId]"

definition threadedTasksIndexItem :: "pkgs \<Rightarrow> int \<Rightarrow> uint64 \<Rightarrow> bytes" where
  "threadedTasksIndexItem P scheduledAt taskId = ConcatBytes P [CI64 scheduledAt, CU64 taskId]"

definition threadsTable_Get :: "pkgs \<Rightarrow> 's threadsTable \<Rightarrow> uint64 \<Rightarrow> uint64 \<Rightarrow> string \<Rightarrow> ('s, Thread) go" where
  "threadsTable_Get P t accountId queueId threadId =
    bt_Get (tht_table t) (threadsTable_tablePK P accountId queueId threadId)"

definition threadsTable_set :: "pkgs \<Rightarrow> 's threadsTable \<Rightarrow> uint64 \<Rightarrow> uint64 \<Rightarrow> Thread \<Rightarrow> ('s, unit) go" where
  "threadsTable_set P t accountId queueId thread =
    bt_Set (tht_table t) (threadsTable_tablePK P accountId queueId (th_ThreadId thread)) thread"

definition threadsTable_Delete :: "pkgs \<Rightarrow> 's threadsTable \<Rightarrow> uint64 \<Rightarrow> uint64 \<Rightarrow> string \<Rightarrow> ('s, unit) go" where
  "threadsTable_Delete P t accountId queueId threadId =
    bt_Delete (tht_table t) (threadsTable_tablePK P accountId queueId threadId)"

definition threadsTable_AddToIndex ::
  "pkgs \<Rightarrow> 's threadsTable \<Rightarrow> uint64 \<Rightarrow> uint64 \<Rightarrow> string \<Rightarrow> int \<Rightarrow> uint64 \<Rightarrow> ('s, unit) go" where
  "threadsTable_AddToIndex P t accountId queueId threadId scheduledAt taskId =
    oi_Add (tht_threadedTasksIndex t) (threadIndexPK P accountId queueId threadId)
      (threadedTasksIndexItem P scheduledAt taskId)"

definition threadsTable_RemoveFromIndex ::
  "pkgs \<Rightarrow> 's threadsTable \<Rightarrow> uint64 \<Rightarrow> uint64 \<Rightarrow> string \<Rightarrow> int \<Rightarrow> uint64 \<Rightarrow> ('s, unit) go" where
  "threadsTable_RemoveFromIndex P t accountId queueId threadId scheduledAt taskId =
    oi_Delete (tht_threadedTasksIndex t) (threadIndexPK P accountId queueId threadId)
      (threadedTasksIndexItem P scheduledAt taskId)"

text \<open>\<open>ListIndex\<close> runs the callback on the task id of each item.\<close>

definition threadsTable_ListIndex ::
  "pkgs \<Rightarrow> 's threadsTable \<Rightarrow> uint64 \<Rightarrow> uint64 \<Rightarrow> string \<Rightarrow>
   (uint64 \<Rightarrow> 'b \<Rightarrow> ('s, bool \<times> 'b) go) \<Rightarrow> 'b \<Rightarrow> ('s, 'b) go" where
  "threadsTable_ListIndex P t accountId queueId threadId fn acc =
    go_bind (oi_ListAll (tht_threadedTasksIndex t) (threadIndexPK P accountId queueId threadId)) (\<lambda>items.
    go_scan (\<lambda>item acc. go_bind (extractTaskIdFromIndexItem P item) (\<lambda>taskId. fn taskId acc)) items acc)"

section \<open>counters.go\<close>

record 's countersTable =
  ct_table :: "('s, TasksCounter) BinaryTable"

definition newCountersTable :: "pkgs \<Rightarrow> 's honey \<Rightarrow> bytes \<Rightarrow> 's countersTable" where
  "newCountersTable P H replicaPrefix =
    \<lparr> ct_table = NewBinaryTable_TasksCounter H (ConcatBytes P [CBytes replicaPrefix, CBytes tablePrefixCounters]) \<rparr>"

definition countersTable_tablePK :: "pkgs \<Rightarrow> uint64 \<Rightarrow> uint64 \<Rightarrow> bytes" where
  "countersTable_tablePK P accountId queueId = ConcatBytes P [CU64 accountId, CU64 queueId]"

definition countersTable_Get :: "pkgs \<Rightarrow> 's countersTable \<Rightarrow> uint64 \<Rightarrow> uint64 \<Rightarrow> ('s, TasksCounter) go" where
  "countersTable_Get P t accountId queueId =
    go_try (bt_Get (ct_table t) (countersTable_tablePK P accountId queueId))
      (\<lambda>err. if errors_Is_NotFound err then go_ret TasksCounter_zero else go_fail err)
      go_ret"

definition countersTable_Set :: "pkgs \<Rightarrow> 's countersTable \<Rightarrow> uint64 \<Rightarrow> uint64 \<Rightarrow> TasksCounter \<Rightarrow> ('s, unit) go" where
  "countersTable_Set P t accountId queueId counters =
    bt_Set (ct_table t) (countersTable_tablePK P accountId queueId) counters"

definition countersTable_Delete :: "pkgs \<Rightarrow> 's countersTable \<Rightarrow> uint64 \<Rightarrow> uint64 \<Rightarrow> ('s, unit) go" where
  "countersTable_Delete P t accountId queueId =
    go_try (bt_Delete (ct_table t) (countersTable_tablePK P accountId queueId))
      (\<lambda>err. if \<not> errors_Is_NotFound err then go_fail err else go_ret ())
      go_ret"

section \<open>queue\_state.go\<close>

record 's queueStateTable =
  qst_table :: "('s, QueueState) BinaryTable"

definition newQueueStateTable :: "pkgs \<Rightarrow> 's honey \<Rightarrow> bytes \<Rightarrow> 's queueStateTable" where
  "newQueueStateTable P H replicaPrefix =
    \<lparr> qst_table = NewBinaryTable_QueueState H (ConcatBytes P [CBytes replicaPrefix, CBytes tablePrefixQueueState]) \<rparr>"

definition queueStateTable_tablePK :: "pkgs \<Rightarrow> uint64 \<Rightarrow> uint64 \<Rightarrow> bytes" where
  "queueStateTable_tablePK P accountId queueId = ConcatBytes P [CU64 accountId, CU64 queueId]"

definition queueStateTable_Get :: "pkgs \<Rightarrow> 's queueStateTable \<Rightarrow> uint64 \<Rightarrow> uint64 \<Rightarrow> ('s, QueueState) go" where
  "queueStateTable_Get P t accountId queueId =
    go_try (bt_Get (qst_table t) (queueStateTable_tablePK P accountId queueId))
      (\<lambda>err. if errors_Is_NotFound err then go_ret QueueState_zero else go_fail err)
      go_ret"

definition queueStateTable_Set :: "pkgs \<Rightarrow> 's queueStateTable \<Rightarrow> uint64 \<Rightarrow> uint64 \<Rightarrow> QueueState \<Rightarrow> ('s, unit) go" where
  "queueStateTable_Set P t accountId queueId state =
    bt_Set (qst_table t) (queueStateTable_tablePK P accountId queueId) state"

definition queueStateTable_Delete :: "pkgs \<Rightarrow> 's queueStateTable \<Rightarrow> uint64 \<Rightarrow> uint64 \<Rightarrow> ('s, unit) go" where
  "queueStateTable_Delete P t accountId queueId =
    go_try (bt_Delete (qst_table t) (queueStateTable_tablePK P accountId queueId))
      (\<lambda>err. if \<not> errors_Is_NotFound err then go_fail err else go_ret ())
      go_ret"

section \<open>rate\_limiters.go\<close>

record 's rateLimitersTable =
  rlt_table :: "('s, RateLimiterState) BinaryTable"

definition newRateLimitersTable :: "pkgs \<Rightarrow> 's honey \<Rightarrow> bytes \<Rightarrow> 's rateLimitersTable" where
  "newRateLimitersTable P H replicaPrefix =
    \<lparr> rlt_table = NewBinaryTable_RateLimiterState H (ConcatBytes P [CBytes replicaPrefix, CBytes tablePrefixRateLimiters]) \<rparr>"

definition rateLimitersTable_tablePK :: "pkgs \<Rightarrow> uint64 \<Rightarrow> uint64 \<Rightarrow> bytes" where
  "rateLimitersTable_tablePK P accountId queueId = ConcatBytes P [CU64 accountId, CU64 queueId]"

definition rateLimitersTable_GetOrDefault ::
  "pkgs \<Rightarrow> 's rateLimitersTable \<Rightarrow> uint64 \<Rightarrow> uint64 \<Rightarrow> TokenBucketRateLimiting \<Rightarrow> int \<Rightarrow> ('s, RateLimiterState) go" where
  "rateLimitersTable_GetOrDefault P t accountId queueId rateLimiting now =
    go_try (bt_Get (rlt_table t) (rateLimitersTable_tablePK P accountId queueId))
      (\<lambda>err. if errors_Is_NotFound err
         then go_ret \<lparr> rl_Tokens = tb_MaxTokens rateLimiting, rl_LastRefilledAt = now \<rparr>
         else go_fail err)
      go_ret"

definition rateLimitersTable_Set ::
  "pkgs \<Rightarrow> 's rateLimitersTable \<Rightarrow> uint64 \<Rightarrow> uint64 \<Rightarrow> RateLimiterState \<Rightarrow> ('s, unit) go" where
  "rateLimitersTable_Set P t accountId queueId state =
    bt_Set (rlt_table t) (rateLimitersTable_tablePK P accountId queueId) state"

definition rateLimitersTable_Delete :: "pkgs \<Rightarrow> 's rateLimitersTable \<Rightarrow> uint64 \<Rightarrow> uint64 \<Rightarrow> ('s, unit) go" where
  "rateLimitersTable_Delete P t accountId queueId =
    go_try (bt_Delete (rlt_table t) (rateLimitersTable_tablePK P accountId queueId))
      (\<lambda>err. if \<not> errors_Is_NotFound err then go_fail err else go_ret ())
      go_ret"

section \<open>purge\_gc\_records.go\<close>

record 's purgeGCRecordsTable =
  pgt_table :: "('s, PurgeQueueGarbageCollectionRecord) BinaryTable"

definition newPurgeGCRecordsTable :: "pkgs \<Rightarrow> 's honey \<Rightarrow> bytes \<Rightarrow> 's purgeGCRecordsTable" where
  "newPurgeGCRecordsTable P H replicaPrefix =
    \<lparr> pgt_table = NewBinaryTable_PurgeRecord H (ConcatBytes P [CBytes replicaPrefix, CBytes tablePrefixPurgeGCRecords]) \<rparr>"

definition purgeGCRecordsTable_tablePK :: "pkgs \<Rightarrow> uint64 \<Rightarrow> uint64 \<Rightarrow> bytes" where
  "purgeGCRecordsTable_tablePK P accountId queueId = ConcatBytes P [CU64 accountId, CU64 queueId]"

definition purgeGCRecordsTable_Create ::
  "pkgs \<Rightarrow> 's purgeGCRecordsTable \<Rightarrow> PurgeQueueGarbageCollectionRecord \<Rightarrow> ('s, unit) go" where
  "purgeGCRecordsTable_Create P t rec = bt_Set (pgt_table t)
    (purgeGCRecordsTable_tablePK P (qid_AccountId (pgc_QueueId rec)) (qid_QueueId (pgc_QueueId rec))) rec"

definition purgeGCRecordsTable_Delete ::
  "pkgs \<Rightarrow> 's purgeGCRecordsTable \<Rightarrow> PurgeQueueGarbageCollectionRecord \<Rightarrow> ('s, unit) go" where
  "purgeGCRecordsTable_Delete P t rec = bt_Delete (pgt_table t)
    (purgeGCRecordsTable_tablePK P (qid_AccountId (pgc_QueueId rec)) (qid_QueueId (pgc_QueueId rec)))"

definition purgeGCRecordsTable_Exists ::
  "pkgs \<Rightarrow> 's purgeGCRecordsTable \<Rightarrow> uint64 \<Rightarrow> uint64 \<Rightarrow> ('s, bool) go" where
  "purgeGCRecordsTable_Exists P t accountId queueId =
    go_try (bt_Get (pgt_table t) (purgeGCRecordsTable_tablePK P accountId queueId))
      (\<lambda>err. if errors_Is_NotFound err then go_ret False else go_fail err)
      (\<lambda>_. go_ret True)"

definition purgeGCRecordsTable_List ::
  "pkgs \<Rightarrow> 's purgeGCRecordsTable \<Rightarrow> int \<Rightarrow> ('s, PurgeQueueGarbageCollectionRecord list) go" where
  "purgeGCRecordsTable_List P t limit =
    go_bind (bt_ListPaginated (pgt_table t) [] None limit) (\<lambda>result. go_ret (pg_Items result))"

end
