(* ===== verification/Tasks_Core.thy ===== *)
theory Tasks_Core
  imports Tasks_Tables
begin

text \<open>
  The tasks core, \<open>pkg/tasks/core.go\<close>: every method of \<open>Core\<close> and
  every internal function, in the shape of the source.  A method that opens a
  transaction is a handler over the database; an internal function is a
  computation over the open transaction.  The record \<open>TasksCore\<close> is the
  struct \<open>Core\<close>.  \<open>now\<close> is \<open>req.Now\<close>.  Logging is left out.
\<close>

definition maxVisitedTasksForDequeuing :: int where "maxVisitedTasksForDequeuing = 100"
definition defaultGCMaxVisitedTasks :: int where "defaultGCMaxVisitedTasks = 1000"
definition defaultGCPageSize :: int where "defaultGCPageSize = 250"
definition defaultPurgeGCRecordsPageSize :: int where "defaultPurgeGCRecordsPageSize = 100"
definition defaultPurgeGCRecordTasksPageSize :: int where "defaultPurgeGCRecordTasksPageSize = 250"
definition defaultPurgeGCMaxVisitedTasks :: int where "defaultPurgeGCMaxVisitedTasks = 1000"

record ('d, 's) TasksCore =
  tc_badgerStore :: "('d, 's) BadgerStore"
  tc_replicaPrefix :: bytes
  tc_shardLowerBound :: ShardKey
  tc_shardUpperBound :: ShardKey
  tc_tasks :: "'s tasksTable"
  tc_threads :: "'s threadsTable"
  tc_counters :: "'s countersTable"
  tc_queueState :: "'s queueStateTable"
  tc_rateLimiters :: "'s rateLimitersTable"
  tc_purgeGCRecords :: "'s purgeGCRecordsTable"

definition NewTasksCore ::
  "pkgs \<Rightarrow> 's honey \<Rightarrow> ('d, 's) BadgerStore \<Rightarrow> bytes \<Rightarrow> ShardKey \<Rightarrow> ShardKey \<Rightarrow> ('d, 's) TasksCore" where
  "NewTasksCore P H badgerStore replicaPrefix shardLowerBound shardUpperBound =
    \<lparr> tc_badgerStore = badgerStore,
      tc_replicaPrefix = replicaPrefix,
      tc_shardLowerBound = shardLowerBound,
      tc_shardUpperBound = shardUpperBound,
      tc_tasks = newTasksTable P H replicaPrefix,
      tc_threads = newThreadsTable P H replicaPrefix,
      tc_counters = newCountersTable P H replicaPrefix,
      tc_queueState = newQueueStateTable P H replicaPrefix,
      tc_rateLimiters = newRateLimitersTable P H replicaPrefix,
      tc_purgeGCRecords = newPurgeGCRecordsTable P H replicaPrefix \<rparr>"

abbreviation mkTaskId :: "uint64 \<Rightarrow> uint64 \<Rightarrow> uint64 \<Rightarrow> TaskId" where
  "mkTaskId a q t \<equiv> \<lparr> tid_AccountId = a, tid_QueueId = q, tid_TaskId = t \<rparr>"

text \<open>The account and queue a task belongs to, and its id in the queue.\<close>

abbreviation task_acc :: "Task \<Rightarrow> uint64" where "task_acc k \<equiv> tid_AccountId (t_Id k)"
abbreviation task_que :: "Task \<Rightarrow> uint64" where "task_que k \<equiv> tid_QueueId (t_Id k)"
abbreviation task_tid :: "Task \<Rightarrow> uint64" where "task_tid k \<equiv> tid_TaskId (t_Id k)"

section \<open>Application errors\<close>

definition taskNotFoundError :: "pkgs \<Rightarrow> TaskId \<Rightarrow> mrpc_Error" where
  "taskNotFoundError P taskId =
    \<lparr> err_Code = NotFound, err_Message = ''task not found'',
      err_Context = [(''task_id'', EncodeTaskId P (tid_TaskId taskId)),
                     (''queue_id'', fmt_nat (unat (tid_QueueId taskId)))] \<rparr>"

definition queueIdPurgedError :: "pkgs \<Rightarrow> uint64 \<Rightarrow> uint64 \<Rightarrow> mrpc_Error" where
  "queueIdPurgedError P accountId queueId =
    \<lparr> err_Code = NotFound, err_Message = ''queue not found'',
      err_Context = [(''queue_id'', EncodeQueueId P \<lparr> qid_AccountId = accountId, qid_QueueId = queueId \<rparr>)] \<rparr>"

definition checkQueueNotPurged ::
  "pkgs \<Rightarrow> ('d, 's) TasksCore \<Rightarrow> uint64 \<Rightarrow> uint64 \<Rightarrow> ('s, mrpc_Error option) go" where
  "checkQueueNotPurged P c accountId queueId =
    go_bind (purgeGCRecordsTable_Exists P (tc_purgeGCRecords c) accountId queueId) (\<lambda>purged.
    go_ret (if purged then Some (queueIdPurgedError P accountId queueId) else None))"

section \<open>Thread head coordination\<close>

text \<open>The scan of \<open>reconcileThreadHead\<close>: the first member's row, if the
  thread has a member.\<close>

definition reconcile_earliest ::
  "pkgs \<Rightarrow> ('d, 's) TasksCore \<Rightarrow> uint64 \<Rightarrow> uint64 \<Rightarrow> Thread \<Rightarrow> ('s, Task option) go" where
  "reconcile_earliest P c accountId queueId thread =
    threadsTable_ListIndex P (tc_threads c) accountId queueId (th_ThreadId thread) (\<lambda>taskId _.
      go_try (tasksTable_Get P (tc_tasks c) (mkTaskId accountId queueId taskId))
        (\<lambda>err. go_fail (ErrWrap ''reconcileThreadHead: get earliest'' err))
        (\<lambda>task. go_ret (False, Some task))) None"

definition reconcileThreadHead ::
  "pkgs \<Rightarrow> ('d, 's) TasksCore \<Rightarrow> uint64 \<Rightarrow> uint64 \<Rightarrow> Thread \<Rightarrow> ('s, unit) go" where
  "reconcileThreadHead P c accountId queueId thread =
    go_bind (reconcile_earliest P c accountId queueId thread) (\<lambda>earliestPtr.
    go_try (tasksTable_Get P (tc_tasks c) (th_HeadTaskId thread))
      (\<lambda>err. go_fail (ErrWrap ''reconcileThreadHead: get currentHead'' err))
      (\<lambda>currentHead.
    let pk = tasksTable_tablePK P accountId queueId in
    go_bind (go_deref earliestPtr) (\<lambda>earliest.
    if task_tid earliest = task_tid currentHead then
      if th_ScheduledAt thread = t_ScheduledAt earliest then go_ret ()
      else
        go_seq (go_when (t_State currentHead = TASK_STATE_ENQUEUED)
          (go_seq (oi_Delete (tt_queueIndex (tc_tasks c)) pk
             (queueIndexItem P (th_ScheduledAt thread) (task_tid currentHead)))
           (oi_Add (tt_queueIndex (tc_tasks c)) pk
             (queueIndexItem P (t_ScheduledAt earliest) (task_tid currentHead)))))
        (threadsTable_set P (tc_threads c) accountId queueId
          (thread\<lparr> th_ScheduledAt := t_ScheduledAt earliest \<rparr>))
    else if t_State currentHead \<noteq> TASK_STATE_ENQUEUED then go_ret ()
    else
      go_seq (oi_Delete (tt_queueIndex (tc_tasks c)) pk
        (queueIndexItem P (t_ScheduledAt currentHead) (task_tid currentHead)))
     (go_seq (threadsTable_set P (tc_threads c) accountId queueId
        (thread\<lparr> th_HeadTaskId := t_Id earliest, th_ScheduledAt := t_ScheduledAt earliest \<rparr>))
     (oi_Add (tt_queueIndex (tc_tasks c)) pk
        (queueIndexItem P (t_ScheduledAt earliest) (task_tid earliest)))))))"

text \<open>\<open>promoteNextThreadHead\<close>; the accumulator of the scan is
  \<open>nextHeadFound\<close>.\<close>

definition promoteNextThreadHead ::
  "pkgs \<Rightarrow> ('d, 's) TasksCore \<Rightarrow> uint64 \<Rightarrow> uint64 \<Rightarrow> Thread \<Rightarrow> ('s, unit) go" where
  "promoteNextThreadHead P c accountId queueId thread =
    go_bind (threadsTable_ListIndex P (tc_threads c) accountId queueId (th_ThreadId thread) (\<lambda>taskId _.
      go_try (tasksTable_Get P (tc_tasks c) (mkTaskId accountId queueId taskId))
        (\<lambda>err. go_fail (ErrWrap ''promoteNextThreadHead: get nextHead'' err))
        (\<lambda>nextHead.
          go_seq (threadsTable_set P (tc_threads c) accountId queueId
            (thread\<lparr> th_VisibleAt := 0, th_HeadTaskId := t_Id nextHead, th_ScheduledAt := t_ScheduledAt nextHead \<rparr>))
         (go_seq (oi_Add (tt_queueIndex (tc_tasks c)) (tasksTable_tablePK P accountId queueId)
            (queueIndexItem P (t_ScheduledAt nextHead) (task_tid nextHead)))
         (go_ret (False, True))))) False) (\<lambda>nextHeadFound.
    if \<not> nextHeadFound
    then threadsTable_Delete P (tc_threads c) accountId queueId (th_ThreadId thread)
    else go_ret ())"

definition attachTaskToThread :: "pkgs \<Rightarrow> ('d, 's) TasksCore \<Rightarrow> Task \<Rightarrow> ('s, unit) go" where
  "attachTaskToThread P c task =
    go_seq (threadsTable_AddToIndex P (tc_threads c) (task_acc task) (task_que task) (t_ThreadId task)
      (t_ScheduledAt task) (task_tid task))
   (go_try (threadsTable_Get P (tc_threads c) (task_acc task) (task_que task) (t_ThreadId task))
      (\<lambda>err. if \<not> errors_Is_NotFound err then go_fail err
        else go_seq (threadsTable_set P (tc_threads c) (task_acc task) (task_que task)
            \<lparr> th_ThreadId = t_ThreadId task, th_HeadTaskId = t_Id task,
              th_ScheduledAt = t_ScheduledAt task, th_VisibleAt = 0 \<rparr>)
         (oi_Add (tt_queueIndex (tc_tasks c)) (tasksTable_tablePK P (task_acc task) (task_que task))
            (queueIndexItem P (t_ScheduledAt task) (task_tid task))))
      (\<lambda>thread. reconcileThreadHead P c (task_acc task) (task_que task) thread))"

definition detachTaskFromThread :: "pkgs \<Rightarrow> ('d, 's) TasksCore \<Rightarrow> Task \<Rightarrow> ('s, unit) go" where
  "detachTaskFromThread P c task =
    go_seq (threadsTable_RemoveFromIndex P (tc_threads c) (task_acc task) (task_que task) (t_ThreadId task)
      (t_ScheduledAt task) (task_tid task))
   (go_bind (threadsTable_Get P (tc_threads c) (task_acc task) (task_que task) (t_ThreadId task)) (\<lambda>thread.
    if tid_TaskId (th_HeadTaskId thread) \<noteq> task_tid task then go_ret ()
    else promoteNextThreadHead P c (task_acc task) (task_que task) thread))"

definition rescheduleTaskInThread :: "pkgs \<Rightarrow> ('d, 's) TasksCore \<Rightarrow> Task \<Rightarrow> int \<Rightarrow> ('s, unit) go" where
  "rescheduleTaskInThread P c task oldScheduledAt =
    go_seq (threadsTable_RemoveFromIndex P (tc_threads c) (task_acc task) (task_que task) (t_ThreadId task)
      oldScheduledAt (task_tid task))
   (go_seq (threadsTable_AddToIndex P (tc_threads c) (task_acc task) (task_que task) (t_ThreadId task)
      (t_ScheduledAt task) (task_tid task))
   (go_bind (threadsTable_Get P (tc_threads c) (task_acc task) (task_que task) (t_ThreadId task)) (\<lambda>thread.
    reconcileThreadHead P c (task_acc task) (task_que task) thread)))"

section \<open>Creating, overwriting and deleting a task\<close>

definition getTaskIdByDedupeKey ::
  "pkgs \<Rightarrow> ('d, 's) TasksCore \<Rightarrow> uint64 \<Rightarrow> uint64 \<Rightarrow> string \<Rightarrow> ('s, TaskId option) go" where
  "getTaskIdByDedupeKey P c accountId queueId dedupeKey =
    go_try (ut_Get (tt_dedupeKeysIndex (tc_tasks c)) (dedupeKeysIndexPK P accountId queueId dedupeKey))
      (\<lambda>err. if errors_Is_NotFound err then go_ret None else go_fail err)
      (\<lambda>taskId. go_ret (Some (mkTaskId accountId queueId taskId)))"

definition createTask :: "pkgs \<Rightarrow> ('d, 's) TasksCore \<Rightarrow> Task \<Rightarrow> ('s, unit) go" where
  "createTask P c task =
    go_seq (tasksTable_set P (tc_tasks c) task)
   (go_seq (go_when (t_DedupeKey task \<noteq> [])
      (ut_Set (tt_dedupeKeysIndex (tc_tasks c))
        (dedupeKeysIndexPK P (task_acc task) (task_que task) (t_DedupeKey task)) (task_tid task)))
   (go_seq (if t_ThreadId task = []
      then oi_Add (tt_queueIndex (tc_tasks c)) (tasksTable_tablePK P (task_acc task) (task_que task))
        (queueIndexItem P (t_ScheduledAt task) (task_tid task))
      else attachTaskToThread P c task)
   (go_seq (expirationIndex_add P (tt_expiration (tc_tasks c)) (t_Id task) (t_ExpiresAt task))
   (go_bind (countersTable_Get P (tc_counters c) (task_acc task) (task_que task)) (\<lambda>counters.
    countersTable_Set P (tc_counters c) (task_acc task) (task_que task)
      (counters\<lparr> cnt_EnqueuedTasksCount := i64 (cnt_EnqueuedTasksCount counters + 1) \<rparr>))))))"

text \<open>One pass of the loop over \<open>overwriteOnDuplicate\<close>.\<close>

definition overwrite_one ::
  "pkgs \<Rightarrow> ('d, 's) TasksCore \<Rightarrow> int \<Rightarrow> bytes \<Rightarrow> int \<Rightarrow> OverwriteOnDuplicate \<Rightarrow> Task \<Rightarrow> ('s, Task) go" where
  "overwrite_one P c scheduledAt payload expiresAt o' duplicate =
    (case o' of
       OVERWRITE_ON_DUPLICATE_EXPIRES_AT \<Rightarrow>
         go_seq (expirationIndex_remove P (tt_expiration (tc_tasks c)) (t_Id duplicate) (t_ExpiresAt duplicate))
        (go_seq (expirationIndex_add P (tt_expiration (tc_tasks c)) (t_Id duplicate) expiresAt)
        (go_ret (duplicate\<lparr> t_ExpiresAt := expiresAt \<rparr>)))
     | OVERWRITE_ON_DUPLICATE_PAYLOAD \<Rightarrow> go_ret (duplicate\<lparr> t_Payload := payload \<rparr>)
     | OVERWRITE_ON_DUPLICATE_SCHEDULED_AT \<Rightarrow>
         (let oldScheduledAt = t_ScheduledAt duplicate;
              duplicate' = duplicate\<lparr> t_ScheduledAt := scheduledAt \<rparr>;
              pk = tasksTable_tablePK P (task_acc duplicate) (task_que duplicate) in
          if t_ThreadId duplicate = [] then
            go_seq (oi_Delete (tt_queueIndex (tc_tasks c)) pk (queueIndexItem P oldScheduledAt (task_tid duplicate)))
           (go_seq (oi_Add (tt_queueIndex (tc_tasks c)) pk (queueIndexItem P scheduledAt (task_tid duplicate)))
           (go_ret duplicate'))
          else
            go_seq (tasksTable_set P (tc_tasks c) duplicate')
           (go_seq (rescheduleTaskInThread P c duplicate' oldScheduledAt)
           (go_ret duplicate')))
     | _ \<Rightarrow> go_ret duplicate)"

definition overwriteDuplicate ::
  "pkgs \<Rightarrow> ('d, 's) TasksCore \<Rightarrow> TaskId \<Rightarrow> OverwriteOnDuplicate list \<Rightarrow> int \<Rightarrow> bytes \<Rightarrow> int \<Rightarrow> ('s, Task option) go" where
  "overwriteDuplicate P c duplicateId overwriteOnDuplicate scheduledAt payload expiresAt =
    (if overwriteOnDuplicate = [] then go_ret None
     else go_bind (tasksTable_Get P (tc_tasks c) duplicateId) (\<lambda>duplicate.
       if t_State duplicate = TASK_STATE_ENQUEUED then
         go_bind (go_for (overwrite_one P c scheduledAt payload expiresAt) overwriteOnDuplicate duplicate) (\<lambda>duplicate'.
         go_seq (tasksTable_set P (tc_tasks c) duplicate')
         (go_ret (Some duplicate')))
       else go_ret (Some duplicate)))"

datatype taskDeletionReason = taskDeletionNone | taskDeletionSucceeded | taskDeletionExpired

definition deleteTask :: "pkgs \<Rightarrow> ('d, 's) TasksCore \<Rightarrow> Task \<Rightarrow> taskDeletionReason \<Rightarrow> ('s, unit) go" where
  "deleteTask P c task reason =
    (let pk = tasksTable_tablePK P (task_acc task) (task_que task) in
    go_bind (countersTable_Get P (tc_counters c) (task_acc task) (task_que task)) (\<lambda>counters0.
    let counters1 = (case reason of
          taskDeletionSucceeded \<Rightarrow> counters0\<lparr> cnt_ProcessedTasksCount := i64 (cnt_ProcessedTasksCount counters0 + 1) \<rparr>
        | taskDeletionExpired \<Rightarrow> counters0\<lparr> cnt_ExpiredTasksCount := i64 (cnt_ExpiredTasksCount counters0 + 1) \<rparr>
        | taskDeletionNone \<Rightarrow> counters0) in
    go_bind (case t_State task of
        TASK_STATE_ENQUEUED \<Rightarrow>
          go_seq (oi_Delete (tt_queueIndex (tc_tasks c)) pk (queueIndexItem P (t_ScheduledAt task) (task_tid task)))
         (go_seq (go_when (t_DedupeKey task \<noteq> []) (ut_Delete (tt_dedupeKeysIndex (tc_tasks c))
            (dedupeKeysIndexPK P (task_acc task) (task_que task) (t_DedupeKey task))))
         (go_seq (go_when (t_ThreadId task \<noteq> []) (detachTaskFromThread P c task))
         (go_ret (counters1\<lparr> cnt_EnqueuedTasksCount := i64 (cnt_EnqueuedTasksCount counters1 - 1) \<rparr>))))
      | TASK_STATE_DEAD \<Rightarrow>
          go_seq (oi_Delete (tt_deadTasksIndex (tc_tasks c)) pk (deadTasksIndexItem P (t_LastFailedAt task) (task_tid task)))
         (go_ret (counters1\<lparr> cnt_DeadTasksCount := i64 (cnt_DeadTasksCount counters1 - 1) \<rparr>))
      | TASK_STATE_IN_PROGRESS \<Rightarrow>
          go_seq (oi_Delete (tt_inProgressIndex (tc_tasks c)) pk (inProgressIndexItem P (t_VisibleAt task) (task_tid task)))
         (go_seq (go_when (t_DedupeKey task \<noteq> []) (ut_Delete (tt_dedupeKeysIndex (tc_tasks c))
            (dedupeKeysIndexPK P (task_acc task) (task_que task) (t_DedupeKey task))))
         (go_seq (go_when (t_ThreadId task \<noteq> []) (detachTaskFromThread P c task))
         (go_ret (counters1\<lparr> cnt_InProgressTasksCount := i64 (cnt_InProgressTasksCount counters1 - 1) \<rparr>))))
      | _ \<Rightarrow> go_ret counters1) (\<lambda>counters2.
    go_seq (expirationIndex_remove P (tt_expiration (tc_tasks c)) (t_Id task) (t_ExpiresAt task))
   (go_seq (tasksTable_delete P (tc_tasks c) (t_Id task))
   (countersTable_Set P (tc_counters c) (task_acc task) (task_que task) counters2)))))"

section \<open>Failure handling\<close>

definition heartbeatTask :: "pkgs \<Rightarrow> ('d, 's) TasksCore \<Rightarrow> Task \<Rightarrow> int \<Rightarrow> int \<Rightarrow> ('s, unit) go" where
  "heartbeatTask P c task now keepaliveTimeoutInSeconds =
    (let pk = tasksTable_tablePK P (task_acc task) (task_que task);
         task' = task\<lparr> t_VisibleAt := i64 (now + i64 (keepaliveTimeoutInSeconds * time_Second)) \<rparr> in
    go_seq (oi_Delete (tt_inProgressIndex (tc_tasks c)) pk (inProgressIndexItem P (t_VisibleAt task) (task_tid task)))
   (go_seq (tasksTable_set P (tc_tasks c) task')
   (go_seq (go_when (t_ThreadId task \<noteq> [])
      (go_bind (threadsTable_Get P (tc_threads c) (task_acc task) (task_que task) (t_ThreadId task)) (\<lambda>thread.
       if tid_TaskId (th_HeadTaskId thread) \<noteq> task_tid task
       then go_fail (ErrNew ''in progress task is not the head of its thread'')
       else threadsTable_set P (tc_threads c) (task_acc task) (task_que task)
         (thread\<lparr> th_VisibleAt := t_VisibleAt task' \<rparr>))))
   (oi_Add (tt_inProgressIndex (tc_tasks c)) pk (inProgressIndexItem P (t_VisibleAt task') (task_tid task))))))"

definition evictExcessDeadTasks ::
  "pkgs \<Rightarrow> ('d, 's) TasksCore \<Rightarrow> uint64 \<Rightarrow> uint64 \<Rightarrow> int \<Rightarrow> int \<Rightarrow> ('s, unit) go" where
  "evictExcessDeadTasks P c accountId queueId maxSize deadTasksCount =
    (if maxSize \<le> 0 then go_ret ()
     else let overflow = i64 (deadTasksCount - maxSize) in
     if overflow \<le> 0 then go_ret ()
     else
       go_bind (oi_ListAll (tt_deadTasksIndex (tc_tasks c)) (tasksTable_tablePK P accountId queueId)) (\<lambda>items.
       go_bind (go_scan (\<lambda>item oldest.
           go_bind (extractTaskIdFromIndexItem P item) (\<lambda>taskId.
           go_bind (tasksTable_Get P (tc_tasks c) (mkTaskId accountId queueId taskId)) (\<lambda>task.
           let oldest' = oldest @ [task] in
           go_ret (int (length oldest') < overflow, oldest')))) items []) (\<lambda>oldest.
       go_for (\<lambda>task _. deleteTask P c task taskDeletionNone) oldest ())))"

definition failTaskToDead ::
  "pkgs \<Rightarrow> ('d, 's) TasksCore \<Rightarrow> Task \<Rightarrow> int \<Rightarrow> DeadLetterQueueConfig option \<Rightarrow> ('s, unit) go" where
  "failTaskToDead P c task now dlqConfig =
    (case dlqConfig of
       None \<Rightarrow> deleteTask P c task taskDeletionNone
     | Some cfg \<Rightarrow>
       if \<not> dlq_Enable cfg then deleteTask P c task taskDeletionNone
       else
       let pk = tasksTable_tablePK P (task_acc task) (task_que task);
           task' = task\<lparr> t_State := TASK_STATE_DEAD, t_LastFailedAt := now,
             t_ExpiresAt := i64 (now + i64 (dlq_RetentionPeriodInSeconds cfg * time_Second)) \<rparr> in
       go_seq (oi_Delete (tt_inProgressIndex (tc_tasks c)) pk (inProgressIndexItem P (t_VisibleAt task) (task_tid task)))
      (go_seq (tasksTable_set P (tc_tasks c) task')
      (go_seq (expirationIndex_add P (tt_expiration (tc_tasks c)) (t_Id task') (t_ExpiresAt task'))
      (go_seq (go_when (t_DedupeKey task' \<noteq> []) (ut_Delete (tt_dedupeKeysIndex (tc_tasks c))
         (dedupeKeysIndexPK P (task_acc task) (task_que task) (t_DedupeKey task'))))
      (go_seq (go_when (t_ThreadId task' \<noteq> []) (detachTaskFromThread P c task'))
      (go_seq (oi_Add (tt_deadTasksIndex (tc_tasks c)) pk (deadTasksIndexItem P (t_LastFailedAt task') (task_tid task)))
      (go_bind (countersTable_Get P (tc_counters c) (task_acc task) (task_que task)) (\<lambda>counters.
       let counters' = counters\<lparr> cnt_InProgressTasksCount := i64 (cnt_InProgressTasksCount counters - 1),
                                 cnt_DeadTasksCount := i64 (cnt_DeadTasksCount counters + 1) \<rparr> in
       go_seq (countersTable_Set P (tc_counters c) (task_acc task) (task_que task) counters')
      (evictExcessDeadTasks P c (task_acc task) (task_que task) (dlq_MaxSize cfg)
         (cnt_DeadTasksCount counters'))))))))))"

definition failTaskToRetry :: "pkgs \<Rightarrow> ('d, 's) TasksCore \<Rightarrow> Task \<Rightarrow> int \<Rightarrow> ('s, unit) go" where
  "failTaskToRetry P c task now =
    (let pk = tasksTable_tablePK P (task_acc task) (task_que task) in
    go_seq (oi_Delete (tt_inProgressIndex (tc_tasks c)) pk (inProgressIndexItem P (t_VisibleAt task) (task_tid task)))
   (let oldScheduledAt = t_ScheduledAt task in
    go_bind (go_deref (t_RetryStrategy task)) (\<lambda>rs.
    go_bind (go_index (rs_RetryIntervalsInSeconds rs) (i32 (t_Attempts task - 1))) (\<lambda>interval.
    let task' = task\<lparr> t_State := TASK_STATE_ENQUEUED,
                      t_ScheduledAt := i64 (now + i64 (interval * time_Second)),
                      t_LastFailedAt := now, t_VisibleAt := 0 \<rparr> in
    go_seq (tasksTable_set P (tc_tasks c) task')
   (go_seq (expirationIndex_add P (tt_expiration (tc_tasks c)) (t_Id task') (t_ExpiresAt task'))
   (go_seq (if t_ThreadId task' = []
      then oi_Add (tt_queueIndex (tc_tasks c)) pk (queueIndexItem P (t_ScheduledAt task') (task_tid task'))
      else go_seq (rescheduleTaskInThread P c task' oldScheduledAt)
        (go_bind (threadsTable_Get P (tc_threads c) (task_acc task) (task_que task) (t_ThreadId task')) (\<lambda>thread.
         threadsTable_set P (tc_threads c) (task_acc task) (task_que task) (thread\<lparr> th_VisibleAt := 0 \<rparr>))))
   (go_bind (countersTable_Get P (tc_counters c) (task_acc task) (task_que task)) (\<lambda>counters.
    countersTable_Set P (tc_counters c) (task_acc task) (task_que task)
      (counters\<lparr> cnt_InProgressTasksCount := i64 (cnt_InProgressTasksCount counters - 1),
                 cnt_EnqueuedTasksCount := i64 (cnt_EnqueuedTasksCount counters + 1) \<rparr>)))))))))"

definition handleTaskFailure ::
  "pkgs \<Rightarrow> ('d, 's) TasksCore \<Rightarrow> Task \<Rightarrow> int \<Rightarrow> DeadLetterQueueConfig option \<Rightarrow> ('s, unit) go" where
  "handleTaskFailure P c task now dlqConfig =
    (if t_ExpiresAt task < now then deleteTask P c task taskDeletionExpired
     else case t_RetryStrategy task of
       None \<Rightarrow> failTaskToDead P c task now dlqConfig
     | Some rs \<Rightarrow>
       if t_Attempts task > i32 (int (length (rs_RetryIntervalsInSeconds rs)))
       then failTaskToDead P c task now dlqConfig
       else failTaskToRetry P c task now)"

definition reportStatus ::
  "pkgs \<Rightarrow> ('d, 's) TasksCore \<Rightarrow> TaskId \<Rightarrow> int \<Rightarrow> ReportStatus_Status \<Rightarrow> int \<Rightarrow> int \<Rightarrow>
   DeadLetterQueueConfig option \<Rightarrow> ('s, ReportStatus_Result) go" where
  "reportStatus P c taskId now status attempt keepaliveTimeoutInSeconds dlqConfig =
    go_try (tasksTable_Get P (tc_tasks c) taskId)
      (\<lambda>err. if errors_Is_NotFound err then go_ret RESULT_NOT_FOUND else go_fail err)
      (\<lambda>task.
    if t_State task \<noteq> TASK_STATE_IN_PROGRESS then go_ret RESULT_NOT_IN_PROGRESS
    else if t_Attempts task \<noteq> attempt then go_ret RESULT_STALE_ATTEMPT
    else case status of
        STATUS_IN_PROGRESS \<Rightarrow> go_seq (heartbeatTask P c task now keepaliveTimeoutInSeconds) (go_ret RESULT_OK)
      | STATUS_FAILED \<Rightarrow> go_seq (handleTaskFailure P c task now dlqConfig) (go_ret RESULT_OK)
      | STATUS_SUCCEEDED \<Rightarrow> go_seq (deleteTask P c task taskDeletionSucceeded) (go_ret RESULT_OK)
      | _ \<Rightarrow> go_ret RESULT_INVALID)"

definition restartTask :: "pkgs \<Rightarrow> ('d, 's) TasksCore \<Rightarrow> Task \<Rightarrow> int \<Rightarrow> int \<Rightarrow> int \<Rightarrow> ('s, Task) go" where
  "restartTask P c task now scheduledAt expiresAt =
    (let pk = tasksTable_tablePK P (task_acc task) (task_que task) in
    go_seq (oi_Delete (tt_deadTasksIndex (tc_tasks c)) pk (deadTasksIndexItem P (t_LastFailedAt task) (task_tid task)))
   (go_seq (expirationIndex_remove P (tt_expiration (tc_tasks c)) (t_Id task) (t_ExpiresAt task))
   (go_bind (countersTable_Get P (tc_counters c) (task_acc task) (task_que task)) (\<lambda>counters.
    go_seq (countersTable_Set P (tc_counters c) (task_acc task) (task_que task)
      (counters\<lparr> cnt_DeadTasksCount := i64 (cnt_DeadTasksCount counters - 1) \<rparr>))
   (let scheduledAt' = (if scheduledAt < now then now else scheduledAt);
        task' = task\<lparr> t_State := TASK_STATE_ENQUEUED, t_Attempts := 0, t_ScheduledAt := scheduledAt',
                      t_ExpiresAt := expiresAt, t_VisibleAt := 0, t_LastFailedAt := 0 \<rparr> in
    go_seq (createTask P c task') (go_ret task'))))))"

section \<open>Dequeuing\<close>

definition getRefillInterval :: "TokenBucketRateLimiting \<Rightarrow> ('s, int) go" where
  "getRefillInterval r = (case tb_IntervalUnit r of
      INTERVAL_UNIT_SECONDS \<Rightarrow> go_div (i64 (tb_Interval r * time_Second)) (tb_MaxTokens r)
    | INTERVAL_UNIT_MINUTES \<Rightarrow> go_div (i64 (tb_Interval r * time_Minute)) (tb_MaxTokens r)
    | INTERVAL_UNIT_HOURS \<Rightarrow> go_div (i64 (tb_Interval r * time_Hour)) (tb_MaxTokens r)
    | _ \<Rightarrow> go_fail (Panic ''unknown IntervalUnit''))"

text \<open>The token-bucket refill inlined in \<open>Dequeue\<close>.\<close>

definition refillTokens :: "TokenBucketRateLimiting \<Rightarrow> int \<Rightarrow> RateLimiterState \<Rightarrow> ('s, RateLimiterState) go" where
  "refillTokens r now state =
    (let maxTokens = tb_MaxTokens r in
    go_bind (getRefillInterval r) (\<lambda>refillInterval.
    if rl_Tokens state < maxTokens then
      go_bind (go_div (i64 (now - rl_LastRefilledAt state)) refillInterval) (\<lambda>newTokens.
      if newTokens > 0 then
        if i64 (rl_Tokens state + newTokens) > maxTokens
        then go_ret (state\<lparr> rl_Tokens := maxTokens, rl_LastRefilledAt := now \<rparr>)
        else go_ret (state\<lparr> rl_Tokens := i64 (rl_Tokens state + newTokens),
               rl_LastRefilledAt := i64 (rl_LastRefilledAt state + i64 (newTokens * refillInterval)) \<rparr>)
      else go_ret state)
    else go_ret (state\<lparr> rl_LastRefilledAt := now \<rparr>)))"

text \<open>The callback of \<open>dequeueInProgressTasksBeforeTime\<close>: the collected
  tasks, the queue state and the visit count.\<close>

definition inProgress_callback ::
  "pkgs \<Rightarrow> ('d, 's) TasksCore \<Rightarrow> uint64 \<Rightarrow> uint64 \<Rightarrow> bytes \<Rightarrow> Task list \<times> QueueState \<times> int \<Rightarrow>
   ('s, bool \<times> Task list \<times> QueueState \<times> int) go" where
  "inProgress_callback P c accountId queueId item acc = (case acc of (timedOutTasks, state, visitedTasks) \<Rightarrow>
    go_bind (extractTaskIdFromIndexItem P item) (\<lambda>taskId.
    go_bind (tasksTable_Get P (tc_tasks c) (mkTaskId accountId queueId taskId)) (\<lambda>task.
    let visitedTasks' = visitedTasks + 1 in
    go_bind (extractTimeFromIndexItem P item) (\<lambda>time.
    go_ret (visitedTasks' < maxVisitedTasksForDequeuing,
      (timedOutTasks @ [task], state\<lparr> qs_LastVisitedInProgress := time \<rparr>, visitedTasks'))))))"

definition dequeueInProgressTasksBeforeTime ::
  "pkgs \<Rightarrow> ('d, 's) TasksCore \<Rightarrow> uint64 \<Rightarrow> uint64 \<Rightarrow> int \<Rightarrow> DeadLetterQueueConfig option \<Rightarrow> ('s, unit) go" where
  "dequeueInProgressTasksBeforeTime P c accountId queueId now dlqConfig =
    go_bind (queueStateTable_Get P (tc_queueState c) accountId queueId) (\<lambda>state0.
    go_bind (oi_ListInRange (tt_inProgressIndex (tc_tasks c)) (tasksTable_tablePK P accountId queueId)
      (itemPrefix P (qs_LastVisitedInProgress state0)) (itemPrefix P now)) (\<lambda>items.
    go_bind (go_scan (inProgress_callback P c accountId queueId) items ([], state0, 0))
      (\<lambda>(timedOutTasks, state1, visitedTasks).
    let state2 = (if visitedTasks = 0 then state1\<lparr> qs_LastVisitedInProgress := now \<rparr> else state1) in
    go_seq (queueStateTable_Set P (tc_queueState c) accountId queueId state2)
    (go_for (\<lambda>task _. handleTaskFailure P c task now dlqConfig) timedOutTasks ()))))"

text \<open>The local variables of \<open>dequeueTasksBeforeTime\<close> its callback
  updates.\<close>

record dequeue_vars =
  dv_dequeuedTasks :: "Task list"
  dv_expiredTasks :: "Task list"
  dv_state :: QueueState
  dv_counters :: TasksCounter
  dv_visitedTasks :: int
  dv_sawAnyCandidate :: bool

definition maxInProgress_saturated :: "DequeuingSettings option \<Rightarrow> TasksCounter \<Rightarrow> bool" where
  "maxInProgress_saturated dequeuingSettings counters = (case dequeuingSettings of
     None \<Rightarrow> False
   | Some ds \<Rightarrow> ds_MaxInProgressTasks ds > 0 \<and> cnt_InProgressTasksCount counters \<ge> ds_MaxInProgressTasks ds)"

definition dequeue_callback ::
  "pkgs \<Rightarrow> ('d, 's) TasksCore \<Rightarrow> uint64 \<Rightarrow> uint64 \<Rightarrow> int \<Rightarrow> int \<Rightarrow> DequeuingSettings option \<Rightarrow> bytes \<Rightarrow>
   dequeue_vars \<Rightarrow> ('s, bool \<times> dequeue_vars) go" where
  "dequeue_callback P c accountId queueId now limit dequeuingSettings item v0 =
    (let v1 = v0\<lparr> dv_sawAnyCandidate := True \<rparr> in
     if int (length (dv_dequeuedTasks v1)) \<ge> limit \<or> dv_visitedTasks v1 \<ge> maxVisitedTasksForDequeuing
     then go_ret (False, v1)
     else if maxInProgress_saturated dequeuingSettings (dv_counters v1) then go_ret (False, v1)
     else
       go_bind (extractTaskIdFromIndexItem P item) (\<lambda>taskId.
       go_bind (tasksTable_Get P (tc_tasks c) (mkTaskId accountId queueId taskId)) (\<lambda>task.
       go_bind (extractTimeFromIndexItem P item) (\<lambda>time.
       let v2 = v1\<lparr> dv_visitedTasks := dv_visitedTasks v1 + 1,
                    dv_state := (dv_state v1)\<lparr> qs_LastVisitedEnqueued := time \<rparr> \<rparr>;
           v3 = (if t_ExpiresAt task < now
                 then v2\<lparr> dv_expiredTasks := dv_expiredTasks v2 @ [task] \<rparr>
                 else v2\<lparr> dv_dequeuedTasks := dv_dequeuedTasks v2 @ [task],
                          dv_counters := (dv_counters v2)\<lparr> cnt_InProgressTasksCount :=
                            i64 (cnt_InProgressTasksCount (dv_counters v2) + 1) \<rparr> \<rparr>);
           v4 = v3\<lparr> dv_counters := (dv_counters v3)\<lparr> cnt_EnqueuedTasksCount :=
                            i64 (cnt_EnqueuedTasksCount (dv_counters v3) - 1) \<rparr> \<rparr> in
       go_ret (True, v4)))))"

text \<open>The two loops that apply the scan: dropping an expired task, and
  handing out a task.\<close>

definition dropExpired ::
  "pkgs \<Rightarrow> ('d, 's) TasksCore \<Rightarrow> uint64 \<Rightarrow> uint64 \<Rightarrow> Task \<Rightarrow> ('s, unit) go" where
  "dropExpired P c accountId queueId task =
    go_seq (oi_Delete (tt_queueIndex (tc_tasks c)) (tasksTable_tablePK P accountId queueId)
      (queueIndexItem P (t_ScheduledAt task) (task_tid task)))
   (go_seq (expirationIndex_remove P (tt_expiration (tc_tasks c)) (t_Id task) (t_ExpiresAt task))
   (go_seq (tasksTable_delete P (tc_tasks c) (t_Id task))
   (go_when (t_DedupeKey task \<noteq> []) (ut_Delete (tt_dedupeKeysIndex (tc_tasks c))
      (dedupeKeysIndexPK P accountId queueId (t_DedupeKey task))))))"

definition handOut ::
  "pkgs \<Rightarrow> ('d, 's) TasksCore \<Rightarrow> uint64 \<Rightarrow> uint64 \<Rightarrow> int \<Rightarrow> int \<Rightarrow> Task \<Rightarrow> Task list \<Rightarrow> ('s, Task list) go" where
  "handOut P c accountId queueId now keepaliveTimeoutInSeconds task dequeued =
    go_seq (oi_Delete (tt_queueIndex (tc_tasks c)) (tasksTable_tablePK P accountId queueId)
      (queueIndexItem P (t_ScheduledAt task) (task_tid task)))
   (go_seq (expirationIndex_remove P (tt_expiration (tc_tasks c)) (t_Id task) (t_ExpiresAt task))
   (let task' = task\<lparr> t_VisibleAt := i64 (now + i64 (keepaliveTimeoutInSeconds * time_Second)),
                      t_Attempts := i32 (t_Attempts task + 1),
                      t_State := TASK_STATE_IN_PROGRESS \<rparr> in
    go_seq (tasksTable_set P (tc_tasks c) task')
   (go_seq (oi_Add (tt_inProgressIndex (tc_tasks c)) (tasksTable_tablePK P accountId queueId)
      (inProgressIndexItem P (t_VisibleAt task') (task_tid task')))
   (go_ret (dequeued @ [task'])))))"

definition dequeueTasksBeforeTime ::
  "pkgs \<Rightarrow> ('d, 's) TasksCore \<Rightarrow> uint64 \<Rightarrow> uint64 \<Rightarrow> int \<Rightarrow> int \<Rightarrow> DequeuingSettings option \<Rightarrow> int \<Rightarrow>
   ('s, Task list) go" where
  "dequeueTasksBeforeTime P c accountId queueId now limit dequeuingSettings keepaliveTimeoutInSeconds =
    go_bind (queueStateTable_Get P (tc_queueState c) accountId queueId) (\<lambda>state.
    go_bind (countersTable_Get P (tc_counters c) accountId queueId) (\<lambda>counters.
    go_bind (oi_ListInRange (tt_queueIndex (tc_tasks c)) (tasksTable_tablePK P accountId queueId)
      (itemPrefix P (qs_LastVisitedEnqueued state)) (itemPrefix P now)) (\<lambda>items.
    go_bind (go_scan (dequeue_callback P c accountId queueId now limit dequeuingSettings) items
      \<lparr> dv_dequeuedTasks = [], dv_expiredTasks = [], dv_state = state, dv_counters = counters,
        dv_visitedTasks = 0, dv_sawAnyCandidate = False \<rparr>) (\<lambda>v.
    let state' = (if \<not> dv_sawAnyCandidate v then (dv_state v)\<lparr> qs_LastVisitedEnqueued := now \<rparr> else dv_state v);
        counters' = (dv_counters v)\<lparr> cnt_ExpiredTasksCount :=
          i64 (cnt_ExpiredTasksCount (dv_counters v) + int (length (dv_expiredTasks v))) \<rparr> in
    go_seq (queueStateTable_Set P (tc_queueState c) accountId queueId state')
   (go_seq (countersTable_Set P (tc_counters c) accountId queueId counters')
   (go_seq (go_for (\<lambda>task _. dropExpired P c accountId queueId task) (dv_expiredTasks v) ())
   (go_for (handOut P c accountId queueId now keepaliveTimeoutInSeconds) (dv_dequeuedTasks v) [])))))))"

definition getAgeOfOldestEnqueuedTask ::
  "pkgs \<Rightarrow> ('d, 's) TasksCore \<Rightarrow> uint64 \<Rightarrow> uint64 \<Rightarrow> int \<Rightarrow> ('s, int) go" where
  "getAgeOfOldestEnqueuedTask P c accountId queueId now =
    go_bind (oi_ListInRange (tt_queueIndex (tc_tasks c)) (tasksTable_tablePK P accountId queueId)
      (itemPrefix P 0) (itemPrefix P now)) (\<lambda>items.
    go_scan (\<lambda>item _. go_bind (extractTimeFromIndexItem P item) (\<lambda>time. go_ret (False, i64 (now - time)))) items 0)"

section \<open>The methods of the core\<close>

definition GetTask :: "pkgs \<Rightarrow> ('d, 's) TasksCore \<Rightarrow> int \<Rightarrow> TaskId option \<Rightarrow> ('d, Task response) handler" where
  "GetTask P c now reqTaskId = in_view (tc_badgerStore c)
    (go_bind (go_deref reqTaskId) (\<lambda>taskId.
     go_try (tasksTable_Get P (tc_tasks c) taskId)
       (\<lambda>err. if errors_Is_NotFound err then go_ret (ApplicationError (taskNotFoundError P taskId)) else go_fail err)
       (\<lambda>task. if t_State task \<noteq> TASK_STATE_IN_PROGRESS \<and> t_ExpiresAt task < now
          then go_ret (ApplicationError (taskNotFoundError P taskId))
          else go_ret (Payload task))))"

definition GetStatistics ::
  "pkgs \<Rightarrow> ('d, 's) TasksCore \<Rightarrow> int \<Rightarrow> QueueId option \<Rightarrow> ('d, GetStatisticsResponse response) handler" where
  "GetStatistics P c now reqQueueId = in_view (tc_badgerStore c)
    (go_bind (go_deref reqQueueId) (\<lambda>qid.
     let accountId = qid_AccountId qid; queueId = qid_QueueId qid in
     go_bind (countersTable_Get P (tc_counters c) accountId queueId) (\<lambda>counters.
     go_bind (queueStateTable_Get P (tc_queueState c) accountId queueId) (\<lambda>state.
     go_bind (getAgeOfOldestEnqueuedTask P c accountId queueId now) (\<lambda>age.
     go_ret (Payload \<lparr> st_EnqueuedTasksCount = cnt_EnqueuedTasksCount counters,
       st_InProgressTasksCount = cnt_InProgressTasksCount counters,
       st_DeadTasksCount = cnt_DeadTasksCount counters,
       st_ProcessedTasksCount = cnt_ProcessedTasksCount counters,
       st_ExpiredTasksCount = cnt_ExpiredTasksCount counters,
       st_AgeOfOldestEnqueuedTask = age,
       st_TaskIdSequence = sint (qs_TaskIdSequence state) \<rparr>))))))"

definition ListTasks ::
  "pkgs \<Rightarrow> ('d, 's) TasksCore \<Rightarrow> ListTasksRequest \<Rightarrow> ('d, ListTasksResponse response) handler" where
  "ListTasks P c req = in_view (tc_badgerStore c)
    (go_bind (go_deref (lt_QueueId req)) (\<lambda>qid.
     go_bind (checkQueueNotPurged P c (qid_AccountId qid) (qid_QueueId qid)) (\<lambda>appErr.
     case appErr of Some e \<Rightarrow> go_ret (ApplicationError e)
     | None \<Rightarrow>
       go_bind (tasksTable_List P (tc_tasks c) (qid_AccountId qid) (qid_QueueId qid) (lt_State req)
         (lt_PaginationToken req) (GetLimitWithDefaults (lt_Limit req))) (\<lambda>result.
       go_ret (Payload result)))))"

text \<open>One pass of the loop over the entries: the queue state and the tasks to
  return.\<close>

definition enqueue_entry ::
  "pkgs \<Rightarrow> ('d, 's) TasksCore \<Rightarrow> int \<Rightarrow> uint64 \<Rightarrow> uint64 \<Rightarrow> EnqueueRequestEntry \<Rightarrow> QueueState \<times> Task list \<Rightarrow>
   ('s, QueueState \<times> Task list) go" where
  "enqueue_entry P c now accountId queueId entry acc = (case acc of (state, tasks) \<Rightarrow>
    let scheduledAt = (if ent_ScheduledAt entry < now then now else ent_ScheduledAt entry) in
    go_bind (if ent_DedupeKey entry \<noteq> []
             then getTaskIdByDedupeKey P c accountId queueId (ent_DedupeKey entry)
             else go_ret None) (\<lambda>duplicateId.
    case duplicateId of
      Some dupId \<Rightarrow>
        go_bind (overwriteDuplicate P c dupId (ent_OverwriteOnDuplicate entry) scheduledAt
          (ent_Payload entry) (ent_ExpiresAt entry)) (\<lambda>duplicate.
        go_ret (state, (case duplicate of Some t \<Rightarrow> tasks @ [t] | None \<Rightarrow> tasks)))
    | None \<Rightarrow>
        let state' = state\<lparr> qs_TaskIdSequence := qs_TaskIdSequence state + 1 \<rparr>;
            task = \<lparr> t_Id = mkTaskId accountId queueId (qs_TaskIdSequence state'),
                     t_Payload = ent_Payload entry, t_CreatedAt = now, t_ScheduledAt = scheduledAt,
                     t_ExpiresAt = ent_ExpiresAt entry, t_DedupeKey = ent_DedupeKey entry,
                     t_State = TASK_STATE_ENQUEUED, t_Attempts = 0, t_VisibleAt = 0, t_LastFailedAt = 0,
                     t_DebugInfo = [], t_RetryStrategy = ent_RetryStrategy entry,
                     t_ThreadId = ent_ThreadId entry \<rparr> in
        go_seq (createTask P c task) (go_ret (state', tasks @ [task]))))"

definition Enqueue ::
  "pkgs \<Rightarrow> ('d, 's) TasksCore \<Rightarrow> int \<Rightarrow> EnqueueRequest \<Rightarrow> ('d, Task list response) handler" where
  "Enqueue P c now req = in_update (tc_badgerStore c)
    (go_bind (go_deref (enq_QueueId req)) (\<lambda>qid.
     let accountId = qid_AccountId qid; queueId = qid_QueueId qid in
     go_bind (checkQueueNotPurged P c accountId queueId) (\<lambda>appErr.
     case appErr of Some e \<Rightarrow> go_ret (Discard (ApplicationError e))
     | None \<Rightarrow>
       go_bind (queueStateTable_Get P (tc_queueState c) accountId queueId) (\<lambda>state.
       go_bind (go_for (enqueue_entry P c now accountId queueId) (enq_Entries req) (state, [])) (\<lambda>(state', tasks).
       go_seq (queueStateTable_Set P (tc_queueState c) accountId queueId state')
       (go_ret (Commit (Payload tasks))))))))"

text \<open>\<open>rateLimitingEnabled\<close>, with the limiter it selects.\<close>

definition enabledRateLimiting :: "DequeuingSettings option \<Rightarrow> TokenBucketRateLimiting option" where
  "enabledRateLimiting settings = (case settings of None \<Rightarrow> None
     | Some ds \<Rightarrow> (case ds_RateLimiting ds of None \<Rightarrow> None
        | Some r \<Rightarrow> if tb_Interval r > 0 \<and> tb_MaxTokens r > 0 then Some r else None))"

definition Dequeue ::
  "pkgs \<Rightarrow> ('d, 's) TasksCore \<Rightarrow> int \<Rightarrow> DequeueRequest \<Rightarrow> ('d, Task list response) handler" where
  "Dequeue P c now req = in_update (tc_badgerStore c)
    (go_bind (go_deref (deq_QueueId req)) (\<lambda>qid.
     let accountId = qid_AccountId qid; queueId = qid_QueueId qid in
     go_bind (checkQueueNotPurged P c accountId queueId) (\<lambda>appErr.
     case appErr of Some e \<Rightarrow> go_ret (Discard (ApplicationError e))
     | None \<Rightarrow>
       go_bind (case enabledRateLimiting (deq_DequeuingSettings req) of
           None \<Rightarrow> go_ret None
         | Some r \<Rightarrow>
             go_bind (rateLimitersTable_GetOrDefault P (tc_rateLimiters c) accountId queueId r now) (\<lambda>state.
             go_bind (refillTokens r now state) (\<lambda>state'. go_ret (Some state')))) (\<lambda>rateLimiterState.
       let dequeueLimit = (case rateLimiterState of None \<Rightarrow> deq_DequeueLimit req
             | Some st \<Rightarrow> if rl_Tokens st < deq_DequeueLimit req then rl_Tokens st else deq_DequeueLimit req) in
       go_seq (dequeueInProgressTasksBeforeTime P c accountId queueId now (deq_DeadLetterQueueConfig req))
      (go_bind (dequeueTasksBeforeTime P c accountId queueId now dequeueLimit (deq_DequeuingSettings req)
          (deq_KeepaliveTimeoutInSeconds req)) (\<lambda>tasks.
       go_seq (case rateLimiterState of None \<Rightarrow> go_ret ()
         | Some st \<Rightarrow> rateLimitersTable_Set P (tc_rateLimiters c) accountId queueId
             (st\<lparr> rl_Tokens := i64 (rl_Tokens st - int (length tasks)) \<rparr>))
       (go_ret (Commit (Payload tasks)))))))))"

definition ReportStatus ::
  "pkgs \<Rightarrow> ('d, 's) TasksCore \<Rightarrow> int \<Rightarrow> ReportStatusRequest \<Rightarrow>
   ('d, ReportStatusResponseEntry list response) handler" where
  "ReportStatus P c now req = in_update (tc_badgerStore c)
    (go_bind (go_for (\<lambda>entry entries.
        go_bind (go_deref (rse_TaskId entry)) (\<lambda>taskId.
        go_bind (reportStatus P c taskId now (rse_Status entry) (rse_Attempt entry)
          (rse_KeepaliveTimeoutInSeconds entry) (rsq_DeadLetterQueueConfig req)) (\<lambda>result.
        go_ret (entries @ [\<lparr> rre_TaskId = rse_TaskId entry, rre_Result = result \<rparr>])))) (rsq_Entries req) [])
      (\<lambda>entries. go_ret (Commit (Payload entries))))"

definition DeleteTasks ::
  "pkgs \<Rightarrow> ('d, 's) TasksCore \<Rightarrow> DeleteTasksRequest \<Rightarrow> ('d, unit response) handler" where
  "DeleteTasks P c req = in_update (tc_badgerStore c)
    (go_bind (go_deref (dt_QueueId req)) (\<lambda>qid.
     go_seq (go_for (\<lambda>taskId _.
        go_try (tasksTable_Get P (tc_tasks c) (mkTaskId (qid_AccountId qid) (qid_QueueId qid) taskId))
          (\<lambda>err. if errors_Is_NotFound err then go_ret () else go_fail err)
          (\<lambda>task. deleteTask P c task taskDeletionNone)) (dt_TaskIds req) ())
     (go_ret (Commit (Payload ())))))"

definition restart_entry ::
  "pkgs \<Rightarrow> ('d, 's) TasksCore \<Rightarrow> int \<Rightarrow> uint64 \<Rightarrow> uint64 \<Rightarrow> RestartTasksRequestEntry \<Rightarrow>
   ('s, RestartTasksResponseEntry) go" where
  "restart_entry P c now accountId queueId e =
    (let result = (\<lambda>r t. \<lparr> rtr_TaskId = rte_TaskId e, rtr_Result = r, rtr_Task = t \<rparr>) in
    go_try (tasksTable_Get P (tc_tasks c) (mkTaskId accountId queueId (rte_TaskId e)))
      (\<lambda>err. if errors_Is_NotFound err then go_ret (result RESTART_RESULT_NOT_FOUND None) else go_fail err)
      (\<lambda>task.
    if t_State task \<noteq> TASK_STATE_DEAD then go_ret (result RESTART_RESULT_NOT_DEAD None)
    else if t_ExpiresAt task < now then go_ret (result RESTART_RESULT_NOT_FOUND None)
    else go_bind (if t_DedupeKey task \<noteq> []
        then getTaskIdByDedupeKey P c accountId queueId (t_DedupeKey task) else go_ret None) (\<lambda>conflictId.
      if (case conflictId of Some cid \<Rightarrow> tid_TaskId cid \<noteq> task_tid task | None \<Rightarrow> False)
      then go_ret (result RESTART_RESULT_DEDUPE_CONFLICT None)
      else go_bind (restartTask P c task now (rte_ScheduledAt e) (rte_ExpiresAt e)) (\<lambda>task'.
        go_ret (result RESTART_RESULT_RESTARTED (Some task'))))))"

definition RestartTasks ::
  "pkgs \<Rightarrow> ('d, 's) TasksCore \<Rightarrow> int \<Rightarrow> RestartTasksRequest \<Rightarrow>
   ('d, RestartTasksResponseEntry list response) handler" where
  "RestartTasks P c now req = in_update (tc_badgerStore c)
    (go_bind (go_deref (rt_QueueId req)) (\<lambda>qid.
     go_bind (go_for (\<lambda>e entries.
        go_bind (restart_entry P c now (qid_AccountId qid) (qid_QueueId qid) e) (\<lambda>entry.
        go_ret (entries @ [entry]))) (rt_Entries req) []) (\<lambda>entries.
     go_ret (Commit (Payload entries)))))"

definition PurgeQueue :: "pkgs \<Rightarrow> ('d, 's) TasksCore \<Rightarrow> QueueId option \<Rightarrow> ('d, unit response) handler" where
  "PurgeQueue P c reqQueueId = in_update (tc_badgerStore c)
    (go_bind (go_deref reqQueueId) (\<lambda>qid.
     go_seq (purgeGCRecordsTable_Create P (tc_purgeGCRecords c) \<lparr> pgc_QueueId = qid \<rparr>)
     (go_ret (Commit (Payload ())))))"

text \<open>
  The purge sweep.  \<open>purge_page\<close> is the loop over one page of tasks: the
  visit count, and whether the visit budget ended the sweep
  (\<open>break recordsLoop\<close>).  \<open>purge_record\<close> is the paging loop over one
  marker; its first argument bounds the number of pages.
\<close>

definition purge_page ::
  "pkgs \<Rightarrow> ('d, 's) TasksCore \<Rightarrow> int \<Rightarrow> Task list \<Rightarrow> int \<Rightarrow> ('s, int \<times> bool) go" where
  "purge_page P c maxVisitedTasks tasks visitedTasks =
    go_scan (\<lambda>task (visited, _).
      go_seq (deleteTask P c task taskDeletionNone)
      (let visited' = visited + 1 in
       if visited' \<ge> maxVisitedTasks then go_ret (False, (visited', True))
       else go_ret (True, (visited', False)))) tasks (visitedTasks, False)"

fun purge_record ::
  "nat \<Rightarrow> pkgs \<Rightarrow> ('d, 's) TasksCore \<Rightarrow> int \<Rightarrow> int \<Rightarrow> PurgeQueueGarbageCollectionRecord \<Rightarrow> int \<Rightarrow>
   ('s, int \<times> bool) go" where
  "purge_record 0 P c pageSize maxVisitedTasks gcRecord visitedTasks = go_fail OutOfFuel"
| "purge_record (Suc n) P c pageSize maxVisitedTasks gcRecord visitedTasks =
    (let accountId = qid_AccountId (pgc_QueueId gcRecord); queueId = qid_QueueId (pgc_QueueId gcRecord) in
    go_bind (tasksTable_List P (tc_tasks c) accountId queueId TASK_STATE_INVALID None pageSize) (\<lambda>result.
    go_bind (purge_page P c maxVisitedTasks (ltr_Tasks result) visitedTasks) (\<lambda>(visitedTasks', stop).
    if stop then go_ret (visitedTasks', True)
    else if ltr_NextPaginationToken result \<noteq> None
    then purge_record n P c pageSize maxVisitedTasks gcRecord visitedTasks'
    else
      go_seq (purgeGCRecordsTable_Delete P (tc_purgeGCRecords c) gcRecord)
     (go_seq (countersTable_Delete P (tc_counters c) accountId queueId)
     (go_seq (queueStateTable_Delete P (tc_queueState c) accountId queueId)
     (go_seq (rateLimitersTable_Delete P (tc_rateLimiters c) accountId queueId)
     (go_ret (visitedTasks', False))))))))"

definition RunPurgeQueueGarbageCollection ::
  "pkgs \<Rightarrow> ('d, 's) TasksCore \<Rightarrow> RunPurgeQueueGarbageCollectionRequest \<Rightarrow> ('d, unit response) handler" where
  "RunPurgeQueueGarbageCollection P c req = in_update (tc_badgerStore c)
    (let gcRecordsPageSize = orDefault (rpgc_GcRecordsPageSize req) defaultPurgeGCRecordsPageSize;
         gcRecordTasksPageSize = orDefault (rpgc_GcRecordTasksPageSize req) defaultPurgeGCRecordTasksPageSize;
         maxVisitedTasks = orDefault (rpgc_MaxVisitedTasks req) defaultPurgeGCMaxVisitedTasks in
     go_bind (purgeGCRecordsTable_List P (tc_purgeGCRecords c) gcRecordsPageSize) (\<lambda>gcRecords.
     go_bind (go_scan (\<lambda>gcRecord visitedTasks.
        go_bind (purge_record (Suc (nat maxVisitedTasks)) P c gcRecordTasksPageSize maxVisitedTasks gcRecord visitedTasks)
          (\<lambda>(visitedTasks', stop). go_ret (\<not> stop, visitedTasks'))) gcRecords 0) (\<lambda>_.
     go_ret (Commit (Payload ())))))"

text \<open>One expired entry of the expiration sweep.\<close>

definition gc_one :: "pkgs \<Rightarrow> ('d, 's) TasksCore \<Rightarrow> expiredTaskRef \<Rightarrow> ('s, unit) go" where
  "gc_one P c ref =
    go_try (tasksTable_Get P (tc_tasks c) (ref_TaskId ref))
      (\<lambda>err. if errors_Is_NotFound err
        then expirationIndex_remove P (tt_expiration (tc_tasks c)) (ref_TaskId ref) (ref_ExpiresAt ref)
        else go_fail err)
      (\<lambda>task. deleteTask P c task taskDeletionExpired)"

function gc_loop ::
  "pkgs \<Rightarrow> ('d, 's) TasksCore \<Rightarrow> int \<Rightarrow> int \<Rightarrow> int \<Rightarrow> int \<Rightarrow> ('s, unit) go" where
  "gc_loop P c now maxVisitedTasks pageSize visited =
    (if visited < maxVisitedTasks then
       let limit = (if pageSize > maxVisitedTasks - visited then maxVisitedTasks - visited else pageSize) in
       go_bind (expirationIndex_ListDue P (tt_expiration (tc_tasks c)) now limit) (\<lambda>expired.
       if expired = [] then go_ret ()
       else go_seq (go_for (\<lambda>ref _. gc_one P c ref) expired ())
        (if int (length expired) < limit then go_ret ()
         else gc_loop P c now maxVisitedTasks pageSize (visited + int (length expired))))
     else go_ret ())"
  by auto
termination
  by (relation "measure (\<lambda>(P, c, now, maxVisitedTasks, pageSize, visited). nat (maxVisitedTasks - visited))") auto

declare gc_loop.simps [simp del]

definition RunTasksGarbageCollection ::
  "pkgs \<Rightarrow> ('d, 's) TasksCore \<Rightarrow> int \<Rightarrow> RunTasksGarbageCollectionRequest \<Rightarrow> ('d, unit response) handler" where
  "RunTasksGarbageCollection P c now req = in_update (tc_badgerStore c)
    (let maxVisitedTasks = orDefault (rtgc_MaxVisitedTasks req) defaultGCMaxVisitedTasks;
         pageSize0 = orDefault (rtgc_PageSize req) defaultGCPageSize;
         pageSize = (if pageSize0 > maxVisitedTasks then maxVisitedTasks else pageSize0) in
     go_seq (gc_loop P c now maxVisitedTasks pageSize 0)
     (go_ret (Commit (Payload ()))))"

section \<open>Restoring a snapshot\<close>

text \<open>
  \<open>taskRestorer.RestoreEntity\<close> on a task already decoded from its stream;
  \<open>owns\<close> is \<open>bounds.Owns\<close>.  The result says whether the entity belongs
  to this core.
\<close>

definition taskRestorer_RestoreEntity ::
  "pkgs \<Rightarrow> ('d, 's) TasksCore \<Rightarrow> Task \<Rightarrow> (ShardKey \<Rightarrow> bool) \<Rightarrow> ('s, bool) go" where
  "taskRestorer_RestoreEntity P c task owns =
    (if \<not> owns (ByAccountAndQueue P (task_acc task) (task_que task)) then go_ret False
     else go_bind (if t_ThreadId task \<noteq> [] then
         go_seq (threadsTable_AddToIndex P (tc_threads c) (task_acc task) (task_que task) (t_ThreadId task)
           (t_ScheduledAt task) (task_tid task))
        (go_bind (threadsTable_Get P (tc_threads c) (task_acc task) (task_que task) (t_ThreadId task)) (\<lambda>thread.
         go_ret (tid_TaskId (th_HeadTaskId thread) = task_tid task)))
       else go_ret True) (\<lambda>isHead.
     go_seq (restoreIndexes P (tc_tasks c) task isHead) (go_ret True)))"

end
