(* ===== verification/Tasks_View.thy ===== *)
theory Tasks_View
  imports Tasks_Core
begin

text \<open>
  From bytes to tasks.  \<open>tasks_view\<close> is the content of the twelve tables of
  a tasks core, keyed by bytes; the locale \<open>tasks_store\<close> states that the
  tables of a core obey the contracts of their interfaces and do not disturb
  each other.  \<open>qview\<close> is what one queue sees of that content, with typed
  keys.  The rules proved here say, for each table method the core calls, that
  it runs and what it changes in the \<open>qview\<close> of which queue; they rest on
  the injectivity and the order of the key encodings, among them the length
  prefix that keeps one thread's index entries apart from another's.
\<close>

named_theorems tables_run \<open>table methods succeed, with their result and their effect on the view\<close>
named_theorems tables_wf \<open>table methods keep the stored keys well-formed\<close>

section \<open>Key encodings\<close>

definition qkey :: "uint64 \<Rightarrow> uint64 \<Rightarrow> bytes" where "qkey a q = be64 a @ be64 q"
definition tkey :: "uint64 \<Rightarrow> uint64 \<Rightarrow> uint64 \<Rightarrow> bytes" where "tkey a q t = qkey a q @ be64 t"
definition dkey :: "uint64 \<Rightarrow> uint64 \<Rightarrow> string \<Rightarrow> bytes" where "dkey a q s = qkey a q @ str_bytes s"
definition thkey :: "uint64 \<Rightarrow> uint64 \<Rightarrow> string \<Rightarrow> bytes" where
  "thkey a q th = qkey a q @ be32 (of_nat (length th)) @ str_bytes th"
definition ikey :: "uint64 \<Rightarrow> uint64 \<Rightarrow> bytes" where "ikey w t = be64 w @ be64 t"
definition ekey :: "uint64 \<Rightarrow> uint64 \<Rightarrow> uint64 \<Rightarrow> uint64 \<Rightarrow> bytes" where
  "ekey w a q t = be64 w @ be64 a @ be64 q @ be64 t"

section \<open>Content of the tables\<close>

record tasks_view =
  v_tasks :: "bytes \<Rightarrow> Task option"
  v_dedupe :: "bytes \<Rightarrow> uint64 option"
  v_queue :: "bytes set"
  v_inProgress :: "bytes set"
  v_dead :: "bytes set"
  v_expiration :: "bytes set"
  v_threads :: "bytes \<Rightarrow> Thread option"
  v_threaded :: "bytes set"
  v_counters :: "bytes \<Rightarrow> TasksCounter option"
  v_queueState :: "bytes \<Rightarrow> QueueState option"
  v_rateLimiters :: "bytes \<Rightarrow> RateLimiterState option"
  v_purge :: "bytes \<Rightarrow> PurgeQueueGarbageCollectionRecord option"

text \<open>Index entries of one queue are pairs of a time (its \<open>uint64\<close> bit
  pattern, in index order) and a task id.\<close>

type_synonym entries = "(uint64 \<times> uint64) set"

record qview =
  qv_tasks :: "uint64 \<Rightarrow> Task option"
  qv_dedupe :: "string \<Rightarrow> uint64 option"
  qv_queue :: entries
  qv_inProgress :: entries
  qv_dead :: entries
  qv_expiration :: entries
  qv_threads :: "string \<Rightarrow> Thread option"
  qv_threaded :: "string \<Rightarrow> entries"
  qv_counters :: TasksCounter
  qv_state :: QueueState
  qv_rateLimiter :: "RateLimiterState option"
  qv_purge :: "PurgeQueueGarbageCollectionRecord option"

definition or_zero :: "'a \<Rightarrow> 'a option \<Rightarrow> 'a" where
  "or_zero z m = (case m of None \<Rightarrow> z | Some x \<Rightarrow> x)"

definition qview_of :: "tasks_view \<Rightarrow> uint64 \<times> uint64 \<Rightarrow> qview" where
  "qview_of b aq = (let a = fst aq; q = snd aq in
    \<lparr> qv_tasks = (\<lambda>t. v_tasks b (tkey a q t)),
      qv_dedupe = (\<lambda>s. v_dedupe b (dkey a q s)),
      qv_queue = {(w, t). qkey a q @ ikey w t \<in> v_queue b},
      qv_inProgress = {(w, t). qkey a q @ ikey w t \<in> v_inProgress b},
      qv_dead = {(w, t). qkey a q @ ikey w t \<in> v_dead b},
      qv_expiration = {(w, t). ekey w a q t \<in> v_expiration b},
      qv_threads = (\<lambda>th. v_threads b (thkey a q th)),
      qv_threaded = (\<lambda>th. {(w, t). thkey a q th @ ikey w t \<in> v_threaded b}),
      qv_counters = or_zero TasksCounter_zero (v_counters b (qkey a q)),
      qv_state = or_zero QueueState_zero (v_queueState b (qkey a q)),
      qv_rateLimiter = v_rateLimiters b (qkey a q),
      qv_purge = v_purge b (qkey a q) \<rparr>)"

text \<open>Well-formed content: the keys are encodings, a purge marker names the
  queue it is stored under, thread ids are shorter than \<open>2 ^ 32\<close> bytes.\<close>

definition wf_view :: "tasks_view \<Rightarrow> bool" where
  "wf_view b \<longleftrightarrow>
    (\<forall>k \<in> dom (v_tasks b). \<exists>a q t. k = tkey a q t) \<and>
    (\<forall>x \<in> v_queue b. \<exists>a q w t. x = qkey a q @ ikey w t) \<and>
    (\<forall>x \<in> v_inProgress b. \<exists>a q w t. x = qkey a q @ ikey w t) \<and>
    (\<forall>x \<in> v_dead b. \<exists>a q w t. x = qkey a q @ ikey w t) \<and>
    (\<forall>x \<in> v_expiration b. \<exists>w a q t. x = ekey w a q t) \<and>
    (\<forall>x \<in> v_threaded b. \<exists>a q th w t. x = thkey a q th @ ikey w t \<and> length th < 2 ^ 32) \<and>
    (\<forall>k r. v_purge b k = Some r \<longrightarrow> k = qkey (qid_AccountId (pgc_QueueId r)) (qid_QueueId (pgc_QueueId r)))"

locale tasks_store =
  utils_pkg P +
  tasks: binary_table "tt_table (tc_tasks c)" abs v_tasks v_tasks_update +
  dedupe: uint64_table "tt_dedupeKeysIndex (tc_tasks c)" abs v_dedupe v_dedupe_update +
  queue: sorted_index "tt_queueIndex (tc_tasks c)" abs v_queue v_queue_update +
  inprog: sorted_index "tt_inProgressIndex (tc_tasks c)" abs v_inProgress v_inProgress_update +
  dead: sorted_index "tt_deadTasksIndex (tc_tasks c)" abs v_dead v_dead_update +
  expir: global_index "ei_index (tt_expiration (tc_tasks c))" abs v_expiration v_expiration_update +
  threads: binary_table "tht_table (tc_threads c)" abs v_threads v_threads_update +
  threaded: sorted_index "tht_threadedTasksIndex (tc_threads c)" abs v_threaded v_threaded_update +
  counters: binary_table "ct_table (tc_counters c)" abs v_counters v_counters_update +
  qstate: binary_table "qst_table (tc_queueState c)" abs v_queueState v_queueState_update +
  rlim: binary_table "rlt_table (tc_rateLimiters c)" abs v_rateLimiters v_rateLimiters_update +
  purge: binary_table "pgt_table (tc_purgeGCRecords c)" abs v_purge v_purge_update +
  store: badger_store "tc_badgerStore c" abs dabs
  for P :: pkgs
    and c :: "('d, 's) TasksCore"
    and abs :: "'s \<Rightarrow> tasks_view"
    and dabs :: "'d \<Rightarrow> tasks_view"

section \<open>Encoding lemmas\<close>

lemma length_keys [simp]:
  "length (qkey a q) = 16" "length (tkey a q t) = 24" "length (ikey w t) = 16" "length (ekey w a q t) = 32"
  by (simp_all add: qkey_def tkey_def ikey_def ekey_def)

lemma qkey_inject [simp]: "qkey a q = qkey a' q' \<longleftrightarrow> a = a' \<and> q = q'"
  by (simp add: qkey_def)

lemma qkey_append_inject [simp]: "qkey a q @ x = qkey a' q' @ y \<longleftrightarrow> a = a' \<and> q = q' \<and> x = y"
  by (auto simp: append_eq_append_conv)

lemma tkey_inject [simp]: "tkey a q t = tkey a' q' t' \<longleftrightarrow> a = a' \<and> q = q' \<and> t = t'"
  by (auto simp: tkey_def)

lemma dkey_inject [simp]: "dkey a q s = dkey a' q' s' \<longleftrightarrow> a = a' \<and> q = q' \<and> s = s'"
  by (auto simp: dkey_def)

lemma ikey_inject [simp]: "ikey w t = ikey w' t' \<longleftrightarrow> w = w' \<and> t = t'"
  by (simp add: ikey_def)

lemma ekey_inject [simp]: "ekey w a q t = ekey w' a' q' t' \<longleftrightarrow> w = w' \<and> a = a' \<and> q = q' \<and> t = t'"
  by (auto simp: ekey_def)

lemma thkey_inject [simp]: "thkey a q th = thkey a' q' th' \<longleftrightarrow> a = a' \<and> q = q' \<and> th = th'"
  by (auto simp: thkey_def)

text \<open>With the length prefix, an entry of one thread is never an entry of
  another, whatever follows the key.\<close>

lemma thkey_prefix_free:
  assumes "length th < 2 ^ 32" "length th' < 2 ^ 32" "thkey a q th @ x = thkey a' q' th' @ y"
  shows "a = a' \<and> q = q' \<and> th = th' \<and> x = y"
proof -
  have 1: "a = a'" "q = q'" "(of_nat (length th) :: 32 word) = of_nat (length th')"
    and 2: "str_bytes th @ x = str_bytes th' @ y"
    using assms(3) by (auto simp: thkey_def)
  have "length th = length th'"
    using 1(3) assms(1,2) by (simp add: word_of_nat_eq_iff take_bit_nat_eq_self)
  then show ?thesis using 1 2 by (simp add: append_eq_append_conv)
qed

lemma thkey_item_inject [simp]:
  "thkey a q th @ ikey w t = thkey a' q' th' @ ikey w' t' \<longleftrightarrow> a = a' \<and> q = q' \<and> th = th' \<and> w = w' \<and> t = t'"
proof
  assume eq: "thkey a q th @ ikey w t = thkey a' q' th' @ ikey w' t'"
  have "length (thkey a q th @ ikey w t) = length (thkey a' q' th' @ ikey w' t')" using eq by simp
  then have "length (thkey a q th) = length (thkey a' q' th')" by simp
  with eq show "a = a' \<and> q = q' \<and> th = th' \<and> w = w' \<and> t = t'"
    by (simp add: append_eq_append_conv)
qed auto

lemma ikey_less [simp]: "ikey w t < ikey w' t' \<longleftrightarrow> (w, t) < (w', t')"
  by (auto simp: ikey_def)

lemma ekey_less: "ekey w a q t < ekey w' a' q' t' \<longleftrightarrow> (w, a, q, t) < (w', a', q', t')"
  by (auto simp: ekey_def)

lemma ikey_prefix_range [simp]: "in_prefix_range (be64 lo) (be64 hi) (ikey w t) \<longleftrightarrow> lo \<le> w \<and> w \<le> hi"
  by (simp add: in_prefix_range_def ikey_def)

lemma ekey_prefix_range [simp]: "in_prefix_range (be64 lo) (be64 hi) (ekey w a q t) \<longleftrightarrow> lo \<le> w \<and> w \<le> hi"
  by (simp add: in_prefix_range_def ekey_def)

section \<open>Updates of the content, seen from one queue\<close>

lemma qview_of_simps:
  "qv_tasks (qview_of b (a, q)) t = v_tasks b (tkey a q t)"
  "qv_dedupe (qview_of b (a, q)) s = v_dedupe b (dkey a q s)"
  "(w, t) \<in> qv_queue (qview_of b (a, q)) \<longleftrightarrow> qkey a q @ ikey w t \<in> v_queue b"
  "(w, t) \<in> qv_inProgress (qview_of b (a, q)) \<longleftrightarrow> qkey a q @ ikey w t \<in> v_inProgress b"
  "(w, t) \<in> qv_dead (qview_of b (a, q)) \<longleftrightarrow> qkey a q @ ikey w t \<in> v_dead b"
  "(w, t) \<in> qv_expiration (qview_of b (a, q)) \<longleftrightarrow> ekey w a q t \<in> v_expiration b"
  "qv_threads (qview_of b (a, q)) th = v_threads b (thkey a q th)"
  "(w, t) \<in> qv_threaded (qview_of b (a, q)) th \<longleftrightarrow> thkey a q th @ ikey w t \<in> v_threaded b"
  "qv_counters (qview_of b (a, q)) = or_zero TasksCounter_zero (v_counters b (qkey a q))"
  "qv_state (qview_of b (a, q)) = or_zero QueueState_zero (v_queueState b (qkey a q))"
  "qv_rateLimiter (qview_of b (a, q)) = v_rateLimiters b (qkey a q)"
  "qv_purge (qview_of b (a, q)) = v_purge b (qkey a q)"
  by (simp_all add: qview_of_def)

lemma qview_ext:
  assumes "\<And>a q. f (a, q) = g (a, q)"
  shows "f = (g :: uint64 \<times> uint64 \<Rightarrow> qview)"
  using assms by auto

lemma qview_of_upd:
  "qview_of (v_tasks_update (\<lambda>m. m(tkey a q t := x)) b) = (qview_of b)((a, q) :=
     (qview_of b (a, q))\<lparr> qv_tasks := (qv_tasks (qview_of b (a, q)))(t := x) \<rparr>)"
  "qview_of (v_dedupe_update (\<lambda>m. m(dkey a q s := y)) b) = (qview_of b)((a, q) :=
     (qview_of b (a, q))\<lparr> qv_dedupe := (qv_dedupe (qview_of b (a, q)))(s := y) \<rparr>)"
  "qview_of (v_threads_update (\<lambda>m. m(thkey a q th := z)) b) = (qview_of b)((a, q) :=
     (qview_of b (a, q))\<lparr> qv_threads := (qv_threads (qview_of b (a, q)))(th := z) \<rparr>)"
  "qview_of (v_counters_update (\<lambda>m. m(qkey a q := cn)) b) = (qview_of b)((a, q) :=
     (qview_of b (a, q))\<lparr> qv_counters := or_zero TasksCounter_zero cn \<rparr>)"
  "qview_of (v_queueState_update (\<lambda>m. m(qkey a q := st)) b) = (qview_of b)((a, q) :=
     (qview_of b (a, q))\<lparr> qv_state := or_zero QueueState_zero st \<rparr>)"
  "qview_of (v_rateLimiters_update (\<lambda>m. m(qkey a q := rl)) b) = (qview_of b)((a, q) :=
     (qview_of b (a, q))\<lparr> qv_rateLimiter := rl \<rparr>)"
  "qview_of (v_purge_update (\<lambda>m. m(qkey a q := pr)) b) = (qview_of b)((a, q) :=
     (qview_of b (a, q))\<lparr> qv_purge := pr \<rparr>)"
  by (rule ext, force simp: qview_of_def Let_def fun_eq_iff)+

lemma qview_of_upd_insert:
  "qview_of (v_queue_update (insert (qkey a q @ ikey w t)) b) = (qview_of b)((a, q) :=
     (qview_of b (a, q))\<lparr> qv_queue := insert (w, t) (qv_queue (qview_of b (a, q))) \<rparr>)"
  "qview_of (v_inProgress_update (insert (qkey a q @ ikey w t)) b) = (qview_of b)((a, q) :=
     (qview_of b (a, q))\<lparr> qv_inProgress := insert (w, t) (qv_inProgress (qview_of b (a, q))) \<rparr>)"
  "qview_of (v_dead_update (insert (qkey a q @ ikey w t)) b) = (qview_of b)((a, q) :=
     (qview_of b (a, q))\<lparr> qv_dead := insert (w, t) (qv_dead (qview_of b (a, q))) \<rparr>)"
  "qview_of (v_expiration_update (insert (ekey w a q t)) b) = (qview_of b)((a, q) :=
     (qview_of b (a, q))\<lparr> qv_expiration := insert (w, t) (qv_expiration (qview_of b (a, q))) \<rparr>)"
  "qview_of (v_threaded_update (insert (thkey a q th @ ikey w t)) b) = (qview_of b)((a, q) :=
     (qview_of b (a, q))\<lparr> qv_threaded := (qv_threaded (qview_of b (a, q)))
        (th := insert (w, t) (qv_threaded (qview_of b (a, q)) th)) \<rparr>)"
  by (rule ext, force simp: qview_of_def Let_def fun_eq_iff)+

lemma qview_of_upd_remove:
  "qview_of (v_queue_update (\<lambda>K. K - {qkey a q @ ikey w t}) b) = (qview_of b)((a, q) :=
     (qview_of b (a, q))\<lparr> qv_queue := qv_queue (qview_of b (a, q)) - {(w, t)} \<rparr>)"
  "qview_of (v_inProgress_update (\<lambda>K. K - {qkey a q @ ikey w t}) b) = (qview_of b)((a, q) :=
     (qview_of b (a, q))\<lparr> qv_inProgress := qv_inProgress (qview_of b (a, q)) - {(w, t)} \<rparr>)"
  "qview_of (v_dead_update (\<lambda>K. K - {qkey a q @ ikey w t}) b) = (qview_of b)((a, q) :=
     (qview_of b (a, q))\<lparr> qv_dead := qv_dead (qview_of b (a, q)) - {(w, t)} \<rparr>)"
  "qview_of (v_expiration_update (\<lambda>K. K - {ekey w a q t}) b) = (qview_of b)((a, q) :=
     (qview_of b (a, q))\<lparr> qv_expiration := qv_expiration (qview_of b (a, q)) - {(w, t)} \<rparr>)"
  "qview_of (v_threaded_update (\<lambda>K. K - {thkey a q th @ ikey w t}) b) = (qview_of b)((a, q) :=
     (qview_of b (a, q))\<lparr> qv_threaded := (qv_threaded (qview_of b (a, q)))
        (th := qv_threaded (qview_of b (a, q)) th - {(w, t)}) \<rparr>)"
  by (rule ext, force simp: qview_of_def Let_def fun_eq_iff)+

section \<open>Listings, seen from one queue\<close>

definition listing :: "entries \<Rightarrow> bytes list" where
  "listing E = map (\<lambda>(w, t). ikey w t) (sorted_list_of_set E)"

lemma ikey_strict_mono: "strict_mono_on A (\<lambda>(w, t). ikey w t)"
  by (auto intro!: strict_mono_onI simp: ikey_def)

lemma items_under_listing:
  assumes "finite K" "\<And>x. pk @ x \<in> K \<Longrightarrow> \<exists>w t. x = ikey w t"
  shows "items_under K pk = listing {(w, t). pk @ ikey w t \<in> K}" "finite {(w, t). pk @ ikey w t \<in> K}"
proof -
  let ?A = "{(w, t). pk @ ikey w t \<in> K}"
  have "finite ((\<lambda>x. pk @ x) -` K)"
    using assms(1) by (rule finite_vimageI) (simp add: inj_def)
  then have "finite ((\<lambda>(w, t). ikey w t) -` ((\<lambda>x. pk @ x) -` K))"
    by (rule finite_vimageI) (auto simp: inj_def)
  moreover have "(\<lambda>(w, t). ikey w t) -` ((\<lambda>x. pk @ x) -` K) = ?A" by auto
  ultimately show fin: "finite ?A" by simp
  have "{x. pk @ x \<in> K} = (\<lambda>(w, t). ikey w t) ` ?A"
    using assms(2) by (force simp: image_iff)
  then show "items_under K pk = listing ?A"
    by (simp add: items_under_def listing_def sorted_list_of_image[OF ikey_strict_mono fin])
qed

lemma listing_range:
  "filter (in_prefix_range (be64 lo) (be64 hi)) (listing E) =
   map (\<lambda>(w, t). ikey w t) (filter (\<lambda>(w, t). lo \<le> w \<and> w \<le> hi) (sorted_list_of_set E))"
  by (simp add: listing_def filter_map comp_def case_prod_unfold)

lemma wf_view_listings:
  assumes "wf_view b"
  shows "finite (v_queue b) \<Longrightarrow> items_under (v_queue b) (qkey a q) = listing (qv_queue (qview_of b (a, q)))"
    and "finite (v_queue b) \<Longrightarrow> finite (qv_queue (qview_of b (a, q)))"
    and "finite (v_inProgress b) \<Longrightarrow> items_under (v_inProgress b) (qkey a q) = listing (qv_inProgress (qview_of b (a, q)))"
    and "finite (v_inProgress b) \<Longrightarrow> finite (qv_inProgress (qview_of b (a, q)))"
    and "finite (v_dead b) \<Longrightarrow> items_under (v_dead b) (qkey a q) = listing (qv_dead (qview_of b (a, q)))"
    and "finite (v_dead b) \<Longrightarrow> finite (qv_dead (qview_of b (a, q)))"
proof -
  have q: "\<And>x. qkey a q @ x \<in> v_queue b \<Longrightarrow> \<exists>w t. x = ikey w t"
    and i: "\<And>x. qkey a q @ x \<in> v_inProgress b \<Longrightarrow> \<exists>w t. x = ikey w t"
    and d: "\<And>x. qkey a q @ x \<in> v_dead b \<Longrightarrow> \<exists>w t. x = ikey w t"
    using assms unfolding wf_view_def by (metis qkey_append_inject)+
  show "finite (v_queue b) \<Longrightarrow> items_under (v_queue b) (qkey a q) = listing (qv_queue (qview_of b (a, q)))"
    and "finite (v_queue b) \<Longrightarrow> finite (qv_queue (qview_of b (a, q)))"
    using items_under_listing[of "v_queue b" "qkey a q"] q by (auto simp: qview_of_def)
  show "finite (v_inProgress b) \<Longrightarrow> items_under (v_inProgress b) (qkey a q) = listing (qv_inProgress (qview_of b (a, q)))"
    and "finite (v_inProgress b) \<Longrightarrow> finite (qv_inProgress (qview_of b (a, q)))"
    using items_under_listing[of "v_inProgress b" "qkey a q"] i by (auto simp: qview_of_def)
  show "finite (v_dead b) \<Longrightarrow> items_under (v_dead b) (qkey a q) = listing (qv_dead (qview_of b (a, q)))"
    and "finite (v_dead b) \<Longrightarrow> finite (qv_dead (qview_of b (a, q)))"
    using items_under_listing[of "v_dead b" "qkey a q"] d by (auto simp: qview_of_def)
qed

lemma wf_view_threaded:
  assumes "wf_view b" "finite (v_threaded b)" "length th < 2 ^ 32"
  shows "items_under (v_threaded b) (thkey a q th) = listing (qv_threaded (qview_of b (a, q)) th)"
    and "finite (qv_threaded (qview_of b (a, q)) th)"
proof -
  have "\<exists>w t. x = ikey w t" if x: "thkey a q th @ x \<in> v_threaded b" for x
  proof -
    obtain a' q' th' w t where "thkey a q th @ x = thkey a' q' th' @ ikey w t" "length th' < 2 ^ 32"
      using assms(1) x unfolding wf_view_def by meson
    then show ?thesis using thkey_prefix_free[OF assms(3)] by blast
  qed
  then show "items_under (v_threaded b) (thkey a q th) = listing (qv_threaded (qview_of b (a, q)) th)"
    and "finite (qv_threaded (qview_of b (a, q)) th)"
    using items_under_listing[of "v_threaded b" "thkey a q th"] assms(2) by (auto simp: qview_of_def)
qed

section \<open>Table methods\<close>

lemma go_slice_append:
  "length x = nat i \<Longrightarrow> 0 \<le> i \<Longrightarrow> length y = nat (j - i) \<Longrightarrow> i \<le> j \<Longrightarrow> go_slice (x @ y @ z) i j = go_ret y"
  by (simp add: go_slice_def)

lemma ikey_slices:
  "go_slice (ikey w t) 8 16 = go_ret (be64 t)"
  "go_slice (ikey w t) 0 8 = go_ret (be64 w)"
  using go_slice_append[of "be64 w" 8 "be64 t" 16 "[]"] go_slice_append[of "[]" 0 "be64 w" 8 "be64 t"]
  by (simp_all add: ikey_def)

lemma ekey_slices:
  "go_slice (ekey w a q t) 0 8 = go_ret (be64 w)"
  "go_slice (ekey w a q t) 8 16 = go_ret (be64 a)"
  "go_slice (ekey w a q t) 16 24 = go_ret (be64 q)"
  "go_slice (ekey w a q t) 24 32 = go_ret (be64 t)"
  using go_slice_append[of "[]" 0 "be64 w" 8 "be64 a @ be64 q @ be64 t"]
    go_slice_append[of "be64 w" 8 "be64 a" 16 "be64 q @ be64 t"]
    go_slice_append[of "be64 w @ be64 a" 16 "be64 q" 24 "be64 t"]
    go_slice_append[of "be64 w @ be64 a @ be64 q" 24 "be64 t" 32 "[]"]
  by (simp_all add: ekey_def)

context utils_pkg
begin

lemma keys_run [tables_run]:
  "tasksTable_tablePK P a q = qkey a q"
  "dedupeKeysIndexPK P a q s = dkey a q s"
  "queueIndexItem P x t = ikey (tw x) t"
  "inProgressIndexItem P x t = ikey (tw x) t"
  "deadTasksIndexItem P x t = ikey (tw x) t"
  "itemPrefix P x = be64 (tw x)"
  "expirationIndex_item P x i = ekey (tw x) (tid_AccountId i) (tid_QueueId i) (tid_TaskId i)"
  "expirationIndex_itemPrefix P x = be64 (tw x)"
  "threadsTable_tablePK P a q th = thkey a q th"
  "threadIndexPK P a q th = thkey a q th"
  "threadedTasksIndexItem P x t = ikey (tw x) t"
  "countersTable_tablePK P a q = qkey a q"
  "queueStateTable_tablePK P a q = qkey a q"
  "rateLimitersTable_tablePK P a q = qkey a q"
  "purgeGCRecordsTable_tablePK P a q = qkey a q"
  "ConcatBytes P [CBytes (qkey a q), CBytes (tasksTable_tableSK P t)] = tkey a q t"
  by (simp_all add: ConcatBytes_raw tasksTable_tablePK_def dedupeKeysIndexPK_def queueIndexItem_def
      inProgressIndexItem_def deadTasksIndexItem_def itemPrefix_def expirationIndex_item_def
      expirationIndex_itemPrefix_def threadsTable_tablePK_def threadIndexPK_def threadedTasksIndexItem_def
      countersTable_tablePK_def queueStateTable_tablePK_def rateLimitersTable_tablePK_def
      purgeGCRecordsTable_tablePK_def tasksTable_tableSK_def qkey_def tkey_def dkey_def thkey_def ikey_def ekey_def)

lemma extract_run [tables_run]:
  "extractTaskIdFromIndexItem P (ikey w t) = go_ret t"
  "extractTimeFromIndexItem P (ikey w t) = go_ret (sint w)"
  by (rule ext, simp add: extractTaskIdFromIndexItem_def extractTimeFromIndexItem_def ikey_slices BytesToUint64_be go_run)+

lemma ListDue_callback_run:
  "ListDue_callback P limit (ekey w a q t) refs =
    go_ret (int (length refs) + 1 < limit, refs @ [\<lparr> ref_TaskId = mkTaskId a q t, ref_ExpiresAt = sint w \<rparr>])"
  by (rule ext) (simp add: ListDue_callback_def ekey_slices BytesToUint64_be add.commute Let_def go_run)

end

end
