(* ===== verification/Tasks_Run.thy ===== *)
theory Tasks_Run
  imports Tasks_View
begin

text \<open>
  The table methods of the tasks core over a store that obeys the contracts
  (locale \<open>tasks_store\<close>): each one runs, and its effect is an update of
  the \<open>qview\<close> of one queue.  \<open>Q s\<close> is the typed content of the open
  transaction \<open>s\<close>, \<open>W s\<close> says that its keys are well-formed.
\<close>

lemma wf_view_upd:
  assumes "wf_view b"
  shows "wf_view (v_tasks_update (\<lambda>m. m(tkey a q t := x)) b)"
    and "wf_view (v_dedupe_update f1 b)"
    and "wf_view (v_threads_update f2 b)"
    and "wf_view (v_counters_update f3 b)"
    and "wf_view (v_queueState_update f4 b)"
    and "wf_view (v_rateLimiters_update f5 b)"
    and "wf_view (v_queue_update (insert (qkey a q @ ikey w t)) b)"
    and "wf_view (v_inProgress_update (insert (qkey a q @ ikey w t)) b)"
    and "wf_view (v_dead_update (insert (qkey a q @ ikey w t)) b)"
    and "wf_view (v_expiration_update (insert (ekey w a q t)) b)"
    and "wf_view (v_queue_update (\<lambda>K. K - A) b)"
    and "wf_view (v_inProgress_update (\<lambda>K. K - A) b)"
    and "wf_view (v_dead_update (\<lambda>K. K - A) b)"
    and "wf_view (v_expiration_update (\<lambda>K. K - A) b)"
    and "wf_view (v_threaded_update (\<lambda>K. K - A) b)"
    and "length th < 2 ^ 32 \<Longrightarrow> wf_view (v_threaded_update (insert (thkey a q th @ ikey w t)) b)"
    and "wf_view (v_purge_update (\<lambda>m. m(k := None)) b)"
    and "wf_view (v_purge_update (\<lambda>m. m(qkey a q \<mapsto> \<lparr> pgc_QueueId = \<lparr> qid_AccountId = a, qid_QueueId = q \<rparr> \<rparr>)) b)"
  using assms unfolding wf_view_def by (simp_all add: dom_def)

lemma qview_zero:
  "v_counters b (qkey a q) = None \<Longrightarrow> (qview_of b (a, q))\<lparr> qv_counters := TasksCounter_zero \<rparr> = qview_of b (a, q)"
  "v_queueState b (qkey a q) = None \<Longrightarrow> (qview_of b (a, q))\<lparr> qv_state := QueueState_zero \<rparr> = qview_of b (a, q)"
  "v_rateLimiters b (qkey a q) = None \<Longrightarrow> (qview_of b (a, q))\<lparr> qv_rateLimiter := None \<rparr> = qview_of b (a, q)"
  by (simp_all add: qview_of_def or_zero_def)

context tasks_store
begin

abbreviation Q :: "'s \<Rightarrow> uint64 \<times> uint64 \<Rightarrow> qview" where
  "Q s \<equiv> qview_of (abs s)"

abbreviation W :: "'s \<Rightarrow> bool" where
  "W s \<equiv> wf_view (abs s)"

section \<open>Reads\<close>

lemma tasksTable_Get_run [tables_run]:
  "tasksTable_Get P (tc_tasks c) i s =
    (case qv_tasks (Q s (tid_AccountId i, tid_QueueId i)) (tid_TaskId i) of
       None \<Rightarrow> Inl ErrNotFound | Some k \<Rightarrow> Inr (k, s))"
  by (simp add: tasksTable_Get_def keys_run tasks.Get qview_of_simps)

lemma dedupe_Get_run [tables_run]:
  "ut_Get (tt_dedupeKeysIndex (tc_tasks c)) (dkey a q x) s =
    (case qv_dedupe (Q s (a, q)) x of None \<Rightarrow> Inl ErrNotFound | Some t \<Rightarrow> Inr (t, s))"
  by (simp add: dedupe.Get qview_of_simps)

lemma threadsTable_Get_run [tables_run]:
  "threadsTable_Get P (tc_threads c) a q th s =
    (case qv_threads (Q s (a, q)) th of None \<Rightarrow> Inl ErrNotFound | Some k \<Rightarrow> Inr (k, s))"
  by (simp add: threadsTable_Get_def keys_run threads.Get qview_of_simps)

lemma countersTable_Get_run [tables_run]:
  "countersTable_Get P (tc_counters c) a q s = Inr (qv_counters (Q s (a, q)), s)"
  by (simp add: countersTable_Get_def keys_run counters.Get qview_of_simps or_zero_def go_run split: option.split)

lemma queueStateTable_Get_run [tables_run]:
  "queueStateTable_Get P (tc_queueState c) a q s = Inr (qv_state (Q s (a, q)), s)"
  by (simp add: queueStateTable_Get_def keys_run qstate.Get qview_of_simps or_zero_def go_run split: option.split)

lemma rateLimitersTable_GetOrDefault_run [tables_run]:
  "rateLimitersTable_GetOrDefault P (tc_rateLimiters c) a q r now s = Inr
    (case qv_rateLimiter (Q s (a, q)) of
       None \<Rightarrow> \<lparr> rl_Tokens = tb_MaxTokens r, rl_LastRefilledAt = now \<rparr> | Some st \<Rightarrow> st, s)"
  by (simp add: rateLimitersTable_GetOrDefault_def keys_run rlim.Get qview_of_simps go_run split: option.split)

lemma purgeGCRecordsTable_Exists_run [tables_run]:
  "purgeGCRecordsTable_Exists P (tc_purgeGCRecords c) a q s = Inr (qv_purge (Q s (a, q)) \<noteq> None, s)"
  by (simp add: purgeGCRecordsTable_Exists_def keys_run purge.Get qview_of_simps go_run split: option.split)

section \<open>Writes\<close>

lemma tasksTable_set_run [tables_run]:
  "tasksTable_set P (tc_tasks c) k s = Inr ((), go_out (tasksTable_set P (tc_tasks c) k) s)"
  "Q (go_out (tasksTable_set P (tc_tasks c) k) s) = (Q s)((task_acc k, task_que k) :=
     (Q s (task_acc k, task_que k))\<lparr> qv_tasks := (qv_tasks (Q s (task_acc k, task_que k)))(task_tid k \<mapsto> k) \<rparr>)"
  using tasks.Set_run[of "tkey (task_acc k) (task_que k) (task_tid k)" k s]
  by (simp_all add: tasksTable_set_def keys_run qview_of_upd)

lemma tasksTable_delete_run [tables_run]:
  assumes "qv_tasks (Q s (tid_AccountId i, tid_QueueId i)) (tid_TaskId i) \<noteq> None"
  shows "tasksTable_delete P (tc_tasks c) i s = Inr ((), go_out (tasksTable_delete P (tc_tasks c) i) s)"
    and "Q (go_out (tasksTable_delete P (tc_tasks c) i) s) = (Q s)((tid_AccountId i, tid_QueueId i) :=
     (Q s (tid_AccountId i, tid_QueueId i))\<lparr> qv_tasks := (qv_tasks (Q s (tid_AccountId i, tid_QueueId i)))(tid_TaskId i := None) \<rparr>)"
  using tasks.Delete_run[of s "tkey (tid_AccountId i) (tid_QueueId i) (tid_TaskId i)"] assms
  by (auto simp: tasksTable_delete_def keys_run qview_of_simps qview_of_upd)

lemma dedupe_Set_run [tables_run]:
  "ut_Set (tt_dedupeKeysIndex (tc_tasks c)) (dkey a q x) t s =
     Inr ((), go_out (ut_Set (tt_dedupeKeysIndex (tc_tasks c)) (dkey a q x) t) s)"
  "Q (go_out (ut_Set (tt_dedupeKeysIndex (tc_tasks c)) (dkey a q x) t) s) = (Q s)((a, q) :=
     (Q s (a, q))\<lparr> qv_dedupe := (qv_dedupe (Q s (a, q)))(x \<mapsto> t) \<rparr>)"
  using dedupe.Set_run[of "dkey a q x" t s] by (simp_all add: qview_of_upd)

lemma dedupe_Delete_run [tables_run]:
  assumes "qv_dedupe (Q s (a, q)) x \<noteq> None"
  shows "ut_Delete (tt_dedupeKeysIndex (tc_tasks c)) (dkey a q x) s =
     Inr ((), go_out (ut_Delete (tt_dedupeKeysIndex (tc_tasks c)) (dkey a q x)) s)"
    and "Q (go_out (ut_Delete (tt_dedupeKeysIndex (tc_tasks c)) (dkey a q x)) s) = (Q s)((a, q) :=
     (Q s (a, q))\<lparr> qv_dedupe := (qv_dedupe (Q s (a, q)))(x := None) \<rparr>)"
  using dedupe.Delete_run[of s "dkey a q x"] assms by (auto simp: qview_of_simps qview_of_upd)

lemma queueIndex_run [tables_run]:
  "oi_Add (tt_queueIndex (tc_tasks c)) (qkey a q) (ikey w t) s =
     Inr ((), go_out (oi_Add (tt_queueIndex (tc_tasks c)) (qkey a q) (ikey w t)) s)"
  "Q (go_out (oi_Add (tt_queueIndex (tc_tasks c)) (qkey a q) (ikey w t)) s) = (Q s)((a, q) :=
     (Q s (a, q))\<lparr> qv_queue := insert (w, t) (qv_queue (Q s (a, q))) \<rparr>)"
  "oi_Delete (tt_queueIndex (tc_tasks c)) (qkey a q) (ikey w t) s =
     Inr ((), go_out (oi_Delete (tt_queueIndex (tc_tasks c)) (qkey a q) (ikey w t)) s)"
  "Q (go_out (oi_Delete (tt_queueIndex (tc_tasks c)) (qkey a q) (ikey w t)) s) = (Q s)((a, q) :=
     (Q s (a, q))\<lparr> qv_queue := qv_queue (Q s (a, q)) - {(w, t)} \<rparr>)"
  using queue.Add_run[of "qkey a q" "ikey w t" s] queue.Delete_run[of "qkey a q" "ikey w t" s]
  by (simp_all add: qview_of_upd_insert qview_of_upd_remove)

lemma inProgressIndex_run [tables_run]:
  "oi_Add (tt_inProgressIndex (tc_tasks c)) (qkey a q) (ikey w t) s =
     Inr ((), go_out (oi_Add (tt_inProgressIndex (tc_tasks c)) (qkey a q) (ikey w t)) s)"
  "Q (go_out (oi_Add (tt_inProgressIndex (tc_tasks c)) (qkey a q) (ikey w t)) s) = (Q s)((a, q) :=
     (Q s (a, q))\<lparr> qv_inProgress := insert (w, t) (qv_inProgress (Q s (a, q))) \<rparr>)"
  "oi_Delete (tt_inProgressIndex (tc_tasks c)) (qkey a q) (ikey w t) s =
     Inr ((), go_out (oi_Delete (tt_inProgressIndex (tc_tasks c)) (qkey a q) (ikey w t)) s)"
  "Q (go_out (oi_Delete (tt_inProgressIndex (tc_tasks c)) (qkey a q) (ikey w t)) s) = (Q s)((a, q) :=
     (Q s (a, q))\<lparr> qv_inProgress := qv_inProgress (Q s (a, q)) - {(w, t)} \<rparr>)"
  using inprog.Add_run[of "qkey a q" "ikey w t" s] inprog.Delete_run[of "qkey a q" "ikey w t" s]
  by (simp_all add: qview_of_upd_insert qview_of_upd_remove)

lemma deadTasksIndex_run [tables_run]:
  "oi_Add (tt_deadTasksIndex (tc_tasks c)) (qkey a q) (ikey w t) s =
     Inr ((), go_out (oi_Add (tt_deadTasksIndex (tc_tasks c)) (qkey a q) (ikey w t)) s)"
  "Q (go_out (oi_Add (tt_deadTasksIndex (tc_tasks c)) (qkey a q) (ikey w t)) s) = (Q s)((a, q) :=
     (Q s (a, q))\<lparr> qv_dead := insert (w, t) (qv_dead (Q s (a, q))) \<rparr>)"
  "oi_Delete (tt_deadTasksIndex (tc_tasks c)) (qkey a q) (ikey w t) s =
     Inr ((), go_out (oi_Delete (tt_deadTasksIndex (tc_tasks c)) (qkey a q) (ikey w t)) s)"
  "Q (go_out (oi_Delete (tt_deadTasksIndex (tc_tasks c)) (qkey a q) (ikey w t)) s) = (Q s)((a, q) :=
     (Q s (a, q))\<lparr> qv_dead := qv_dead (Q s (a, q)) - {(w, t)} \<rparr>)"
  using dead.Add_run[of "qkey a q" "ikey w t" s] dead.Delete_run[of "qkey a q" "ikey w t" s]
  by (simp_all add: qview_of_upd_insert qview_of_upd_remove)

lemma expirationIndex_run [tables_run]:
  "expirationIndex_add P (tt_expiration (tc_tasks c)) i x s =
     Inr ((), go_out (expirationIndex_add P (tt_expiration (tc_tasks c)) i x) s)"
  "Q (go_out (expirationIndex_add P (tt_expiration (tc_tasks c)) i x) s) = (Q s)((tid_AccountId i, tid_QueueId i) :=
     (Q s (tid_AccountId i, tid_QueueId i))\<lparr> qv_expiration :=
        insert (tw x, tid_TaskId i) (qv_expiration (Q s (tid_AccountId i, tid_QueueId i))) \<rparr>)"
  "expirationIndex_remove P (tt_expiration (tc_tasks c)) i x s =
     Inr ((), go_out (expirationIndex_remove P (tt_expiration (tc_tasks c)) i x) s)"
  "Q (go_out (expirationIndex_remove P (tt_expiration (tc_tasks c)) i x) s) = (Q s)((tid_AccountId i, tid_QueueId i) :=
     (Q s (tid_AccountId i, tid_QueueId i))\<lparr> qv_expiration :=
        qv_expiration (Q s (tid_AccountId i, tid_QueueId i)) - {(tw x, tid_TaskId i)} \<rparr>)"
  using expir.Add_run[of "ekey (tw x) (tid_AccountId i) (tid_QueueId i) (tid_TaskId i)" s]
    expir.Delete_run[of "ekey (tw x) (tid_AccountId i) (tid_QueueId i) (tid_TaskId i)" s]
  by (simp_all add: expirationIndex_add_def expirationIndex_remove_def keys_run qview_of_upd_insert qview_of_upd_remove)

lemma threadsTable_set_run [tables_run]:
  "threadsTable_set P (tc_threads c) a q th s = Inr ((), go_out (threadsTable_set P (tc_threads c) a q th) s)"
  "Q (go_out (threadsTable_set P (tc_threads c) a q th) s) = (Q s)((a, q) :=
     (Q s (a, q))\<lparr> qv_threads := (qv_threads (Q s (a, q)))(th_ThreadId th \<mapsto> th) \<rparr>)"
  using threads.Set_run[of "thkey a q (th_ThreadId th)" th s]
  by (simp_all add: threadsTable_set_def keys_run qview_of_upd)

lemma threadsTable_Delete_run [tables_run]:
  assumes "qv_threads (Q s (a, q)) th \<noteq> None"
  shows "threadsTable_Delete P (tc_threads c) a q th s = Inr ((), go_out (threadsTable_Delete P (tc_threads c) a q th) s)"
    and "Q (go_out (threadsTable_Delete P (tc_threads c) a q th) s) = (Q s)((a, q) :=
     (Q s (a, q))\<lparr> qv_threads := (qv_threads (Q s (a, q)))(th := None) \<rparr>)"
  using threads.Delete_run[of s "thkey a q th"] assms
  by (auto simp: threadsTable_Delete_def keys_run qview_of_simps qview_of_upd)

lemma threadedTasksIndex_run [tables_run]:
  "threadsTable_AddToIndex P (tc_threads c) a q th x t s =
     Inr ((), go_out (threadsTable_AddToIndex P (tc_threads c) a q th x t) s)"
  "Q (go_out (threadsTable_AddToIndex P (tc_threads c) a q th x t) s) = (Q s)((a, q) :=
     (Q s (a, q))\<lparr> qv_threaded := (qv_threaded (Q s (a, q)))
        (th := insert (tw x, t) (qv_threaded (Q s (a, q)) th)) \<rparr>)"
  "threadsTable_RemoveFromIndex P (tc_threads c) a q th x t s =
     Inr ((), go_out (threadsTable_RemoveFromIndex P (tc_threads c) a q th x t) s)"
  "Q (go_out (threadsTable_RemoveFromIndex P (tc_threads c) a q th x t) s) = (Q s)((a, q) :=
     (Q s (a, q))\<lparr> qv_threaded := (qv_threaded (Q s (a, q)))
        (th := qv_threaded (Q s (a, q)) th - {(tw x, t)}) \<rparr>)"
  using threaded.Add_run[of "thkey a q th" "ikey (tw x) t" s] threaded.Delete_run[of "thkey a q th" "ikey (tw x) t" s]
  by (simp_all add: threadsTable_AddToIndex_def threadsTable_RemoveFromIndex_def keys_run
      qview_of_upd_insert qview_of_upd_remove)

lemma countersTable_Set_run [tables_run]:
  "countersTable_Set P (tc_counters c) a q cn s = Inr ((), go_out (countersTable_Set P (tc_counters c) a q cn) s)"
  "Q (go_out (countersTable_Set P (tc_counters c) a q cn) s) = (Q s)((a, q) := (Q s (a, q))\<lparr> qv_counters := cn \<rparr>)"
  using counters.Set_run[of "qkey a q" cn s]
  by (simp_all add: countersTable_Set_def keys_run qview_of_upd or_zero_def)

lemma queueStateTable_Set_run [tables_run]:
  "queueStateTable_Set P (tc_queueState c) a q st s = Inr ((), go_out (queueStateTable_Set P (tc_queueState c) a q st) s)"
  "Q (go_out (queueStateTable_Set P (tc_queueState c) a q st) s) = (Q s)((a, q) := (Q s (a, q))\<lparr> qv_state := st \<rparr>)"
  using qstate.Set_run[of "qkey a q" st s]
  by (simp_all add: queueStateTable_Set_def keys_run qview_of_upd or_zero_def)

lemma rateLimitersTable_Set_run [tables_run]:
  "rateLimitersTable_Set P (tc_rateLimiters c) a q st s = Inr ((), go_out (rateLimitersTable_Set P (tc_rateLimiters c) a q st) s)"
  "Q (go_out (rateLimitersTable_Set P (tc_rateLimiters c) a q st) s) = (Q s)((a, q) := (Q s (a, q))\<lparr> qv_rateLimiter := Some st \<rparr>)"
  using rlim.Set_run[of "qkey a q" st s]
  by (simp_all add: rateLimitersTable_Set_def keys_run qview_of_upd)

lemma countersTable_Delete_run [tables_run]:
  "countersTable_Delete P (tc_counters c) a q s = Inr ((), go_out (countersTable_Delete P (tc_counters c) a q) s)"
  "Q (go_out (countersTable_Delete P (tc_counters c) a q) s) = (Q s)((a, q) := (Q s (a, q))\<lparr> qv_counters := TasksCounter_zero \<rparr>)"
  using counters.Delete_absent[of s "qkey a q"] counters.Delete_present[of s "qkey a q"]
  by (cases "v_counters (abs s) (qkey a q)";
      auto simp: countersTable_Delete_def keys_run go_run go_out_def qview_of_upd or_zero_def qview_zero)+

lemma queueStateTable_Delete_run [tables_run]:
  "queueStateTable_Delete P (tc_queueState c) a q s = Inr ((), go_out (queueStateTable_Delete P (tc_queueState c) a q) s)"
  "Q (go_out (queueStateTable_Delete P (tc_queueState c) a q) s) = (Q s)((a, q) := (Q s (a, q))\<lparr> qv_state := QueueState_zero \<rparr>)"
  using qstate.Delete_absent[of s "qkey a q"] qstate.Delete_present[of s "qkey a q"]
  by (cases "v_queueState (abs s) (qkey a q)";
      auto simp: queueStateTable_Delete_def keys_run go_run go_out_def qview_of_upd or_zero_def qview_zero)+

lemma rateLimitersTable_Delete_run [tables_run]:
  "rateLimitersTable_Delete P (tc_rateLimiters c) a q s = Inr ((), go_out (rateLimitersTable_Delete P (tc_rateLimiters c) a q) s)"
  "Q (go_out (rateLimitersTable_Delete P (tc_rateLimiters c) a q) s) = (Q s)((a, q) := (Q s (a, q))\<lparr> qv_rateLimiter := None \<rparr>)"
  using rlim.Delete_absent[of s "qkey a q"] rlim.Delete_present[of s "qkey a q"]
  by (cases "v_rateLimiters (abs s) (qkey a q)";
      auto simp: rateLimitersTable_Delete_def keys_run go_run go_out_def qview_of_upd or_zero_def qview_zero)+

lemma purgeGCRecordsTable_run [tables_run]:
  "purgeGCRecordsTable_Create P (tc_purgeGCRecords c) r s = Inr ((), go_out (purgeGCRecordsTable_Create P (tc_purgeGCRecords c) r) s)"
  "Q (go_out (purgeGCRecordsTable_Create P (tc_purgeGCRecords c) r) s) =
    (Q s)((qid_AccountId (pgc_QueueId r), qid_QueueId (pgc_QueueId r)) :=
      (Q s (qid_AccountId (pgc_QueueId r), qid_QueueId (pgc_QueueId r)))\<lparr> qv_purge := Some r \<rparr>)"
  using purge.Set_run[of "qkey (qid_AccountId (pgc_QueueId r)) (qid_QueueId (pgc_QueueId r))" r s]
  by (simp_all add: purgeGCRecordsTable_Create_def keys_run qview_of_upd)

lemma purgeGCRecordsTable_Delete_run [tables_run]:
  assumes "qv_purge (Q s (qid_AccountId (pgc_QueueId r), qid_QueueId (pgc_QueueId r))) \<noteq> None"
  shows "purgeGCRecordsTable_Delete P (tc_purgeGCRecords c) r s = Inr ((), go_out (purgeGCRecordsTable_Delete P (tc_purgeGCRecords c) r) s)"
  and "Q (go_out (purgeGCRecordsTable_Delete P (tc_purgeGCRecords c) r) s) =
    (Q s)((qid_AccountId (pgc_QueueId r), qid_QueueId (pgc_QueueId r)) :=
      (Q s (qid_AccountId (pgc_QueueId r), qid_QueueId (pgc_QueueId r)))\<lparr> qv_purge := None \<rparr>)"
  using purge.Delete_run[of s "qkey (qid_AccountId (pgc_QueueId r)) (qid_QueueId (pgc_QueueId r))"] assms
  by (auto simp: purgeGCRecordsTable_Delete_def keys_run qview_of_simps qview_of_upd)

section \<open>Well-formed keys\<close>

lemma tables_keep_wf [tables_wf]:
  assumes "W s"
  shows "W (go_out (tasksTable_set P (tc_tasks c) k) s)"
    and "W (go_out (ut_Set (tt_dedupeKeysIndex (tc_tasks c)) (dkey a q x) t) s)"
    and "W (go_out (oi_Add (tt_queueIndex (tc_tasks c)) (qkey a q) (ikey w t)) s)"
    and "W (go_out (oi_Delete (tt_queueIndex (tc_tasks c)) (qkey a q) (ikey w t)) s)"
    and "W (go_out (oi_Add (tt_inProgressIndex (tc_tasks c)) (qkey a q) (ikey w t)) s)"
    and "W (go_out (oi_Delete (tt_inProgressIndex (tc_tasks c)) (qkey a q) (ikey w t)) s)"
    and "W (go_out (oi_Add (tt_deadTasksIndex (tc_tasks c)) (qkey a q) (ikey w t)) s)"
    and "W (go_out (oi_Delete (tt_deadTasksIndex (tc_tasks c)) (qkey a q) (ikey w t)) s)"
    and "W (go_out (expirationIndex_add P (tt_expiration (tc_tasks c)) i n) s)"
    and "W (go_out (expirationIndex_remove P (tt_expiration (tc_tasks c)) i n) s)"
    and "W (go_out (threadsTable_set P (tc_threads c) a q thr) s)"
    and "length th < 2 ^ 32 \<Longrightarrow> W (go_out (threadsTable_AddToIndex P (tc_threads c) a q th n t) s)"
    and "W (go_out (threadsTable_RemoveFromIndex P (tc_threads c) a q th n t) s)"
    and "W (go_out (countersTable_Set P (tc_counters c) a q cn) s)"
    and "W (go_out (queueStateTable_Set P (tc_queueState c) a q st) s)"
    and "W (go_out (rateLimitersTable_Set P (tc_rateLimiters c) a q rl) s)"
    and "W (go_out (purgeGCRecordsTable_Create P (tc_purgeGCRecords c) \<lparr> pgc_QueueId = \<lparr> qid_AccountId = a, qid_QueueId = q \<rparr> \<rparr>) s)"
  using assms
  by (simp_all add: tasksTable_set_def expirationIndex_add_def expirationIndex_remove_def threadsTable_set_def
      threadsTable_AddToIndex_def threadsTable_RemoveFromIndex_def countersTable_Set_def queueStateTable_Set_def
      rateLimitersTable_Set_def purgeGCRecordsTable_Create_def keys_run wf_view_upd
      tasks.Set_run dedupe.Set_run queue.Add_run queue.Delete_run inprog.Add_run inprog.Delete_run
      dead.Add_run dead.Delete_run expir.Add_run expir.Delete_run threads.Set_run threaded.Add_run
      threaded.Delete_run counters.Set_run qstate.Set_run rlim.Set_run purge.Set_run)

lemma tables_delete_keep_wf [tables_wf]:
  assumes "W s"
  shows "qv_tasks (Q s (tid_AccountId i, tid_QueueId i)) (tid_TaskId i) \<noteq> None \<Longrightarrow>
      W (go_out (tasksTable_delete P (tc_tasks c) i) s)"
    and "qv_dedupe (Q s (a, q)) x \<noteq> None \<Longrightarrow> W (go_out (ut_Delete (tt_dedupeKeysIndex (tc_tasks c)) (dkey a q x)) s)"
    and "qv_threads (Q s (a, q)) th \<noteq> None \<Longrightarrow> W (go_out (threadsTable_Delete P (tc_threads c) a q th) s)"
    and "qv_purge (Q s (qid_AccountId (pgc_QueueId r), qid_QueueId (pgc_QueueId r))) \<noteq> None \<Longrightarrow>
      W (go_out (purgeGCRecordsTable_Delete P (tc_purgeGCRecords c) r) s)"
  using assms
  by (auto simp: tasksTable_delete_def threadsTable_Delete_def purgeGCRecordsTable_Delete_def keys_run wf_view_upd
      tasks.Delete_run dedupe.Delete_run threads.Delete_run purge.Delete_run qview_of_simps)

lemma tables_drop_keep_wf [tables_wf]:
  assumes "W s"
  shows "W (go_out (countersTable_Delete P (tc_counters c) a q) s)"
    and "W (go_out (queueStateTable_Delete P (tc_queueState c) a q) s)"
    and "W (go_out (rateLimitersTable_Delete P (tc_rateLimiters c) a q) s)"
  using assms counters.Delete_absent[of s "qkey a q"] counters.Delete_present[of s "qkey a q"]
    qstate.Delete_absent[of s "qkey a q"] qstate.Delete_present[of s "qkey a q"]
    rlim.Delete_absent[of s "qkey a q"] rlim.Delete_present[of s "qkey a q"]
  by (cases "v_counters (abs s) (qkey a q)"; cases "v_queueState (abs s) (qkey a q)"; cases "v_rateLimiters (abs s) (qkey a q)";
      auto simp: countersTable_Delete_def queueStateTable_Delete_def rateLimitersTable_Delete_def
        keys_run go_run go_out_def wf_view_upd)+

section \<open>Listings\<close>

lemma index_listings [tables_run]:
  assumes "W s"
  shows "oi_ListInRange (tt_queueIndex (tc_tasks c)) (qkey a q) (be64 lo) (be64 hi) s =
      Inr (map (\<lambda>(w, t). ikey w t) (filter (\<lambda>(w, t). lo \<le> w \<and> w \<le> hi) (sorted_list_of_set (qv_queue (Q s (a, q))))), s)"
    and "oi_ListInRange (tt_inProgressIndex (tc_tasks c)) (qkey a q) (be64 lo) (be64 hi) s =
      Inr (map (\<lambda>(w, t). ikey w t) (filter (\<lambda>(w, t). lo \<le> w \<and> w \<le> hi) (sorted_list_of_set (qv_inProgress (Q s (a, q))))), s)"
    and "oi_ListAll (tt_deadTasksIndex (tc_tasks c)) (qkey a q) s =
      Inr (map (\<lambda>(w, t). ikey w t) (sorted_list_of_set (qv_dead (Q s (a, q)))), s)"
    and "length th < 2 ^ 32 \<Longrightarrow> oi_ListAll (tht_threadedTasksIndex (tc_threads c)) (thkey a q th) s =
      Inr (map (\<lambda>(w, t). ikey w t) (sorted_list_of_set (qv_threaded (Q s (a, q)) th)), s)"
  using wf_view_listings[OF assms] wf_view_threaded[OF assms]
  by (simp_all add: queue.ListInRange inprog.ListInRange dead.ListAll threaded.ListAll
      queue.items_finite inprog.items_finite dead.items_finite threaded.items_finite listing_range[symmetric] listing_def)

lemma index_finite [simp]:
  assumes "W s"
  shows "finite (qv_queue (Q s (a, q)))" "finite (qv_inProgress (Q s (a, q)))" "finite (qv_dead (Q s (a, q)))"
    and "length th < 2 ^ 32 \<Longrightarrow> finite (qv_threaded (Q s (a, q)) th)"
  using wf_view_listings[OF assms] wf_view_threaded[OF assms]
  by (simp_all add: queue.items_finite inprog.items_finite dead.items_finite threaded.items_finite)

end

end
