(* ===== verification/Tasks_Threads.thy ===== *)
theory Tasks_Threads
  imports Tasks_Run
begin

text \<open>
  Thread head coordination (the last section of \<open>pkg/tasks/core.go\<close>).  Its
  four functions are given as functions on the \<open>qview\<close> of one queue
  (\<open>reconcile_view\<close>, \<open>promote_view\<close>, \<open>attach_view\<close>,
  \<open>detach_view\<close>, \<open>reschedule_view\<close>), the code is shown to implement
  them, and they are shown to establish the invariant \<open>threads_ok\<close> that
  couples the queue index, the thread rows and the threaded tasks index:

  \<^item> the threaded tasks index of a thread lists its live tasks;
  \<^item> a thread has a row iff it has a live task; the row names a live task of
    the thread, its head, and mirrors its schedule time; only the head is ever
    in progress, and a head that is still enqueued is the earliest;
  \<^item> the queue index lists the enqueued tasks that are heads or have no thread.
\<close>

section \<open>The invariant\<close>

type_synonym rows = "uint64 \<Rightarrow> Task option"

definition is_enq :: "Task \<Rightarrow> bool" where "is_enq k \<longleftrightarrow> t_State k = TASK_STATE_ENQUEUED"
definition is_inprog :: "Task \<Rightarrow> bool" where "is_inprog k \<longleftrightarrow> t_State k = TASK_STATE_IN_PROGRESS"
definition is_dead :: "Task \<Rightarrow> bool" where "is_dead k \<longleftrightarrow> t_State k = TASK_STATE_DEAD"
definition is_live :: "Task \<Rightarrow> bool" where "is_live k \<longleftrightarrow> is_enq k \<or> is_inprog k"

text \<open>\<open>t\<close> is a live task of thread \<open>th\<close> with row \<open>k\<close>.\<close>

definition member :: "rows \<Rightarrow> string \<Rightarrow> uint64 \<Rightarrow> Task \<Rightarrow> bool" where
  "member M th t k \<longleftrightarrow> M t = Some k \<and> is_live k \<and> t_ThreadId k = th"

definition head_of :: "(string \<Rightarrow> Thread option) \<Rightarrow> string \<Rightarrow> uint64 option" where
  "head_of T th = map_option (\<lambda>thr. tid_TaskId (th_HeadTaskId thr)) (T th)"

definition sched_key :: "Task \<Rightarrow> uint64 \<Rightarrow> uint64 \<times> uint64" where
  "sched_key k t = (tw (t_ScheduledAt k), t)"

definition head_ok :: "uint64 \<Rightarrow> uint64 \<Rightarrow> rows \<Rightarrow> string \<Rightarrow> Thread \<Rightarrow> bool" where
  "head_ok a q M th thr \<longleftrightarrow> th_ThreadId thr = th \<and>
    (\<exists>h k. th_HeadTaskId thr = mkTaskId a q h \<and> member M th h k \<and> th_ScheduledAt thr = t_ScheduledAt k \<and>
      (\<forall>t k'. member M th t k' \<and> is_inprog k' \<longrightarrow> t = h) \<and>
      (is_enq k \<longrightarrow> (\<forall>t k'. member M th t k' \<longrightarrow> sched_key k h \<le> sched_key k' t)))"

definition thread_ok :: "uint64 \<Rightarrow> uint64 \<Rightarrow> rows \<Rightarrow> string \<Rightarrow> Thread option \<Rightarrow> bool" where
  "thread_ok a q M th row = (case row of
     None \<Rightarrow> (\<forall>t k. \<not> member M th t k) | Some thr \<Rightarrow> head_ok a q M th thr)"

definition in_queue :: "rows \<Rightarrow> (string \<Rightarrow> Thread option) \<Rightarrow> uint64 \<times> uint64 \<Rightarrow> bool" where
  "in_queue M T e \<longleftrightarrow> (\<exists>k. M (snd e) = Some k \<and> is_enq k \<and> e = sched_key k (snd e) \<and>
     (t_ThreadId k = [] \<or> head_of T (t_ThreadId k) = Some (snd e)))"

definition threaded_ok :: "rows \<Rightarrow> string \<Rightarrow> entries \<Rightarrow> bool" where
  "threaded_ok M th E \<longleftrightarrow> (\<forall>e. e \<in> E \<longleftrightarrow> (\<exists>k. member M th (snd e) k \<and> e = sched_key k (snd e)))"

definition threads_ok :: "uint64 \<Rightarrow> uint64 \<Rightarrow> rows \<Rightarrow> qview \<Rightarrow> bool" where
  "threads_ok a q M X \<longleftrightarrow>
    (\<forall>th. th \<noteq> [] \<longrightarrow> threaded_ok M th (qv_threaded X th)) \<and>
    (\<forall>th. th \<noteq> [] \<longrightarrow> thread_ok a q M th (qv_threads X th)) \<and>
    (\<forall>e. e \<in> qv_queue X \<longleftrightarrow> in_queue M (qv_threads X) e)"

section \<open>The functions on one queue's view\<close>

definition earliest :: "qview \<Rightarrow> string \<Rightarrow> uint64" where
  "earliest X th = snd (Min (qv_threaded X th))"

definition reconcile_view :: "Thread \<Rightarrow> qview \<Rightarrow> qview" where
  "reconcile_view thr X =
    (let e = earliest X (th_ThreadId thr); h = tid_TaskId (th_HeadTaskId thr);
         ke = the (qv_tasks X e); kh = the (qv_tasks X h) in
     if e = h then
       if th_ScheduledAt thr = t_ScheduledAt ke then X
       else
         X\<lparr> qv_queue := (if is_enq kh
              then insert (sched_key ke h) (qv_queue X - {(tw (th_ScheduledAt thr), h)}) else qv_queue X),
            qv_threads := (qv_threads X)(th_ThreadId thr \<mapsto> thr\<lparr> th_ScheduledAt := t_ScheduledAt ke \<rparr>) \<rparr>
     else if \<not> is_enq kh then X
     else
       X\<lparr> qv_queue := insert (sched_key ke e) (qv_queue X - {sched_key kh h}),
          qv_threads := (qv_threads X)(th_ThreadId thr \<mapsto>
            thr\<lparr> th_HeadTaskId := t_Id ke, th_ScheduledAt := t_ScheduledAt ke \<rparr>) \<rparr>)"

definition promote_view :: "Thread \<Rightarrow> qview \<Rightarrow> qview" where
  "promote_view thr X =
    (let th = th_ThreadId thr; e = earliest X th; ke = the (qv_tasks X e) in
     if qv_threaded X th = {} then X\<lparr> qv_threads := (qv_threads X)(th := None) \<rparr>
     else X\<lparr> qv_threads := (qv_threads X)(th \<mapsto>
               thr\<lparr> th_VisibleAt := 0, th_HeadTaskId := t_Id ke, th_ScheduledAt := t_ScheduledAt ke \<rparr>),
             qv_queue := insert (sched_key ke e) (qv_queue X) \<rparr>)"

definition add_threaded :: "string \<Rightarrow> uint64 \<times> uint64 \<Rightarrow> qview \<Rightarrow> qview" where
  "add_threaded th e X = X\<lparr> qv_threaded := (qv_threaded X)(th := insert e (qv_threaded X th)) \<rparr>"

definition del_threaded :: "string \<Rightarrow> uint64 \<times> uint64 \<Rightarrow> qview \<Rightarrow> qview" where
  "del_threaded th e X = X\<lparr> qv_threaded := (qv_threaded X)(th := qv_threaded X th - {e}) \<rparr>"

definition attach_view :: "Task \<Rightarrow> qview \<Rightarrow> qview" where
  "attach_view k X =
    (let X1 = add_threaded (t_ThreadId k) (sched_key k (task_tid k)) X in
     case qv_threads X (t_ThreadId k) of
       None \<Rightarrow> X1\<lparr> qv_threads := (qv_threads X1)(t_ThreadId k \<mapsto>
                    \<lparr> th_ThreadId = t_ThreadId k, th_HeadTaskId = t_Id k,
                      th_ScheduledAt = t_ScheduledAt k, th_VisibleAt = 0 \<rparr>),
                  qv_queue := insert (sched_key k (task_tid k)) (qv_queue X1) \<rparr>
     | Some thr \<Rightarrow> reconcile_view thr X1)"

definition detach_view :: "Task \<Rightarrow> qview \<Rightarrow> qview" where
  "detach_view k X =
    (let X1 = del_threaded (t_ThreadId k) (sched_key k (task_tid k)) X;
         thr = the (qv_threads X (t_ThreadId k)) in
     if tid_TaskId (th_HeadTaskId thr) \<noteq> task_tid k then X1 else promote_view thr X1)"

definition reschedule_view :: "Task \<Rightarrow> int \<Rightarrow> qview \<Rightarrow> qview" where
  "reschedule_view k oldScheduledAt X =
    (let X1 = add_threaded (t_ThreadId k) (sched_key k (task_tid k))
               (del_threaded (t_ThreadId k) (tw oldScheduledAt, task_tid k) X) in
     reconcile_view (the (qv_threads X (t_ThreadId k))) X1)"

text \<open>When the code runs them without an error: the thread row exists, names
  a head of this queue, and the rows it reads are there under their ids.\<close>

definition row_ok :: "uint64 \<Rightarrow> uint64 \<Rightarrow> rows \<Rightarrow> uint64 \<Rightarrow> bool" where
  "row_ok a q M t \<longleftrightarrow> (\<exists>k. M t = Some k \<and> t_Id k = mkTaskId a q t)"

section \<open>The code implements them\<close>

lemma sorted_list_Min:
  assumes "finite A" "A \<noteq> {}"
  shows "\<exists>xs. sorted_list_of_set A = Min A # xs"
  using sorted_list_of_set_nonempty[OF assms] by simp

context tasks_store
begin

definition runs :: "('s, unit) go \<Rightarrow> 's \<Rightarrow> (uint64 \<times> uint64 \<Rightarrow> qview) \<Rightarrow> bool" where
  "runs m s V \<longleftrightarrow> (\<exists>s'. m s = Inr ((), s') \<and> W s' \<and> Q s' = V)"

lemma reconcile_earliest_run:
  assumes "W s" "length (th_ThreadId thr) < 2 ^ 32"
    and "qv_threaded (Q s (a, q)) (th_ThreadId thr) \<noteq> {}"
    and "qv_tasks (Q s (a, q)) (earliest (Q s (a, q)) (th_ThreadId thr)) = Some ke"
  shows "reconcile_earliest P c a q thr s = Inr (Some ke, s)"
proof -
  let ?E = "qv_threaded (Q s (a, q)) (th_ThreadId thr)"
  obtain xs where xs: "sorted_list_of_set ?E = Min ?E # xs"
    using sorted_list_Min[of ?E] assms by auto
  obtain w t where m: "Min ?E = (w, t)" by fastforce
  then have "qv_tasks (Q s (a, q)) t = Some ke"
    using assms(4) by (simp add: earliest_def)
  then show ?thesis
    using assms(1,2) xs m
    by (simp add: reconcile_earliest_def threadsTable_ListIndex_def tables_run go_run)
qed

lemma reconcileThreadHead_run:
  assumes "W s" "length (th_ThreadId thr) < 2 ^ 32"
    and "qv_threaded (Q s (a, q)) (th_ThreadId thr) \<noteq> {}"
    and "row_ok a q (qv_tasks (Q s (a, q))) (earliest (Q s (a, q)) (th_ThreadId thr))"
    and "th_HeadTaskId thr = mkTaskId a q h"
    and "row_ok a q (qv_tasks (Q s (a, q))) h"
  shows "runs (reconcileThreadHead P c a q thr) s ((Q s)((a, q) := reconcile_view thr (Q s (a, q))))"
proof -
  let ?e = "earliest (Q s (a, q)) (th_ThreadId thr)"
  obtain ke where ke: "qv_tasks (Q s (a, q)) ?e = Some ke" "t_Id ke = mkTaskId a q ?e"
    using assms(4) by (auto simp: row_ok_def)
  obtain kh where kh: "qv_tasks (Q s (a, q)) h = Some kh" "t_Id kh = mkTaskId a q h"
    using assms(6) by (auto simp: row_ok_def)
  note e = reconcile_earliest_run[OF assms(1-3) ke(1)]
  show ?thesis
    using assms(1,5) ke kh e
    by (cases "?e = h"; cases "th_ScheduledAt thr = t_ScheduledAt ke"; cases "is_enq kh")
      (auto simp: runs_def reconcileThreadHead_def reconcile_view_def Let_def is_enq_def sched_key_def
        tables_run tables_wf go_run fun_upd_def[symmetric])
qed

lemma promoteNextThreadHead_run:
  assumes "W s" "length (th_ThreadId thr) < 2 ^ 32"
    and "qv_threads (Q s (a, q)) (th_ThreadId thr) \<noteq> None"
    and "qv_threaded (Q s (a, q)) (th_ThreadId thr) \<noteq> {} \<Longrightarrow>
      row_ok a q (qv_tasks (Q s (a, q))) (earliest (Q s (a, q)) (th_ThreadId thr))"
  shows "runs (promoteNextThreadHead P c a q thr) s ((Q s)((a, q) := promote_view thr (Q s (a, q))))"
proof (cases "qv_threaded (Q s (a, q)) (th_ThreadId thr) = {}")
  case True
  then show ?thesis
    using assms(1-3)
    by (auto simp: runs_def promoteNextThreadHead_def promote_view_def threadsTable_ListIndex_def Let_def
        tables_run tables_wf go_run)
next
  case False
  let ?E = "qv_threaded (Q s (a, q)) (th_ThreadId thr)"
  obtain xs where xs: "sorted_list_of_set ?E = Min ?E # xs"
    using sorted_list_Min[of ?E] False assms(1,2) by auto
  obtain w t where m: "Min ?E = (w, t)" by fastforce
  then obtain ke where "qv_tasks (Q s (a, q)) t = Some ke" "t_Id ke = mkTaskId a q t"
    using assms(4)[OF False] by (auto simp: earliest_def row_ok_def)
  then show ?thesis
    using assms(1,2) xs m False
    by (auto simp: runs_def promoteNextThreadHead_def promote_view_def earliest_def threadsTable_ListIndex_def Let_def
        sched_key_def tables_run tables_wf go_run)
qed

text \<open>Running a function in a later state whose typed content is known.\<close>

lemma runs_seq:
  assumes "runs m s V" "\<And>s'. W s' \<Longrightarrow> Q s' = V \<Longrightarrow> runs n s' V'"
  shows "runs (go_seq m n) s V'"
  using assms unfolding runs_def by (auto simp: go_run)

lemma attachTaskToThread_run:
  assumes "W s" "length (t_ThreadId k) < 2 ^ 32" "t_Id k = mkTaskId a q t"
    and "\<And>thr. qv_threads (Q s (a, q)) (t_ThreadId k) = Some thr \<Longrightarrow>
      th_ThreadId thr = t_ThreadId k \<and> (\<exists>h. th_HeadTaskId thr = mkTaskId a q h \<and> row_ok a q (qv_tasks (Q s (a, q))) h) \<and>
      row_ok a q (qv_tasks (Q s (a, q))) (earliest (add_threaded (t_ThreadId k) (sched_key k t) (Q s (a, q))) (t_ThreadId k))"
  shows "runs (attachTaskToThread P c k) s ((Q s)((a, q) := attach_view k (Q s (a, q))))"
proof -
  let ?s1 = "go_out (threadsTable_AddToIndex P (tc_threads c) a q (t_ThreadId k) (t_ScheduledAt k) t) s"
  have s1: "W ?s1" "Q ?s1 = (Q s)((a, q) := add_threaded (t_ThreadId k) (sched_key k t) (Q s (a, q)))"
    using assms(1,2) by (simp_all add: tables_run tables_wf add_threaded_def sched_key_def)
  show ?thesis
  proof (cases "qv_threads (Q s (a, q)) (t_ThreadId k)")
    case None
    then show ?thesis
      using assms(1-3) s1
      by (auto simp: runs_def attachTaskToThread_def attach_view_def add_threaded_def Let_def sched_key_def
          tables_run tables_wf go_run)
  next
    case (Some thr)
    obtain h where "th_ThreadId thr = t_ThreadId k" "th_HeadTaskId thr = mkTaskId a q h"
      "row_ok a q (qv_tasks (Q s (a, q))) h"
      "row_ok a q (qv_tasks (Q s (a, q))) (earliest (add_threaded (t_ThreadId k) (sched_key k t) (Q s (a, q))) (t_ThreadId k))"
      using assms(4)[OF Some] by blast
    then have "runs (reconcileThreadHead P c a q thr) ?s1
        ((Q ?s1)((a, q) := reconcile_view thr (Q ?s1 (a, q))))"
      using assms(2) s1 by (intro reconcileThreadHead_run) (auto simp: add_threaded_def)
    then show ?thesis
      using Some s1 assms(3)
      by (auto simp: runs_def attachTaskToThread_def attach_view_def Let_def tables_run go_run add_threaded_def sched_key_def)
  qed
qed

lemma detachTaskFromThread_run:
  assumes "W s" "length (t_ThreadId k) < 2 ^ 32" "t_Id k = mkTaskId a q t"
    and "qv_threads (Q s (a, q)) (t_ThreadId k) = Some thr" "th_ThreadId thr = t_ThreadId k"
    and "tid_TaskId (th_HeadTaskId thr) = t \<Longrightarrow>
      qv_threaded (Q s (a, q)) (t_ThreadId k) - {sched_key k t} \<noteq> {} \<Longrightarrow>
      row_ok a q (qv_tasks (Q s (a, q))) (earliest (del_threaded (t_ThreadId k) (sched_key k t) (Q s (a, q))) (t_ThreadId k))"
  shows "runs (detachTaskFromThread P c k) s ((Q s)((a, q) := detach_view k (Q s (a, q))))"
proof -
  let ?s1 = "go_out (threadsTable_RemoveFromIndex P (tc_threads c) a q (t_ThreadId k) (t_ScheduledAt k) t) s"
  have s1: "W ?s1" "Q ?s1 = (Q s)((a, q) := del_threaded (t_ThreadId k) (sched_key k t) (Q s (a, q)))"
    using assms(1,2) by (simp_all add: tables_run tables_wf del_threaded_def sched_key_def)
  show ?thesis
  proof (cases "tid_TaskId (th_HeadTaskId thr) = t")
    case False
    then show ?thesis
      using assms(3,4) s1
      by (auto simp: runs_def detachTaskFromThread_def detach_view_def Let_def tables_run go_run del_threaded_def sched_key_def)
  next
    case True
    have "runs (promoteNextThreadHead P c a q thr) ?s1
        ((Q ?s1)((a, q) := promote_view thr (Q ?s1 (a, q))))"
      using assms(2,4-6) s1 True
      by (intro promoteNextThreadHead_run) (auto simp: del_threaded_def)
    then show ?thesis
      using True s1 assms(3,4)
      by (auto simp: runs_def detachTaskFromThread_def detach_view_def Let_def tables_run go_run del_threaded_def sched_key_def)
  qed
qed

lemma rescheduleTaskInThread_run:
  assumes "W s" "length (t_ThreadId k) < 2 ^ 32" "t_Id k = mkTaskId a q t"
    and "qv_threads (Q s (a, q)) (t_ThreadId k) = Some thr" "th_ThreadId thr = t_ThreadId k"
    and "th_HeadTaskId thr = mkTaskId a q h" "row_ok a q (qv_tasks (Q s (a, q))) h"
    and "row_ok a q (qv_tasks (Q s (a, q))) (earliest (add_threaded (t_ThreadId k) (sched_key k t)
      (del_threaded (t_ThreadId k) (tw old, t) (Q s (a, q)))) (t_ThreadId k))"
  shows "runs (rescheduleTaskInThread P c k old) s ((Q s)((a, q) := reschedule_view k old (Q s (a, q))))"
proof -
  let ?s1 = "go_out (threadsTable_RemoveFromIndex P (tc_threads c) a q (t_ThreadId k) old t) s"
  let ?s2 = "go_out (threadsTable_AddToIndex P (tc_threads c) a q (t_ThreadId k) (t_ScheduledAt k) t) ?s1"
  have s2: "W ?s2" "Q ?s2 = (Q s)((a, q) := add_threaded (t_ThreadId k) (sched_key k t)
      (del_threaded (t_ThreadId k) (tw old, t) (Q s (a, q))))"
    using assms(1,2) by (simp_all add: tables_run tables_wf add_threaded_def del_threaded_def sched_key_def)
  have "runs (reconcileThreadHead P c a q thr) ?s2
      ((Q ?s2)((a, q) := reconcile_view thr (Q ?s2 (a, q))))"
    using assms(2,5-8) s2
    by (intro reconcileThreadHead_run) (auto simp: add_threaded_def del_threaded_def)
  then show ?thesis
    using s2 assms(3,4)
    by (auto simp: runs_def rescheduleTaskInThread_def reschedule_view_def Let_def tables_run go_run
        add_threaded_def del_threaded_def sched_key_def)
qed

end

section \<open>They establish the invariant\<close>

text \<open>The queue index entries that do not belong to thread \<open>th\<close>.\<close>

definition other_queue :: "rows \<Rightarrow> (string \<Rightarrow> Thread option) \<Rightarrow> string \<Rightarrow> uint64 \<times> uint64 \<Rightarrow> bool" where
  "other_queue M T th e \<longleftrightarrow> (\<exists>k. M (snd e) = Some k \<and> is_enq k \<and> e = sched_key k (snd e) \<and> t_ThreadId k \<noteq> th \<and>
     (t_ThreadId k = [] \<or> head_of T (t_ThreadId k) = Some (snd e)))"

lemma snd_sched_key [simp]: "snd (sched_key k t) = t"
  by (simp add: sched_key_def)

lemma sched_key_inject [simp]: "sched_key k t = sched_key k' t' \<longleftrightarrow> tw (t_ScheduledAt k) = tw (t_ScheduledAt k') \<and> t = t'"
  by (simp add: sched_key_def)

lemma member_unique: "member M th t k \<Longrightarrow> member M th' t k' \<Longrightarrow> k = k' \<and> th = th'"
  by (auto simp: member_def)

lemma member_live: "member M th t k \<Longrightarrow> is_enq k \<or> is_inprog k"
  by (auto simp: member_def is_live_def)

lemma not_enq_inprog [simp]: "is_enq k \<Longrightarrow> \<not> is_inprog k"
  by (auto simp: is_enq_def is_inprog_def)

lemma head_of_upd [simp]:
  "head_of (T(th \<mapsto> thr)) th' = (if th' = th then Some (tid_TaskId (th_HeadTaskId thr)) else head_of T th')"
  "head_of (T(th := None)) th' = (if th' = th then None else head_of T th')"
  by (simp_all add: head_of_def)

lemma in_queue_split:
  assumes "th \<noteq> []"
  shows "in_queue M T e \<longleftrightarrow> other_queue M T th e \<or>
    (\<exists>k. member M th (snd e) k \<and> is_enq k \<and> e = sched_key k (snd e) \<and> head_of T th = Some (snd e))"
  using assms by (auto simp: in_queue_def other_queue_def member_def is_live_def)

lemma other_queue_upd [simp]:
  "other_queue M (T(th := x)) th e = other_queue M T th e"
  by (auto simp: other_queue_def head_of_def)

lemma other_queue_not_member: "other_queue M T th e \<Longrightarrow> member M th (snd e) k \<Longrightarrow> False"
  by (auto simp: other_queue_def member_def)

lemma earliest_member:
  assumes "threaded_ok M th (qv_threaded X th)" "finite (qv_threaded X th)" "qv_threaded X th \<noteq> {}"
  obtains ke where "member M th (earliest X th) ke" "\<And>t k. member M th t k \<Longrightarrow> sched_key ke (earliest X th) \<le> sched_key k t"
proof -
  let ?m = "Min (qv_threaded X th)"
  have "?m \<in> qv_threaded X th" using assms(2,3) by (rule Min_in)
  then obtain ke where ke: "member M th (snd ?m) ke" "?m = sched_key ke (snd ?m)"
    using assms(1) unfolding threaded_ok_def by blast
  have "sched_key ke (snd ?m) \<le> sched_key k t" if "member M th t k" for t k
  proof -
    have "sched_key k t \<in> qv_threaded X th"
      using assms(1) that unfolding threaded_ok_def by (metis snd_sched_key)
    then show ?thesis using Min_le[OF assms(2)] ke(2) by metis
  qed
  then show thesis using that ke(1) by (simp add: earliest_def)
qed

lemma earliest_is_member:
  assumes "threaded_ok M th (qv_threaded X th)" "finite (qv_threaded X th)" "qv_threaded X th \<noteq> {}"
  shows "\<exists>ke. member M th (earliest X th) ke"
  by (rule earliest_member[OF assms]) blast

lemma threads_ok_intro:
  assumes "th \<noteq> []"
    and "\<And>th'. th' \<noteq> [] \<Longrightarrow> threaded_ok M th' (qv_threaded X th')"
    and "\<And>th'. th' \<noteq> [] \<Longrightarrow> th' \<noteq> th \<Longrightarrow> thread_ok a q M th' (qv_threads X th')"
    and "thread_ok a q M th (qv_threads X th)"
    and "\<And>e. e \<in> qv_queue X \<longleftrightarrow> other_queue M (qv_threads X) th e \<or>
      (\<exists>k. member M th (snd e) k \<and> is_enq k \<and> e = sched_key k (snd e) \<and> head_of (qv_threads X) th = Some (snd e))"
  shows "threads_ok a q M X"
  using assms in_queue_split[OF assms(1)] unfolding threads_ok_def by metis

lemma reconcile_view_ok:
  assumes th: "th \<noteq> []" "th_ThreadId thr = th" "qv_threads X th = Some thr" "th_HeadTaskId thr = mkTaskId a q h"
    and rows: "\<And>t k. member M th t k \<Longrightarrow> qv_tasks X t = Some k \<and> t_Id k = mkTaskId a q t"
    and threaded: "\<And>th'. th' \<noteq> [] \<Longrightarrow> threaded_ok M th' (qv_threaded X th')" "finite (qv_threaded X th)"
    and others: "\<And>th'. th' \<noteq> [] \<Longrightarrow> th' \<noteq> th \<Longrightarrow> thread_ok a q M th' (qv_threads X th')"
    and head: "member M th h kh" "\<And>t k. member M th t k \<Longrightarrow> is_inprog k \<Longrightarrow> t = h"
    and queue: "\<And>e. e \<in> qv_queue X \<longleftrightarrow> other_queue M (qv_threads X) th e \<or> (listed \<and> e = (tw (th_ScheduledAt thr), h))"
    and busy: "is_inprog kh \<Longrightarrow> \<not> listed \<and> th_ScheduledAt thr = t_ScheduledAt kh"
    and same: "is_enq kh \<Longrightarrow> th_ScheduledAt thr = t_ScheduledAt kh \<Longrightarrow> listed"
    and moved: "is_enq kh \<Longrightarrow> th_ScheduledAt thr \<noteq> t_ScheduledAt kh \<Longrightarrow> listed \<Longrightarrow>
      (\<And>t k. member M th t k \<Longrightarrow> sched_key kh h \<le> sched_key k t)"
  shows "threads_ok a q M (reconcile_view thr X)"
proof -
  have ne: "qv_threaded X th \<noteq> {}"
    using threaded(1)[OF th(1)] head(1) unfolding threaded_ok_def by (metis empty_iff snd_sched_key)
  obtain ke where ke: "member M th (earliest X th) ke"
    and least: "\<And>t k. member M th t k \<Longrightarrow> sched_key ke (earliest X th) \<le> sched_key k t"
    using earliest_member[OF threaded(1)[OF th(1)] threaded(2) ne] by blast
  let ?e = "earliest X th"
  have qt: "qv_tasks X ?e = Some ke" "t_Id ke = mkTaskId a q ?e" "qv_tasks X h = Some kh"
    using rows[OF ke] rows[OF head(1)] by auto
  have uniq: "\<And>k. member M th h k \<longleftrightarrow> k = kh" "\<And>k. member M th ?e k \<longleftrightarrow> k = ke"
    using member_unique head(1) ke by metis+
  show ?thesis
  proof (cases "?e = h")
    case True
    then have [simp]: "ke = kh" using uniq ke by metis
    show ?thesis
    proof (cases "th_ScheduledAt thr = t_ScheduledAt kh")
      case same': True
      have "reconcile_view thr X = X"
        using True same' qt th by (simp add: reconcile_view_def Let_def)
      moreover have "head_ok a q M th thr"
        using th head least same' True by (auto simp: head_ok_def)
      moreover have "listed \<longleftrightarrow> is_enq kh"
        using busy same same' member_live[OF head(1)] not_enq_inprog by blast
      ultimately show ?thesis
        using th threaded others queue uniq same'
        by (intro threads_ok_intro[OF th(1)]) (auto simp: thread_ok_def head_of_def sched_key_def)
    next
      case moved': False
      then have enq: "is_enq kh" using busy member_live[OF head(1)] by blast
      let ?thr = "thr\<lparr> th_ScheduledAt := t_ScheduledAt kh \<rparr>"
      have X': "reconcile_view thr X = X\<lparr> qv_queue := insert (sched_key kh h) (qv_queue X - {(tw (th_ScheduledAt thr), h)}),
          qv_threads := (qv_threads X)(th \<mapsto> ?thr) \<rparr>"
        using True moved' enq qt th by (simp add: reconcile_view_def Let_def)
      have "head_ok a q M th ?thr"
        using th head least True by (auto simp: head_ok_def)
      moreover have "\<not> other_queue M (qv_threads X) th (tw (th_ScheduledAt thr), h)"
        using other_queue_not_member head(1) by (metis snd_conv)
      ultimately show ?thesis
        using th threaded others queue uniq enq unfolding X'
        by (intro threads_ok_intro[OF th(1)]) (auto simp: thread_ok_def)
    qed
  next
    case False
    show ?thesis
    proof (cases "is_enq kh")
      case idle: False
      then have "is_inprog kh" using member_live[OF head(1)] by blast
      moreover have "reconcile_view thr X = X"
        using False idle qt th by (simp add: reconcile_view_def Let_def)
      moreover have "head_ok a q M th thr"
        unfolding head_ok_def using th head busy[OF calculation(1)] idle by blast
      ultimately show ?thesis
        using th threaded others queue uniq busy idle
        by (intro threads_ok_intro[OF th(1)]) (auto simp: thread_ok_def head_of_def)
    next
      case enq: True
      let ?thr = "thr\<lparr> th_HeadTaskId := t_Id ke, th_ScheduledAt := t_ScheduledAt ke \<rparr>"
      have X': "reconcile_view thr X = X\<lparr> qv_queue := insert (sched_key ke ?e) (qv_queue X - {sched_key kh h}),
          qv_threads := (qv_threads X)(th \<mapsto> ?thr) \<rparr>"
        using False enq qt th by (simp add: reconcile_view_def Let_def)
      have enqs: "\<And>t k. member M th t k \<Longrightarrow> is_enq k"
        using head enq uniq member_live by (metis not_enq_inprog)
      then have "head_ok a q M th ?thr"
        using th ke least qt(2) by (auto simp: head_ok_def dest: enqs)
      moreover have "listed \<Longrightarrow> th_ScheduledAt thr = t_ScheduledAt kh"
      proof (rule ccontr)
        assume "listed" "th_ScheduledAt thr \<noteq> t_ScheduledAt kh"
        then have "sched_key kh h \<le> sched_key ke ?e" using moved[OF enq] ke by blast
        then have "sched_key kh h = sched_key ke ?e" using least[OF head(1)] by (rule antisym)
        then show False using False by simp
      qed
      moreover have "\<not> other_queue M (qv_threads X) th (sched_key kh h)"
        using other_queue_not_member head(1) by (metis snd_sched_key)
      ultimately show ?thesis
        using th threaded others queue uniq enqs[OF ke] qt(2) False unfolding X'
        by (intro threads_ok_intro[OF th(1)]) (auto simp: thread_ok_def sched_key_def)
    qed
  qed
qed

text \<open>Two contents that differ only in the live tasks of one thread.\<close>

definition agree_off :: "string \<Rightarrow> rows \<Rightarrow> rows \<Rightarrow> bool" where
  "agree_off th M M' \<longleftrightarrow> (\<forall>t k. (M t = Some k \<and> is_live k \<and> t_ThreadId k \<noteq> th) = (M' t = Some k \<and> is_live k \<and> t_ThreadId k \<noteq> th))"

lemma agree_off_member: "agree_off th M M' \<Longrightarrow> th' \<noteq> th \<Longrightarrow> member M th' t k = member M' th' t k"
  unfolding agree_off_def member_def by blast

lemma agree_off_threads:
  assumes "agree_off th M M'" "th' \<noteq> th"
  shows "threaded_ok M th' E = threaded_ok M' th' E" "thread_ok a q M th' row = thread_ok a q M' th' row"
  by (simp_all add: threaded_ok_def thread_ok_def head_ok_def agree_off_member[OF assms] split: option.split)

lemma agree_off_queue:
  assumes "agree_off th M M'"
  shows "other_queue M T th e = other_queue M' T th e"
  using assms unfolding agree_off_def other_queue_def is_live_def by blast

lemma threads_okD:
  assumes "threads_ok a q M X" "th \<noteq> []"
  shows "threaded_ok M th (qv_threaded X th)" "thread_ok a q M th (qv_threads X th)"
  using assms by (auto simp: threads_ok_def)

lemma threads_ok_head:
  assumes "threads_ok a q M X" "th \<noteq> []" "member M th t k"
  obtains thr where "qv_threads X th = Some thr" "head_ok a q M th thr"
  using threads_okD(2)[OF assms(1,2)] assms(3) by (auto simp: thread_ok_def split: option.splits)

lemma threads_ok_queue:
  assumes "threads_ok a q M X" "th \<noteq> []" "agree_off th M M'"
  shows "e \<in> qv_queue X \<longleftrightarrow> other_queue M' (qv_threads X) th e \<or>
    (\<exists>k. member M th (snd e) k \<and> is_enq k \<and> e = sched_key k (snd e) \<and> head_of (qv_threads X) th = Some (snd e))"
  using assms(1) in_queue_split[OF assms(2)] agree_off_queue[OF assms(3)] unfolding threads_ok_def by blast

text \<open>How the threaded tasks index follows a task that comes, goes or moves.\<close>

lemma threaded_ok_add:
  assumes "threaded_ok M th E" "\<And>k'. \<not> member M th t k'" "is_live k" "t_ThreadId k = th"
  shows "threaded_ok (M(t \<mapsto> k)) th (insert (sched_key k t) E)"
  unfolding threaded_ok_def
proof
  fix e
  have "e \<in> E \<longleftrightarrow> (\<exists>k. member M th (snd e) k \<and> e = sched_key k (snd e))"
    using assms(1) unfolding threaded_ok_def by blast
  then show "e \<in> insert (sched_key k t) E \<longleftrightarrow> (\<exists>k'. member (M(t \<mapsto> k)) th (snd e) k' \<and> e = sched_key k' (snd e))"
    using assms(2-4) by (cases "snd e = t") (auto simp: member_def)
qed

lemma threaded_ok_del:
  assumes "threaded_ok M th E" "member M th t k" "\<And>k'. \<not> member M' th t k'" "\<And>t' k'. t' \<noteq> t \<Longrightarrow> member M' th t' k' = member M th t' k'"
  shows "threaded_ok M' th (E - {sched_key k t})"
  unfolding threaded_ok_def
proof
  fix e
  have "e \<in> E \<longleftrightarrow> (\<exists>k. member M th (snd e) k \<and> e = sched_key k (snd e))"
    using assms(1) unfolding threaded_ok_def by blast
  moreover have "\<And>k'. member M th t k' \<Longrightarrow> k' = k" using assms(2) member_unique by metis
  ultimately show "e \<in> E - {sched_key k t} \<longleftrightarrow> (\<exists>k'. member M' th (snd e) k' \<and> e = sched_key k' (snd e))"
    using assms(3,4) by (cases "snd e = t") auto
qed

lemma threaded_ok_move:
  assumes "threaded_ok M th E" "member M th t k" "is_live k'" "t_ThreadId k' = th"
  shows "threaded_ok (M(t \<mapsto> k')) th (insert (sched_key k' t) (E - {sched_key k t}))"
proof -
  have "threaded_ok (M(t := None)) th (E - {sched_key k t})"
    using assms(1,2) by (rule threaded_ok_del) (auto simp: member_def)
  then have "threaded_ok ((M(t := None))(t \<mapsto> k')) th (insert (sched_key k' t) (E - {sched_key k t}))"
    using assms(3,4) by (intro threaded_ok_add) (auto simp: member_def)
  then show ?thesis by simp
qed

lemma promote_view_ok:
  assumes th: "th \<noteq> []" "th_ThreadId thr = th"
    and rows: "\<And>t k. member M th t k \<Longrightarrow> qv_tasks X t = Some k \<and> t_Id k = mkTaskId a q t"
    and threaded: "\<And>th'. th' \<noteq> [] \<Longrightarrow> threaded_ok M th' (qv_threaded X th')" "finite (qv_threaded X th)"
    and others: "\<And>th'. th' \<noteq> [] \<Longrightarrow> th' \<noteq> th \<Longrightarrow> thread_ok a q M th' (qv_threads X th')"
    and idle: "\<And>t k. member M th t k \<Longrightarrow> is_enq k"
    and queue: "\<And>e. e \<in> qv_queue X \<longleftrightarrow> other_queue M (qv_threads X) th e"
  shows "threads_ok a q M (promote_view thr X)"
proof (cases "qv_threaded X th = {}")
  case True
  then have none: "\<And>t k. \<not> member M th t k"
    using threaded(1)[OF th(1)] unfolding threaded_ok_def by (metis empty_iff snd_sched_key)
  show ?thesis
    using True th threaded others queue none
    by (intro threads_ok_intro[OF th(1)]) (auto simp: promote_view_def thread_ok_def Let_def)
next
  case False
  obtain ke where ke: "member M th (earliest X th) ke"
    and least: "\<And>t k. member M th t k \<Longrightarrow> sched_key ke (earliest X th) \<le> sched_key k t"
    using earliest_member[OF threaded(1)[OF th(1)] threaded(2) False] by blast
  have uniq: "\<And>k. member M th (earliest X th) k \<longleftrightarrow> k = ke"
    using member_unique ke by metis
  let ?thr = "thr\<lparr> th_VisibleAt := 0, th_HeadTaskId := t_Id ke, th_ScheduledAt := t_ScheduledAt ke \<rparr>"
  have X': "promote_view thr X = X\<lparr> qv_threads := (qv_threads X)(th \<mapsto> ?thr),
      qv_queue := insert (sched_key ke (earliest X th)) (qv_queue X) \<rparr>"
    using False th rows[OF ke] by (simp add: promote_view_def Let_def)
  have "head_ok a q M th ?thr"
    using th ke least rows[OF ke] idle unfolding head_ok_def by (auto dest!: idle)
  then show ?thesis
    using th threaded others queue uniq idle[OF ke] rows[OF ke] unfolding X'
    by (intro threads_ok_intro[OF th(1)]) (auto simp: thread_ok_def)
qed

lemma attach_view_ok:
  assumes ok: "threads_ok a q M X" and th: "t_ThreadId k = th" "th \<noteq> []"
    and k: "is_enq k" "t_Id k = mkTaskId a q t" "\<And>k'. M t = Some k' \<Longrightarrow> \<not> is_live k'"
    and rows: "\<And>t' k'. member (M(t \<mapsto> k)) th t' k' \<Longrightarrow> qv_tasks X t' = Some k' \<and> t_Id k' = mkTaskId a q t'"
    and fin: "finite (qv_threaded X th)"
  shows "threads_ok a q (M(t \<mapsto> k)) (attach_view k X)"
proof -
  let ?M = "M(t \<mapsto> k)" and ?X = "add_threaded th (sched_key k t) X"
  have live: "is_live k" using k(1) by (simp add: is_live_def)
  have agree: "agree_off th M ?M"
    using k(3) th(1) unfolding agree_off_def by auto
  have old: "\<And>t' k'. member M th t' k' \<Longrightarrow> t' \<noteq> t \<and> member ?M th t' k'"
    using k(3) by (auto simp: member_def)
  have new: "\<And>t' k'. member ?M th t' k' \<Longrightarrow> (t' = t \<and> k' = k) \<or> member M th t' k'"
    by (auto simp: member_def split: if_splits)
  have mt: "member ?M th t k" using live th by (simp add: member_def)
  have threaded: "threaded_ok ?M th' (qv_threaded ?X th')" if "th' \<noteq> []" for th'
  proof (cases "th' = th")
    case True
    then show ?thesis
      using threaded_ok_add[OF threads_okD(1)[OF ok th(2)]] old live th by (auto simp: add_threaded_def)
  next
    case False
    then show ?thesis
      using threads_okD(1)[OF ok that] agree_off_threads[OF agree] by (simp add: add_threaded_def)
  qed
  have others: "thread_ok a q ?M th' (qv_threads X th')" if "th' \<noteq> []" "th' \<noteq> th" for th'
    using threads_okD(2)[OF ok that(1)] agree_off_threads[OF agree that(2)] by simp
  have queue: "e \<in> qv_queue X \<longleftrightarrow> other_queue ?M (qv_threads X) th e \<or>
      (\<exists>k. member M th (snd e) k \<and> is_enq k \<and> e = sched_key k (snd e) \<and> head_of (qv_threads X) th = Some (snd e))" for e
    by (rule threads_ok_queue[OF ok th(2) agree])
  show ?thesis
  proof (cases "qv_threads X th")
    case None
    then have none: "\<And>t' k'. \<not> member M th t' k'"
      using threads_okD(2)[OF ok th(2)] by (simp add: thread_ok_def)
    have uniq: "\<And>t' k'. member ?M th t' k' \<longleftrightarrow> t' = t \<and> k' = k"
      using new none mt by blast
    have X': "attach_view k X = ?X\<lparr> qv_threads := (qv_threads X)(th \<mapsto>
          \<lparr> th_ThreadId = th, th_HeadTaskId = t_Id k, th_ScheduledAt = t_ScheduledAt k, th_VisibleAt = 0 \<rparr>),
        qv_queue := insert (sched_key k t) (qv_queue X) \<rparr>"
      using None th k(2) by (simp add: attach_view_def add_threaded_def Let_def)
    show ?thesis unfolding X'
      using th threaded others queue none uniq k(1,2)
      by (intro threads_ok_intro[OF th(2)]) (auto simp: thread_ok_def head_ok_def add_threaded_def)
  next
    case (Some thr)
    then have "head_ok a q M th thr" using threads_okD(2)[OF ok th(2)] by (simp add: thread_ok_def)
    then obtain h kh where h: "th_ThreadId thr = th" "th_HeadTaskId thr = mkTaskId a q h" "member M th h kh"
      "th_ScheduledAt thr = t_ScheduledAt kh" "\<And>t k. member M th t k \<Longrightarrow> is_inprog k \<Longrightarrow> t = h"
      unfolding head_ok_def by blast
    have uniq: "\<And>k. member M th h k \<longleftrightarrow> k = kh" using member_unique h(3) by metis
    have "threads_ok a q ?M (reconcile_view thr ?X)"
    proof (rule reconcile_view_ok[where listed = "is_enq kh"])
      show "th \<noteq> []" "th_ThreadId thr = th" "th_HeadTaskId thr = mkTaskId a q h" using th h by auto
      show "qv_threads ?X th = Some thr" using Some by (simp add: add_threaded_def)
      show "\<And>t' k'. member ?M th t' k' \<Longrightarrow> qv_tasks ?X t' = Some k' \<and> t_Id k' = mkTaskId a q t'"
        using rows by (simp add: add_threaded_def)
      show "finite (qv_threaded ?X th)" using fin by (simp add: add_threaded_def)
      show "\<And>th'. th' \<noteq> [] \<Longrightarrow> th' \<noteq> th \<Longrightarrow> thread_ok a q ?M th' (qv_threads ?X th')"
        using others by (simp add: add_threaded_def)
      show "member ?M th h kh" using old h(3) by blast
      show "\<And>t' k'. member ?M th t' k' \<Longrightarrow> is_inprog k' \<Longrightarrow> t' = h"
        using new h(5) k(1) not_enq_inprog by blast
      show "\<And>e. e \<in> qv_queue ?X \<longleftrightarrow> other_queue ?M (qv_threads ?X) th e \<or> (is_enq kh \<and> e = (tw (th_ScheduledAt thr), h))"
        using queue uniq Some h(2,4) by (auto simp: add_threaded_def head_of_def sched_key_def)
    qed (use threaded h(4) in \<open>auto simp: is_enq_def is_inprog_def\<close>)
    then show ?thesis using Some th k(2) by (simp add: attach_view_def Let_def)
  qed
qed

lemma detach_view_ok:
  assumes ok: "threads_ok a q M X0" and th: "t_ThreadId k = th" "th \<noteq> []"
    and k: "member M th t k0" "t_Id k = mkTaskId a q t" "t_ScheduledAt k0 = t_ScheduledAt k"
    and X: "qv_threaded X = qv_threaded X0" "qv_threads X = qv_threads X0" "qv_queue X = qv_queue X0 - {sched_key k t}"
    and M': "agree_off th M M'" "\<And>k'. \<not> member M' th t k'" "\<And>t' k'. t' \<noteq> t \<Longrightarrow> member M' th t' k' = member M th t' k'"
    and rows: "\<And>t' k'. member M' th t' k' \<Longrightarrow> qv_tasks X t' = Some k' \<and> t_Id k' = mkTaskId a q t'"
    and fin: "finite (qv_threaded X th)"
  shows "threads_ok a q M' (detach_view k X)"
proof -
  let ?X = "del_threaded th (sched_key k t) X"
  have key: "sched_key k0 t = sched_key k t" using k(3) by simp
  have threaded: "threaded_ok M' th' (qv_threaded ?X th')" if "th' \<noteq> []" for th'
  proof (cases "th' = th")
    case True
    then show ?thesis
      using threaded_ok_del[OF threads_okD(1)[OF ok th(2)] k(1) M'(2,3)] X(1) key by (simp add: del_threaded_def)
  next
    case False
    then show ?thesis
      using threads_okD(1)[OF ok that] agree_off_threads[OF M'(1)] X(1) by (simp add: del_threaded_def)
  qed
  have others: "thread_ok a q M' th' (qv_threads X th')" if "th' \<noteq> []" "th' \<noteq> th" for th'
    using threads_okD(2)[OF ok that(1)] agree_off_threads[OF M'(1) that(2)] X(2) by simp
  have uk: "\<And>k'. member M th t k' \<longleftrightarrow> k' = k0" using member_unique k(1) by metis
  have queue: "e \<in> qv_queue X \<longleftrightarrow> other_queue M' (qv_threads X) th e \<or>
      (\<exists>k'. member M' th (snd e) k' \<and> is_enq k' \<and> e = sched_key k' (snd e) \<and> head_of (qv_threads X) th = Some (snd e))" for e
  proof -
    have q0: "e \<in> qv_queue X0 \<longleftrightarrow> other_queue M' (qv_threads X) th e \<or>
      (\<exists>k. member M th (snd e) k \<and> is_enq k \<and> e = sched_key k (snd e) \<and> head_of (qv_threads X) th = Some (snd e))"
      unfolding X(2) by (rule threads_ok_queue[OF ok th(2) M'(1)])
    show ?thesis
    proof (cases "snd e = t")
      case True
      then have "\<not> other_queue M' (qv_threads X) th e"
        using k(1) agree_off_queue[OF M'(1)] other_queue_not_member by metis
      then show ?thesis using q0 X(3) uk M'(2) True key by (metis Diff_iff insertI1)
    next
      case False
      then have "e \<noteq> sched_key k t" by auto
      then show ?thesis using q0 X(3) M'(3)[OF False] by simp
    qed
  qed
  obtain thr where thr: "qv_threads X0 th = Some thr" "head_ok a q M th thr"
    using threads_ok_head[OF ok th(2) k(1)] by blast
  then obtain h kh where h: "qv_threads X0 th = Some thr" "th_ThreadId thr = th" "th_HeadTaskId thr = mkTaskId a q h"
    "member M th h kh" "th_ScheduledAt thr = t_ScheduledAt kh"
    "\<And>t k. member M th t k \<Longrightarrow> is_inprog k \<Longrightarrow> t = h"
    "is_enq kh \<longrightarrow> (\<forall>t k. member M th t k \<longrightarrow> sched_key kh h \<le> sched_key k t)"
    unfolding head_ok_def by blast
  have m: "\<And>t' k'. member M' th t' k' \<Longrightarrow> t' \<noteq> t \<and> member M th t' k'"
    using M'(2,3) by metis
  show ?thesis
  proof (cases "h = t")
    case False
    have "member M' th h kh" "\<forall>t' k'. member M' th t' k' \<and> is_inprog k' \<longrightarrow> t' = h"
      "is_enq kh \<longrightarrow> (\<forall>t' k'. member M' th t' k' \<longrightarrow> sched_key kh h \<le> sched_key k' t')"
      using M'(3)[OF False] m h(4,6,7) by metis+
    then have "head_ok a q M' th thr"
      unfolding head_ok_def using h(2,3,5) by metis
    then have "threads_ok a q M' ?X"
      using threaded others queue h(1) X(2)
      by (intro threads_ok_intro[OF th(2)]) (auto simp: del_threaded_def thread_ok_def)
    then show ?thesis
      using False h(1,3) X(2) th(1) k(2) by (simp add: detach_view_def Let_def)
  next
    case True
    have idle: "\<And>t' k'. member M' th t' k' \<Longrightarrow> is_enq k'"
      using m h(6) True member_live by blast
    have "threads_ok a q M' (promote_view thr ?X)"
    proof (rule promote_view_ok[OF th(2) h(2)])
      show "\<And>e. e \<in> qv_queue ?X \<longleftrightarrow> other_queue M' (qv_threads ?X) th e"
        using queue M'(2) h(1,3) True X(2) by (auto simp: del_threaded_def head_of_def)
    qed (use threaded others rows fin idle in \<open>auto simp: del_threaded_def\<close>)
    then show ?thesis
      using True h(1,3) X(2) th(1) k(2) by (simp add: detach_view_def Let_def)
  qed
qed

lemma reschedule_view_ok:
  assumes ok: "threads_ok a q M X" and th: "t_ThreadId k = th" "th \<noteq> []"
    and k: "member M th t k" "is_enq k'" "t_ThreadId k' = th" "t_Id k' = mkTaskId a q t"
    and retry: "is_inprog k \<Longrightarrow> t_ScheduledAt k' \<noteq> t_ScheduledAt k"
    and overwrite: "is_enq k \<Longrightarrow> head_of (qv_threads X) th = Some t \<Longrightarrow> t_ScheduledAt k' \<noteq> t_ScheduledAt k \<Longrightarrow>
      (\<And>t' k''. member (M(t \<mapsto> k')) th t' k'' \<Longrightarrow> sched_key k' t \<le> sched_key k'' t')"
    and rows: "\<And>t' k''. member (M(t \<mapsto> k')) th t' k'' \<Longrightarrow> qv_tasks X t' = Some k'' \<and> t_Id k'' = mkTaskId a q t'"
    and fin: "finite (qv_threaded X th)"
  shows "threads_ok a q (M(t \<mapsto> k')) (reschedule_view k' (t_ScheduledAt k) X)"
proof -
  let ?M = "M(t \<mapsto> k')"
  let ?X = "add_threaded th (sched_key k' t) (del_threaded th (sched_key k t) X)"
  have live: "is_live k'" using k(2) by (simp add: is_live_def)
  have agree: "agree_off th M ?M"
    using k(1,3) unfolding agree_off_def member_def by auto
  have mt: "member ?M th t k'" using live k(3) by (simp add: member_def)
  have mo: "\<And>t' k''. t' \<noteq> t \<Longrightarrow> member ?M th t' k'' = member M th t' k''" by (simp add: member_def)
  have threaded: "threaded_ok ?M th' (qv_threaded ?X th')" if "th' \<noteq> []" for th'
  proof (cases "th' = th")
    case True
    then show ?thesis
      using threaded_ok_move[OF threads_okD(1)[OF ok th(2)] k(1) live k(3)]
      by (simp add: add_threaded_def del_threaded_def)
  next
    case False
    then show ?thesis
      using threads_okD(1)[OF ok that] agree_off_threads[OF agree] by (simp add: add_threaded_def del_threaded_def)
  qed
  have others: "thread_ok a q ?M th' (qv_threads X th')" if "th' \<noteq> []" "th' \<noteq> th" for th'
    using threads_okD(2)[OF ok that(1)] agree_off_threads[OF agree that(2)] by simp
  obtain thr where thr: "qv_threads X th = Some thr" "head_ok a q M th thr"
    using threads_ok_head[OF ok th(2) k(1)] by blast
  then obtain h kh where h: "qv_threads X th = Some thr" "th_ThreadId thr = th" "th_HeadTaskId thr = mkTaskId a q h"
    "member M th h kh" "th_ScheduledAt thr = t_ScheduledAt kh"
    "\<And>t k. member M th t k \<Longrightarrow> is_inprog k \<Longrightarrow> t = h"
    unfolding head_ok_def by blast
  have uniq: "\<And>k. member M th h k \<longleftrightarrow> k = kh" using member_unique h(4) by metis
  have queue: "e \<in> qv_queue X \<longleftrightarrow> other_queue ?M (qv_threads X) th e \<or> (is_enq kh \<and> e = (tw (th_ScheduledAt thr), h))" for e
  proof -
    have "e \<in> qv_queue X \<longleftrightarrow> other_queue ?M (qv_threads X) th e \<or>
      (\<exists>k. member M th (snd e) k \<and> is_enq k \<and> e = sched_key k (snd e) \<and> head_of (qv_threads X) th = Some (snd e))"
      by (rule threads_ok_queue[OF ok th(2) agree])
    then show ?thesis using uniq h(1,3,5) by (auto simp: head_of_def sched_key_def)
  qed
  let ?kh = "if h = t then k' else kh"
  have "threads_ok a q ?M (reconcile_view thr ?X)"
  proof (rule reconcile_view_ok[where listed = "is_enq kh" and kh = ?kh])
    show "th \<noteq> []" "th_ThreadId thr = th" "th_HeadTaskId thr = mkTaskId a q h" using th h by auto
    show "qv_threads ?X th = Some thr" using h by (simp add: add_threaded_def del_threaded_def)
    show "\<And>t' k'. member ?M th t' k' \<Longrightarrow> qv_tasks ?X t' = Some k' \<and> t_Id k' = mkTaskId a q t'"
      using rows by (simp add: add_threaded_def del_threaded_def)
    show "finite (qv_threaded ?X th)" using fin by (simp add: add_threaded_def del_threaded_def)
    show "\<And>th'. th' \<noteq> [] \<Longrightarrow> th' \<noteq> th \<Longrightarrow> thread_ok a q ?M th' (qv_threads ?X th')"
      using others by (simp add: add_threaded_def del_threaded_def)
    show "member ?M th h ?kh" using mt mo h(4) by simp
    show "\<And>t' k''. member ?M th t' k'' \<Longrightarrow> is_inprog k'' \<Longrightarrow> t' = h"
      using mo h(6) k(2) mt member_unique not_enq_inprog by metis
    show "\<And>e. e \<in> qv_queue ?X \<longleftrightarrow> other_queue ?M (qv_threads ?X) th e \<or> (is_enq kh \<and> e = (tw (th_ScheduledAt thr), h))"
      using queue by (simp add: add_threaded_def del_threaded_def)
    show "is_inprog ?kh \<Longrightarrow> \<not> is_enq kh \<and> th_ScheduledAt thr = t_ScheduledAt ?kh"
      using k(2) h(5) not_enq_inprog by (auto split: if_splits)
    show "is_enq ?kh \<Longrightarrow> th_ScheduledAt thr = t_ScheduledAt ?kh \<Longrightarrow> is_enq kh"
      using retry h(4,5) k(1) uniq member_live[OF h(4)] by (auto split: if_splits)
    show "\<And>t' k''. is_enq ?kh \<Longrightarrow> th_ScheduledAt thr \<noteq> t_ScheduledAt ?kh \<Longrightarrow> is_enq kh \<Longrightarrow>
        member ?M th t' k'' \<Longrightarrow> sched_key ?kh h \<le> sched_key k'' t'"
      using overwrite h(1,3,5) k(1) uniq by (auto simp: head_of_def split: if_splits)
  qed (use threaded in auto)
  then show ?thesis
    using h(1) k(3,4) by (simp add: reschedule_view_def Let_def sched_key_def)
qed

section \<open>Code and invariant together\<close>

lemma view_fields [simp]:
  "qv_tasks (reconcile_view thr X) = qv_tasks X" "qv_tasks (promote_view thr X) = qv_tasks X"
  "qv_dedupe (reconcile_view thr X) = qv_dedupe X" "qv_dedupe (promote_view thr X) = qv_dedupe X"
  "qv_inProgress (reconcile_view thr X) = qv_inProgress X" "qv_inProgress (promote_view thr X) = qv_inProgress X"
  "qv_dead (reconcile_view thr X) = qv_dead X" "qv_dead (promote_view thr X) = qv_dead X"
  "qv_expiration (reconcile_view thr X) = qv_expiration X" "qv_expiration (promote_view thr X) = qv_expiration X"
  "qv_counters (reconcile_view thr X) = qv_counters X" "qv_counters (promote_view thr X) = qv_counters X"
  "qv_state (reconcile_view thr X) = qv_state X" "qv_state (promote_view thr X) = qv_state X"
  "qv_rateLimiter (reconcile_view thr X) = qv_rateLimiter X" "qv_rateLimiter (promote_view thr X) = qv_rateLimiter X"
  "qv_purge (reconcile_view thr X) = qv_purge X" "qv_purge (promote_view thr X) = qv_purge X"
  by (simp_all add: reconcile_view_def promote_view_def Let_def)

lemma add_del_threaded_fields [simp]:
  "qv_tasks (add_threaded th e X) = qv_tasks X" "qv_tasks (del_threaded th e X) = qv_tasks X"
  "qv_dedupe (add_threaded th e X) = qv_dedupe X" "qv_dedupe (del_threaded th e X) = qv_dedupe X"
  "qv_inProgress (add_threaded th e X) = qv_inProgress X" "qv_inProgress (del_threaded th e X) = qv_inProgress X"
  "qv_dead (add_threaded th e X) = qv_dead X" "qv_dead (del_threaded th e X) = qv_dead X"
  "qv_expiration (add_threaded th e X) = qv_expiration X" "qv_expiration (del_threaded th e X) = qv_expiration X"
  "qv_counters (add_threaded th e X) = qv_counters X" "qv_counters (del_threaded th e X) = qv_counters X"
  "qv_state (add_threaded th e X) = qv_state X" "qv_state (del_threaded th e X) = qv_state X"
  "qv_rateLimiter (add_threaded th e X) = qv_rateLimiter X" "qv_rateLimiter (del_threaded th e X) = qv_rateLimiter X"
  "qv_purge (add_threaded th e X) = qv_purge X" "qv_purge (del_threaded th e X) = qv_purge X"
  "qv_threads (add_threaded th e X) = qv_threads X" "qv_threads (del_threaded th e X) = qv_threads X"
  "qv_queue (add_threaded th e X) = qv_queue X" "qv_queue (del_threaded th e X) = qv_queue X"
  by (simp_all add: add_threaded_def del_threaded_def)

lemma thread_view_fields [simp]:
  "qv_tasks (attach_view k X) = qv_tasks X" "qv_tasks (detach_view k X) = qv_tasks X" "qv_tasks (reschedule_view k x X) = qv_tasks X"
  "qv_dedupe (attach_view k X) = qv_dedupe X" "qv_dedupe (detach_view k X) = qv_dedupe X" "qv_dedupe (reschedule_view k x X) = qv_dedupe X"
  "qv_inProgress (attach_view k X) = qv_inProgress X" "qv_inProgress (detach_view k X) = qv_inProgress X" "qv_inProgress (reschedule_view k x X) = qv_inProgress X"
  "qv_dead (attach_view k X) = qv_dead X" "qv_dead (detach_view k X) = qv_dead X" "qv_dead (reschedule_view k x X) = qv_dead X"
  "qv_expiration (attach_view k X) = qv_expiration X" "qv_expiration (detach_view k X) = qv_expiration X" "qv_expiration (reschedule_view k x X) = qv_expiration X"
  "qv_counters (attach_view k X) = qv_counters X" "qv_counters (detach_view k X) = qv_counters X" "qv_counters (reschedule_view k x X) = qv_counters X"
  "qv_state (attach_view k X) = qv_state X" "qv_state (detach_view k X) = qv_state X" "qv_state (reschedule_view k x X) = qv_state X"
  "qv_rateLimiter (attach_view k X) = qv_rateLimiter X" "qv_rateLimiter (detach_view k X) = qv_rateLimiter X" "qv_rateLimiter (reschedule_view k x X) = qv_rateLimiter X"
  "qv_purge (attach_view k X) = qv_purge X" "qv_purge (detach_view k X) = qv_purge X" "qv_purge (reschedule_view k x X) = qv_purge X"
  by (simp_all add: attach_view_def detach_view_def reschedule_view_def Let_def split: option.split)

text \<open>Every live row is stored, under its id, with a thread id of bounded
  length.\<close>

definition stored :: "uint64 \<Rightarrow> uint64 \<Rightarrow> rows \<Rightarrow> rows \<Rightarrow> bool" where
  "stored a q M R \<longleftrightarrow> (\<forall>t k. M t = Some k \<and> is_live k \<longrightarrow> R t = Some k \<and> t_Id k = mkTaskId a q t)"

lemma stored_member: "stored a q M R \<Longrightarrow> member M th t k \<Longrightarrow> R t = Some k \<and> t_Id k = mkTaskId a q t"
  by (simp add: stored_def member_def)

lemma stored_row_ok: "stored a q M R \<Longrightarrow> member M th t k \<Longrightarrow> row_ok a q R t"
  by (auto simp: stored_def member_def row_ok_def)

context tasks_store
begin

lemma attachTaskToThread_ok:
  assumes "W s" "threads_ok a q M (Q s (a, q))" "t_ThreadId k \<noteq> []" "length (t_ThreadId k) < 2 ^ 32"
    and "is_enq k" "t_Id k = mkTaskId a q t" "\<And>k'. M t = Some k' \<Longrightarrow> \<not> is_live k'"
    and "stored a q (M(t \<mapsto> k)) (qv_tasks (Q s (a, q)))"
  shows "runs (attachTaskToThread P c k) s ((Q s)((a, q) := attach_view k (Q s (a, q))))"
    and "threads_ok a q (M(t \<mapsto> k)) (attach_view k (Q s (a, q)))"
proof -
  let ?th = "t_ThreadId k" and ?X = "add_threaded (t_ThreadId k) (sched_key k t) (Q s (a, q))"
  have live: "is_live k" using assms(5) by (simp add: is_live_def)
  have old: "\<And>t' k'. member M ?th t' k' \<Longrightarrow> member (M(t \<mapsto> k)) ?th t' k'"
    using assms(7) by (auto simp: member_def)
  have tok: "threaded_ok (M(t \<mapsto> k)) ?th (qv_threaded ?X ?th)"
    using threaded_ok_add[OF threads_okD(1)[OF assms(2,3)] _ live] assms(7) by (auto simp: add_threaded_def member_def)
  have fin: "finite (qv_threaded ?X ?th)" "qv_threaded ?X ?th \<noteq> {}"
    using assms(1,4) by (auto simp: add_threaded_def)
  obtain ke where "member (M(t \<mapsto> k)) ?th (earliest ?X ?th) ke"
    using earliest_is_member[OF tok fin] by blast
  then have e: "row_ok a q (qv_tasks (Q s (a, q))) (earliest ?X ?th)"
    by (rule stored_row_ok[OF assms(8)])
  show "runs (attachTaskToThread P c k) s ((Q s)((a, q) := attach_view k (Q s (a, q))))"
  proof (rule attachTaskToThread_run[OF assms(1,4,6)])
    fix thr assume "qv_threads (Q s (a, q)) ?th = Some thr"
    then have "head_ok a q M ?th thr" using threads_okD(2)[OF assms(2,3)] by (simp add: thread_ok_def)
    then show "th_ThreadId thr = ?th \<and> (\<exists>h. th_HeadTaskId thr = mkTaskId a q h \<and> row_ok a q (qv_tasks (Q s (a, q))) h) \<and>
        row_ok a q (qv_tasks (Q s (a, q))) (earliest ?X ?th)"
      using e stored_row_ok[OF assms(8) old] unfolding head_ok_def by blast
  qed
  show "threads_ok a q (M(t \<mapsto> k)) (attach_view k (Q s (a, q)))"
    using assms stored_member[OF assms(8)] by (intro attach_view_ok) auto
qed

lemma detachTaskFromThread_ok:
  assumes "W s" "threads_ok a q M X0" "member M (t_ThreadId k) t k0" "t_ScheduledAt k0 = t_ScheduledAt k"
    and "t_ThreadId k \<noteq> []" "length (t_ThreadId k) < 2 ^ 32" "t_Id k = mkTaskId a q t"
    and "qv_threaded (Q s (a, q)) = qv_threaded X0" "qv_threads (Q s (a, q)) = qv_threads X0"
    and "qv_queue (Q s (a, q)) = qv_queue X0 - {sched_key k t}"
    and "stored a q (M(t := None)) (qv_tasks (Q s (a, q)))"
  shows "runs (detachTaskFromThread P c k) s ((Q s)((a, q) := detach_view k (Q s (a, q))))"
    and "threads_ok a q (M(t := None)) (detach_view k (Q s (a, q)))"
proof -
  let ?th = "t_ThreadId k" and ?X = "del_threaded (t_ThreadId k) (sched_key k t) (Q s (a, q))" and ?M = "M(t := None)"
  have key: "sched_key k0 t = sched_key k t" using assms(4) by simp
  have agree: "agree_off ?th M ?M" "\<And>k'. \<not> member ?M ?th t k'" "\<And>t' k'. t' \<noteq> t \<Longrightarrow> member ?M ?th t' k' = member M ?th t' k'"
    using assms(3) by (auto simp: agree_off_def member_def)
  have tok: "threaded_ok ?M ?th (qv_threaded ?X ?th)"
    using threaded_ok_del[OF threads_okD(1)[OF assms(2,5)] assms(3) agree(2,3)] assms(8) key
    by (simp add: del_threaded_def)
  have fin: "finite (qv_threaded ?X ?th)" using assms(1,6) by (simp add: del_threaded_def)
  obtain thr where thr: "qv_threads X0 ?th = Some thr" "head_ok a q M ?th thr"
    using threads_ok_head[OF assms(2,5,3)] by blast
  show "runs (detachTaskFromThread P c k) s ((Q s)((a, q) := detach_view k (Q s (a, q))))"
  proof (rule detachTaskFromThread_run[OF assms(1,6,7)])
    show "qv_threads (Q s (a, q)) ?th = Some thr" "th_ThreadId thr = ?th"
      using thr assms(9) by (auto simp: head_ok_def)
    assume "qv_threaded (Q s (a, q)) ?th - {sched_key k t} \<noteq> {}"
    then have "qv_threaded ?X ?th \<noteq> {}" by (simp add: del_threaded_def)
    then obtain ke where "member ?M ?th (earliest ?X ?th) ke"
      using earliest_is_member[OF tok fin] by blast
    then show "row_ok a q (qv_tasks (Q s (a, q))) (earliest ?X ?th)"
      by (rule stored_row_ok[OF assms(11)])
  qed
  show "threads_ok a q ?M (detach_view k (Q s (a, q)))"
    using detach_view_ok[OF assms(2) refl assms(5,3,7,4,8-10) agree] assms(1,6) stored_member[OF assms(11)] by simp
qed

lemma rescheduleTaskInThread_ok:
  assumes "W s" "threads_ok a q M (Q s (a, q))" "member M (t_ThreadId k') t k" "is_enq k'"
    and "t_ThreadId k' \<noteq> []" "length (t_ThreadId k') < 2 ^ 32" "t_Id k' = mkTaskId a q t"
    and "is_inprog k \<Longrightarrow> t_ScheduledAt k' \<noteq> t_ScheduledAt k"
    and "is_enq k \<Longrightarrow> head_of (qv_threads (Q s (a, q))) (t_ThreadId k') = Some t \<Longrightarrow> t_ScheduledAt k' \<noteq> t_ScheduledAt k \<Longrightarrow>
      (\<And>t' k''. member (M(t \<mapsto> k')) (t_ThreadId k') t' k'' \<Longrightarrow> sched_key k' t \<le> sched_key k'' t')"
    and "stored a q (M(t \<mapsto> k')) (qv_tasks (Q s (a, q)))"
  shows "runs (rescheduleTaskInThread P c k' (t_ScheduledAt k)) s
      ((Q s)((a, q) := reschedule_view k' (t_ScheduledAt k) (Q s (a, q))))"
    and "threads_ok a q (M(t \<mapsto> k')) (reschedule_view k' (t_ScheduledAt k) (Q s (a, q)))"
proof -
  let ?th = "t_ThreadId k'" and ?M = "M(t \<mapsto> k')"
  let ?X = "add_threaded ?th (sched_key k' t) (del_threaded ?th (tw (t_ScheduledAt k), t) (Q s (a, q)))"
  have live: "is_live k'" using assms(4) by (simp add: is_live_def)
  have tok: "threaded_ok ?M ?th (qv_threaded ?X ?th)"
    using threaded_ok_move[OF threads_okD(1)[OF assms(2,5)] assms(3) live]
    by (simp add: add_threaded_def del_threaded_def sched_key_def)
  have fin: "finite (qv_threaded ?X ?th)" "qv_threaded ?X ?th \<noteq> {}"
    using assms(1,6) by (auto simp: add_threaded_def del_threaded_def)
  obtain ke where "member ?M ?th (earliest ?X ?th) ke" using earliest_is_member[OF tok fin] by blast
  then have e: "row_ok a q (qv_tasks (Q s (a, q))) (earliest ?X ?th)"
    by (rule stored_row_ok[OF assms(10)])
  obtain thr where thr: "qv_threads (Q s (a, q)) ?th = Some thr" "head_ok a q M ?th thr"
    using threads_ok_head[OF assms(2,5,3)] by blast
  then obtain h kh where h: "th_ThreadId thr = ?th" "th_HeadTaskId thr = mkTaskId a q h" "member M ?th h kh"
    unfolding head_ok_def by blast
  have "member ?M ?th h (if h = t then k' else kh)" using h(3) live by (simp add: member_def)
  then have "row_ok a q (qv_tasks (Q s (a, q))) h" by (rule stored_row_ok[OF assms(10)])
  then show "runs (rescheduleTaskInThread P c k' (t_ScheduledAt k)) s
      ((Q s)((a, q) := reschedule_view k' (t_ScheduledAt k) (Q s (a, q))))"
    by (rule rescheduleTaskInThread_run[OF assms(1,6,7) thr(1) h(1,2) _ e])
  show "threads_ok a q ?M (reschedule_view k' (t_ScheduledAt k) (Q s (a, q)))"
  proof (rule reschedule_view_ok[OF assms(2) _ assms(5,3,4) refl assms(7-9)])
    show "t_ThreadId k = ?th" using assms(3) by (simp add: member_def)
    show "finite (qv_threaded (Q s (a, q)) ?th)" using assms(1,6) by simp
  qed (auto dest: stored_member[OF assms(10)])
qed

end

end
