(* ===== verification/Tasks_Coherence.thy ===== *)
theory Tasks_Coherence
  imports Tasks_Threads
begin

text \<open>
  The invariant of one queue: every secondary index, every thread row and
  every counter is the function of the task rows it is meant to be.
  \<open>coh a q M X\<close> says so of the view \<open>X\<close> for the rows \<open>M\<close>; it is stated
  for rows that may differ from the stored ones, because an operation may have
  rewritten a row before it has brought the indexes in line.
  \<open>coherent a q X\<close> is the invariant between operations.
\<close>

section \<open>The invariant\<close>

text \<open>A retry strategy with \<open>n\<close> intervals allows \<open>n + 1\<close> deliveries.\<close>

definition retries_of :: "Task \<Rightarrow> int" where
  "retries_of k = (case t_RetryStrategy k of None \<Rightarrow> 0 | Some rs \<Rightarrow> int (length (rs_RetryIntervalsInSeconds rs)))"

definition attempts_ok :: "Task \<Rightarrow> bool" where
  "attempts_ok k \<longleftrightarrow> retries_of k < 2 ^ 31 - 1 \<and> 0 \<le> t_Attempts k \<and>
    (is_enq k \<longrightarrow> t_Attempts k \<le> retries_of k) \<and>
    (is_inprog k \<longrightarrow> 1 \<le> t_Attempts k \<and> t_Attempts k \<le> retries_of k + 1)"

definition row_wf :: "uint64 \<Rightarrow> uint64 \<Rightarrow> uint64 \<Rightarrow> Task \<Rightarrow> bool" where
  "row_wf a q t k \<longleftrightarrow> t_Id k = mkTaskId a q t \<and> length (t_ThreadId k) < 2 ^ 32 \<and>
    (is_live k \<or> is_dead k) \<and> attempts_ok k"

definition rows_wf :: "uint64 \<Rightarrow> uint64 \<Rightarrow> rows \<Rightarrow> bool" where
  "rows_wf a q M \<longleftrightarrow> finite (dom M) \<and> (\<forall>t k. M t = Some k \<longrightarrow> row_wf a q t k)"

text \<open>An index lists the rows that satisfy \<open>Pr\<close> under their time \<open>f\<close>.\<close>

definition idx_ok :: "rows \<Rightarrow> (Task \<Rightarrow> bool) \<Rightarrow> (Task \<Rightarrow> int) \<Rightarrow> entries \<Rightarrow> bool" where
  "idx_ok M Pr f E \<longleftrightarrow> (\<forall>w t. (w, t) \<in> E \<longleftrightarrow> (\<exists>k. M t = Some k \<and> Pr k \<and> w = tw (f k)))"

definition dedupe_ok :: "rows \<Rightarrow> (string \<Rightarrow> uint64 option) \<Rightarrow> bool" where
  "dedupe_ok M D \<longleftrightarrow> (\<forall>s t. s \<noteq> [] \<longrightarrow> (D s = Some t \<longleftrightarrow> (\<exists>k. M t = Some k \<and> is_live k \<and> t_DedupeKey k = s)))"

definition count_rows :: "(Task \<Rightarrow> bool) \<Rightarrow> rows \<Rightarrow> nat" where
  "count_rows Pr M = card {t. \<exists>k. M t = Some k \<and> Pr k}"

definition counters_ok :: "rows \<Rightarrow> TasksCounter \<Rightarrow> bool" where
  "counters_ok M cn \<longleftrightarrow>
    cnt_EnqueuedTasksCount cn = i64 (int (count_rows is_enq M)) \<and>
    cnt_InProgressTasksCount cn = i64 (int (count_rows is_inprog M)) \<and>
    cnt_DeadTasksCount cn = i64 (int (count_rows is_dead M))"

definition coh :: "uint64 \<Rightarrow> uint64 \<Rightarrow> rows \<Rightarrow> qview \<Rightarrow> bool" where
  "coh a q M X \<longleftrightarrow> rows_wf a q M \<and>
    idx_ok M is_inprog t_VisibleAt (qv_inProgress X) \<and>
    idx_ok M is_dead t_LastFailedAt (qv_dead X) \<and>
    idx_ok M (\<lambda>k. \<not> is_inprog k) t_ExpiresAt (qv_expiration X) \<and>
    dedupe_ok M (qv_dedupe X) \<and>
    threads_ok a q M X \<and>
    counters_ok M (qv_counters X)"

definition ids_below :: "uint64 \<Rightarrow> rows \<Rightarrow> bool" where
  "ids_below n M \<longleftrightarrow> (\<forall>t \<in> dom M. t \<le> n)"

definition coherent :: "uint64 \<Rightarrow> uint64 \<Rightarrow> qview \<Rightarrow> bool" where
  "coherent a q X \<longleftrightarrow> coh a q (qv_tasks X) X \<and> ids_below (qs_TaskIdSequence (qv_state X)) (qv_tasks X)"

text \<open>What no operation on tasks touches.\<close>

definition same_rest :: "qview \<Rightarrow> qview \<Rightarrow> bool" where
  "same_rest X X' \<longleftrightarrow> qv_state X' = qv_state X \<and> qv_rateLimiter X' = qv_rateLimiter X \<and> qv_purge X' = qv_purge X"

section \<open>State predicates\<close>

lemma is_state_simps [simp]:
  "t_State k = TASK_STATE_ENQUEUED \<Longrightarrow> is_enq k"
  "t_State k = TASK_STATE_IN_PROGRESS \<Longrightarrow> is_inprog k"
  "t_State k = TASK_STATE_DEAD \<Longrightarrow> is_dead k"
  by (simp_all add: is_enq_def is_inprog_def is_dead_def)

lemma is_state_excl:
  "is_enq k \<Longrightarrow> \<not> is_dead k" "is_inprog k \<Longrightarrow> \<not> is_dead k" "is_inprog k \<Longrightarrow> \<not> is_enq k"
  "is_dead k \<Longrightarrow> \<not> is_enq k" "is_dead k \<Longrightarrow> \<not> is_inprog k" "is_dead k \<Longrightarrow> \<not> is_live k"
  by (auto simp: is_enq_def is_inprog_def is_dead_def is_live_def)

lemma is_live_intros [simp]: "is_enq k \<Longrightarrow> is_live k" "is_inprog k \<Longrightarrow> is_live k"
  by (simp_all add: is_live_def)

lemmas state_defs = is_enq_def is_inprog_def is_dead_def is_live_def

section \<open>Rows that come and go\<close>

lemma idx_ok_add:
  "idx_ok M Pr f E \<Longrightarrow> M t = None \<Longrightarrow> idx_ok (M(t \<mapsto> k)) Pr f (if Pr k then insert (tw (f k), t) E else E)"
  unfolding idx_ok_def by auto

lemma idx_ok_del:
  "idx_ok M Pr f E \<Longrightarrow> M t = Some k \<Longrightarrow> (Pr k \<Longrightarrow> w = tw (f k)) \<Longrightarrow> idx_ok (M(t := None)) Pr f (E - {(w, t)})"
  unfolding idx_ok_def by auto

lemma idx_ok_skip:
  "idx_ok M Pr f E \<Longrightarrow> M t = Some k \<Longrightarrow> \<not> Pr k \<Longrightarrow> idx_ok (M(t := None)) Pr f E"
  unfolding idx_ok_def by auto

lemma idx_ok_keep:
  assumes "idx_ok M Pr f E" "M t = Some k" "Pr k = Pr k'" "Pr k \<Longrightarrow> f k = f k'"
  shows "idx_ok (M(t \<mapsto> k')) Pr f E"
  using assms unfolding idx_ok_def by auto

lemma dedupe_ok_add:
  assumes "dedupe_ok M D" "M t = None" "t_DedupeKey k \<noteq> [] \<Longrightarrow> is_live k \<Longrightarrow> D (t_DedupeKey k) = None"
  shows "dedupe_ok (M(t \<mapsto> k)) (if t_DedupeKey k \<noteq> [] \<and> is_live k then D(t_DedupeKey k \<mapsto> t) else D)"
  unfolding dedupe_ok_def
proof (intro allI impI)
  fix s t' assume s: "s \<noteq> ([] :: string)"
  have "D s = Some t' \<longleftrightarrow> (\<exists>k. M t' = Some k \<and> is_live k \<and> t_DedupeKey k = s)" for t'
    using assms(1) s unfolding dedupe_ok_def by blast
  then show "(if t_DedupeKey k \<noteq> [] \<and> is_live k then D(t_DedupeKey k \<mapsto> t) else D) s = Some t' \<longleftrightarrow>
      (\<exists>k'. (M(t \<mapsto> k)) t' = Some k' \<and> is_live k' \<and> t_DedupeKey k' = s)"
    using assms(2,3) s by (cases "t' = t"; cases "t_DedupeKey k = s") auto
qed

lemma dedupe_ok_del:
  assumes "dedupe_ok M D" "M t = Some k" "is_live k"
  shows "dedupe_ok (M(t := None)) (if t_DedupeKey k = [] then D else D(t_DedupeKey k := None))"
  unfolding dedupe_ok_def
proof (intro allI impI)
  fix s t' assume s: "s \<noteq> ([] :: string)"
  have D: "D s = Some t' \<longleftrightarrow> (\<exists>k. M t' = Some k \<and> is_live k \<and> t_DedupeKey k = s)" for t'
    using assms(1) s unfolding dedupe_ok_def by blast
  have u: "M t'' = Some k' \<Longrightarrow> is_live k' \<Longrightarrow> t_DedupeKey k' = s \<Longrightarrow> t_DedupeKey k = s \<Longrightarrow> t'' = t" for t'' k'
    using D[of t] D[of t''] assms(2,3) by auto
  show "(if t_DedupeKey k = [] then D else D(t_DedupeKey k := None)) s = Some t' \<longleftrightarrow>
      (\<exists>k'. (M(t := None)) t' = Some k' \<and> is_live k' \<and> t_DedupeKey k' = s)"
    using D[of t'] u assms(2) s by (cases "t' = t"; cases "t_DedupeKey k = s") auto
qed

lemma dedupe_ok_skip:
  assumes "dedupe_ok M D" "M t = Some k" "\<not> is_live k"
  shows "dedupe_ok (M(t := None)) D"
  using assms unfolding dedupe_ok_def by auto

lemma dedupe_ok_keep:
  assumes "dedupe_ok M D" "M t = Some k" "is_live k = is_live k'" "t_DedupeKey k = t_DedupeKey k'"
  shows "dedupe_ok (M(t \<mapsto> k')) D"
  using assms unfolding dedupe_ok_def by auto

lemma dedupe_ok_lookup:
  "dedupe_ok M D \<Longrightarrow> M t = Some k \<Longrightarrow> is_live k \<Longrightarrow> t_DedupeKey k \<noteq> [] \<Longrightarrow> D (t_DedupeKey k) = Some t"
  unfolding dedupe_ok_def by blast

lemma count_rows_del:
  assumes "finite (dom M)" "M t = Some k"
  shows "count_rows Pr M = count_rows Pr (M(t := None)) + (if Pr k then 1 else 0)"
proof -
  let ?A = "{t'. \<exists>k'. (M(t := None)) t' = Some k' \<and> Pr k'}"
  have fin: "finite ?A"
    by (rule finite_subset[OF _ assms(1)]) (auto split: if_splits)
  have "{t'. \<exists>k'. M t' = Some k' \<and> Pr k'} = (if Pr k then insert t ?A else ?A)"
    using assms(2) by (auto split: if_splits)
  then show ?thesis using fin by (simp add: count_rows_def)
qed

lemma count_rows_add:
  assumes "finite (dom M)" "M t = None"
  shows "count_rows Pr (M(t \<mapsto> k)) = count_rows Pr M + (if Pr k then 1 else 0)"
  using count_rows_del[of "M(t \<mapsto> k)" t k Pr] assms by (simp add: fun_upd_idem)

lemma rows_wf_del: "rows_wf a q M \<Longrightarrow> rows_wf a q (M(t := None))"
  by (auto simp: rows_wf_def)

lemma rows_wf_add: "rows_wf a q M \<Longrightarrow> row_wf a q t k \<Longrightarrow> rows_wf a q (M(t \<mapsto> k))"
  by (auto simp: rows_wf_def)

section \<open>Rows that do not belong to a thread\<close>

lemma threads_ok_fields:
  assumes "qv_threaded X' = qv_threaded X" "qv_threads X' = qv_threads X" "qv_queue X' = qv_queue X"
  shows "threads_ok a q M X' = threads_ok a q M X"
  by (simp add: threads_ok_def assms)

lemma threads_ok_live:
  assumes "\<And>t k. (M t = Some k \<and> is_live k) = (M' t = Some k \<and> is_live k)"
  shows "threads_ok a q M X = threads_ok a q M' X"
proof -
  have m: "\<And>th t k. member M th t k = member M' th t k"
    unfolding member_def using assms by blast
  have i: "\<And>T e. in_queue M T e = in_queue M' T e"
    unfolding in_queue_def using assms is_live_intros(1) by blast
  have "\<And>th E. threaded_ok M th E = threaded_ok M' th E" by (simp only: threaded_ok_def m)
  moreover have "\<And>th row. thread_ok a q M th row = thread_ok a q M' th row"
    by (simp only: thread_ok_def head_ok_def m)
  ultimately show ?thesis by (simp only: threads_ok_def i)
qed

lemma threads_ok_plain_cong:
  assumes "threads_ok a q M X" "qv_threaded X' = qv_threaded X" "qv_threads X' = qv_threads X"
    and "\<And>th t k. th \<noteq> [] \<Longrightarrow> member M th t k = member M' th t k"
    and "\<And>e. e \<in> qv_queue X' \<longleftrightarrow> in_queue M' (qv_threads X) e"
  shows "threads_ok a q M' X'"
proof -
  have "\<And>th E. th \<noteq> [] \<Longrightarrow> threaded_ok M th E = threaded_ok M' th E" by (simp add: threaded_ok_def assms(4))
  moreover have "\<And>th row. th \<noteq> [] \<Longrightarrow> thread_ok a q M th row = thread_ok a q M' th row"
    by (simp add: thread_ok_def head_ok_def assms(4) split: option.split)
  ultimately show ?thesis using assms(1,2,3,5) by (simp add: threads_ok_def)
qed

lemma threads_ok_plain_del:
  assumes "threads_ok a q M X" "M t = Some k" "t_ThreadId k = []"
    and "qv_threaded X' = qv_threaded X" "qv_threads X' = qv_threads X" "qv_queue X' = qv_queue X - {sched_key k t}"
  shows "threads_ok a q (M(t := None)) X'"
proof (rule threads_ok_plain_cong[OF assms(1,4,5)])
  show "\<And>th t' k'. th \<noteq> [] \<Longrightarrow> member M th t' k' = member (M(t := None)) th t' k'"
    using assms(2,3) by (auto simp: member_def)
  fix e
  have "e \<in> qv_queue X \<longleftrightarrow> in_queue M (qv_threads X) e" using assms(1) unfolding threads_ok_def by blast
  then show "e \<in> qv_queue X' \<longleftrightarrow> in_queue (M(t := None)) (qv_threads X) e"
    using assms(2,3,6) by (cases e) (auto simp: in_queue_def sched_key_def)
qed

lemma threads_ok_plain_add:
  assumes "threads_ok a q M X" "M t = None" "t_ThreadId k = []"
    and "qv_threaded X' = qv_threaded X" "qv_threads X' = qv_threads X"
    and "qv_queue X' = (if is_enq k then insert (sched_key k t) (qv_queue X) else qv_queue X)"
  shows "threads_ok a q (M(t \<mapsto> k)) X'"
proof (rule threads_ok_plain_cong[OF assms(1,4,5)])
  show "\<And>th t' k'. th \<noteq> [] \<Longrightarrow> member M th t' k' = member (M(t \<mapsto> k)) th t' k'"
    using assms(2,3) by (auto simp: member_def)
  fix e
  have "e \<in> qv_queue X \<longleftrightarrow> in_queue M (qv_threads X) e" using assms(1) unfolding threads_ok_def by blast
  then show "e \<in> qv_queue X' \<longleftrightarrow> in_queue (M(t \<mapsto> k)) (qv_threads X) e"
    using assms(2,3,6) by (cases e; cases "snd e = t") (auto simp: in_queue_def sched_key_def)
qed

section \<open>Counters\<close>

lemma counters_ok_del:
  assumes "counters_ok M cn" "finite (dom M)" "M t = Some k"
    and "cnt_EnqueuedTasksCount cn' = (if is_enq k then i64 (cnt_EnqueuedTasksCount cn - 1) else cnt_EnqueuedTasksCount cn)"
    and "cnt_InProgressTasksCount cn' = (if is_inprog k then i64 (cnt_InProgressTasksCount cn - 1) else cnt_InProgressTasksCount cn)"
    and "cnt_DeadTasksCount cn' = (if is_dead k then i64 (cnt_DeadTasksCount cn - 1) else cnt_DeadTasksCount cn)"
  shows "counters_ok (M(t := None)) cn'"
  using assms(1,4-6) count_rows_del[OF assms(2,3), of is_enq] count_rows_del[OF assms(2,3), of is_inprog]
    count_rows_del[OF assms(2,3), of is_dead]
  by (simp add: counters_ok_def)

lemma counters_ok_add:
  assumes "counters_ok M cn" "finite (dom M)" "M t = None"
    and "cnt_EnqueuedTasksCount cn' = (if is_enq k then i64 (cnt_EnqueuedTasksCount cn + 1) else cnt_EnqueuedTasksCount cn)"
    and "cnt_InProgressTasksCount cn' = (if is_inprog k then i64 (cnt_InProgressTasksCount cn + 1) else cnt_InProgressTasksCount cn)"
    and "cnt_DeadTasksCount cn' = (if is_dead k then i64 (cnt_DeadTasksCount cn + 1) else cnt_DeadTasksCount cn)"
  shows "counters_ok (M(t \<mapsto> k)) cn'"
  using assms(1,4-6) count_rows_add[OF assms(2,3), of is_enq] count_rows_add[OF assms(2,3), of is_inprog]
    count_rows_add[OF assms(2,3), of is_dead]
  by (simp add: counters_ok_def)

lemma counters_ok_keep:
  assumes "counters_ok M cn" "finite (dom M)" "M t = Some k" "t_State k = t_State k'"
    and "cnt_EnqueuedTasksCount cn' = cnt_EnqueuedTasksCount cn" "cnt_InProgressTasksCount cn' = cnt_InProgressTasksCount cn"
      "cnt_DeadTasksCount cn' = cnt_DeadTasksCount cn"
  shows "counters_ok (M(t \<mapsto> k')) cn'"
proof -
  have "count_rows Pr (M(t \<mapsto> k')) = count_rows Pr M" if "Pr k = Pr k'" for Pr
    using count_rows_del[OF assms(2,3), of Pr] count_rows_add[of "M(t := None)" t Pr k'] assms(2) that by simp
  then show ?thesis using assms(1,4-7) by (simp add: counters_ok_def state_defs)
qed

section \<open>Bringing the parts together\<close>

lemma cohD:
  assumes "coh a q M X"
  shows "rows_wf a q M" "finite (dom M)" "idx_ok M is_inprog t_VisibleAt (qv_inProgress X)"
    "idx_ok M is_dead t_LastFailedAt (qv_dead X)" "idx_ok M (\<lambda>k. \<not> is_inprog k) t_ExpiresAt (qv_expiration X)"
    "dedupe_ok M (qv_dedupe X)" "threads_ok a q M X" "counters_ok M (qv_counters X)"
    "M t = Some k \<Longrightarrow> row_wf a q t k"
  using assms by (auto simp: coh_def rows_wf_def)

lemma cohI:
  assumes "rows_wf a q M" "idx_ok M is_inprog t_VisibleAt (qv_inProgress X)"
    "idx_ok M is_dead t_LastFailedAt (qv_dead X)" "idx_ok M (\<lambda>k. \<not> is_inprog k) t_ExpiresAt (qv_expiration X)"
    "dedupe_ok M (qv_dedupe X)" "threads_ok a q M X" "counters_ok M (qv_counters X)"
  shows "coh a q M X"
  using assms by (simp add: coh_def)

text \<open>A row leaves: its entries are gone and its gauge is lowered.\<close>

lemma coh_del:
  assumes c: "coh a q M X" and k: "M t = Some k"
    and "qv_inProgress X' = (if is_inprog k then qv_inProgress X - {(tw (t_VisibleAt k), t)} else qv_inProgress X)"
    and "qv_dead X' = (if is_dead k then qv_dead X - {(tw (t_LastFailedAt k), t)} else qv_dead X)"
    and "qv_expiration X' = qv_expiration X - {(tw (t_ExpiresAt k), t)}"
    and "qv_dedupe X' = (if is_live k \<and> t_DedupeKey k \<noteq> [] then (qv_dedupe X)(t_DedupeKey k := None) else qv_dedupe X)"
    and "threads_ok a q (M(t := None)) X'"
    and "cnt_EnqueuedTasksCount (qv_counters X') = (if is_enq k then i64 (cnt_EnqueuedTasksCount (qv_counters X) - 1) else cnt_EnqueuedTasksCount (qv_counters X))"
    and "cnt_InProgressTasksCount (qv_counters X') = (if is_inprog k then i64 (cnt_InProgressTasksCount (qv_counters X) - 1) else cnt_InProgressTasksCount (qv_counters X))"
    and "cnt_DeadTasksCount (qv_counters X') = (if is_dead k then i64 (cnt_DeadTasksCount (qv_counters X) - 1) else cnt_DeadTasksCount (qv_counters X))"
  shows "coh a q (M(t := None)) X'"
proof (rule cohI)
  show "rows_wf a q (M(t := None))" using cohD(1)[OF c] by (rule rows_wf_del)
  show "idx_ok (M(t := None)) is_inprog t_VisibleAt (qv_inProgress X')"
    using idx_ok_del[OF cohD(3)[OF c] k] idx_ok_skip[OF cohD(3)[OF c] k] assms(3) by simp
  show "idx_ok (M(t := None)) is_dead t_LastFailedAt (qv_dead X')"
    using idx_ok_del[OF cohD(4)[OF c] k] idx_ok_skip[OF cohD(4)[OF c] k] assms(4) by simp
  show "idx_ok (M(t := None)) (\<lambda>k. \<not> is_inprog k) t_ExpiresAt (qv_expiration X')"
    using idx_ok_del[OF cohD(5)[OF c] k] assms(5) by simp
  show "dedupe_ok (M(t := None)) (qv_dedupe X')"
    using dedupe_ok_del[OF cohD(6)[OF c] k] dedupe_ok_skip[OF cohD(6)[OF c] k] assms(6)
    by (cases "is_live k"; cases "t_DedupeKey k = []") auto
  show "counters_ok (M(t := None)) (qv_counters X')"
    using counters_ok_del[OF cohD(8)[OF c] cohD(2)[OF c] k] assms(8-10) by simp
qed (fact assms(7))

text \<open>A row comes in.\<close>

lemma coh_add:
  assumes c: "coh a q M X" and k: "M t = None" "row_wf a q t k"
    and "qv_inProgress X' = (if is_inprog k then insert (tw (t_VisibleAt k), t) (qv_inProgress X) else qv_inProgress X)"
    and "qv_dead X' = (if is_dead k then insert (tw (t_LastFailedAt k), t) (qv_dead X) else qv_dead X)"
    and "qv_expiration X' = (if is_inprog k then qv_expiration X else insert (tw (t_ExpiresAt k), t) (qv_expiration X))"
    and "qv_dedupe X' = (if is_live k \<and> t_DedupeKey k \<noteq> [] then (qv_dedupe X)(t_DedupeKey k \<mapsto> t) else qv_dedupe X)"
    and free: "is_live k \<Longrightarrow> t_DedupeKey k \<noteq> [] \<Longrightarrow> qv_dedupe X (t_DedupeKey k) = None"
    and "threads_ok a q (M(t \<mapsto> k)) X'"
    and "cnt_EnqueuedTasksCount (qv_counters X') = (if is_enq k then i64 (cnt_EnqueuedTasksCount (qv_counters X) + 1) else cnt_EnqueuedTasksCount (qv_counters X))"
    and "cnt_InProgressTasksCount (qv_counters X') = (if is_inprog k then i64 (cnt_InProgressTasksCount (qv_counters X) + 1) else cnt_InProgressTasksCount (qv_counters X))"
    and "cnt_DeadTasksCount (qv_counters X') = (if is_dead k then i64 (cnt_DeadTasksCount (qv_counters X) + 1) else cnt_DeadTasksCount (qv_counters X))"
  shows "coh a q (M(t \<mapsto> k)) X'"
proof (rule cohI)
  show "rows_wf a q (M(t \<mapsto> k))" using cohD(1)[OF c] k(2) by (rule rows_wf_add)
  show "idx_ok (M(t \<mapsto> k)) is_inprog t_VisibleAt (qv_inProgress X')"
    using idx_ok_add[OF cohD(3)[OF c] k(1)] assms(4) by simp
  show "idx_ok (M(t \<mapsto> k)) is_dead t_LastFailedAt (qv_dead X')"
    using idx_ok_add[OF cohD(4)[OF c] k(1)] assms(5) by simp
  show "idx_ok (M(t \<mapsto> k)) (\<lambda>k. \<not> is_inprog k) t_ExpiresAt (qv_expiration X')"
    using idx_ok_add[OF cohD(5)[OF c] k(1), of k] assms(6) by (simp split: if_splits)
  show "dedupe_ok (M(t \<mapsto> k)) (qv_dedupe X')"
    using dedupe_ok_add[OF cohD(6)[OF c] k(1), of k] free assms(7)
    by (cases "is_live k"; cases "t_DedupeKey k = []") auto
  show "counters_ok (M(t \<mapsto> k)) (qv_counters X')"
    using counters_ok_add[OF cohD(8)[OF c] cohD(2)[OF c] k(1)] assms(10-12) by simp
qed (fact assms(9))

text \<open>A row is replaced; its deduplication key stays.\<close>

lemma idx_ok_upd:
  assumes "idx_ok M Pr f E" "M t = Some k"
    and "E' = (if Pr k' then insert (tw (f k'), t) (E - (if Pr k then {(tw (f k), t)} else {}))
      else E - (if Pr k then {(tw (f k), t)} else {}))"
  shows "idx_ok (M(t \<mapsto> k')) Pr f E'"
  using assms unfolding idx_ok_def by (cases "Pr k"; cases "Pr k'") auto

lemma counters_ok_upd:
  assumes "counters_ok M cn" "finite (dom M)" "M t = Some k"
    and "cnt_EnqueuedTasksCount cn' = (if is_enq k = is_enq k' then cnt_EnqueuedTasksCount cn
      else if is_enq k' then i64 (cnt_EnqueuedTasksCount cn + 1) else i64 (cnt_EnqueuedTasksCount cn - 1))"
    and "cnt_InProgressTasksCount cn' = (if is_inprog k = is_inprog k' then cnt_InProgressTasksCount cn
      else if is_inprog k' then i64 (cnt_InProgressTasksCount cn + 1) else i64 (cnt_InProgressTasksCount cn - 1))"
    and "cnt_DeadTasksCount cn' = (if is_dead k = is_dead k' then cnt_DeadTasksCount cn
      else if is_dead k' then i64 (cnt_DeadTasksCount cn + 1) else i64 (cnt_DeadTasksCount cn - 1))"
  shows "counters_ok (M(t \<mapsto> k')) cn'"
proof -
  have n: "count_rows Pr (M(t \<mapsto> k')) + (if Pr k then 1 else 0) = count_rows Pr M + (if Pr k' then 1 else 0)" for Pr
    using count_rows_del[OF assms(2,3), of Pr] count_rows_add[of "M(t := None)" t Pr k'] assms(2) by simp
  have "int (count_rows Pr (M(t \<mapsto> k'))) = (if Pr k = Pr k' then int (count_rows Pr M)
      else if Pr k' then int (count_rows Pr M) + 1 else int (count_rows Pr M) - 1)" for Pr
    using n[of Pr] by (cases "Pr k"; cases "Pr k'") auto
  then show ?thesis using assms(1,4-6) by (simp add: counters_ok_def)
qed

lemma coh_upd:
  assumes c: "coh a q M X" and k: "M t = Some k" "row_wf a q t k'" "t_DedupeKey k' = t_DedupeKey k"
    and "qv_inProgress X' = (if is_inprog k' then insert (tw (t_VisibleAt k'), t) (qv_inProgress X - (if is_inprog k then {(tw (t_VisibleAt k), t)} else {}))
      else qv_inProgress X - (if is_inprog k then {(tw (t_VisibleAt k), t)} else {}))"
    and "qv_dead X' = (if is_dead k' then insert (tw (t_LastFailedAt k'), t) (qv_dead X - (if is_dead k then {(tw (t_LastFailedAt k), t)} else {}))
      else qv_dead X - (if is_dead k then {(tw (t_LastFailedAt k), t)} else {}))"
    and "qv_expiration X' = (if \<not> is_inprog k' then insert (tw (t_ExpiresAt k'), t) (qv_expiration X - (if \<not> is_inprog k then {(tw (t_ExpiresAt k), t)} else {}))
      else qv_expiration X - (if \<not> is_inprog k then {(tw (t_ExpiresAt k), t)} else {}))"
    and live: "is_live k"
    and "qv_dedupe X' = (if is_live k' \<or> t_DedupeKey k = [] then qv_dedupe X else (qv_dedupe X)(t_DedupeKey k := None))"
    and "threads_ok a q (M(t \<mapsto> k')) X'"
    and "cnt_EnqueuedTasksCount (qv_counters X') = (if is_enq k = is_enq k' then cnt_EnqueuedTasksCount (qv_counters X)
      else if is_enq k' then i64 (cnt_EnqueuedTasksCount (qv_counters X) + 1) else i64 (cnt_EnqueuedTasksCount (qv_counters X) - 1))"
    and "cnt_InProgressTasksCount (qv_counters X') = (if is_inprog k = is_inprog k' then cnt_InProgressTasksCount (qv_counters X)
      else if is_inprog k' then i64 (cnt_InProgressTasksCount (qv_counters X) + 1) else i64 (cnt_InProgressTasksCount (qv_counters X) - 1))"
    and "cnt_DeadTasksCount (qv_counters X') = (if is_dead k = is_dead k' then cnt_DeadTasksCount (qv_counters X)
      else if is_dead k' then i64 (cnt_DeadTasksCount (qv_counters X) + 1) else i64 (cnt_DeadTasksCount (qv_counters X) - 1))"
  shows "coh a q (M(t \<mapsto> k')) X'"
proof (rule cohI)
  show "rows_wf a q (M(t \<mapsto> k'))" using cohD(1)[OF c] k(2) by (rule rows_wf_add)
  show "idx_ok (M(t \<mapsto> k')) is_inprog t_VisibleAt (qv_inProgress X')"
    by (rule idx_ok_upd[OF cohD(3)[OF c] k(1)]) (fact assms(5))
  show "idx_ok (M(t \<mapsto> k')) is_dead t_LastFailedAt (qv_dead X')"
    by (rule idx_ok_upd[OF cohD(4)[OF c] k(1)]) (fact assms(6))
  show "idx_ok (M(t \<mapsto> k')) (\<lambda>k. \<not> is_inprog k) t_ExpiresAt (qv_expiration X')"
    by (rule idx_ok_upd[OF cohD(5)[OF c] k(1)]) (fact assms(7))
  show "dedupe_ok (M(t \<mapsto> k')) (qv_dedupe X')"
  proof (cases "is_live k'")
    case True
    then show ?thesis using dedupe_ok_keep[OF cohD(6)[OF c] k(1), of k'] live k(3) assms(9) by simp
  next
    case False
    then show ?thesis
      using dedupe_ok_add[OF dedupe_ok_del[OF cohD(6)[OF c] k(1) live], of t k'] assms(9) by simp
  qed
  show "counters_ok (M(t \<mapsto> k')) (qv_counters X')"
    by (rule counters_ok_upd[OF cohD(8)[OF c] cohD(2)[OF c] k(1)]) (fact assms(11), fact assms(12), fact assms(13))
qed (fact assms(10))

section \<open>Rewriting a row that keeps its place\<close>

text \<open>A row rewritten with the same thread and schedule time: either it keeps
  its state, or it is a queued row handed out.  The thread rows may change
  their visibility time.\<close>

definition same_head :: "Thread option \<Rightarrow> Thread option \<Rightarrow> bool" where
  "same_head x y \<longleftrightarrow> (x = None \<longleftrightarrow> y = None) \<and>
    (\<forall>thr thr'. x = Some thr \<and> y = Some thr' \<longrightarrow> th_ThreadId thr' = th_ThreadId thr \<and>
      th_HeadTaskId thr' = th_HeadTaskId thr \<and> th_ScheduledAt thr' = th_ScheduledAt thr)"

lemma head_of_same_head: "same_head (T th) (T' th) \<Longrightarrow> head_of T' th = head_of T th"
  by (cases "T th"; cases "T' th") (simp_all add: head_of_def same_head_def)

lemma threads_ok_rewrite:
  assumes ok: "threads_ok a q M X" and k: "M t = Some k" "is_live k" "is_live k'"
    and same: "t_ThreadId k' = t_ThreadId k" "t_ScheduledAt k' = t_ScheduledAt k"
    and T: "qv_threaded X' = qv_threaded X" "\<And>th. same_head (qv_threads X th) (qv_threads X' th)"
    and cases: "t_State k' = t_State k \<and> qv_queue X' = qv_queue X \<or>
      is_enq k \<and> is_inprog k' \<and> sched_key k t \<in> qv_queue X \<and> qv_queue X' = qv_queue X - {sched_key k t}"
  shows "threads_ok a q (M(t \<mapsto> k')) X'"
proof -
  let ?M = "M(t \<mapsto> k')"
  have memt: "member ?M th t m \<longleftrightarrow> m = k' \<and> t_ThreadId k = th" "member M th t m \<longleftrightarrow> m = k \<and> t_ThreadId k = th" for th m
    using k same by (auto simp: member_def)
  have memo: "u \<noteq> t \<Longrightarrow> member ?M th u m \<longleftrightarrow> member M th u m" for th u m
    by (simp add: member_def)
  have key: "sched_key k' t = sched_key k t" using same by (simp add: sched_key_def)
  have threaded: "threaded_ok ?M th (qv_threaded X' th)" if "th \<noteq> []" for th
  proof -
    have "(\<exists>m. member ?M th (snd e) m \<and> e = sched_key m (snd e)) \<longleftrightarrow> (\<exists>m. member M th (snd e) m \<and> e = sched_key m (snd e))" for e
      by (cases "snd e = t") (simp_all add: memt memo sched_key_def same)
    then show ?thesis using ok that unfolding threads_ok_def threaded_ok_def T(1) by simp
  qed
  have plain: "t_ThreadId k = [] \<or> head_of (qv_threads X) (t_ThreadId k) = Some t" if "is_enq k" "is_inprog k'"
    using cases ok k that unfolding threads_ok_def in_queue_def by (auto simp: state_defs sched_key_def)
  have thread: "thread_ok a q ?M th (qv_threads X' th)" if th: "th \<noteq> []" for th
  proof (cases "qv_threads X th")
    case None
    then have "qv_threads X' th = None" using T(2)[of th] by (simp add: same_head_def)
    moreover have "\<not> member M th u m" for u m using None ok th by (auto simp: threads_ok_def thread_ok_def)
    then have "\<not> member ?M th u m" for u m using memt memo by metis
    ultimately show ?thesis by (simp add: thread_ok_def)
  next
    case (Some thr)
    obtain thr' where thr': "qv_threads X' th = Some thr'" using T(2)[of th] Some by (cases "qv_threads X' th") (simp_all add: same_head_def)
    have e: "th_ThreadId thr' = th_ThreadId thr" "th_HeadTaskId thr' = th_HeadTaskId thr" "th_ScheduledAt thr' = th_ScheduledAt thr"
      using T(2)[of th] Some thr' by (simp_all add: same_head_def)
    have "head_ok a q M th thr" using Some ok th by (auto simp: threads_ok_def thread_ok_def)
    then obtain h kh where h: "th_ThreadId thr = th" "th_HeadTaskId thr = mkTaskId a q h" "member M th h kh"
      "th_ScheduledAt thr = t_ScheduledAt kh" "\<forall>u m. member M th u m \<and> is_inprog m \<longrightarrow> u = h"
      "is_enq kh \<longrightarrow> (\<forall>u m. member M th u m \<longrightarrow> sched_key kh h \<le> sched_key m u)"
      unfolding head_ok_def by blast
    define kh' where "kh' = (if h = t then k' else kh)"
    have mh: "member ?M th h kh'" "t_ScheduledAt kh' = t_ScheduledAt kh" "sched_key kh' h = sched_key kh h"
      using h(3) same key memo by (cases "h = t"; simp add: memt kh'_def)+
    have one: "u = h" if u: "member ?M th u m" "is_inprog m" for u m
    proof (cases "u = t")
      case True
      with u memt have m: "m = k'" "t_ThreadId k = th" by auto
      show ?thesis
      proof (cases "is_inprog k")
        case True then show ?thesis using h(5) memt(2) m \<open>u = t\<close> by blast
      next
        case False
        then have "is_enq k" using k by (simp add: is_live_def)
        then show ?thesis using plain m u(2) th \<open>u = t\<close> Some h(2) by (simp add: head_of_def)
      qed
    next
      case False then show ?thesis using h(5) u memo by blast
    qed
    have min: "sched_key kh' h \<le> sched_key m u" if "is_enq kh'" "member ?M th u m" for u m
    proof -
      have "is_enq kh"
        using that(1) cases h(3) memt(2) by (cases "h = t") (auto simp: kh'_def state_defs)
      then have all: "member M th u m \<Longrightarrow> sched_key kh h \<le> sched_key m u" for u m using h(6) by blast
      show ?thesis
      proof (cases "u = t")
        case True
        then have "m = k'" "member M th t k" using that(2) memt by auto
        then show ?thesis using all mh(3) key True by metis
      next
        case False then show ?thesis using all that(2) memo mh(3) by metis
      qed
    qed
    have "head_ok a q ?M th thr'" unfolding head_ok_def e using h(1,2,4) mh(1,2) one min by metis
    then show ?thesis using thr' by (simp add: thread_ok_def)
  qed
  have hd: "head_of (qv_threads X') th = head_of (qv_threads X) th" for th
    by (rule head_of_same_head) (rule T(2))
  have queue: "e \<in> qv_queue X' \<longleftrightarrow> in_queue ?M (qv_threads X') e" for e
  proof -
    have e: "e \<in> qv_queue X \<longleftrightarrow> in_queue M (qv_threads X) e" using ok unfolding threads_ok_def by blast
    show ?thesis
    proof (cases "snd e = t")
      case True
      define R where "R \<longleftrightarrow> e = sched_key k t \<and> (t_ThreadId k = [] \<or> head_of (qv_threads X) (t_ThreadId k) = Some t)"
      have "in_queue ?M (qv_threads X') e \<longleftrightarrow> is_enq k' \<and> R" "in_queue M (qv_threads X) e \<longleftrightarrow> is_enq k \<and> R"
        unfolding R_def in_queue_def True hd by (simp_all add: k same sched_key_def)
      moreover have "is_inprog k' \<Longrightarrow> \<not> is_enq k'" "t_State k' = t_State k \<Longrightarrow> is_enq k' = is_enq k"
        by (simp_all add: state_defs)
      moreover have "R \<Longrightarrow> e = sched_key k t" by (simp add: R_def)
      ultimately show ?thesis using cases e by blast
    next
      case False
      then have "in_queue ?M (qv_threads X') e \<longleftrightarrow> in_queue M (qv_threads X) e" "e \<noteq> sched_key k t"
        by (auto simp: in_queue_def hd sched_key_def)
      then show ?thesis using cases e by blast
    qed
  qed
  show ?thesis unfolding threads_ok_def using threaded thread queue by blast
qed

lemma stored_coh:
  assumes "coh a q M X" "\<And>t k. M t = Some k \<Longrightarrow> R t = Some k"
  shows "stored a q M R"
  using cohD(9)[OF assms(1)] assms(2) by (auto simp: stored_def row_wf_def)

lemma stored_upd: "stored a q M R \<Longrightarrow> t_Id k = mkTaskId a q t \<Longrightarrow> stored a q (M(t \<mapsto> k)) (R(t \<mapsto> k))"
  by (auto simp: stored_def)

lemma stored_del: "stored a q M R \<Longrightarrow> stored a q (M(t := None)) (R(t := x))"
  by (auto simp: stored_def)

end
