(* ===== verification/Tasks_Ops.thy ===== *)
theory Tasks_Ops
  imports Tasks_Coherence
begin

text \<open>
  The internal operations of the tasks core that create, delete, renew, retry
  and bury one task: each runs to the end and keeps the invariant
  \<open>coh\<close>, with the effect on the rows stated exactly.
\<close>

section \<open>What an operation may change\<close>

text \<open>The part of the view thread coordination may change.\<close>

definition only_threads :: "qview \<Rightarrow> qview \<Rightarrow> bool" where
  "only_threads X X' \<longleftrightarrow> qv_tasks X' = qv_tasks X \<and> qv_dedupe X' = qv_dedupe X \<and> qv_inProgress X' = qv_inProgress X \<and>
    qv_dead X' = qv_dead X \<and> qv_expiration X' = qv_expiration X \<and> qv_counters X' = qv_counters X \<and> same_rest X X'"

text \<open>How a deletion moves the two running totals.\<close>

definition tally :: "taskDeletionReason \<Rightarrow> TasksCounter \<Rightarrow> TasksCounter" where
  "tally reason cn = (case reason of
      taskDeletionSucceeded \<Rightarrow> cn\<lparr> cnt_ProcessedTasksCount := i64 (cnt_ProcessedTasksCount cn + 1) \<rparr>
    | taskDeletionExpired \<Rightarrow> cn\<lparr> cnt_ExpiredTasksCount := i64 (cnt_ExpiredTasksCount cn + 1) \<rparr>
    | taskDeletionNone \<Rightarrow> cn)"

definition same_totals :: "TasksCounter \<Rightarrow> TasksCounter \<Rightarrow> bool" where
  "same_totals cn cn' \<longleftrightarrow> cnt_ProcessedTasksCount cn' = cnt_ProcessedTasksCount cn \<and>
    cnt_ExpiredTasksCount cn' = cnt_ExpiredTasksCount cn"

lemma tally_gauges [simp]:
  "cnt_EnqueuedTasksCount (tally reason cn) = cnt_EnqueuedTasksCount cn"
  "cnt_InProgressTasksCount (tally reason cn) = cnt_InProgressTasksCount cn"
  "cnt_DeadTasksCount (tally reason cn) = cnt_DeadTasksCount cn"
  by (simp_all add: tally_def split: taskDeletionReason.split)

context tasks_store
begin

text \<open>\<open>steps m s r a q M R\<close>: \<open>m\<close> runs in \<open>s\<close> without an error, returns
  \<open>r\<close>, changes queue \<open>(a, q)\<close> only, and leaves it coherent with rows \<open>M\<close>
  and a view that satisfies \<open>R\<close>.\<close>

definition steps :: "('s, 'r) go \<Rightarrow> 's \<Rightarrow> 'r \<Rightarrow> uint64 \<Rightarrow> uint64 \<Rightarrow> rows \<Rightarrow> (qview \<Rightarrow> bool) \<Rightarrow> bool" where
  "steps m s r a q M R \<longleftrightarrow> (\<exists>s' X'. m s = Inr (r, s') \<and> W s' \<and> Q s' = (Q s)((a, q) := X') \<and>
     coh a q M X' \<and> qv_tasks X' = M \<and> same_rest (Q s (a, q)) X' \<and> R X')"

lemma stepsI:
  assumes "m s = Inr (r, s')" "W s'" "Q s' = (Q s)((a, q) := X')" "coh a q M X'" "qv_tasks X' = M"
    "same_rest (Q s (a, q)) X'" "R X'"
  shows "steps m s r a q M R"
  unfolding steps_def using assms by blast

lemma stepsE:
  assumes "steps m s r a q M R"
  obtains s' X' where "m s = Inr (r, s')" "W s'" "Q s' = (Q s)((a, q) := X')" "coh a q M X'" "qv_tasks X' = M"
    "same_rest (Q s (a, q)) X'" "R X'"
  using assms unfolding steps_def by blast

lemma runsE:
  assumes "runs m s V"
  obtains s' where "m s = Inr ((), s')" "W s'" "Q s' = V"
  using assms unfolding runs_def by blast

lemma dedupe_when_run [tables_run]:
  assumes "x \<noteq> [] \<longrightarrow> qv_dedupe (Q s (a, q)) x \<noteq> None"
  shows "go_when (x \<noteq> []) (ut_Delete (tt_dedupeKeysIndex (tc_tasks c)) (dkey a q x)) s =
      Inr ((), go_out (go_when (x \<noteq> []) (ut_Delete (tt_dedupeKeysIndex (tc_tasks c)) (dkey a q x))) s)"
    and "Q (go_out (go_when (x \<noteq> []) (ut_Delete (tt_dedupeKeysIndex (tc_tasks c)) (dkey a q x))) s) =
      (Q s)((a, q) := (Q s (a, q))\<lparr> qv_dedupe :=
        (if x = [] then qv_dedupe (Q s (a, q)) else (qv_dedupe (Q s (a, q)))(x := None)) \<rparr>)"
  using assms by (cases "x = []"; simp add: tables_run go_out_eq[OF go_run_basic(1)])+

lemma dedupe_when_wf [tables_wf]:
  assumes "W s" "x \<noteq> [] \<longrightarrow> qv_dedupe (Q s (a, q)) x \<noteq> None"
  shows "W (go_out (go_when (x \<noteq> []) (ut_Delete (tt_dedupeKeysIndex (tc_tasks c)) (dkey a q x))) s)"
  using assms by (cases "x = []") (simp_all add: tables_wf go_out_eq[OF go_run_basic(1)])

lemma dedupe_set_when_run [tables_run]:
  "go_when (x \<noteq> []) (ut_Set (tt_dedupeKeysIndex (tc_tasks c)) (dkey a q x) t) s =
      Inr ((), go_out (go_when (x \<noteq> []) (ut_Set (tt_dedupeKeysIndex (tc_tasks c)) (dkey a q x) t)) s)"
  "Q (go_out (go_when (x \<noteq> []) (ut_Set (tt_dedupeKeysIndex (tc_tasks c)) (dkey a q x) t)) s) =
      (Q s)((a, q) := (Q s (a, q))\<lparr> qv_dedupe :=
        (if x = [] then qv_dedupe (Q s (a, q)) else (qv_dedupe (Q s (a, q)))(x \<mapsto> t)) \<rparr>)"
  by (cases "x = []"; simp add: tables_run go_out_eq[OF go_run_basic(1)])+

lemma dedupe_set_when_wf [tables_wf]:
  assumes "W s"
  shows "W (go_out (go_when (x \<noteq> []) (ut_Set (tt_dedupeKeysIndex (tc_tasks c)) (dkey a q x) t)) s)"
  using assms by (cases "x = []") (simp_all add: tables_wf go_out_eq[OF go_run_basic(1)])

section \<open>Entering and leaving the queue index\<close>

lemma enter_queue_ok:
  assumes W: "W s" and th: "threads_ok a q M (Q s (a, q))" and k: "row_wf a q t k" "is_enq k" "M t = None"
    and st: "stored a q (M(t \<mapsto> k)) (qv_tasks (Q s (a, q)))"
  shows "\<exists>X'. runs (if t_ThreadId k = []
      then oi_Add (tt_queueIndex (tc_tasks c)) (qkey a q) (ikey (tw (t_ScheduledAt k)) t)
      else attachTaskToThread P c k) s ((Q s)((a, q) := X')) \<and>
    threads_ok a q (M(t \<mapsto> k)) X' \<and> only_threads (Q s (a, q)) X'"
proof (cases "t_ThreadId k = []")
  case True
  let ?X = "(Q s (a, q))\<lparr> qv_queue := insert (sched_key k t) (qv_queue (Q s (a, q))) \<rparr>"
  have "threads_ok a q (M(t \<mapsto> k)) ?X"
    using k(2,3) True by (intro threads_ok_plain_add[OF th]) auto
  moreover have "only_threads (Q s (a, q)) ?X" by (simp add: only_threads_def same_rest_def)
  ultimately show ?thesis
    using True W by (intro exI[of _ ?X]) (simp add: runs_def tables_run tables_wf sched_key_def)
next
  case False
  have id: "t_Id k = mkTaskId a q t" "length (t_ThreadId k) < 2 ^ 32" using k(1) by (auto simp: row_wf_def)
  have none: "\<And>k'. M t = Some k' \<Longrightarrow> \<not> is_live k'" using k(3) by simp
  note at = attachTaskToThread_ok[OF W th False id(2) k(2) id(1) none st]
  have "only_threads (Q s (a, q)) (attach_view k (Q s (a, q)))" by (simp add: only_threads_def same_rest_def)
  then show ?thesis using at False by auto
qed

lemma leave_queue_ok:
  assumes W: "W s" and th: "threads_ok a q M X0" and M: "M t = Some k0" "is_live k0"
    and k: "row_wf a q t k" "t_ScheduledAt k0 = t_ScheduledAt k" "t_ThreadId k0 = t_ThreadId k"
    and X: "qv_threaded (Q s (a, q)) = qv_threaded X0" "qv_threads (Q s (a, q)) = qv_threads X0"
      "qv_queue (Q s (a, q)) = qv_queue X0 - {sched_key k t}"
    and st: "stored a q (M(t := None)) (qv_tasks (Q s (a, q)))"
  shows "\<exists>X'. runs (go_when (t_ThreadId k \<noteq> []) (detachTaskFromThread P c k)) s ((Q s)((a, q) := X')) \<and>
    threads_ok a q (M(t := None)) X' \<and> only_threads (Q s (a, q)) X'"
proof (cases "t_ThreadId k = []")
  case True
  have "threads_ok a q (M(t := None)) (Q s (a, q))"
    using True k X by (intro threads_ok_plain_del[OF th M(1)]) (auto simp: sched_key_def)
  then show ?thesis
    using True W by (intro exI[of _ "Q s (a, q)"]) (simp add: runs_def go_run only_threads_def same_rest_def)
next
  case False
  have id: "t_Id k = mkTaskId a q t" "length (t_ThreadId k) < 2 ^ 32" using k(1) by (auto simp: row_wf_def)
  have m: "member M (t_ThreadId k) t k0" using M k by (simp add: member_def)
  note de = detachTaskFromThread_ok[OF W th m k(2) False id(2,1) X st]
  have "only_threads (Q s (a, q)) (detach_view k (Q s (a, q)))" by (simp add: only_threads_def same_rest_def)
  then show ?thesis using de False by (auto simp: go_run)
qed

section \<open>createTask\<close>

lemma createTask_ok:
  assumes W: "W s" and c: "coh a q M (Q s (a, q))"
    and k: "row_wf a q t k" "is_enq k" "M t = None" "M(t := x) = qv_tasks (Q s (a, q))"
    and free: "t_DedupeKey k \<noteq> [] \<Longrightarrow> qv_dedupe (Q s (a, q)) (t_DedupeKey k) = None"
  shows "steps (createTask P c k) s () a q (M(t \<mapsto> k)) (\<lambda>X'. True)"
proof -
  let ?X = "Q s (a, q)"
  let ?D = "if t_DedupeKey k = [] then qv_dedupe ?X else (qv_dedupe ?X)(t_DedupeKey k \<mapsto> t)"
  let ?X2 = "?X\<lparr> qv_tasks := M(t \<mapsto> k), qv_dedupe := ?D \<rparr>"
  have id: "t_Id k = mkTaskId a q t" using k(1) by (auto simp: row_wf_def)
  have rows: "(qv_tasks ?X)(t \<mapsto> k) = M(t \<mapsto> k)" using k(4) by (metis fun_upd_upd)
  define s1 where "s1 = go_out (tasksTable_set P (tc_tasks c) k) s"
  define s2 where "s2 = go_out (go_when (t_DedupeKey k \<noteq> [])
    (ut_Set (tt_dedupeKeysIndex (tc_tasks c)) (dkey a q (t_DedupeKey k)) t)) s1"
  define E where "E = (if t_ThreadId k = []
      then oi_Add (tt_queueIndex (tc_tasks c)) (qkey a q) (ikey (tw (t_ScheduledAt k)) t)
      else attachTaskToThread P c k)"
  have s2: "W s2" "Q s2 = (Q s)((a, q) := ?X2)"
    using W id rows by (simp_all add: s1_def s2_def tables_run tables_wf)
  have th: "threads_ok a q M (Q s2 (a, q))"
    using cohD(7)[OF c] s2(2) threads_ok_fields[of ?X2 ?X] by simp
  have st: "stored a q (M(t \<mapsto> k)) (qv_tasks (Q s2 (a, q)))"
    using stored_upd[OF stored_coh[OF c, of M], of k t] id s2(2) by simp
  obtain X3 where X3: "threads_ok a q (M(t \<mapsto> k)) X3" "only_threads ?X2 X3"
    and r3: "runs E s2 ((Q s2)((a, q) := X3))"
    using enter_queue_ok[OF s2(1) th k(1-3) st] s2(2) unfolding E_def by auto
  obtain s3 where s3: "E s2 = Inr ((), s3)" "W s3" "Q s3 = (Q s2)((a, q) := X3)"
    using r3 by (rule runsE)
  define s4 where "s4 = go_out (expirationIndex_add P (tt_expiration (tc_tasks c)) (t_Id k) (t_ExpiresAt k)) s3"
  let ?cn = "(qv_counters ?X)\<lparr> cnt_EnqueuedTasksCount := i64 (cnt_EnqueuedTasksCount (qv_counters ?X) + 1) \<rparr>"
  define s5 where "s5 = go_out (countersTable_Set P (tc_counters c) a q ?cn) s4"
  let ?X5 = "X3\<lparr> qv_expiration := insert (tw (t_ExpiresAt k), t) (qv_expiration X3), qv_counters := ?cn \<rparr>"
  have X3f: "qv_counters X3 = qv_counters ?X" "qv_expiration X3 = qv_expiration ?X" "qv_tasks X3 = M(t \<mapsto> k)"
    "qv_dedupe X3 = ?D" "qv_inProgress X3 = qv_inProgress ?X" "qv_dead X3 = qv_dead ?X" "same_rest ?X X3"
    using X3(2) by (simp_all add: only_threads_def same_rest_def)
  have "createTask P c k s = Inr ((), s5)"
    unfolding createTask_def id TaskId.simps keys_run E_def[symmetric]
    using id s3(1) s3(3) s2(2) X3f
    by (simp add: go_run tables_run s1_def[symmetric] s2_def[symmetric] s4_def s5_def)
  moreover have "W s5" "Q s5 = (Q s)((a, q) := ?X5)"
    using s3 s2(2) id by (simp_all add: s4_def s5_def tables_run tables_wf)
  moreover have "coh a q (M(t \<mapsto> k)) ?X5"
    using X3f free k(2) is_state_excl[of k] threads_ok_fields[of ?X5 X3] X3(1)
    by (intro coh_add[OF c k(3,1)]) (auto simp: state_defs)
  ultimately show ?thesis using X3f by (intro stepsI[of _ _ _ s5 _ _ ?X5]) (auto simp: same_rest_def)
qed

section \<open>deleteTask\<close>

lemma not_enq_not_queued:
  assumes "threads_ok a q M X" "M t = Some k" "\<not> is_enq k"
  shows "(w, t) \<notin> qv_queue X"
  using assms unfolding threads_ok_def in_queue_def by auto

lemma deleteTask_dead_ok:
  assumes W: "W s" and c: "coh a q M (Q s (a, q))" and M: "qv_tasks (Q s (a, q)) = M" "M t = Some k" "is_dead k"
  shows "steps (deleteTask P c k reason) s () a q (M(t := None))
    (\<lambda>X'. same_totals (tally reason (qv_counters (Q s (a, q)))) (qv_counters X'))"
proof -
  let ?X = "Q s (a, q)"
  have id: "t_Id k = mkTaskId a q t" using cohD(9)[OF c M(2)] by (simp add: row_wf_def)
  have st: "t_State k = TASK_STATE_DEAD" using M(3) by (simp add: is_dead_def)
  let ?X' = "?X\<lparr> qv_dead := qv_dead ?X - {(tw (t_LastFailedAt k), t)},
    qv_expiration := qv_expiration ?X - {(tw (t_ExpiresAt k), t)}, qv_tasks := M(t := None),
    qv_counters := (tally reason (qv_counters ?X))\<lparr> cnt_DeadTasksCount := i64 (cnt_DeadTasksCount (qv_counters ?X) - 1) \<rparr> \<rparr>"
  have "threads_ok a q (M(t := None)) ?X"
    using cohD(7)[OF c] M(2,3) by (subst threads_ok_live[of _ M]) (auto simp: state_defs)
  then have tok: "threads_ok a q (M(t := None)) ?X'" by (subst threads_ok_fields[of _ ?X]) auto
  have coh: "coh a q (M(t := None)) ?X'"
    using tok M(3) by (intro coh_del[OF c M(2)]) (auto simp: state_defs)
  obtain s' where "deleteTask P c k reason s = Inr ((), s')" "W s'" "Q s' = (Q s)((a, q) := ?X')"
    using W M id st by (cases reason) (simp_all add: deleteTask_def tally_def Let_def go_run tables_run tables_wf keys_run)
  then show ?thesis by (rule stepsI) (simp_all add: coh same_totals_def same_rest_def)
qed

text \<open>A live task: it leaves its index, frees its deduplication key and is
  detached from its thread.\<close>

lemma deleteTask_live_ok:
  assumes W: "W s" and c: "coh a q M (Q s (a, q))" and M: "qv_tasks (Q s (a, q)) = M" "M t = Some k" "is_live k"
  shows "steps (deleteTask P c k reason) s () a q (M(t := None))
    (\<lambda>X'. same_totals (tally reason (qv_counters (Q s (a, q)))) (qv_counters X'))"
proof -
  let ?X = "Q s (a, q)" and ?cn = "tally reason (qv_counters (Q s (a, q)))"
  have wf: "row_wf a q t k" using cohD(9)[OF c M(2)] .
  have id: "t_Id k = mkTaskId a q t" using wf by (simp add: row_wf_def)
  have ded: "t_DedupeKey k \<noteq> [] \<longrightarrow> qv_dedupe ?X (t_DedupeKey k) \<noteq> None"
    using dedupe_ok_lookup[OF cohD(6)[OF c] M(2,3)] by simp
  define I where "I = (if is_enq k
    then oi_Delete (tt_queueIndex (tc_tasks c)) (qkey a q) (ikey (tw (t_ScheduledAt k)) t)
    else oi_Delete (tt_inProgressIndex (tc_tasks c)) (qkey a q) (ikey (tw (t_VisibleAt k)) t))"
  define D where "D = go_when (t_DedupeKey k \<noteq> []) (ut_Delete (tt_dedupeKeysIndex (tc_tasks c)) (dkey a q (t_DedupeKey k)))"
  define cn2 where "cn2 = (if is_enq k
    then ?cn\<lparr> cnt_EnqueuedTasksCount := i64 (cnt_EnqueuedTasksCount ?cn - 1) \<rparr>
    else ?cn\<lparr> cnt_InProgressTasksCount := i64 (cnt_InProgressTasksCount ?cn - 1) \<rparr>)"
  define X1 where "X1 = (if is_enq k then ?X\<lparr> qv_queue := qv_queue ?X - {sched_key k t} \<rparr>
    else ?X\<lparr> qv_inProgress := qv_inProgress ?X - {(tw (t_VisibleAt k), t)} \<rparr>)"
  let ?X2 = "X1\<lparr> qv_dedupe := (if t_DedupeKey k = [] then qv_dedupe X1 else (qv_dedupe X1)(t_DedupeKey k := None)) \<rparr>"
  have X1: "qv_dedupe X1 = qv_dedupe ?X" "qv_tasks X1 = M" "qv_threaded X1 = qv_threaded ?X" "qv_threads X1 = qv_threads ?X"
    "qv_queue X1 = qv_queue ?X - {sched_key k t}"
    using M not_enq_not_queued[OF cohD(7)[OF c] M(2)] by (simp_all add: X1_def sched_key_def)
  have "runs I s ((Q s)((a, q) := X1))"
    using W by (cases "is_enq k") (simp_all add: runs_def I_def X1_def tables_run tables_wf sched_key_def)
  then obtain s1 where s1: "I s = Inr ((), s1)" "W s1" "Q s1 = (Q s)((a, q) := X1)" by (rule runsE)
  have "runs D s1 ((Q s)((a, q) := ?X2))"
    using s1(2,3) ded X1(1) by (simp add: runs_def D_def dedupe_when_run dedupe_when_wf)
  then obtain s2 where s2: "D s1 = Inr ((), s2)" "W s2" "Q s2 = (Q s)((a, q) := ?X2)" by (rule runsE)
  obtain X3 where X3: "threads_ok a q (M(t := None)) X3" "only_threads ?X2 X3"
    and r3: "runs (go_when (t_ThreadId k \<noteq> []) (detachTaskFromThread P c k)) s2 ((Q s2)((a, q) := X3))"
  proof -
    have "stored a q (M(t := None)) (qv_tasks (Q s2 (a, q)))"
      using stored_del[OF stored_coh[OF c, of M], of t "M t"] s2(3) X1(2) by simp
    from leave_queue_ok[OF s2(2) cohD(7)[OF c] M(2,3) wf refl refl _ _ _ this] s2(3) X1 that
    show thesis by auto
  qed
  obtain s3 where s3: "go_when (t_ThreadId k \<noteq> []) (detachTaskFromThread P c k) s2 = Inr ((), s3)" "W s3" "Q s3 = (Q s)((a, q) := X3)"
    using r3 s2(3) by (auto elim: runsE)
  have X3f: "qv_tasks X3 = M" "qv_expiration X3 = qv_expiration ?X" "qv_dead X3 = qv_dead ?X" "same_rest ?X X3"
    "qv_dedupe X3 = (if t_DedupeKey k = [] then qv_dedupe ?X else (qv_dedupe ?X)(t_DedupeKey k := None))"
    "qv_inProgress X3 = (if is_enq k then qv_inProgress ?X else qv_inProgress ?X - {(tw (t_VisibleAt k), t)})"
    using X3(2) X1 by (simp_all add: only_threads_def same_rest_def X1_def)
  let ?X4 = "X3\<lparr> qv_expiration := qv_expiration ?X - {(tw (t_ExpiresAt k), t)}, qv_tasks := M(t := None), qv_counters := cn2 \<rparr>"
  have E: "deleteTask P c k reason s = go_seq I (go_seq D (go_seq (go_when (t_ThreadId k \<noteq> []) (detachTaskFromThread P c k))
     (go_seq (expirationIndex_remove P (tt_expiration (tc_tasks c)) (t_Id k) (t_ExpiresAt k))
     (go_seq (tasksTable_delete P (tc_tasks c) (t_Id k)) (countersTable_Set P (tc_counters c) a q cn2))))) s"
    using M(3) unfolding is_live_def
    by (cases "is_enq k")
      (auto simp: deleteTask_def Let_def go_run keys_run id countersTable_Get_run I_def D_def cn2_def
        tally_def[symmetric] is_enq_def is_inprog_def split: sum.split)
  have "runs (deleteTask P c k reason) s ((Q s)((a, q) := ?X4))"
    using s1(1) s2(1) s3 X3f M id unfolding runs_def E by (simp add: go_run tables_run tables_wf)
  moreover have "coh a q (M(t := None)) ?X4"
  proof (rule coh_del[OF c M(2)])
    show "threads_ok a q (M(t := None)) ?X4" using X3(1) by (subst threads_ok_fields[of _ X3]) auto
  qed (use M(3) X3f in \<open>auto simp: cn2_def state_defs\<close>)
  ultimately show ?thesis
    using X3f by (auto elim!: runsE intro!: stepsI[where X' = ?X4] simp: same_totals_def same_rest_def cn2_def)
qed

lemma deleteTask_ok:
  assumes "W s" "coh a q M (Q s (a, q))" "qv_tasks (Q s (a, q)) = M" "M t = Some k"
  shows "steps (deleteTask P c k reason) s () a q (M(t := None))
    (\<lambda>X'. same_totals (tally reason (qv_counters (Q s (a, q)))) (qv_counters X'))"
  using deleteTask_live_ok[OF assms] deleteTask_dead_ok[OF assms] cohD(9)[OF assms(2,4)]
  unfolding row_wf_def by blast

end

end
