(* ===== verification/Tasks_Spec.thy ===== *)
theory Tasks_Spec
  imports Tasks_Coherence
begin

text \<open>
  The abstract specification of the tasks core: what each operation does to the
  rows of one queue, as functions and relations on the map from task ids to
  tasks, with no index, counter, thread row or byte in sight.  The later
  theories show that the code implements it.
\<close>

section \<open>Heartbeats, failures and restarts\<close>

text \<open>The dead letters in the order of their index: by time of death, then id.
  The eviction drops the first of them.\<close>

definition dead_index :: "rows \<Rightarrow> entries" where
  "dead_index M = {(w, t). \<exists>k. M t = Some k \<and> is_dead k \<and> w = tw (t_LastFailedAt k)}"

definition oldest_dead :: "rows \<Rightarrow> nat \<Rightarrow> uint64 set" where
  "oldest_dead M n = snd ` set (take n (sorted_list_of_set (dead_index M)))"

definition evict_rows :: "int \<Rightarrow> int \<Rightarrow> rows \<Rightarrow> rows" where
  "evict_rows maxSize n M = (if 0 < maxSize then M |` (- oldest_dead M (nat (i64 (n - maxSize)))) else M)"

definition heartbeat_row :: "int \<Rightarrow> int \<Rightarrow> Task \<Rightarrow> Task" where
  "heartbeat_row now keepalive k = k\<lparr> t_VisibleAt := i64 (now + i64 (keepalive * time_Second)) \<rparr>"

definition dead_row :: "int \<Rightarrow> DeadLetterQueueConfig \<Rightarrow> Task \<Rightarrow> Task" where
  "dead_row now cfg k = k\<lparr> t_State := TASK_STATE_DEAD, t_LastFailedAt := now,
    t_ExpiresAt := i64 (now + i64 (dlq_RetentionPeriodInSeconds cfg * time_Second)) \<rparr>"

text \<open>The delay before the delivery that follows attempt \<open>t_Attempts k\<close>, and
  whether there is one.\<close>

definition retry_delay :: "Task \<Rightarrow> int" where
  "retry_delay k = (case t_RetryStrategy k of None \<Rightarrow> 0
     | Some rs \<Rightarrow> rs_RetryIntervalsInSeconds rs ! nat (t_Attempts k - 1))"

definition exhausted :: "Task \<Rightarrow> bool" where
  "exhausted k \<longleftrightarrow> retries_of k < t_Attempts k"

definition retry_row :: "int \<Rightarrow> Task \<Rightarrow> Task" where
  "retry_row now k = k\<lparr> t_State := TASK_STATE_ENQUEUED, t_ScheduledAt := i64 (now + i64 (retry_delay k * time_Second)),
    t_LastFailedAt := now, t_VisibleAt := 0 \<rparr>"

definition dead_rows :: "int \<Rightarrow> DeadLetterQueueConfig option \<Rightarrow> uint64 \<Rightarrow> Task \<Rightarrow> rows \<Rightarrow> rows" where
  "dead_rows now dlq t k M = (case dlq of None \<Rightarrow> M(t := None)
     | Some cfg \<Rightarrow> if \<not> dlq_Enable cfg then M(t := None)
         else let M' = M(t \<mapsto> dead_row now cfg k) in
           evict_rows (dlq_MaxSize cfg) (i64 (int (count_rows is_dead M'))) M')"

definition fail_rows :: "int \<Rightarrow> DeadLetterQueueConfig option \<Rightarrow> uint64 \<Rightarrow> Task \<Rightarrow> rows \<Rightarrow> rows" where
  "fail_rows now dlq t k M =
    (if t_ExpiresAt k < now then M(t := None)
     else if exhausted k then dead_rows now dlq t k M
     else M(t \<mapsto> retry_row now k))"

text \<open>A retry moves the task: the condition under which a threaded task does
  not get lost.\<close>

definition retry_moves :: "int \<Rightarrow> Task \<Rightarrow> bool" where
  "retry_moves now k \<longleftrightarrow> (t_ThreadId k \<noteq> [] \<longrightarrow> t_ScheduledAt (retry_row now k) \<noteq> t_ScheduledAt k)"

definition all_movable :: "int \<Rightarrow> rows \<Rightarrow> bool" where
  "all_movable now M \<longleftrightarrow> (\<forall>t k. M t = Some k \<and> is_inprog k \<and> \<not> exhausted k \<longrightarrow> retry_moves now k)"

text \<open>What a status report does to the rows, and its result.\<close>

definition report_rows ::
  "int \<Rightarrow> DeadLetterQueueConfig option \<Rightarrow> uint64 \<Rightarrow> ReportStatus_Status \<Rightarrow> int \<Rightarrow> int \<Rightarrow> rows \<Rightarrow> ReportStatus_Result \<times> rows" where
  "report_rows now dlq t status attempt keepalive M = (case M t of None \<Rightarrow> (RESULT_NOT_FOUND, M)
     | Some k \<Rightarrow>
       if \<not> is_inprog k then (RESULT_NOT_IN_PROGRESS, M)
       else if t_Attempts k \<noteq> attempt then (RESULT_STALE_ATTEMPT, M)
       else case status of
           STATUS_IN_PROGRESS \<Rightarrow> (RESULT_OK, M(t \<mapsto> heartbeat_row now keepalive k))
         | STATUS_FAILED \<Rightarrow> (RESULT_OK, fail_rows now dlq t k M)
         | STATUS_SUCCEEDED \<Rightarrow> (RESULT_OK, M(t := None))
         | _ \<Rightarrow> (RESULT_INVALID, M))"

definition restart_row :: "int \<Rightarrow> int \<Rightarrow> int \<Rightarrow> Task \<Rightarrow> Task" where
  "restart_row now scheduledAt expiresAt k = k\<lparr> t_State := TASK_STATE_ENQUEUED, t_Attempts := 0,
     t_ScheduledAt := (if scheduledAt < now then now else scheduledAt), t_ExpiresAt := expiresAt,
     t_VisibleAt := 0, t_LastFailedAt := 0 \<rparr>"

lemma heartbeat_row_simps [simp]:
  "t_Id (heartbeat_row n ka k) = t_Id k" "t_State (heartbeat_row n ka k) = t_State k"
  "t_ThreadId (heartbeat_row n ka k) = t_ThreadId k" "t_ScheduledAt (heartbeat_row n ka k) = t_ScheduledAt k"
  "t_ExpiresAt (heartbeat_row n ka k) = t_ExpiresAt k" "t_DedupeKey (heartbeat_row n ka k) = t_DedupeKey k"
  "t_VisibleAt (heartbeat_row n ka k) = i64 (n + i64 (ka * time_Second))"
  "t_Attempts (heartbeat_row n ka k) = t_Attempts k" "t_RetryStrategy (heartbeat_row n ka k) = t_RetryStrategy k"
  "is_enq (heartbeat_row n ka k) = is_enq k" "is_inprog (heartbeat_row n ka k) = is_inprog k"
  "is_dead (heartbeat_row n ka k) = is_dead k" "is_live (heartbeat_row n ka k) = is_live k"
  by (simp_all add: heartbeat_row_def state_defs)

lemma dead_row_simps [simp]:
  "t_Id (dead_row now cfg k) = t_Id k" "t_ThreadId (dead_row now cfg k) = t_ThreadId k"
  "t_ScheduledAt (dead_row now cfg k) = t_ScheduledAt k" "t_DedupeKey (dead_row now cfg k) = t_DedupeKey k"
  "t_LastFailedAt (dead_row now cfg k) = now" "t_Attempts (dead_row now cfg k) = t_Attempts k"
  "t_ExpiresAt (dead_row now cfg k) = i64 (now + i64 (dlq_RetentionPeriodInSeconds cfg * time_Second))"
  "t_VisibleAt (dead_row now cfg k) = t_VisibleAt k" "t_RetryStrategy (dead_row now cfg k) = t_RetryStrategy k"
  "t_State (dead_row now cfg k) = TASK_STATE_DEAD"
  "is_dead (dead_row now cfg k)" "\<not> is_enq (dead_row now cfg k)" "\<not> is_inprog (dead_row now cfg k)" "\<not> is_live (dead_row now cfg k)"
  by (simp_all add: dead_row_def state_defs)

lemma inprog_states:
  "is_inprog k \<Longrightarrow> \<not> is_enq k \<and> \<not> is_dead k \<and> is_live k \<and> t_State k = TASK_STATE_IN_PROGRESS"
  by (simp add: state_defs)

lemma retry_row_simps [simp]:
  "t_Id (retry_row now k) = t_Id k" "t_ThreadId (retry_row now k) = t_ThreadId k"
  "t_ScheduledAt (retry_row now k) = i64 (now + i64 (retry_delay k * time_Second))" "t_DedupeKey (retry_row now k) = t_DedupeKey k"
  "t_LastFailedAt (retry_row now k) = now" "t_Attempts (retry_row now k) = t_Attempts k"
  "t_ExpiresAt (retry_row now k) = t_ExpiresAt k" "t_RetryStrategy (retry_row now k) = t_RetryStrategy k"
  "t_State (retry_row now k) = TASK_STATE_ENQUEUED" "t_VisibleAt (retry_row now k) = 0"
  "is_enq (retry_row now k)" "\<not> is_dead (retry_row now k)" "\<not> is_inprog (retry_row now k)" "is_live (retry_row now k)"
  by (simp_all add: retry_row_def state_defs)

lemma exhausted_code:
  assumes "row_wf a q t k" "is_inprog k"
  shows "exhausted k \<longleftrightarrow> (case t_RetryStrategy k of None \<Rightarrow> True
    | Some rs \<Rightarrow> t_Attempts k > i32 (int (length (rs_RetryIntervalsInSeconds rs))))"
  using assms by (auto simp: exhausted_def retries_of_def row_wf_def attempts_ok_def i32_def split: option.splits)

lemma all_movable_upd:
  assumes "all_movable now M" "is_inprog k' \<Longrightarrow> \<not> exhausted k' \<Longrightarrow> retry_moves now k'"
  shows "all_movable now (M(t \<mapsto> k'))"
  using assms by (auto simp: all_movable_def)

lemma all_movable_sub:
  "all_movable now M \<Longrightarrow> M' \<subseteq>\<^sub>m M \<Longrightarrow> all_movable now M'"
  unfolding all_movable_def map_le_def by (metis domI)

lemma evict_rows_le: "evict_rows n m M \<subseteq>\<^sub>m M"
  by (auto simp: evict_rows_def map_le_def restrict_map_def)

lemma del_row_le: "M(t := None) \<subseteq>\<^sub>m M"
  by (auto simp: map_le_def)

lemma fail_rows_movable:
  assumes "all_movable now' M"
  shows "all_movable now' (fail_rows now dlq t k M)"
proof -
  have "all_movable now' (M(t := None))" using all_movable_sub[OF assms del_row_le] .
  moreover have "all_movable now' (evict_rows n m (M(t \<mapsto> dead_row now cfg k)))" for n m cfg
    by (rule all_movable_sub[OF all_movable_upd[OF assms] evict_rows_le]) simp
  moreover have "all_movable now' (M(t \<mapsto> retry_row now k))" by (rule all_movable_upd[OF assms]) simp
  ultimately show ?thesis by (simp add: fail_rows_def dead_rows_def Let_def split: option.split)
qed

lemma report_rows_movable:
  assumes "all_movable now' M"
  shows "all_movable now' (snd (report_rows now dlq t status attempt ka M))"
proof -
  have "all_movable now' (M(t \<mapsto> heartbeat_row now ka k))" if "M t = Some k" for k
  proof (rule all_movable_upd[OF assms])
    assume "is_inprog (heartbeat_row now ka k)" "\<not> exhausted (heartbeat_row now ka k)"
    then have "is_inprog k" "\<not> exhausted k" by (simp_all add: exhausted_def retries_of_def)
    then have "retry_moves now' k" using assms that unfolding all_movable_def by blast
    moreover have "retry_delay (heartbeat_row now ka k) = retry_delay k" by (simp only: retry_delay_def heartbeat_row_simps)
    ultimately show "retry_moves now' (heartbeat_row now ka k)" by (simp add: retry_moves_def)
  qed
  then show ?thesis
    using assms all_movable_sub[OF assms del_row_le] fail_rows_movable[OF assms]
    by (auto simp: report_rows_def split: option.split ReportStatus_Status.split)
qed

section \<open>Enqueueing\<close>

definition overwrite_row :: "int \<Rightarrow> bytes \<Rightarrow> int \<Rightarrow> OverwriteOnDuplicate \<Rightarrow> Task \<Rightarrow> Task" where
  "overwrite_row scheduledAt payload expiresAt o' k = (case o' of
       OVERWRITE_ON_DUPLICATE_EXPIRES_AT \<Rightarrow> k\<lparr> t_ExpiresAt := expiresAt \<rparr>
     | OVERWRITE_ON_DUPLICATE_PAYLOAD \<Rightarrow> k\<lparr> t_Payload := payload \<rparr>
     | OVERWRITE_ON_DUPLICATE_SCHEDULED_AT \<Rightarrow> k\<lparr> t_ScheduledAt := scheduledAt \<rparr>
     | _ \<Rightarrow> k)"

lemma overwrite_row_simps [simp]:
  "t_Id (overwrite_row x p e o' k) = t_Id k" "t_ThreadId (overwrite_row x p e o' k) = t_ThreadId k"
  "t_DedupeKey (overwrite_row x p e o' k) = t_DedupeKey k" "t_State (overwrite_row x p e o' k) = t_State k"
  "t_Attempts (overwrite_row x p e o' k) = t_Attempts k" "t_RetryStrategy (overwrite_row x p e o' k) = t_RetryStrategy k"
  "t_VisibleAt (overwrite_row x p e o' k) = t_VisibleAt k" "t_LastFailedAt (overwrite_row x p e o' k) = t_LastFailedAt k"
  "is_enq (overwrite_row x p e o' k) = is_enq k" "is_inprog (overwrite_row x p e o' k) = is_inprog k"
  "is_dead (overwrite_row x p e o' k) = is_dead k" "is_live (overwrite_row x p e o' k) = is_live k"
  by (simp_all add: overwrite_row_def state_defs split: OverwriteOnDuplicate.split)

lemma overwrite_row_wf: "row_wf a q t k \<Longrightarrow> row_wf a q t (overwrite_row x p e o' k)"
  by (simp add: row_wf_def attempts_ok_def retries_of_def)

text \<open>Moving a threaded task is safe when it is not the head that waits in the
  queue index, or when it stays the earliest of its thread.\<close>

definition move_safe :: "rows \<Rightarrow> uint64 \<Rightarrow> Task \<Rightarrow> int \<Rightarrow> bool" where
  "move_safe M t k scheduledAt \<longleftrightarrow> t_ThreadId k = [] \<or> scheduledAt = t_ScheduledAt k \<or>
    (\<exists>t' k'. t' \<noteq> t \<and> member M (t_ThreadId k) t' k' \<and> (is_inprog k' \<or> sched_key k' t' < sched_key k t)) \<or>
    (\<forall>t' k'. t' \<noteq> t \<and> member M (t_ThreadId k) t' k' \<longrightarrow> (tw scheduledAt, t) \<le> sched_key k' t')"

definition overwritten :: "int \<Rightarrow> bytes \<Rightarrow> int \<Rightarrow> OverwriteOnDuplicate list \<Rightarrow> Task \<Rightarrow> Task" where
  "overwritten scheduledAt payload expiresAt os k =
    (if is_enq k then fold (overwrite_row scheduledAt payload expiresAt) os k else k)"

definition entry_time :: "int \<Rightarrow> EnqueueRequestEntry \<Rightarrow> int" where
  "entry_time now e = (if ent_ScheduledAt e < now then now else ent_ScheduledAt e)"

definition new_task :: "int \<Rightarrow> uint64 \<Rightarrow> uint64 \<Rightarrow> uint64 \<Rightarrow> EnqueueRequestEntry \<Rightarrow> Task" where
  "new_task now a q t e =
    \<lparr> t_Id = mkTaskId a q t, t_Payload = ent_Payload e, t_CreatedAt = now, t_ScheduledAt = entry_time now e,
      t_ExpiresAt = ent_ExpiresAt e, t_DedupeKey = ent_DedupeKey e, t_State = TASK_STATE_ENQUEUED,
      t_Attempts = 0, t_VisibleAt = 0, t_LastFailedAt = 0, t_DebugInfo = [],
      t_RetryStrategy = ent_RetryStrategy e, t_ThreadId = ent_ThreadId e \<rparr>"

text \<open>
  The specification of one entry over the rows of a queue and its id sequence:
  either a live task has the entry's deduplication key, and its requested
  fields are overwritten when it has not started yet; or the entry becomes a
  new task under the next id.
\<close>

inductive enqueue_step ::
  "int \<Rightarrow> uint64 \<Rightarrow> uint64 \<Rightarrow> EnqueueRequestEntry \<Rightarrow> uint64 \<Rightarrow> rows \<Rightarrow> uint64 \<Rightarrow> rows \<Rightarrow> Task list \<Rightarrow> bool"
  for now a q where
  duplicate: "ent_DedupeKey e \<noteq> [] \<Longrightarrow> M t = Some k \<Longrightarrow> is_live k \<Longrightarrow> t_DedupeKey k = ent_DedupeKey e \<Longrightarrow>
    k' = overwritten (entry_time now e) (ent_Payload e) (ent_ExpiresAt e) (ent_OverwriteOnDuplicate e) k \<Longrightarrow>
    enqueue_step now a q e n M n (M(t \<mapsto> k')) (if ent_OverwriteOnDuplicate e = [] then [] else [k'])"
| fresh: "(\<And>t k. ent_DedupeKey e \<noteq> [] \<Longrightarrow> M t = Some k \<Longrightarrow> is_live k \<Longrightarrow> t_DedupeKey k \<noteq> ent_DedupeKey e) \<Longrightarrow>
    enqueue_step now a q e n M (n + 1) (M(n + 1 \<mapsto> new_task now a q (n + 1) e)) [new_task now a q (n + 1) e]"

inductive enqueue_steps ::
  "int \<Rightarrow> uint64 \<Rightarrow> uint64 \<Rightarrow> EnqueueRequestEntry list \<Rightarrow> uint64 \<Rightarrow> rows \<Rightarrow> uint64 \<Rightarrow> rows \<Rightarrow> Task list \<Rightarrow> bool"
  for now a q where
  none: "enqueue_steps now a q [] n M n M []"
| more: "enqueue_step now a q e n M n' M' out \<Longrightarrow> enqueue_steps now a q es n' M' n'' M'' out' \<Longrightarrow>
    enqueue_steps now a q (e # es) n M n'' M'' (out @ out')"

text \<open>What the invariant needs of an entry: lengths within their types, and no
  unsafe move of a threaded duplicate.\<close>

definition entry_ok :: "EnqueueRequestEntry \<Rightarrow> bool" where
  "entry_ok e \<longleftrightarrow> length (ent_ThreadId e) < 2 ^ 32 \<and>
    (case ent_RetryStrategy e of None \<Rightarrow> True | Some rs \<Rightarrow> length (rs_RetryIntervalsInSeconds rs) < 2 ^ 31 - 1)"

definition entry_safe :: "int \<Rightarrow> EnqueueRequestEntry \<Rightarrow> rows \<Rightarrow> bool" where
  "entry_safe now e M \<longleftrightarrow> (\<forall>t k. OVERWRITE_ON_DUPLICATE_SCHEDULED_AT \<in> set (ent_OverwriteOnDuplicate e) \<and>
    M t = Some k \<and> is_enq k \<and> t_DedupeKey k = ent_DedupeKey e \<longrightarrow> move_safe M t k (entry_time now e))"

fun entries_safe :: "int \<Rightarrow> uint64 \<Rightarrow> uint64 \<Rightarrow> EnqueueRequestEntry list \<Rightarrow> uint64 \<Rightarrow> rows \<Rightarrow> bool" where
  "entries_safe now a q [] n M = True"
| "entries_safe now a q (e # es) n M \<longleftrightarrow> entry_safe now e M \<and>
    (\<forall>n' M' out. enqueue_step now a q e n M n' M' out \<longrightarrow> entries_safe now a q es n' M')"

lemma entries_safe_static:
  "(\<And>e. e \<in> set es \<Longrightarrow> OVERWRITE_ON_DUPLICATE_SCHEDULED_AT \<notin> set (ent_OverwriteOnDuplicate e)) \<Longrightarrow>
    entries_safe now a q es n M"
  by (induction es arbitrary: n M) (auto simp: entry_safe_def)

lemma fold_overwrite_enq [simp]:
  "is_enq (fold (overwrite_row x p e) os k) = is_enq k" "is_live (fold (overwrite_row x p e) os k) = is_live k"
  "t_DedupeKey (fold (overwrite_row x p e) os k) = t_DedupeKey k"
  by (induction os arbitrary: k) simp_all

lemma move_safe_overwrite:
  assumes "move_safe (M(t \<mapsto> k)) t k x"
  shows "move_safe (M(t \<mapsto> overwrite_row x p e o' k)) t (overwrite_row x p e o' k) x"
proof (cases "o' = OVERWRITE_ON_DUPLICATE_SCHEDULED_AT")
  case True
  then show ?thesis by (simp add: move_safe_def overwrite_row_def)
next
  case False
  then have "t_ScheduledAt (overwrite_row x p e o' k) = t_ScheduledAt k"
    by (simp add: overwrite_row_def split: OverwriteOnDuplicate.split)
  then have key: "sched_key (overwrite_row x p e o' k) t = sched_key k t" "t_ScheduledAt (overwrite_row x p e o' k) = t_ScheduledAt k"
    by (simp_all add: sched_key_def)
  have m: "t' \<noteq> t \<Longrightarrow> member (M(t \<mapsto> overwrite_row x p e o' k)) th t' k' = member (M(t \<mapsto> k)) th t' k'" for th t' k'
    by (simp add: member_def)
  have "(\<exists>t' k'. t' \<noteq> t \<and> member (M(t \<mapsto> overwrite_row x p e o' k)) th t' k' \<and> C t' k') \<longleftrightarrow>
      (\<exists>t' k'. t' \<noteq> t \<and> member (M(t \<mapsto> k)) th t' k' \<and> C t' k')"
    "(\<forall>t' k'. t' \<noteq> t \<and> member (M(t \<mapsto> overwrite_row x p e o' k)) th t' k' \<longrightarrow> C t' k') \<longleftrightarrow>
      (\<forall>t' k'. t' \<noteq> t \<and> member (M(t \<mapsto> k)) th t' k' \<longrightarrow> C t' k')" for th C
    using m by blast+
  then show ?thesis using assms unfolding move_safe_def by (simp only: key overwrite_row_simps)
qed

lemma uint64_less_succ: "n + 1 \<noteq> 0 \<Longrightarrow> n < n + (1 :: uint64)"
  using unatSuc[of n] by (simp add: word_less_nat_alt add.commute)

lemma new_task_wf: "entry_ok e \<Longrightarrow> row_wf a q t (new_task now a q t e) \<and> is_enq (new_task now a q t e)"
  by (auto simp: entry_ok_def new_task_def row_wf_def attempts_ok_def retries_of_def state_defs split: option.splits)

section \<open>Dequeuing\<close>

definition hand_row :: "int \<Rightarrow> int \<Rightarrow> Task \<Rightarrow> Task" where
  "hand_row now keepalive k = k\<lparr> t_VisibleAt := i64 (now + i64 (keepalive * time_Second)),
    t_Attempts := i32 (t_Attempts k + 1), t_State := TASK_STATE_IN_PROGRESS \<rparr>"

lemma hand_row_simps [simp]:
  "t_Id (hand_row now ka k) = t_Id k" "t_ThreadId (hand_row now ka k) = t_ThreadId k"
  "t_ScheduledAt (hand_row now ka k) = t_ScheduledAt k" "t_DedupeKey (hand_row now ka k) = t_DedupeKey k"
  "t_LastFailedAt (hand_row now ka k) = t_LastFailedAt k" "t_Attempts (hand_row now ka k) = i32 (t_Attempts k + 1)"
  "t_ExpiresAt (hand_row now ka k) = t_ExpiresAt k" "t_RetryStrategy (hand_row now ka k) = t_RetryStrategy k"
  "t_State (hand_row now ka k) = TASK_STATE_IN_PROGRESS" "t_VisibleAt (hand_row now ka k) = i64 (now + i64 (ka * time_Second))"
  "is_inprog (hand_row now ka k)" "\<not> is_dead (hand_row now ka k)" "\<not> is_enq (hand_row now ka k)" "is_live (hand_row now ka k)"
  by (simp_all add: hand_row_def state_defs)

lemma hand_row_wf:
  assumes "row_wf a q t k" "is_enq k"
  shows "row_wf a q t (hand_row now ka k)" "t_Attempts (hand_row now ka k) = t_Attempts k + 1"
proof -
  have b: "0 \<le> t_Attempts k" "t_Attempts k \<le> retries_of k" "retries_of k < 2 ^ 31 - 1"
    using assms by (auto simp: row_wf_def attempts_ok_def)
  then show at: "t_Attempts (hand_row now ka k) = t_Attempts k + 1" by (simp add: i32_def)
  have "retries_of (hand_row now ka k) = retries_of k" by (simp add: retries_of_def)
  then show "row_wf a q t (hand_row now ka k)"
    using assms b at by (simp add: row_wf_def attempts_ok_def)
qed

definition expired_at :: "int \<Rightarrow> Task \<Rightarrow> bool" where
  "expired_at now k \<longleftrightarrow> t_ExpiresAt k < now"

definition drop_all :: "Task list \<Rightarrow> rows \<Rightarrow> rows" where
  "drop_all ks M = fold (\<lambda>k M. M(task_tid k := None)) ks M"

definition hand_all :: "int \<Rightarrow> int \<Rightarrow> Task list \<Rightarrow> rows \<Rightarrow> rows" where
  "hand_all now ka ks M = fold (\<lambda>k M. M(task_tid k \<mapsto> hand_row now ka k)) ks M"

text \<open>The due rows of a queue: the tasks of its queue index from the cursor up
  to now, in the order of the index.\<close>

definition due_entries :: "qview \<Rightarrow> int \<Rightarrow> (uint64 \<times> uint64) list" where
  "due_entries X now = filter (\<lambda>(w, t). tw (qs_LastVisitedEnqueued (qv_state X)) \<le> w \<and> w \<le> tw now) (sorted_list_of_set (qv_queue X))"

definition due_rows :: "qview \<Rightarrow> int \<Rightarrow> Task list" where
  "due_rows X now = map (\<lambda>x. the (qv_tasks X (snd x))) (due_entries X now)"

text \<open>What a dequeue does to the rows once it has visited \<open>ks\<close>: the expired
  ones are dropped, the others are in progress.\<close>

definition visit_rows :: "int \<Rightarrow> int \<Rightarrow> Task list \<Rightarrow> rows \<Rightarrow> rows" where
  "visit_rows now ka ks M = hand_all now ka (filter (\<lambda>k. \<not> expired_at now k) ks) (drop_all (filter (expired_at now) ks) M)"

text \<open>The condition under which dropping an expired task is complete.\<close>

definition no_expired_threads :: "int \<Rightarrow> rows \<Rightarrow> bool" where
  "no_expired_threads now M \<longleftrightarrow> (\<forall>t k. M t = Some k \<and> is_enq k \<and> t_ThreadId k \<noteq> [] \<longrightarrow> \<not> expired_at now k)"

text \<open>The lapsed rows: the tasks in progress whose lease ended between the
  cursor and now.  Each is treated as a failure.\<close>

definition lapsed_entries :: "qview \<Rightarrow> int \<Rightarrow> (uint64 \<times> uint64) list" where
  "lapsed_entries X now = filter (\<lambda>(w, t). tw (qs_LastVisitedInProgress (qv_state X)) \<le> w \<and> w \<le> tw now) (sorted_list_of_set (qv_inProgress X))"

definition lapsed_rows :: "qview \<Rightarrow> int \<Rightarrow> Task list" where
  "lapsed_rows X now = map (\<lambda>x. the (qv_tasks X (snd x))) (lapsed_entries X now)"

definition lapse_all :: "int \<Rightarrow> DeadLetterQueueConfig option \<Rightarrow> Task list \<Rightarrow> rows \<Rightarrow> rows" where
  "lapse_all now dlq ks M = fold (\<lambda>k M. fail_rows now dlq (task_tid k) k M) ks M"

lemma oldest_dead_dead:
  assumes "t \<in> oldest_dead M n"
  shows "\<exists>k. M t = Some k \<and> is_dead k"
proof -
  obtain w where w: "(w, t) \<in> set (take n (sorted_list_of_set (dead_index M)))" using assms by (auto simp: oldest_dead_def)
  then have "(w, t) \<in> set (sorted_list_of_set (dead_index M))" by (rule in_set_takeD)
  then have "(w, t) \<in> dead_index M" using sorted_list_of_set.set_sorted_key_list_of_set
    by (metis empty_iff list.set(1) sorted_list_of_set.fold_insort_key.infinite)
  then show ?thesis by (auto simp: dead_index_def)
qed

lemma evict_rows_live:
  assumes "M t = Some k" "\<not> is_dead k"
  shows "evict_rows maxSize n M t = Some k"
  using assms oldest_dead_dead[of t M] by (auto simp: evict_rows_def restrict_map_def)

lemma fail_rows_other:
  assumes "t' \<noteq> t" "M t' = Some k'" "\<not> is_dead k'"
  shows "fail_rows now dlq t k M t' = Some k'"
proof -
  have "evict_rows m n (M(t \<mapsto> d)) t' = Some k'" for m n d
    using assms by (intro evict_rows_live) simp_all
  then show ?thesis using assms by (simp add: fail_rows_def dead_rows_def Let_def split: option.split)
qed

lemma fail_rows_origin:
  assumes "fail_rows now dlq t k M t' = Some k'" "is_enq k'"
  shows "M t' = Some k' \<or> (k' = retry_row now k \<and> \<not> expired_at now k)"
  using assms
  by (auto simp: fail_rows_def dead_rows_def Let_def evict_rows_def restrict_map_def expired_at_def
      dead_row_def state_defs split: if_splits option.splits)

lemma fail_rows_no_expired:
  assumes "no_expired_threads now M"
  shows "no_expired_threads now (fail_rows now dlq t k M)"
  unfolding no_expired_threads_def
proof (intro allI impI)
  fix t' k' assume a: "fail_rows now dlq t k M t' = Some k' \<and> is_enq k' \<and> t_ThreadId k' \<noteq> []"
  then show "\<not> expired_at now k'"
    using fail_rows_origin[of now dlq t k M t' k'] assms unfolding no_expired_threads_def
    by (auto simp: expired_at_def retry_row_def)
qed

lemma lapse_all_keeps:
  "no_expired_threads now M \<Longrightarrow> no_expired_threads now (lapse_all now dlq ks M)"
  by (induction ks arbitrary: M) (simp_all add: lapse_all_def fail_rows_no_expired)

lemma lapse_all_movable: "all_movable now' M \<Longrightarrow> all_movable now' (lapse_all now dlq ks M)"
  by (induction ks arbitrary: M) (simp_all add: lapse_all_def fail_rows_movable)

end
