(* ===== verification/Tasks_Failure.thy ===== *)
theory Tasks_Failure
  imports Tasks_Ops Tasks_Spec
begin

text \<open>
  Heartbeats, failures and restarts of one task: \<open>heartbeatTask\<close>,
  \<open>failTaskToDead\<close> with \<open>evictExcessDeadTasks\<close>, \<open>failTaskToRetry\<close>,
  \<open>handleTaskFailure\<close>, \<open>reportStatus\<close> and \<open>restartTask\<close> keep the
  invariant, with their effect on the rows.
\<close>

lemma fun_upd_same_iff [simp]: "f(x := y) = f(x := z) \<longleftrightarrow> y = z"
  by (metis fun_upd_same)

lemma qview_eq_iff:
  "X = (Y :: qview) \<longleftrightarrow> qv_tasks X = qv_tasks Y \<and> qv_dedupe X = qv_dedupe Y \<and> qv_queue X = qv_queue Y \<and>
    qv_inProgress X = qv_inProgress Y \<and> qv_dead X = qv_dead Y \<and> qv_expiration X = qv_expiration Y \<and>
    qv_threads X = qv_threads Y \<and> qv_threaded X = qv_threaded Y \<and> qv_counters X = qv_counters Y \<and>
    qv_state X = qv_state Y \<and> qv_rateLimiter X = qv_rateLimiter Y \<and> qv_purge X = qv_purge Y"
  by (cases X; cases Y) simp

text \<open>A scan that collects until it has \<open>n\<close> items.\<close>

lemma go_scan_collect:
  assumes "\<And>x acc. x \<in> set xs \<Longrightarrow> f (h x) acc s = Inr ((int (length acc) + 1 < n, acc @ [g x]), s)" "int (length acc) < n"
  shows "go_scan f (map h xs) acc s = Inr (acc @ map g (take (nat (n - int (length acc))) xs), s)"
  using assms
proof (induction xs arbitrary: acc)
  case (Cons x xs)
  obtain m where m: "nat (n - int (length acc)) = Suc m" "m = nat (n - int (length (acc @ [g x])))"
    using Cons.prems(2) by (cases "nat (n - int (length acc))") auto
  have f: "f (h x) acc s = Inr ((int (length acc) + 1 < n, acc @ [g x]), s)" using Cons.prems(1) by simp
  show ?case
  proof (cases "int (length acc) + 1 < n")
    case True
    then have "go_scan f (map h xs) (acc @ [g x]) s = Inr ((acc @ [g x]) @ map g (take m xs), s)"
      using Cons.IH[of "acc @ [g x]"] Cons.prems(1) m(2) by simp
    then show ?thesis using True f m(1) by (simp add: go_run)
  next
    case False
    then have "m = 0" using m(2) Cons.prems(2) by simp
    then show ?thesis using False f m(1) by (simp add: go_run)
  qed
qed simp

context tasks_store
begin

lemma steps_bind:
  assumes "steps m s r a q M1 R1"
    and "\<And>s1. W s1 \<Longrightarrow> coh a q M1 (Q s1 (a, q)) \<Longrightarrow> qv_tasks (Q s1 (a, q)) = M1 \<Longrightarrow>
      same_rest (Q s (a, q)) (Q s1 (a, q)) \<Longrightarrow> R1 (Q s1 (a, q)) \<Longrightarrow> steps (f r) s1 r' a q M2 R2"
  shows "steps (go_bind m f) s r' a q M2 R2"
proof -
  obtain s1 X1 where 1: "m s = Inr (r, s1)" "W s1" "Q s1 = (Q s)((a, q) := X1)" "coh a q M1 X1" "qv_tasks X1 = M1"
    "same_rest (Q s (a, q)) X1" "R1 X1"
    using assms(1) by (rule stepsE)
  obtain s2 X2 where 2: "f r s1 = Inr (r', s2)" "W s2" "Q s2 = (Q s1)((a, q) := X2)" "coh a q M2 X2" "qv_tasks X2 = M2"
    "same_rest (Q s1 (a, q)) X2" "R2 X2"
    using assms(2)[of s1] 1 by (auto elim: stepsE)
  have "go_bind m f s = Inr (r', s2)" using 1(1) 2(1) by (simp add: go_run)
  then show ?thesis
    using 1 2 by (intro stepsI[where s' = s2 and X' = X2]) (simp_all add: same_rest_def)
qed

lemma steps_seq:
  assumes "steps m s r a q M1 R1"
    and "\<And>s1. W s1 \<Longrightarrow> coh a q M1 (Q s1 (a, q)) \<Longrightarrow> qv_tasks (Q s1 (a, q)) = M1 \<Longrightarrow>
      same_rest (Q s (a, q)) (Q s1 (a, q)) \<Longrightarrow> R1 (Q s1 (a, q)) \<Longrightarrow> steps n s1 r' a q M2 R2"
  shows "steps (go_seq m n) s r' a q M2 R2"
  using steps_bind[of m s r a q M1 R1 "\<lambda>_. n"] assms by (simp add: go_seq_def)

lemma steps_ret:
  assumes "W s" "coh a q M (Q s (a, q))" "qv_tasks (Q s (a, q)) = M" "R (Q s (a, q))"
  shows "steps (go_ret r) s r a q M R"
  using assms by (intro stepsI[where s' = s and X' = "Q s (a, q)"]) (simp_all add: same_rest_def)

lemma steps_mono: "steps m s r a q M R \<Longrightarrow> (\<And>X. R X \<Longrightarrow> R' X) \<Longrightarrow> steps m s r a q M R'"
  unfolding steps_def by blast

section \<open>Deleting a list of rows\<close>

lemma same_totals_tally: "same_totals cn cn' \<Longrightarrow> same_totals (tally r cn) (tally r cn')"
  by (cases r) (simp_all add: same_totals_def tally_def)

lemma same_totals_tallies: "same_totals cn cn' \<Longrightarrow> same_totals ((tally r ^^ n) cn) ((tally r ^^ n) cn')"
  by (induction n) (simp_all add: same_totals_tally)

lemma tally_none_pow [simp]: "(tally taskDeletionNone ^^ n) cn = cn"
  by (induction n) (simp_all add: tally_def)

lemma same_totals_trans: "same_totals x y \<Longrightarrow> same_totals y z \<Longrightarrow> same_totals x z"
  by (simp add: same_totals_def)

lemma deleteTask_list_ok:
  assumes "W s" "coh a q M (Q s (a, q))" "qv_tasks (Q s (a, q)) = M"
    and "\<And>k. k \<in> set ks \<Longrightarrow> M (task_tid k) = Some k" "distinct (map task_tid ks)"
  shows "steps (go_for (\<lambda>task _. deleteTask P c task reason) ks ()) s () a q (M |` (- task_tid ` set ks))
    (\<lambda>X'. same_totals ((tally reason ^^ length ks) (qv_counters (Q s (a, q)))) (qv_counters X'))"
  using assms
proof (induction ks arbitrary: s M)
  case Nil
  have "M |` (- task_tid ` set []) = M" by (auto simp: restrict_map_def)
  then show ?case unfolding go_for.simps using Nil by (intro steps_ret) (simp_all add: same_totals_def)
next
  case (Cons k ks)
  let ?t = "task_tid k"
  have "steps (deleteTask P c k reason) s () a q (M(?t := None))
      (\<lambda>X'. same_totals (tally reason (qv_counters (Q s (a, q)))) (qv_counters X'))"
    using Cons.prems by (intro deleteTask_ok) auto
  then have "steps (go_bind (deleteTask P c k reason) (\<lambda>_. go_for (\<lambda>task _. deleteTask P c task reason) ks ())) s () a q
      (M |` (- task_tid ` set (k # ks)))
    (\<lambda>X'. same_totals ((tally reason ^^ length (k # ks)) (qv_counters (Q s (a, q)))) (qv_counters X'))"
  proof (rule steps_bind)
    fix s1
    assume s1: "W s1" "coh a q (M(?t := None)) (Q s1 (a, q))" "qv_tasks (Q s1 (a, q)) = M(?t := None)"
      and tot: "same_totals (tally reason (qv_counters (Q s (a, q)))) (qv_counters (Q s1 (a, q)))"
    have rows: "(M(?t := None)) |` (- task_tid ` set ks) = M |` (- task_tid ` set (k # ks))"
      by (auto simp: restrict_map_def)
    have "(M(?t := None)) (task_tid k') = Some k'" if "k' \<in> set ks" for k'
    proof -
      have "?t \<notin> task_tid ` set ks" using Cons.prems(5) by simp
      then have "task_tid k' \<noteq> ?t" using that by (metis imageI)
      then show ?thesis using Cons.prems(4)[of k'] that by simp
    qed
    moreover have "distinct (map task_tid ks)" using Cons.prems(5) by simp
    ultimately have IH: "steps (go_for (\<lambda>task _. deleteTask P c task reason) ks ()) s1 () a q
        ((M(?t := None)) |` (- task_tid ` set ks))
        (\<lambda>X'. same_totals ((tally reason ^^ length ks) (qv_counters (Q s1 (a, q)))) (qv_counters X'))"
      by (rule Cons.IH[OF s1])
    show "steps (go_for (\<lambda>task _. deleteTask P c task reason) ks ()) s1 () a q
        (M |` (- task_tid ` set (k # ks)))
        (\<lambda>X'. same_totals ((tally reason ^^ length (k # ks)) (qv_counters (Q s (a, q)))) (qv_counters X'))"
    proof (rule steps_mono[OF IH[unfolded rows]])
      fix X assume "same_totals ((tally reason ^^ length ks) (qv_counters (Q s1 (a, q)))) (qv_counters X)"
      then show "same_totals ((tally reason ^^ length (k # ks)) (qv_counters (Q s (a, q)))) (qv_counters X)"
        using same_totals_trans[OF same_totals_tallies[OF tot]] by (simp add: funpow_swap1)
    qed
  qed
  then show ?case by simp
qed

section \<open>heartbeatTask\<close>

lemma inprog_is_head:
  assumes "threads_ok a q M X" "M t = Some k" "is_inprog k" "t_ThreadId k \<noteq> []"
  shows "\<exists>thr. qv_threads X (t_ThreadId k) = Some thr \<and> tid_TaskId (th_HeadTaskId thr) = t \<and> th_ThreadId thr = t_ThreadId k"
proof -
  have m: "member M (t_ThreadId k) t k" using assms by (simp add: member_def)
  then obtain thr where "qv_threads X (t_ThreadId k) = Some thr" "head_ok a q M (t_ThreadId k) thr"
    using threads_ok_head[OF assms(1,4)] by blast
  moreover have "tid_TaskId (th_HeadTaskId thr) = t" "th_ThreadId thr = t_ThreadId k"
    using calculation(2) m assms(3) unfolding head_ok_def by fastforce+
  ultimately show ?thesis by blast
qed

lemma heartbeatTask_ok:
  assumes W: "W s" and c: "coh a q M (Q s (a, q))" and M: "qv_tasks (Q s (a, q)) = M" "M t = Some k" "is_inprog k"
  shows "steps (heartbeatTask P c k now ka) s () a q (M(t \<mapsto> heartbeat_row now ka k))
    (\<lambda>X'. qv_counters X' = qv_counters (Q s (a, q)))"
proof -
  let ?X = "Q s (a, q)" and ?k = "heartbeat_row now ka k"
  let ?v = "i64 (now + i64 (ka * time_Second))"
  have wf: "row_wf a q t k" using cohD(9)[OF c M(2)] .
  have id: "t_Id k = mkTaskId a q t" using wf by (simp add: row_wf_def)
  have wf': "row_wf a q t ?k" using wf by (simp add: row_wf_def attempts_ok_def retries_of_def)
  let ?T = "if t_ThreadId k = [] then qv_threads ?X else (qv_threads ?X)(t_ThreadId k \<mapsto> (the (qv_threads ?X (t_ThreadId k)))\<lparr> th_VisibleAt := ?v \<rparr>)"
  let ?X' = "?X\<lparr> qv_tasks := M(t \<mapsto> ?k), qv_threads := ?T,
    qv_inProgress := insert (tw ?v, t) (qv_inProgress ?X - {(tw (t_VisibleAt k), t)}) \<rparr>"
  have head: "t_ThreadId k \<noteq> [] \<Longrightarrow> \<exists>thr. qv_threads ?X (t_ThreadId k) = Some thr \<and>
      tid_TaskId (th_HeadTaskId thr) = t \<and> th_ThreadId thr = t_ThreadId k"
    using inprog_is_head[OF cohD(7)[OF c] M(2,3)] by blast
  have same: "same_head (qv_threads ?X th) (?T th)" for th
    using head by (auto simp: same_head_def)
  have "threads_ok a q (M(t \<mapsto> ?k)) ?X'"
    using M same by (intro threads_ok_rewrite[OF cohD(7)[OF c] M(2)]) auto
  moreover have "\<not> is_enq k" "\<not> is_dead k" "is_live k" using M(3) by (simp_all add: state_defs)
  ultimately have coh: "coh a q (M(t \<mapsto> ?k)) ?X'"
    using M(3) wf' by (intro coh_upd[OF c M(2)]) simp_all
  have "runs (heartbeatTask P c k now ka) s ((Q s)((a, q) := ?X'))"
  proof (cases "t_ThreadId k = []")
    case True
    then show ?thesis using W M id
      by (simp add: runs_def heartbeatTask_def heartbeat_row_def Let_def go_run tables_run tables_wf keys_run qview_eq_iff)
  next
    case False
    then obtain thr where "qv_threads ?X (t_ThreadId k) = Some thr" "tid_TaskId (th_HeadTaskId thr) = t" "th_ThreadId thr = t_ThreadId k"
      using head by blast
    then show ?thesis using W M id False
      by (simp add: runs_def heartbeatTask_def heartbeat_row_def Let_def go_run tables_run tables_wf keys_run qview_eq_iff)
  qed
  then show ?thesis using coh by (auto elim!: runsE intro!: stepsI[where X' = ?X'] simp: same_rest_def)
qed

section \<open>failTaskToDead\<close>

text \<open>The part of \<open>failTaskToDead\<close> before the eviction.\<close>

definition bury :: "Task \<Rightarrow> int \<Rightarrow> DeadLetterQueueConfig \<Rightarrow> ('s, unit) go \<Rightarrow> ('s, unit) go" where
  "bury k now cfg rest = (let k' = dead_row now cfg k in
     go_seq (oi_Delete (tt_inProgressIndex (tc_tasks c)) (tasksTable_tablePK P (task_acc k) (task_que k))
         (inProgressIndexItem P (t_VisibleAt k) (task_tid k)))
    (go_seq (tasksTable_set P (tc_tasks c) k')
    (go_seq (expirationIndex_add P (tt_expiration (tc_tasks c)) (t_Id k') (t_ExpiresAt k'))
    (go_seq (go_when (t_DedupeKey k' \<noteq> []) (ut_Delete (tt_dedupeKeysIndex (tc_tasks c))
         (dedupeKeysIndexPK P (task_acc k) (task_que k) (t_DedupeKey k'))))
    (go_seq (go_when (t_ThreadId k' \<noteq> []) (detachTaskFromThread P c k'))
    (go_seq (oi_Add (tt_deadTasksIndex (tc_tasks c)) (tasksTable_tablePK P (task_acc k) (task_que k))
         (deadTasksIndexItem P (t_LastFailedAt k') (task_tid k)))
     rest))))))"

lemma bury_ok:
  assumes W: "W s" and c: "coh a q M (Q s (a, q))" and M: "qv_tasks (Q s (a, q)) = M" "M t = Some k" "is_inprog k"
  shows "\<exists>s' X'. bury k now cfg rest s = rest s' \<and> W s' \<and> Q s' = (Q s)((a, q) := X') \<and>
    qv_counters X' = qv_counters (Q s (a, q)) \<and> qv_tasks X' = M(t \<mapsto> dead_row now cfg k) \<and> same_rest (Q s (a, q)) X' \<and>
    (\<forall>cn. cnt_EnqueuedTasksCount cn = cnt_EnqueuedTasksCount (qv_counters X') \<and>
      cnt_InProgressTasksCount cn = i64 (cnt_InProgressTasksCount (qv_counters X') - 1) \<and>
      cnt_DeadTasksCount cn = i64 (cnt_DeadTasksCount (qv_counters X') + 1) \<longrightarrow>
      coh a q (M(t \<mapsto> dead_row now cfg k)) (X'\<lparr> qv_counters := cn \<rparr>))"
proof -
  let ?X = "Q s (a, q)"
  define k' where "k' = dead_row now cfg k"
  have k': "t_Id k' = t_Id k" "t_ThreadId k' = t_ThreadId k" "t_ScheduledAt k' = t_ScheduledAt k" "t_DedupeKey k' = t_DedupeKey k"
    "t_LastFailedAt k' = now" "is_dead k'" "\<not> is_enq k'" "\<not> is_inprog k'" "\<not> is_live k'"
    by (simp_all add: k'_def)
  note st = inprog_states[OF M(3)]
  have wf: "row_wf a q t k" using cohD(9)[OF c M(2)] .
  have id: "t_Id k = mkTaskId a q t" using wf by (simp add: row_wf_def)
  have wf': "row_wf a q t k'" using wf by (simp add: row_wf_def attempts_ok_def retries_of_def k'_def)
  have ded: "t_DedupeKey k \<noteq> [] \<longrightarrow> qv_dedupe ?X (t_DedupeKey k) \<noteq> None"
    using dedupe_ok_lookup[OF cohD(6)[OF c] M(2)] st by simp
  define D where "D = go_when (t_DedupeKey k \<noteq> []) (ut_Delete (tt_dedupeKeysIndex (tc_tasks c)) (dkey a q (t_DedupeKey k)))"
  let ?X2 = "?X\<lparr> qv_inProgress := qv_inProgress ?X - {(tw (t_VisibleAt k), t)}, qv_tasks := M(t \<mapsto> k'),
    qv_expiration := insert (tw (t_ExpiresAt k'), t) (qv_expiration ?X),
    qv_dedupe := (if t_DedupeKey k = [] then qv_dedupe ?X else (qv_dedupe ?X)(t_DedupeKey k := None)) \<rparr>"
  define A where "A = go_seq (oi_Delete (tt_inProgressIndex (tc_tasks c)) (qkey a q) (ikey (tw (t_VisibleAt k)) t))
    (go_seq (tasksTable_set P (tc_tasks c) k')
    (go_seq (expirationIndex_add P (tt_expiration (tc_tasks c)) (t_Id k') (t_ExpiresAt k')) D))"
  have "runs A s ((Q s)((a, q) := ?X2))"
    using W M id k' ded by (simp add: A_def runs_def go_run tables_run tables_wf D_def qview_eq_iff)
  then obtain s2 where s2: "A s = Inr ((), s2)" "W s2" "Q s2 = (Q s)((a, q) := ?X2)" by (rule runsE)
  obtain X3 where X3: "threads_ok a q (M(t := None)) X3" "only_threads ?X2 X3"
    and r3: "runs (go_when (t_ThreadId k' \<noteq> []) (detachTaskFromThread P c k')) s2 ((Q s2)((a, q) := X3))"
  proof -
    have "stored a q (M(t := None)) (qv_tasks (Q s2 (a, q)))"
      using stored_del[OF stored_coh[OF c, of M], of t "Some k'"] s2(3) by simp
    moreover have "qv_queue ?X = qv_queue ?X - {sched_key k' t}"
      using not_enq_not_queued[OF cohD(7)[OF c] M(2)] st by (simp add: sched_key_def)
    ultimately show thesis
      using leave_queue_ok[OF s2(2) cohD(7)[OF c] M(2) _ wf'] s2(3) k' st that by auto
  qed
  obtain s3 where s3: "go_when (t_ThreadId k' \<noteq> []) (detachTaskFromThread P c k') s2 = Inr ((), s3)" "W s3" "Q s3 = (Q s)((a, q) := X3)"
    using r3 s2(3) by (auto elim: runsE)
  have X3f: "qv_tasks X3 = M(t \<mapsto> k')" "qv_expiration X3 = qv_expiration ?X2" "qv_dead X3 = qv_dead ?X" "same_rest ?X X3"
    "qv_dedupe X3 = qv_dedupe ?X2" "qv_inProgress X3 = qv_inProgress ?X2" "qv_counters X3 = qv_counters ?X"
    using X3(2) by (simp_all add: only_threads_def same_rest_def)
  define s4 where "s4 = go_out (oi_Add (tt_deadTasksIndex (tc_tasks c)) (qkey a q) (ikey (tw now) t)) s3"
  let ?X4 = "X3\<lparr> qv_dead := insert (tw now, t) (qv_dead X3) \<rparr>"
  have s4: "W s4" "Q s4 = (Q s)((a, q) := ?X4)"
    using s3 by (simp_all add: s4_def tables_run tables_wf)
  have "bury k now cfg rest s = go_seq A (go_seq (go_when (t_ThreadId k' \<noteq> []) (detachTaskFromThread P c k'))
      (go_seq (oi_Add (tt_deadTasksIndex (tc_tasks c)) (qkey a q) (ikey (tw now) t)) rest)) s"
    unfolding bury_def k'_def[symmetric] Let_def A_def D_def k' id TaskId.simps keys_run
    by (simp add: go_run split: sum.split)
  then have "bury k now cfg rest s = rest s4"
    using s2(1) s3(1) by (simp add: go_run tables_run s4_def)
  moreover have "coh a q (M(t \<mapsto> k')) (?X4\<lparr> qv_counters := cn \<rparr>)"
    if "cnt_EnqueuedTasksCount cn = cnt_EnqueuedTasksCount (qv_counters ?X4)"
      "cnt_InProgressTasksCount cn = i64 (cnt_InProgressTasksCount (qv_counters ?X4) - 1)"
      "cnt_DeadTasksCount cn = i64 (cnt_DeadTasksCount (qv_counters ?X4) + 1)" for cn
  proof (rule coh_upd[OF c M(2) wf'])
    have "threads_ok a q (M(t \<mapsto> k')) X3"
      using X3(1) k'(9) by (subst threads_ok_live[of _ "M(t := None)"]) auto
    then show "threads_ok a q (M(t \<mapsto> k')) (?X4\<lparr> qv_counters := cn \<rparr>)"
      by (subst threads_ok_fields[of _ X3]) auto
  qed (use st k' X3f that M(3) in simp_all)
  ultimately show ?thesis using s4 X3f by (intro exI[of _ s4] exI[of _ ?X4]) (simp add: k'_def same_rest_def)
qed

section \<open>evictExcessDeadTasks\<close>

lemma qv_dead_index: "coh a q M X \<Longrightarrow> qv_dead X = dead_index M"
  using cohD(4)[of a q M X] unfolding idx_ok_def dead_index_def by auto

lemma dead_index_rows:
  assumes "coh a q M X" "(w, t) \<in> qv_dead X"
  shows "\<exists>k. M t = Some k \<and> is_dead k \<and> w = tw (t_LastFailedAt k) \<and> t_Id k = mkTaskId a q t"
  using cohD(4)[OF assms(1)] cohD(9)[OF assms(1)] assms(2) unfolding idx_ok_def row_wf_def by blast

lemma evictExcessDeadTasks_ok:
  assumes W: "W s" and c: "coh a q M (Q s (a, q))" and M: "qv_tasks (Q s (a, q)) = M"
  shows "steps (evictExcessDeadTasks P c a q maxSize n) s () a q
      (evict_rows maxSize n M)
    (\<lambda>X'. same_totals (qv_counters (Q s (a, q))) (qv_counters X'))"
proof (cases "0 < maxSize \<and> 0 < i64 (n - maxSize)")
  case False
  then have "evictExcessDeadTasks P c a q maxSize n = go_ret ()" "evict_rows maxSize n M = M"
    by (auto simp: evictExcessDeadTasks_def Let_def evict_rows_def oldest_dead_def restrict_map_def)
  then show ?thesis using assms by (auto intro!: steps_ret simp: same_totals_def)
next
  case True
  let ?X = "Q s (a, q)" and ?n = "i64 (n - maxSize)"
  define L where "L = sorted_list_of_set (qv_dead ?X)"
  define row where "row x = the (M (snd x))" for x :: "uint64 \<times> uint64"
  define ks where "ks = map row (take (nat ?n) L)"
  have L: "set L = qv_dead ?X" using index_finite(3)[OF W] by (simp add: L_def)
  have row: "M (snd x) = Some (row x)" "task_tid (row x) = snd x" if "x \<in> set L" for x
    using dead_index_rows[OF c, of "fst x" "snd x"] that L by (auto simp: row_def)
  have inj: "inj_on snd (set L)"
  proof (rule inj_onI)
    fix x y assume "x \<in> set L" "y \<in> set L" "snd x = snd y"
    then have "fst x = fst y"
      using dead_index_rows[OF c, of "fst x" "snd x"] dead_index_rows[OF c, of "fst y" "snd y"] L
      by (metis option.inject prod.collapse)
    then show "x = y" using \<open>snd x = snd y\<close> by (simp add: prod_eq_iff)
  qed
  define f where "f = (\<lambda>item oldest. go_bind (extractTaskIdFromIndexItem P item) (\<lambda>taskId.
      go_bind (tasksTable_Get P (tc_tasks c) (mkTaskId a q taskId)) (\<lambda>task.
      go_ret (int (length (oldest @ [task])) < ?n, oldest @ [task]))))"
  have "f ((\<lambda>(w, t). ikey w t) x) acc s = Inr ((int (length acc) + 1 < ?n, acc @ [row x]), s)" if "x \<in> set L" for x acc
    using row[OF that] M by (cases x) (simp add: f_def go_run tables_run add.commute)
  then have scan: "go_scan f (map (\<lambda>(w, t). ikey w t) L) [] s = Inr (ks, s)"
    using go_scan_collect[where f = f and acc = "[]" and g = row and xs = L] True by (simp add: ks_def)
  have E: "evictExcessDeadTasks P c a q maxSize n s = go_for (\<lambda>task _. deleteTask P c task taskDeletionNone) ks () s"
    using True scan index_listings(3)[OF W, of a q]
    unfolding evictExcessDeadTasks_def Let_def f_def[symmetric] keys_run by (simp add: go_run L_def[symmetric])
  have tids: "map task_tid ks = map snd (take (nat ?n) L)"
    using row by (auto simp: ks_def dest: in_set_takeD)
  have dist: "distinct (map task_tid ks)"
    unfolding tids distinct_map using inj_on_subset[OF inj set_take_subset] by (simp add: L_def)
  have "task_tid ` set ks = oldest_dead M (nat ?n)"
    using arg_cong[OF tids, of set] qv_dead_index[OF c] by (simp add: oldest_dead_def L_def)
  moreover have "\<And>k. k \<in> set ks \<Longrightarrow> M (task_tid k) = Some k"
    using row by (auto simp: ks_def dest!: in_set_takeD)
  ultimately show ?thesis
    using deleteTask_list_ok[OF W c M _ dist, of taskDeletionNone] True E unfolding steps_def
    by (simp add: evict_rows_def)
qed

lemma failTaskToDead_ok:
  assumes W: "W s" and c: "coh a q M (Q s (a, q))" and M: "qv_tasks (Q s (a, q)) = M" "M t = Some k" "is_inprog k"
  shows "steps (failTaskToDead P c k now dlq) s () a q (dead_rows now dlq t k M)
    (\<lambda>X'. same_totals (qv_counters (Q s (a, q))) (qv_counters X'))"
proof (cases "\<exists>cfg. dlq = Some cfg \<and> dlq_Enable cfg")
  case False
  then have "failTaskToDead P c k now dlq = deleteTask P c k taskDeletionNone" "dead_rows now dlq t k M = M(t := None)"
    by (auto simp: failTaskToDead_def dead_rows_def split: option.split)
  then show ?thesis using deleteTask_ok[OF W c M(1,2), of taskDeletionNone] by (simp add: tally_def)
next
  case True
  then obtain cfg where cfg: "dlq = Some cfg" "dlq_Enable cfg" by blast
  let ?M = "M(t \<mapsto> dead_row now cfg k)" and ?cn = "qv_counters (Q s (a, q))"
  let ?cn' = "?cn\<lparr> cnt_InProgressTasksCount := i64 (cnt_InProgressTasksCount ?cn - 1),
      cnt_DeadTasksCount := i64 (cnt_DeadTasksCount ?cn + 1) \<rparr>"
  define rest where "rest = go_bind (countersTable_Get P (tc_counters c) a q) (\<lambda>counters.
       let counters' = counters\<lparr> cnt_InProgressTasksCount := i64 (cnt_InProgressTasksCount counters - 1),
                                 cnt_DeadTasksCount := i64 (cnt_DeadTasksCount counters + 1) \<rparr> in
       go_seq (countersTable_Set P (tc_counters c) a q counters')
      (evictExcessDeadTasks P c a q (dlq_MaxSize cfg) (cnt_DeadTasksCount counters')))"
  have id: "t_Id k = mkTaskId a q t" using cohD(9)[OF c M(2)] by (simp add: row_wf_def)
  have E: "failTaskToDead P c k now dlq = bury k now cfg rest"
    using cfg by (simp add: failTaskToDead_def bury_def rest_def Let_def dead_row_def id)
  obtain s1 X1 where 1: "bury k now cfg rest s = rest s1" "W s1" "Q s1 = (Q s)((a, q) := X1)" "qv_counters X1 = ?cn"
    "qv_tasks X1 = ?M" "same_rest (Q s (a, q)) X1" "coh a q ?M (X1\<lparr> qv_counters := ?cn' \<rparr>)"
    using bury_ok[OF W c M, of now cfg rest] by auto
  define s2 where "s2 = go_out (countersTable_Set P (tc_counters c) a q ?cn') s1"
  have s2: "W s2" "Q s2 = (Q s)((a, q) := X1\<lparr> qv_counters := ?cn' \<rparr>)"
    using 1 by (simp_all add: s2_def tables_run tables_wf)
  have r: "failTaskToDead P c k now dlq s = evictExcessDeadTasks P c a q (dlq_MaxSize cfg) (cnt_DeadTasksCount ?cn') s2"
    using 1 by (simp add: E rest_def go_run tables_run s2_def Let_def)
  have "cnt_DeadTasksCount ?cn' = i64 (int (count_rows is_dead ?M))"
    using cohD(8)[OF 1(7)] by (simp add: counters_ok_def)
  then have "dead_rows now dlq t k M = evict_rows (dlq_MaxSize cfg) (cnt_DeadTasksCount ?cn') ?M"
    using cfg by (simp add: dead_rows_def Let_def)
  moreover have "steps (evictExcessDeadTasks P c a q (dlq_MaxSize cfg) (cnt_DeadTasksCount ?cn')) s2 () a q
      (evict_rows (dlq_MaxSize cfg) (cnt_DeadTasksCount ?cn') ?M)
      (\<lambda>X'. same_totals (qv_counters (Q s2 (a, q))) (qv_counters X'))"
    using s2 1 by (intro evictExcessDeadTasks_ok) simp_all
  ultimately show ?thesis
    using r s2 1(6) by (auto elim!: stepsE intro!: stepsI simp: same_rest_def same_totals_def)
qed

section \<open>failTaskToRetry\<close>

lemma threads_ok_same_head:
  assumes "threads_ok a q M X" "M t = Some k" "is_live k" "qv_threaded X' = qv_threaded X" "qv_queue X' = qv_queue X"
    "\<And>th. same_head (qv_threads X th) (qv_threads X' th)"
  shows "threads_ok a q M X'"
proof -
  have "M(t \<mapsto> k) = M" using assms(2) by (simp add: fun_upd_idem)
  then show ?thesis using threads_ok_rewrite[OF assms(1-3,3) refl refl assms(4,6)] assms(5) by simp
qed

text \<open>An in-progress task is put back: into the queue index, or back into its
  thread under the new time.  The second needs the new time to differ from the
  old one.\<close>

lemma requeue_ok:
  assumes W: "W s" and th: "threads_ok a q M (Q s (a, q))" and M: "M t = Some k" "is_inprog k"
    and k': "row_wf a q t k'" "is_enq k'" "t_ThreadId k' = t_ThreadId k"
    and moved: "t_ThreadId k \<noteq> [] \<Longrightarrow> t_ScheduledAt k' \<noteq> t_ScheduledAt k"
    and st: "stored a q (M(t \<mapsto> k')) (qv_tasks (Q s (a, q)))"
  shows "\<exists>X'. runs (if t_ThreadId k' = []
      then oi_Add (tt_queueIndex (tc_tasks c)) (qkey a q) (ikey (tw (t_ScheduledAt k')) t)
      else go_seq (rescheduleTaskInThread P c k' (t_ScheduledAt k))
        (go_bind (threadsTable_Get P (tc_threads c) a q (t_ThreadId k')) (\<lambda>thread.
         threadsTable_set P (tc_threads c) a q (thread\<lparr> th_VisibleAt := 0 \<rparr>)))) s ((Q s)((a, q) := X')) \<and>
    threads_ok a q (M(t \<mapsto> k')) X' \<and> only_threads (Q s (a, q)) X'"
proof (cases "t_ThreadId k' = []")
  case True
  note st = inprog_states[OF M(2)]
  let ?X' = "(Q s (a, q))\<lparr> qv_queue := insert (sched_key k' t) (qv_queue (Q s (a, q))) \<rparr>"
  have "threads_ok a q (M(t := None)) (Q s (a, q))"
    using True k'(3) not_enq_not_queued[OF th M(1)] st
    by (intro threads_ok_plain_del[OF th M(1)]) (auto simp: sched_key_def)
  then have "threads_ok a q ((M(t := None))(t \<mapsto> k')) ?X'"
    using True k'(2) by (intro threads_ok_plain_add) auto
  moreover have "only_threads (Q s (a, q)) ?X'" by (simp add: only_threads_def same_rest_def)
  ultimately show ?thesis
    using True W by (intro exI[of _ ?X']) (simp add: runs_def tables_run tables_wf sched_key_def)
next
  case False
  note states = inprog_states[OF M(2)]
  have id: "t_Id k' = mkTaskId a q t" "length (t_ThreadId k') < 2 ^ 32" using k'(1) by (auto simp: row_wf_def)
  have m: "member M (t_ThreadId k') t k" using M k' states by (simp add: member_def)
  let ?X1 = "reschedule_view k' (t_ScheduledAt k) (Q s (a, q))"
  have r1: "runs (rescheduleTaskInThread P c k' (t_ScheduledAt k)) s ((Q s)((a, q) := ?X1))"
    and t1: "threads_ok a q (M(t \<mapsto> k')) ?X1"
    using rescheduleTaskInThread_ok[OF W th m k'(2) False id(2,1) _ _ st] moved False k'(3) states by auto
  have m': "member (M(t \<mapsto> k')) (t_ThreadId k') t k'" using k'(2) by (simp add: member_def)
  obtain thr where thr: "qv_threads ?X1 (t_ThreadId k') = Some thr" and "head_ok a q (M(t \<mapsto> k')) (t_ThreadId k') thr"
    using threads_ok_head[OF t1 False m'] by blast
  then have thr_id: "th_ThreadId thr = t_ThreadId k'" by (simp add: head_ok_def)
  let ?X2 = "?X1\<lparr> qv_threads := (qv_threads ?X1)(t_ThreadId k' \<mapsto> thr\<lparr> th_VisibleAt := 0 \<rparr>) \<rparr>"
  have "same_head (qv_threads ?X1 th) (qv_threads ?X2 th)" for th using thr thr_id by (auto simp: same_head_def)
  then have "threads_ok a q (M(t \<mapsto> k')) ?X2"
    using k'(2) by (intro threads_ok_same_head[OF t1, of t k']) auto
  moreover have "runs (go_seq (rescheduleTaskInThread P c k' (t_ScheduledAt k))
        (go_bind (threadsTable_Get P (tc_threads c) a q (t_ThreadId k')) (\<lambda>thread.
         threadsTable_set P (tc_threads c) a q (thread\<lparr> th_VisibleAt := 0 \<rparr>)))) s ((Q s)((a, q) := ?X2))"
    using r1
  proof (rule runs_seq)
    fix s' assume "W s'" "Q s' = (Q s)((a, q) := ?X1)"
    then show "runs (go_bind (threadsTable_Get P (tc_threads c) a q (t_ThreadId k')) (\<lambda>thread.
         threadsTable_set P (tc_threads c) a q (thread\<lparr> th_VisibleAt := 0 \<rparr>))) s' ((Q s)((a, q) := ?X2))"
      using thr thr_id by (simp add: runs_def go_run tables_run tables_wf)
  qed
  moreover have "only_threads (Q s (a, q)) ?X2" by (simp add: only_threads_def same_rest_def)
  ultimately show ?thesis using False by (intro exI[of _ ?X2]) simp
qed

lemma retry_index:
  assumes "row_wf a q t k" "is_inprog k" "\<not> exhausted k"
  shows "\<exists>rs. t_RetryStrategy k = Some rs \<and>
    go_index (rs_RetryIntervalsInSeconds rs) (i32 (t_Attempts k - 1)) = go_ret (retry_delay k)"
proof -
  have b: "1 \<le> t_Attempts k" "t_Attempts k \<le> retries_of k" "retries_of k < 2 ^ 31 - 1"
    using assms by (auto simp: row_wf_def attempts_ok_def exhausted_def)
  then obtain rs where rs: "t_RetryStrategy k = Some rs" by (cases "t_RetryStrategy k") (auto simp: retries_of_def)
  have "i32 (t_Attempts k - 1) = t_Attempts k - 1" using b by (simp add: i32_def)
  then show ?thesis using b rs by (simp add: go_index_def retry_delay_def retries_of_def)
qed

lemma failTaskToRetry_ok:
  assumes W: "W s" and c: "coh a q M (Q s (a, q))" and M: "qv_tasks (Q s (a, q)) = M" "M t = Some k" "is_inprog k"
    and more: "\<not> exhausted k" and moves: "retry_moves now k"
  shows "steps (failTaskToRetry P c k now) s () a q (M(t \<mapsto> retry_row now k))
    (\<lambda>X'. same_totals (qv_counters (Q s (a, q))) (qv_counters X'))"
proof -
  let ?X = "Q s (a, q)"
  define k' where "k' = retry_row now k"
  note st = inprog_states[OF M(3)]
  have wf: "row_wf a q t k" using cohD(9)[OF c M(2)] .
  have id: "t_Id k = mkTaskId a q t" using wf by (simp add: row_wf_def)
  have wf': "row_wf a q t k'"
    using wf more by (simp add: row_wf_def attempts_ok_def retries_of_def exhausted_def k'_def)
  have k': "t_Id k' = t_Id k" "t_ThreadId k' = t_ThreadId k" "t_ExpiresAt k' = t_ExpiresAt k" "t_DedupeKey k' = t_DedupeKey k"
    "is_enq k'" "is_live k'" "\<not> is_dead k'" "\<not> is_inprog k'"
    by (simp_all add: k'_def)
  obtain rs where rs: "t_RetryStrategy k = Some rs"
    "go_index (rs_RetryIntervalsInSeconds rs) (i32 (t_Attempts k - 1)) = (go_ret (retry_delay k) :: ('s, int) go)"
    using retry_index[OF wf M(3) more] by blast
  define A where "A = go_seq (oi_Delete (tt_inProgressIndex (tc_tasks c)) (qkey a q) (ikey (tw (t_VisibleAt k)) t))
    (go_seq (tasksTable_set P (tc_tasks c) k')
    (expirationIndex_add P (tt_expiration (tc_tasks c)) (t_Id k') (t_ExpiresAt k')))"
  define E where "E = (if t_ThreadId k' = []
      then oi_Add (tt_queueIndex (tc_tasks c)) (qkey a q) (ikey (tw (t_ScheduledAt k')) t)
      else go_seq (rescheduleTaskInThread P c k' (t_ScheduledAt k))
        (go_bind (threadsTable_Get P (tc_threads c) a q (t_ThreadId k')) (\<lambda>thread.
         threadsTable_set P (tc_threads c) a q (thread\<lparr> th_VisibleAt := 0 \<rparr>))))"
  let ?X1 = "?X\<lparr> qv_inProgress := qv_inProgress ?X - {(tw (t_VisibleAt k), t)}, qv_tasks := M(t \<mapsto> k'),
    qv_expiration := insert (tw (t_ExpiresAt k), t) (qv_expiration ?X) \<rparr>"
  have "runs A s ((Q s)((a, q) := ?X1))"
    using W M id k' by (simp add: A_def runs_def go_run tables_run tables_wf)
  then obtain s1 where s1: "A s = Inr ((), s1)" "W s1" "Q s1 = (Q s)((a, q) := ?X1)" by (rule runsE)
  have th1: "threads_ok a q M (Q s1 (a, q))"
    using cohD(7)[OF c] s1(3) threads_ok_fields[of ?X1 ?X] by simp
  have sto: "stored a q (M(t \<mapsto> k')) (qv_tasks (Q s1 (a, q)))"
    using stored_upd[OF stored_coh[OF c, of M], of k' t] id k' s1(3) by simp
  have mv: "t_ThreadId k \<noteq> [] \<Longrightarrow> t_ScheduledAt k' \<noteq> t_ScheduledAt k"
    using moves by (simp add: retry_moves_def k'_def)
  obtain X2 where X2: "threads_ok a q (M(t \<mapsto> k')) X2" "only_threads ?X1 X2" and r2: "runs E s1 ((Q s1)((a, q) := X2))"
    using requeue_ok[OF s1(2) th1 M(2,3) wf' k'(5) k'(2) mv sto] s1(3) unfolding E_def by auto
  obtain s2 where s2: "E s1 = Inr ((), s2)" "W s2" "Q s2 = (Q s)((a, q) := X2)"
    using r2 s1(3) by (auto elim: runsE)
  have X2f: "qv_tasks X2 = M(t \<mapsto> k')" "qv_expiration X2 = qv_expiration ?X1" "qv_dead X2 = qv_dead ?X" "same_rest ?X X2"
    "qv_dedupe X2 = qv_dedupe ?X" "qv_inProgress X2 = qv_inProgress ?X1" "qv_counters X2 = qv_counters ?X"
    using X2(2) by (simp_all add: only_threads_def same_rest_def)
  let ?cn = "(qv_counters ?X)\<lparr> cnt_InProgressTasksCount := i64 (cnt_InProgressTasksCount (qv_counters ?X) - 1),
    cnt_EnqueuedTasksCount := i64 (cnt_EnqueuedTasksCount (qv_counters ?X) + 1) \<rparr>"
  define s3 where "s3 = go_out (countersTable_Set P (tc_counters c) a q ?cn) s2"
  have s3: "W s3" "Q s3 = (Q s)((a, q) := X2\<lparr> qv_counters := ?cn \<rparr>)"
    using s2 by (simp_all add: s3_def tables_run tables_wf)
  have "failTaskToRetry P c k now = go_seq (oi_Delete (tt_inProgressIndex (tc_tasks c)) (qkey a q) (ikey (tw (t_VisibleAt k)) t))
    (go_seq (tasksTable_set P (tc_tasks c) k')
    (go_seq (expirationIndex_add P (tt_expiration (tc_tasks c)) (t_Id k') (t_ExpiresAt k'))
    (go_seq E (go_bind (countersTable_Get P (tc_counters c) a q) (\<lambda>counters.
      countersTable_Set P (tc_counters c) a q
        (counters\<lparr> cnt_InProgressTasksCount := i64 (cnt_InProgressTasksCount counters - 1),
                   cnt_EnqueuedTasksCount := i64 (cnt_EnqueuedTasksCount counters + 1) \<rparr>))))))"
    unfolding E_def failTaskToRetry_def Let_def id TaskId.simps keys_run k'(1)
    by (simp add: rs k'_def retry_row_def id)
  then have "failTaskToRetry P c k now s = Inr ((), s3)"
    using s1(1) s2 X2f(7) unfolding A_def by (simp add: go_run tables_run s3_def split: sum.splits)
  moreover have "coh a q (M(t \<mapsto> k')) (X2\<lparr> qv_counters := ?cn \<rparr>)"
  proof (rule coh_upd[OF c M(2) wf'])
    show "threads_ok a q (M(t \<mapsto> k')) (X2\<lparr> qv_counters := ?cn \<rparr>)"
      using X2(1) by (subst threads_ok_fields[of _ X2]) auto
  qed (use st k' X2f M(3) in simp_all)
  ultimately show ?thesis
    using s3 X2f unfolding k'_def by (intro stepsI[where s' = s3 and X' = "X2\<lparr> qv_counters := ?cn \<rparr>"])
      (simp_all add: same_rest_def same_totals_def)
qed

section \<open>handleTaskFailure and reportStatus\<close>

lemma handleTaskFailure_ok:
  assumes W: "W s" and c: "coh a q M (Q s (a, q))" and M: "qv_tasks (Q s (a, q)) = M" "M t = Some k" "is_inprog k"
    and mv: "all_movable now M"
  shows "steps (handleTaskFailure P c k now dlq) s () a q (fail_rows now dlq t k M)
    (\<lambda>X'. same_totals (tally (if t_ExpiresAt k < now then taskDeletionExpired else taskDeletionNone) (qv_counters (Q s (a, q))))
      (qv_counters X'))"
proof -
  have ex: "exhausted k \<longleftrightarrow> (case t_RetryStrategy k of None \<Rightarrow> True
    | Some rs \<Rightarrow> t_Attempts k > i32 (int (length (rs_RetryIntervalsInSeconds rs))))"
    using exhausted_code[OF cohD(9)[OF c M(2)] M(3)] .
  have code: "handleTaskFailure P c k now dlq = (if t_ExpiresAt k < now then deleteTask P c k taskDeletionExpired
      else if exhausted k then failTaskToDead P c k now dlq else failTaskToRetry P c k now)"
    by (auto simp: handleTaskFailure_def ex split: option.split)
  have "retry_moves now k" if "\<not> exhausted k" using mv M that unfolding all_movable_def by blast
  then show ?thesis
    using deleteTask_ok[OF W c M(1,2), of taskDeletionExpired] failTaskToDead_ok[OF W c M, of now dlq]
      failTaskToRetry_ok[OF W c M, of now]
    by (simp add: code fail_rows_def tally_def[of taskDeletionNone])
qed

lemma reportStatus_ok:
  assumes W: "W s" and c: "coh a q M (Q s (a, q))" and M: "qv_tasks (Q s (a, q)) = M" and mv: "all_movable now M"
  shows "steps (reportStatus P c (mkTaskId a q t) now status attempt ka dlq) s
    (fst (report_rows now dlq t status attempt ka M)) a q (snd (report_rows now dlq t status attempt ka M)) (\<lambda>X'. True)"
proof (cases "M t")
  case None
  then have "steps (go_ret RESULT_NOT_FOUND) s RESULT_NOT_FOUND a q M (\<lambda>X'. True)"
    using W c M by (intro steps_ret) simp_all
  then show ?thesis using None M by (simp add: steps_def report_rows_def reportStatus_def go_run tables_run)
next
  case (Some k)
  have seq: "steps (go_seq m (go_ret r)) s r a q M' (\<lambda>X'. True)" if "steps m s () a q M' R" for m M' R and r :: ReportStatus_Result
    using that by (rule steps_seq) (intro steps_ret; simp)
  have ret: "steps (go_ret r) s r a q M (\<lambda>X'. True)" for r :: ReportStatus_Result
    using W c M by (intro steps_ret) simp_all
  have inp: "t_State k \<noteq> TASK_STATE_IN_PROGRESS \<longleftrightarrow> \<not> is_inprog k" by (simp add: is_inprog_def)
  define body where "body = (if \<not> is_inprog k then go_ret RESULT_NOT_IN_PROGRESS
    else if t_Attempts k \<noteq> attempt then go_ret RESULT_STALE_ATTEMPT
    else case status of
        STATUS_IN_PROGRESS \<Rightarrow> go_seq (heartbeatTask P c k now ka) (go_ret RESULT_OK)
      | STATUS_FAILED \<Rightarrow> go_seq (handleTaskFailure P c k now dlq) (go_ret RESULT_OK)
      | STATUS_SUCCEEDED \<Rightarrow> go_seq (deleteTask P c k taskDeletionSucceeded) (go_ret RESULT_OK)
      | _ \<Rightarrow> go_ret RESULT_INVALID)"
  have "steps body s (fst (report_rows now dlq t status attempt ka M)) a q (snd (report_rows now dlq t status attempt ka M)) (\<lambda>X'. True)"
    using ret seq[OF heartbeatTask_ok[OF W c M Some]] seq[OF handleTaskFailure_ok[OF W c M Some _ mv]]
      seq[OF deleteTask_ok[OF W c M Some]]
    by (simp add: body_def report_rows_def Some split: ReportStatus_Status.split)
  moreover have "reportStatus P c (mkTaskId a q t) now status attempt ka dlq s = body s"
    unfolding body_def reportStatus_def inp[symmetric] using Some M by (simp add: go_try_def tables_run)
  ultimately show ?thesis by (simp add: steps_def)
qed

section \<open>restartTask\<close>

lemma restartTask_ok:
  assumes W: "W s" and c: "coh a q M (Q s (a, q))" and M: "qv_tasks (Q s (a, q)) = M" "M t = Some k" "is_dead k"
    and free: "t_DedupeKey k \<noteq> [] \<Longrightarrow> qv_dedupe (Q s (a, q)) (t_DedupeKey k) = None"
  shows "steps (restartTask P c k now scheduledAt expiresAt) s (restart_row now scheduledAt expiresAt k) a q
    (M(t \<mapsto> restart_row now scheduledAt expiresAt k)) (\<lambda>X'. True)"
proof -
  let ?X = "Q s (a, q)"
  define k' where "k' = restart_row now scheduledAt expiresAt k"
  have wf: "row_wf a q t k" using cohD(9)[OF c M(2)] .
  have id: "t_Id k = mkTaskId a q t" using wf by (simp add: row_wf_def)
  have wf': "row_wf a q t k'" "is_enq k'"
    using wf by (auto simp: row_wf_def attempts_ok_def retries_of_def k'_def restart_row_def state_defs split: option.splits)
  let ?cn = "(qv_counters ?X)\<lparr> cnt_DeadTasksCount := i64 (cnt_DeadTasksCount (qv_counters ?X) - 1) \<rparr>"
  let ?X1 = "?X\<lparr> qv_dead := qv_dead ?X - {(tw (t_LastFailedAt k), t)},
    qv_expiration := qv_expiration ?X - {(tw (t_ExpiresAt k), t)}, qv_counters := ?cn \<rparr>"
  define A where "A = go_seq (oi_Delete (tt_deadTasksIndex (tc_tasks c)) (qkey a q) (ikey (tw (t_LastFailedAt k)) t))
    (go_seq (expirationIndex_remove P (tt_expiration (tc_tasks c)) (t_Id k) (t_ExpiresAt k))
    (go_bind (countersTable_Get P (tc_counters c) a q) (\<lambda>counters.
      countersTable_Set P (tc_counters c) a q (counters\<lparr> cnt_DeadTasksCount := i64 (cnt_DeadTasksCount counters - 1) \<rparr>))))"
  have "runs A s ((Q s)((a, q) := ?X1))"
    using W id by (simp add: A_def runs_def go_run tables_run tables_wf)
  then obtain s1 where s1: "A s = Inr ((), s1)" "W s1" "Q s1 = (Q s)((a, q) := ?X1)" by (rule runsE)
  have "threads_ok a q (M(t := None)) ?X"
    using cohD(7)[OF c] M(2,3) by (subst threads_ok_live[of _ M]) (auto simp: state_defs)
  then have "threads_ok a q (M(t := None)) ?X1" by (subst threads_ok_fields[of _ ?X]) auto
  then have c1: "coh a q (M(t := None)) (Q s1 (a, q))"
    using M(3) s1(3) by (intro coh_del[OF c M(2)]) (auto simp: state_defs)
  have "steps (createTask P c k') s1 () a q ((M(t := None))(t \<mapsto> k')) (\<lambda>X'. True)"
  proof (rule createTask_ok[OF s1(2) c1 wf'])
    show "(M(t := None))(t := Some k) = qv_tasks (Q s1 (a, q))" using M(1,2) s1(3) by (simp add: fun_upd_idem)
    show "t_DedupeKey k' \<noteq> [] \<Longrightarrow> qv_dedupe (Q s1 (a, q)) (t_DedupeKey k') = None"
      using free s1(3) by (simp add: k'_def restart_row_def)
  qed simp
  then obtain s2 X2 where 2: "createTask P c k' s1 = Inr ((), s2)" "W s2" "Q s2 = (Q s1)((a, q) := X2)"
    "coh a q (M(t \<mapsto> k')) X2" "qv_tasks X2 = M(t \<mapsto> k')" "same_rest (Q s1 (a, q)) X2"
    by (auto elim: stepsE)
  have "restartTask P c k now scheduledAt expiresAt s = Inr (k', s2)"
    using s1(1) 2(1) unfolding A_def restartTask_def Let_def k'_def restart_row_def[symmetric]
    by (simp add: go_run tables_run id split: sum.splits)
  then show ?thesis
    unfolding k'_def[symmetric] using 2 s1(3) by (intro stepsI[where s' = s2 and X' = X2]) (simp_all add: same_rest_def)
qed

end

end
