(* ===== verification/Tasks_Enqueue.thy ===== *)
theory Tasks_Enqueue
  imports Tasks_Failure
begin

text \<open>
  Enqueueing: the deduplication lookup, \<open>overwriteDuplicate\<close>, and one entry
  of an \<open>Enqueue\<close> request.
\<close>

context tasks_store
begin

section \<open>One field\<close>

lemma coh_payload:
  assumes c: "coh a q M X" and k: "M t = Some k" "is_live k"
  shows "coh a q (M(t \<mapsto> k\<lparr> t_Payload := p \<rparr>)) X"
proof (rule coh_upd[OF c k(1)])
  have wf: "row_wf a q t k" using cohD(9)[OF c k(1)] .
  then show "row_wf a q t (k\<lparr> t_Payload := p \<rparr>)" by (simp add: row_wf_def attempts_ok_def retries_of_def state_defs)
  show "threads_ok a q (M(t \<mapsto> k\<lparr> t_Payload := p \<rparr>)) X"
    using k by (intro threads_ok_rewrite[OF cohD(7)[OF c] k]) (auto simp: state_defs same_head_def)
  have "\<not> is_dead k" "is_inprog k \<Longrightarrow> (tw (t_VisibleAt k), t) \<in> qv_inProgress X"
    "\<not> is_inprog k \<Longrightarrow> (tw (t_ExpiresAt k), t) \<in> qv_expiration X"
    using k cohD(3,5)[OF c] unfolding idx_ok_def by (auto simp: state_defs)
  then show "qv_inProgress X = (if is_inprog (k\<lparr> t_Payload := p \<rparr>)
      then insert (tw (t_VisibleAt (k\<lparr> t_Payload := p \<rparr>)), t) (qv_inProgress X - (if is_inprog k then {(tw (t_VisibleAt k), t)} else {}))
      else qv_inProgress X - (if is_inprog k then {(tw (t_VisibleAt k), t)} else {}))"
    "qv_dead X = (if is_dead (k\<lparr> t_Payload := p \<rparr>)
      then insert (tw (t_LastFailedAt (k\<lparr> t_Payload := p \<rparr>)), t) (qv_dead X - (if is_dead k then {(tw (t_LastFailedAt k), t)} else {}))
      else qv_dead X - (if is_dead k then {(tw (t_LastFailedAt k), t)} else {}))"
    "qv_expiration X = (if \<not> is_inprog (k\<lparr> t_Payload := p \<rparr>)
      then insert (tw (t_ExpiresAt (k\<lparr> t_Payload := p \<rparr>)), t) (qv_expiration X - (if \<not> is_inprog k then {(tw (t_ExpiresAt k), t)} else {}))
      else qv_expiration X - (if \<not> is_inprog k then {(tw (t_ExpiresAt k), t)} else {}))"
    by (auto simp: state_defs)
qed (use k in \<open>auto simp: state_defs\<close>)

text \<open>\<open>rewriting\<close>: the invariant holds of the row being rewritten, the
  stored one may still be older.\<close>

definition rewriting :: "uint64 \<Rightarrow> uint64 \<Rightarrow> rows \<Rightarrow> uint64 \<Rightarrow> Task \<Rightarrow> qview \<Rightarrow> bool" where
  "rewriting a q M t k X \<longleftrightarrow> coh a q (M(t \<mapsto> k)) X \<and> (\<exists>x. qv_tasks X = M(t \<mapsto> x))"

lemma overwrite_expires_ok:
  assumes W: "W s" and r: "rewriting a q M t k (Q s (a, q))" and k: "is_enq k"
  shows "\<exists>s' X'. overwrite_one P c x p e OVERWRITE_ON_DUPLICATE_EXPIRES_AT k s = Inr (k\<lparr> t_ExpiresAt := e \<rparr>, s') \<and> W s' \<and>
    Q s' = (Q s)((a, q) := X') \<and> rewriting a q M t (k\<lparr> t_ExpiresAt := e \<rparr>) X' \<and> same_rest (Q s (a, q)) X' \<and>
    qv_counters X' = qv_counters (Q s (a, q))"
proof -
  let ?X = "Q s (a, q)" and ?k = "k\<lparr> t_ExpiresAt := e \<rparr>"
  have c: "coh a q (M(t \<mapsto> k)) ?X" using r by (simp add: rewriting_def)
  have wf: "row_wf a q t k" by (rule cohD(9)[OF c]) simp
  have id: "t_Id k = mkTaskId a q t" using wf by (simp add: row_wf_def)
  let ?X' = "?X\<lparr> qv_expiration := insert (tw e, t) (qv_expiration ?X - {(tw (t_ExpiresAt k), t)}) \<rparr>"
  have "coh a q ((M(t \<mapsto> k))(t \<mapsto> ?k)) ?X'"
  proof (rule coh_upd[OF c])
    show "row_wf a q t ?k" using wf by (simp add: row_wf_def attempts_ok_def retries_of_def state_defs)
    show "threads_ok a q ((M(t \<mapsto> k))(t \<mapsto> ?k)) ?X'"
      using k by (intro threads_ok_rewrite[OF cohD(7)[OF c]]) (auto simp: state_defs same_head_def)
  qed (use k in \<open>auto simp: state_defs\<close>)
  moreover have "\<exists>s'. overwrite_one P c x p e OVERWRITE_ON_DUPLICATE_EXPIRES_AT k s = Inr (?k, s') \<and> W s' \<and> Q s' = (Q s)((a, q) := ?X')"
    using W id by (simp add: overwrite_one_def go_run tables_run tables_wf)
  moreover have "\<exists>y. qv_tasks ?X' = M(t \<mapsto> y)" using r by (simp add: rewriting_def)
  ultimately show ?thesis by (auto simp: rewriting_def same_rest_def)
qed

lemma move_safe_stays_first:
  assumes ok: "threads_ok a q M X" and k: "M t = Some k" "is_enq k" "t_ThreadId k \<noteq> []"
    and safe: "move_safe M t k x" "x \<noteq> t_ScheduledAt k" and hd: "head_of (qv_threads X) (t_ThreadId k) = Some t"
    and m: "member (M(t \<mapsto> k\<lparr> t_ScheduledAt := x \<rparr>)) (t_ThreadId k) t' k'"
  shows "sched_key (k\<lparr> t_ScheduledAt := x \<rparr>) t \<le> sched_key k' t'"
proof (cases "t' = t")
  case True
  then show ?thesis using m by (auto simp: member_def)
next
  case False
  have mk: "member M (t_ThreadId k) t k" using k by (simp add: member_def)
  obtain thr where thr: "qv_threads X (t_ThreadId k) = Some thr" "head_ok a q M (t_ThreadId k) thr"
    using threads_ok_head[OF ok k(3) mk] by blast
  then obtain h kh where h: "th_HeadTaskId thr = mkTaskId a q h" "member M (t_ThreadId k) h kh"
    "\<forall>u m. member M (t_ThreadId k) u m \<and> is_inprog m \<longrightarrow> u = h"
    "is_enq kh \<longrightarrow> (\<forall>u m. member M (t_ThreadId k) u m \<longrightarrow> sched_key kh h \<le> sched_key m u)"
    unfolding head_ok_def by blast
  have ht: "h = t" using hd thr(1) h(1) by (simp add: head_of_def)
  then have "kh = k" using h(2) mk by (simp add: member_def)
  then have min: "\<forall>u m. member M (t_ThreadId k) u m \<longrightarrow> sched_key k t \<le> sched_key m u" using h(4) k(2) ht by simp
  have "\<not> (\<exists>u m. u \<noteq> t \<and> member M (t_ThreadId k) u m \<and> (is_inprog m \<or> sched_key m u < sched_key k t))"
    using min h(3) ht by (meson linorder_not_le)
  then have "\<forall>u m. u \<noteq> t \<and> member M (t_ThreadId k) u m \<longrightarrow> (tw x, t) \<le> sched_key m u"
    using safe k(3) unfolding move_safe_def by blast
  moreover have "member M (t_ThreadId k) t' k'" using m False by (simp add: member_def)
  ultimately show ?thesis using False by (auto simp: sched_key_def)
qed

lemma move_threads_ok:
  assumes W: "W s" and r: "rewriting a q M t k (Q s (a, q))" and k: "is_enq k" and safe: "move_safe (M(t \<mapsto> k)) t k x"
  shows "\<exists>s' X'. overwrite_one P c x p e OVERWRITE_ON_DUPLICATE_SCHEDULED_AT k s = Inr (k\<lparr> t_ScheduledAt := x \<rparr>, s') \<and> W s' \<and>
    Q s' = (Q s)((a, q) := X') \<and> threads_ok a q (M(t \<mapsto> k\<lparr> t_ScheduledAt := x \<rparr>)) X' \<and>
    (\<exists>y. only_threads ((Q s (a, q))\<lparr> qv_tasks := M(t \<mapsto> y) \<rparr>) X')"
proof -
  let ?X = "Q s (a, q)" and ?k = "k\<lparr> t_ScheduledAt := x \<rparr>"
  have c: "coh a q (M(t \<mapsto> k)) ?X" using r by (simp add: rewriting_def)
  obtain y where y: "qv_tasks ?X = M(t \<mapsto> y)" using r by (auto simp: rewriting_def)
  have wf: "row_wf a q t k" by (rule cohD(9)[OF c]) simp
  have id: "t_Id k = mkTaskId a q t" "length (t_ThreadId k) < 2 ^ 32" using wf by (simp_all add: row_wf_def)
  have enq: "is_enq ?k" "is_live ?k" "is_live k" using k by (simp_all add: state_defs)
  note th = cohD(7)[OF c]
  show ?thesis
  proof (cases "t_ThreadId k = []")
    case True
    let ?X' = "?X\<lparr> qv_queue := insert (tw x, t) (qv_queue ?X - {(tw (t_ScheduledAt k), t)}) \<rparr>"
    have "threads_ok a q ((M(t \<mapsto> k))(t := None)) (?X\<lparr> qv_queue := qv_queue ?X - {sched_key k t} \<rparr>)"
      using True by (intro threads_ok_plain_del[OF th]) auto
    from threads_ok_plain_add[OF this, of t ?k ?X']
    have "threads_ok a q (((M(t \<mapsto> k))(t := None))(t \<mapsto> ?k)) ?X'"
      using True enq by (simp add: sched_key_def)
    moreover have "\<exists>s'. overwrite_one P c x p e OVERWRITE_ON_DUPLICATE_SCHEDULED_AT k s = Inr (?k, s') \<and> W s' \<and> Q s' = (Q s)((a, q) := ?X')"
      using W id True by (simp add: overwrite_one_def Let_def keys_run go_run tables_run tables_wf)
    ultimately show ?thesis using y by (auto simp: only_threads_def same_rest_def intro!: exI[of _ y])
  next
    case False
    define s1 where "s1 = go_out (tasksTable_set P (tc_tasks c) ?k) s"
    let ?X1 = "?X\<lparr> qv_tasks := M(t \<mapsto> ?k) \<rparr>"
    have s1: "tasksTable_set P (tc_tasks c) ?k s = Inr ((), s1)" "W s1" "Q s1 = (Q s)((a, q) := ?X1)"
      using W id y by (simp_all add: s1_def tables_run tables_wf)
    have th1: "threads_ok a q (M(t \<mapsto> k)) (Q s1 (a, q))"
      using th s1(3) threads_ok_fields[of ?X1 ?X] by simp
    have m: "member (M(t \<mapsto> k)) (t_ThreadId ?k) t k" using enq by (simp add: member_def)
    have "stored a q (M(t \<mapsto> k)) (M(t \<mapsto> k))" by (rule stored_coh[OF c]) simp
    then have st: "stored a q ((M(t \<mapsto> k))(t \<mapsto> ?k)) (qv_tasks (Q s1 (a, q)))"
      using stored_upd[of a q "M(t \<mapsto> k)" "M(t \<mapsto> k)" ?k t] id s1(3) by simp
    have inp: "\<not> is_inprog k" using k by (simp add: state_defs)
    have first: "sched_key ?k t \<le> sched_key k' t'"
      if "head_of (qv_threads (Q s1 (a, q))) (t_ThreadId ?k) = Some t" "t_ScheduledAt ?k \<noteq> t_ScheduledAt k"
        "member ((M(t \<mapsto> k))(t \<mapsto> ?k)) (t_ThreadId ?k) t' k'" for t' k'
      using move_safe_stays_first[OF th1 _ k False safe, of t' k'] that by simp
    let ?X2 = "reschedule_view ?k (t_ScheduledAt k) ?X1"
    have r2: "runs (rescheduleTaskInThread P c ?k (t_ScheduledAt k)) s1 ((Q s)((a, q) := ?X2))"
      and t2: "threads_ok a q (M(t \<mapsto> ?k)) ?X2"
      using rescheduleTaskInThread_ok[OF s1(2) th1 m enq(1) _ _ _ _ first st] False id inp s1(3) by auto
    then obtain s2 where s2: "rescheduleTaskInThread P c ?k (t_ScheduledAt k) s1 = Inr ((), s2)" "W s2" "Q s2 = (Q s)((a, q) := ?X2)"
      by (auto elim: runsE)
    have "overwrite_one P c x p e OVERWRITE_ON_DUPLICATE_SCHEDULED_AT k s = Inr (?k, s2)"
      using False s1(1) s2(1) by (simp add: overwrite_one_def Let_def go_run)
    then show ?thesis using s2 t2 by (auto simp: only_threads_def same_rest_def)
  qed
qed

lemma overwrite_scheduled_ok:
  assumes W: "W s" and r: "rewriting a q M t k (Q s (a, q))" and k: "is_enq k" and safe: "move_safe (M(t \<mapsto> k)) t k x"
  shows "\<exists>s' X'. overwrite_one P c x p e OVERWRITE_ON_DUPLICATE_SCHEDULED_AT k s = Inr (k\<lparr> t_ScheduledAt := x \<rparr>, s') \<and> W s' \<and>
    Q s' = (Q s)((a, q) := X') \<and> rewriting a q M t (k\<lparr> t_ScheduledAt := x \<rparr>) X' \<and> same_rest (Q s (a, q)) X' \<and>
    qv_counters X' = qv_counters (Q s (a, q))"
proof -
  let ?X = "Q s (a, q)" and ?k = "k\<lparr> t_ScheduledAt := x \<rparr>"
  have c: "coh a q (M(t \<mapsto> k)) ?X" using r by (simp add: rewriting_def)
  have wf: "row_wf a q t k" by (rule cohD(9)[OF c]) simp
  obtain s' X' y where 1: "overwrite_one P c x p e OVERWRITE_ON_DUPLICATE_SCHEDULED_AT k s = Inr (?k, s')" "W s'"
    "Q s' = (Q s)((a, q) := X')" "threads_ok a q (M(t \<mapsto> ?k)) X'" "only_threads (?X\<lparr> qv_tasks := M(t \<mapsto> y) \<rparr>) X'"
    using move_threads_ok[OF assms, of p e] by blast
  have f: "qv_tasks X' = M(t \<mapsto> y)" "qv_expiration X' = qv_expiration ?X" "qv_dead X' = qv_dead ?X" "same_rest ?X X'"
    "qv_dedupe X' = qv_dedupe ?X" "qv_inProgress X' = qv_inProgress ?X" "qv_counters X' = qv_counters ?X"
    using 1(5) by (simp_all add: only_threads_def same_rest_def)
  have e: "(tw (t_ExpiresAt k), t) \<in> qv_expiration ?X"
    using cohD(5)[OF c] k unfolding idx_ok_def by (auto simp: state_defs)
  have "coh a q ((M(t \<mapsto> k))(t \<mapsto> ?k)) X'"
  proof (rule coh_upd[OF c])
    show "row_wf a q t ?k" using wf by (simp add: row_wf_def attempts_ok_def retries_of_def state_defs)
    show "threads_ok a q ((M(t \<mapsto> k))(t \<mapsto> ?k)) X'" using 1(4) by simp
  qed (use k e f in \<open>auto simp: state_defs\<close>)
  then show ?thesis using 1 f by (auto simp: rewriting_def)
qed

lemma overwrite_one_ok:
  assumes W: "W s" and r: "rewriting a q M t k (Q s (a, q))" and k: "is_enq k"
    and safe: "o' = OVERWRITE_ON_DUPLICATE_SCHEDULED_AT \<Longrightarrow> move_safe (M(t \<mapsto> k)) t k x"
  shows "\<exists>s' X'. overwrite_one P c x p e o' k s = Inr (overwrite_row x p e o' k, s') \<and> W s' \<and>
    Q s' = (Q s)((a, q) := X') \<and> rewriting a q M t (overwrite_row x p e o' k) X' \<and> same_rest (Q s (a, q)) X' \<and>
    qv_counters X' = qv_counters (Q s (a, q))"
proof (cases o')
  case OVERWRITE_ON_DUPLICATE_SCHEDULED_AT
  then show ?thesis using overwrite_scheduled_ok[OF W r k safe, of p e] by (simp add: overwrite_row_def)
next
  case OVERWRITE_ON_DUPLICATE_EXPIRES_AT
  then show ?thesis using overwrite_expires_ok[OF W r k, of x p e] by (simp add: overwrite_row_def)
next
  case OVERWRITE_ON_DUPLICATE_PAYLOAD
  have "coh a q ((M(t \<mapsto> k))(t \<mapsto> k\<lparr> t_Payload := p \<rparr>)) (Q s (a, q))"
    using r k by (intro coh_payload) (simp_all add: rewriting_def)
  then show ?thesis
    using OVERWRITE_ON_DUPLICATE_PAYLOAD W r
    by (auto simp: overwrite_row_def overwrite_one_def rewriting_def same_rest_def intro!: exI[of _ "Q s (a, q)"])
next
  case OVERWRITE_ON_DUPLICATE_INVALID
  then show ?thesis
    using W r by (auto simp: overwrite_row_def overwrite_one_def same_rest_def intro!: exI[of _ "Q s (a, q)"])
next
  case (OverwriteOnDuplicate_other n)
  then show ?thesis
    using W r by (auto simp: overwrite_row_def overwrite_one_def same_rest_def intro!: exI[of _ "Q s (a, q)"])
qed

lemma overwrite_loop_ok:
  assumes "W s" "rewriting a q M t k (Q s (a, q))" "is_enq k"
    and "OVERWRITE_ON_DUPLICATE_SCHEDULED_AT \<in> set os \<Longrightarrow> move_safe (M(t \<mapsto> k)) t k x"
  shows "\<exists>s' X'. go_for (overwrite_one P c x p e) os k s = Inr (fold (overwrite_row x p e) os k, s') \<and> W s' \<and>
    Q s' = (Q s)((a, q) := X') \<and> rewriting a q M t (fold (overwrite_row x p e) os k) X' \<and> same_rest (Q s (a, q)) X' \<and>
    qv_counters X' = qv_counters (Q s (a, q))"
  using assms
proof (induction os arbitrary: s k)
  case Nil
  then show ?case by (auto simp: same_rest_def intro!: exI[of _ "Q s (a, q)"])
next
  case (Cons o' os)
  let ?k = "overwrite_row x p e o' k"
  obtain s1 X1 where 1: "overwrite_one P c x p e o' k s = Inr (?k, s1)" "W s1" "Q s1 = (Q s)((a, q) := X1)"
    "rewriting a q M t ?k X1" "same_rest (Q s (a, q)) X1" "qv_counters X1 = qv_counters (Q s (a, q))"
    using overwrite_one_ok[OF Cons.prems(1-3), of o' x p e] Cons.prems(4) by auto
  have IH: "\<exists>s' X'. go_for (overwrite_one P c x p e) os ?k s1 = Inr (fold (overwrite_row x p e) os ?k, s') \<and> W s' \<and>
    Q s' = (Q s1)((a, q) := X') \<and> rewriting a q M t (fold (overwrite_row x p e) os ?k) X' \<and> same_rest (Q s1 (a, q)) X' \<and>
    qv_counters X' = qv_counters (Q s1 (a, q))"
  proof (rule Cons.IH)
    assume "OVERWRITE_ON_DUPLICATE_SCHEDULED_AT \<in> set os"
    then show "move_safe (M(t \<mapsto> ?k)) t ?k x" by (intro move_safe_overwrite Cons.prems(4)) simp
  qed (use Cons.prems(3) 1 in simp_all)
  then obtain s2 X2 where 2: "go_for (overwrite_one P c x p e) os ?k s1 = Inr (fold (overwrite_row x p e) os ?k, s2)" "W s2"
    "Q s2 = (Q s1)((a, q) := X2)" "rewriting a q M t (fold (overwrite_row x p e) os ?k) X2" "same_rest (Q s1 (a, q)) X2"
    "qv_counters X2 = qv_counters (Q s1 (a, q))"
    by blast
  then have "go_for (overwrite_one P c x p e) (o' # os) k s = Inr (fold (overwrite_row x p e) (o' # os) k, s2)"
    using 1(1) by (simp add: go_run)
  moreover have "Q s2 = (Q s)((a, q) := X2)" "same_rest (Q s (a, q)) X2" "qv_counters X2 = qv_counters (Q s (a, q))"
    using 1(3,5,6) 2(3,5,6) by (simp_all add: same_rest_def)
  moreover have "rewriting a q M t (fold (overwrite_row x p e) (o' # os) k) X2" using 2(4) by simp
  ultimately show ?case using 2(2) by blast
qed

lemma overwriteDuplicate_ok:
  assumes W: "W s" and c: "coh a q M (Q s (a, q))" and M: "qv_tasks (Q s (a, q)) = M" "M t = Some k" "is_live k"
    and safe: "is_enq k \<Longrightarrow> OVERWRITE_ON_DUPLICATE_SCHEDULED_AT \<in> set os \<Longrightarrow> move_safe M t k x"
  shows "steps (overwriteDuplicate P c (mkTaskId a q t) os x p e) s
    (if os = [] then None else Some (overwritten x p e os k)) a q (M(t \<mapsto> overwritten x p e os k)) (\<lambda>X'. True)"
proof (cases "os = [] \<or> \<not> is_enq k")
  case True
  then have "overwritten x p e os k = k" "M(t \<mapsto> k) = M" using M(2) by (auto simp: overwritten_def fun_upd_idem)
  moreover have "overwriteDuplicate P c (mkTaskId a q t) os x p e s = Inr (if os = [] then None else Some k, s)"
    using True M by (auto simp: overwriteDuplicate_def go_run tables_run is_enq_def)
  ultimately show ?thesis
    using W c M by (intro stepsI[where s' = s and X' = "Q s (a, q)"]) (simp_all add: same_rest_def)
next
  case False
  let ?X = "Q s (a, q)" and ?k = "overwritten x p e os k"
  have idem: "M(t \<mapsto> k) = M" using M(2) by (simp add: fun_upd_idem)
  then have r: "rewriting a q M t k ?X" using c M(1) unfolding rewriting_def by metis
  obtain s1 X1 where 1: "go_for (overwrite_one P c x p e) os k s = Inr (?k, s1)" "W s1" "Q s1 = (Q s)((a, q) := X1)"
    "rewriting a q M t ?k X1" "same_rest ?X X1"
    using overwrite_loop_ok[OF W r, of os x p e] False safe idem by (auto simp: overwritten_def)
  have c1: "coh a q (M(t \<mapsto> ?k)) X1" using 1(4) by (simp add: rewriting_def)
  have id: "t_Id ?k = mkTaskId a q t" using cohD(9)[OF c1, of t ?k] by (simp add: row_wf_def)
  define s2 where "s2 = go_out (tasksTable_set P (tc_tasks c) ?k) s1"
  have "qv_tasks X1 = M(t \<mapsto> y) \<Longrightarrow> (qv_tasks X1)(t \<mapsto> ?k) = M(t \<mapsto> ?k)" for y by simp
  then have rows: "(qv_tasks X1)(t \<mapsto> ?k) = M(t \<mapsto> ?k)" using 1(4) unfolding rewriting_def by blast
  let ?X2 = "X1\<lparr> qv_tasks := M(t \<mapsto> ?k) \<rparr>"
  have s2: "W s2" "Q s2 = (Q s)((a, q) := ?X2)"
    using 1 id rows by (simp_all add: s2_def tables_run tables_wf)
  have "overwriteDuplicate P c (mkTaskId a q t) os x p e s = Inr (Some ?k, s2)"
    using False M 1(1) by (simp add: overwriteDuplicate_def go_run tables_run is_enq_def s2_def)
  moreover have "coh a q (M(t \<mapsto> ?k)) ?X2"
    using c1 threads_ok_fields[of ?X2 X1] by (simp add: coh_def)
  ultimately show ?thesis
    using s2 1(5) False by (intro stepsI[where s' = s2 and X' = ?X2]) (simp_all add: same_rest_def)
qed

section \<open>One entry\<close>

lemma getTaskIdByDedupeKey_run:
  "getTaskIdByDedupeKey P c a q key s = Inr (map_option (mkTaskId a q) (qv_dedupe (Q s (a, q)) key), s)"
  by (simp add: getTaskIdByDedupeKey_def keys_run go_run tables_run split: option.split)

lemma enqueue_entry_ok:
  assumes W: "W s" and c: "coh a q M (Q s (a, q))" and M: "qv_tasks (Q s (a, q)) = M"
    and n: "ids_below n M" "n + 1 \<noteq> 0" "qs_TaskIdSequence st = n" and e: "entry_ok e" "entry_safe now e M"
  shows "\<exists>n' M' out. enqueue_step now a q e n M n' M' out \<and> ids_below n' M' \<and> (n' = n \<or> n' = n + 1) \<and>
    steps (enqueue_entry P c now a q e (st, ts)) s (st\<lparr> qs_TaskIdSequence := n' \<rparr>, ts @ out) a q M' (\<lambda>X'. True)"
proof (cases "\<exists>t k. ent_DedupeKey e \<noteq> [] \<and> M t = Some k \<and> is_live k \<and> t_DedupeKey k = ent_DedupeKey e")
  case True
  then obtain t k where k: "ent_DedupeKey e \<noteq> []" "M t = Some k" "is_live k" "t_DedupeKey k = ent_DedupeKey e" by blast
  let ?k = "overwritten (entry_time now e) (ent_Payload e) (ent_ExpiresAt e) (ent_OverwriteOnDuplicate e) k"
  have look: "qv_dedupe (Q s (a, q)) (ent_DedupeKey e) = Some t"
    using dedupe_ok_lookup[OF cohD(6)[OF c] k(2,3)] k(1,4) by simp
  have "steps (overwriteDuplicate P c (mkTaskId a q t) (ent_OverwriteOnDuplicate e) (entry_time now e) (ent_Payload e) (ent_ExpiresAt e)) s
      (if ent_OverwriteOnDuplicate e = [] then None else Some ?k) a q (M(t \<mapsto> ?k)) (\<lambda>X'. True)"
    using e(2) k(4) unfolding entry_safe_def by (intro overwriteDuplicate_ok[OF W c M k(2,3)]) (use k(2) in blast)
  then obtain s1 X1 where 1: "overwriteDuplicate P c (mkTaskId a q t) (ent_OverwriteOnDuplicate e) (entry_time now e) (ent_Payload e) (ent_ExpiresAt e) s =
      Inr (if ent_OverwriteOnDuplicate e = [] then None else Some ?k, s1)" "W s1" "Q s1 = (Q s)((a, q) := X1)"
    "coh a q (M(t \<mapsto> ?k)) X1" "qv_tasks X1 = M(t \<mapsto> ?k)" "same_rest (Q s (a, q)) X1"
    by (rule stepsE)
  have "enqueue_entry P c now a q e (st, ts) s =
      Inr ((st\<lparr> qs_TaskIdSequence := n \<rparr>, ts @ (if ent_OverwriteOnDuplicate e = [] then [] else [?k])), s1)"
    using k(1) look 1(1) n(3) unfolding entry_time_def
    by (auto simp: enqueue_entry_def Let_def getTaskIdByDedupeKey_run go_run)
  then have "steps (enqueue_entry P c now a q e (st, ts)) s
      (st\<lparr> qs_TaskIdSequence := n \<rparr>, ts @ (if ent_OverwriteOnDuplicate e = [] then [] else [?k])) a q (M(t \<mapsto> ?k)) (\<lambda>X'. True)"
    using 1 by (intro stepsI[where s' = s1 and X' = X1]) simp_all
  moreover have "ids_below n (M(t \<mapsto> ?k))" using n(1) k(2) by (auto simp: ids_below_def)
  moreover have "enqueue_step now a q e n M n (M(t \<mapsto> ?k)) (if ent_OverwriteOnDuplicate e = [] then [] else [?k])"
    using k by (intro enqueue_step.duplicate) simp_all
  ultimately show ?thesis by blast
next
  case False
  let ?t = "n + 1" and ?k = "new_task now a q (n + 1) e"
  have fresh: "M ?t = None"
  proof (rule ccontr)
    assume "M ?t \<noteq> None"
    then have "?t \<le> n" using n(1) by (auto simp: ids_below_def dom_def)
    then show False using uint64_less_succ[OF n(2)] by simp
  qed
  have free: "t_DedupeKey ?k \<noteq> [] \<Longrightarrow> qv_dedupe (Q s (a, q)) (t_DedupeKey ?k) = None"
    using False cohD(6)[OF c] unfolding dedupe_ok_def
    by (cases "qv_dedupe (Q s (a, q)) (t_DedupeKey ?k)") (auto simp: new_task_def)
  have key: "t_DedupeKey ?k = ent_DedupeKey e" by (simp add: new_task_def)
  have "steps (createTask P c ?k) s () a q (M(?t \<mapsto> ?k)) (\<lambda>X'. True)"
    using new_task_wf[OF e(1)] fresh M by (intro createTask_ok[OF W c _ _ _ _ free, where x = None]) (auto simp: fun_upd_idem)
  then obtain s1 X1 where 1: "createTask P c ?k s = Inr ((), s1)" "W s1" "Q s1 = (Q s)((a, q) := X1)"
    "coh a q (M(?t \<mapsto> ?k)) X1" "qv_tasks X1 = M(?t \<mapsto> ?k)" "same_rest (Q s (a, q)) X1"
    by (rule stepsE)
  have look: "(if ent_DedupeKey e \<noteq> [] then getTaskIdByDedupeKey P c a q (ent_DedupeKey e) else go_ret None) s = Inr (None, s)"
    using free key by (simp add: getTaskIdByDedupeKey_run go_run)
  have "enqueue_entry P c now a q e (st, ts) s = Inr ((st\<lparr> qs_TaskIdSequence := ?t \<rparr>, ts @ [?k]), s1)"
    using look 1(1) n(3) unfolding enqueue_entry_def Let_def prod.case go_bind_def[of "if _ then _ else _"]
    by (simp add: go_run new_task_def entry_time_def)
  then have "steps (enqueue_entry P c now a q e (st, ts)) s (st\<lparr> qs_TaskIdSequence := ?t \<rparr>, ts @ [?k]) a q (M(?t \<mapsto> ?k)) (\<lambda>X'. True)"
    using 1 by (intro stepsI[where s' = s1 and X' = X1]) simp_all
  moreover have "ids_below ?t (M(?t \<mapsto> ?k))"
  proof -
    have "n \<le> ?t" using uint64_less_succ[OF n(2)] by simp
    then show ?thesis using n(1) unfolding ids_below_def by (auto simp: dom_def)
  qed
  moreover have "enqueue_step now a q e n M ?t (M(?t \<mapsto> ?k)) [?k]" using False by (intro enqueue_step.fresh) blast
  ultimately show ?thesis by blast
qed

section \<open>All entries\<close>

lemma enqueue_entries_ok:
  assumes "W s" "coh a q M (Q s (a, q))" "qv_tasks (Q s (a, q)) = M"
    and "ids_below n M" "unat n + length es < 2 ^ 64" "qs_TaskIdSequence st = n"
    and "list_all entry_ok es" "entries_safe now a q es n M"
  shows "\<exists>n' M' out. enqueue_steps now a q es n M n' M' out \<and> ids_below n' M' \<and>
    steps (go_for (enqueue_entry P c now a q) es (st, ts)) s (st\<lparr> qs_TaskIdSequence := n' \<rparr>, ts @ out) a q M' (\<lambda>X'. True)"
  using assms
proof (induction es arbitrary: s M n st ts)
  case Nil
  have "steps (go_ret (st, ts)) s (st, ts) a q M (\<lambda>X'. True)" using Nil by (intro steps_ret) simp_all
  moreover have "(st\<lparr> qs_TaskIdSequence := n \<rparr>, ts @ []) = (st, ts)" using Nil by simp
  ultimately have "steps (go_for (enqueue_entry P c now a q) [] (st, ts)) s (st\<lparr> qs_TaskIdSequence := n \<rparr>, ts @ []) a q M (\<lambda>X'. True)"
    by (simp only: go_for.simps)
  then show ?case using Nil(4) enqueue_steps.none[of now a q n M] by blast
next
  case (Cons e es)
  have "unat n + 1 < 2 ^ 64" using Cons.prems(5) by simp
  then have n1: "n + 1 \<noteq> 0" "unat (n + 1) = unat n + 1"
  proof -
    have "unat (n + 1) = (unat n + 1) mod 2 ^ LENGTH(64)" by (simp add: unat_word_ariths)
    then show "unat (n + 1) = unat n + 1" using \<open>unat n + 1 < 2 ^ 64\<close> by simp
    then show "n + 1 \<noteq> 0" by (metis add_is_0 one_neq_zero unat_0)
  qed
  obtain n1 M1 out where 1: "enqueue_step now a q e n M n1 M1 out" "ids_below n1 M1" "n1 = n \<or> n1 = n + 1"
    "steps (enqueue_entry P c now a q e (st, ts)) s (st\<lparr> qs_TaskIdSequence := n1 \<rparr>, ts @ out) a q M1 (\<lambda>X'. True)"
    using enqueue_entry_ok[OF Cons.prems(1-4) n1(1) Cons.prems(6), of e now ts] Cons.prems(7,8) by auto
  obtain s1 X1 where s1: "enqueue_entry P c now a q e (st, ts) s = Inr ((st\<lparr> qs_TaskIdSequence := n1 \<rparr>, ts @ out), s1)"
    "W s1" "Q s1 = (Q s)((a, q) := X1)" "coh a q M1 X1" "qv_tasks X1 = M1" "same_rest (Q s (a, q)) X1"
    using 1(4) by (rule stepsE)
  have "unat n1 + length es < 2 ^ 64" using 1(3) n1(2) Cons.prems(5) by auto
  moreover have "entries_safe now a q es n1 M1" using Cons.prems(8) 1(1) by auto
  ultimately obtain n2 M2 out2 where 2: "enqueue_steps now a q es n1 M1 n2 M2 out2" "ids_below n2 M2"
    "steps (go_for (enqueue_entry P c now a q) es (st\<lparr> qs_TaskIdSequence := n1 \<rparr>, ts @ out)) s1
      (st\<lparr> qs_TaskIdSequence := n1 \<rparr>\<lparr> qs_TaskIdSequence := n2 \<rparr>, (ts @ out) @ out2) a q M2 (\<lambda>X'. True)"
    using Cons.IH[of s1 M1 n1 "st\<lparr> qs_TaskIdSequence := n1 \<rparr>" "ts @ out"] s1 1(2) Cons.prems(7) by auto
  have "steps (go_for (enqueue_entry P c now a q) (e # es) (st, ts)) s (st\<lparr> qs_TaskIdSequence := n2 \<rparr>, ts @ (out @ out2)) a q M2 (\<lambda>X'. True)"
  proof -
    obtain s2 X2 where s2: "go_for (enqueue_entry P c now a q) es (st\<lparr> qs_TaskIdSequence := n1 \<rparr>, ts @ out) s1 =
        Inr ((st\<lparr> qs_TaskIdSequence := n1 \<rparr>\<lparr> qs_TaskIdSequence := n2 \<rparr>, (ts @ out) @ out2), s2)" "W s2"
      "Q s2 = (Q s1)((a, q) := X2)" "coh a q M2 X2" "qv_tasks X2 = M2" "same_rest (Q s1 (a, q)) X2"
      using 2(3) by (rule stepsE)
    have "go_for (enqueue_entry P c now a q) (e # es) (st, ts) s = Inr ((st\<lparr> qs_TaskIdSequence := n2 \<rparr>, ts @ (out @ out2)), s2)"
      using s1(1) s2(1) by (simp add: go_run)
    then show ?thesis using s1 s2 by (intro stepsI[where s' = s2 and X' = X2]) (simp_all add: same_rest_def)
  qed
  then show ?case using enqueue_steps.more[OF 1(1) 2(1)] 2(2) by blast
qed

end

end
