(* ===== verification/Tasks_Dequeue.thy ===== *)
theory Tasks_Dequeue
  imports Tasks_Enqueue
begin

text \<open>
  Dequeuing: the scan over the queue index, dropping expired tasks, handing
  out the others, and the sweep over lapsed leases that precedes it.
\<close>

section \<open>What a scan collects\<close>

text \<open>\<open>scan_result now limit ds v ks v'\<close>: from \<open>v\<close> the scan visited the rows
  \<open>ks\<close>, kept the caps, and left \<open>v'\<close>.\<close>

definition capped :: "int \<Rightarrow> DequeuingSettings option \<Rightarrow> dequeue_vars \<Rightarrow> bool" where
  "capped limit ds v \<longleftrightarrow> int (length (dv_dequeuedTasks v)) \<ge> limit \<or> dv_visitedTasks v \<ge> maxVisitedTasksForDequeuing \<or>
    maxInProgress_saturated ds (dv_counters v)"

definition scan_result ::
  "int \<Rightarrow> int \<Rightarrow> DequeuingSettings option \<Rightarrow> dequeue_vars \<Rightarrow> Task list \<Rightarrow> dequeue_vars \<Rightarrow> bool" where
  "scan_result now limit ds v ks v' \<longleftrightarrow>
    dv_dequeuedTasks v' = dv_dequeuedTasks v @ filter (\<lambda>k. \<not> expired_at now k) ks \<and>
    dv_expiredTasks v' = dv_expiredTasks v @ filter (expired_at now) ks \<and>
    dv_visitedTasks v' = dv_visitedTasks v + int (length ks) \<and>
    (\<forall>x. cnt_EnqueuedTasksCount (dv_counters v) = i64 x \<longrightarrow> cnt_EnqueuedTasksCount (dv_counters v') = i64 (x - int (length ks))) \<and>
    (\<forall>y. cnt_InProgressTasksCount (dv_counters v) = i64 y \<longrightarrow>
      cnt_InProgressTasksCount (dv_counters v') = i64 (y + int (length (filter (\<lambda>k. \<not> expired_at now k) ks)))) \<and>
    cnt_DeadTasksCount (dv_counters v') = cnt_DeadTasksCount (dv_counters v) \<and>
    same_totals (dv_counters v) (dv_counters v') \<and>
    qs_TaskIdSequence (dv_state v') = qs_TaskIdSequence (dv_state v) \<and>
    (int (length (dv_dequeuedTasks v)) \<le> limit \<longrightarrow> int (length (dv_dequeuedTasks v')) \<le> limit) \<and>
    (dv_visitedTasks v \<le> maxVisitedTasksForDequeuing \<longrightarrow> dv_visitedTasks v' \<le> maxVisitedTasksForDequeuing) \<and>
    (capped limit ds v \<longrightarrow> ks = []) \<and>
    (\<forall>d y. ds = Some d \<and> 0 < ds_MaxInProgressTasks d \<and> ds_MaxInProgressTasks d < 2 ^ 63 \<and>
      cnt_InProgressTasksCount (dv_counters v) = i64 y \<longrightarrow>
      cnt_InProgressTasksCount (dv_counters v') \<le> max (cnt_InProgressTasksCount (dv_counters v)) (ds_MaxInProgressTasks d))"

lemma scan_result_nil: "scan_result now limit ds v [] (v\<lparr> dv_sawAnyCandidate := b \<rparr>)" "scan_result now limit ds v [] v"
  by (simp_all add: scan_result_def same_totals_def)

lemma below_max_step:
  assumes "\<not> maxInProgress_saturated (Some d) cn" "0 < ds_MaxInProgressTasks d" "ds_MaxInProgressTasks d < 2 ^ 63"
    "cnt_InProgressTasksCount cn = i64 y"
  shows "i64 (y + 1) \<le> ds_MaxInProgressTasks d"
proof -
  have "i64 y < ds_MaxInProgressTasks d" using assms by (simp add: maxInProgress_saturated_def)
  moreover have "i64 (i64 y + 1) = i64 y + 1" using calculation assms(3) i64_range[of y] by (intro i64_id) linarith+
  ultimately show ?thesis by simp
qed

lemma scan_result_cons:
  assumes "\<not> capped limit ds v"
    and "v1 = (if expired_at now k then v\<lparr> dv_expiredTasks := dv_expiredTasks v @ [k] \<rparr>
      else v\<lparr> dv_dequeuedTasks := dv_dequeuedTasks v @ [k], dv_counters := (dv_counters v)\<lparr> cnt_InProgressTasksCount :=
        i64 (cnt_InProgressTasksCount (dv_counters v) + 1) \<rparr> \<rparr>)"
    and "v2 = v1\<lparr> dv_sawAnyCandidate := True, dv_visitedTasks := dv_visitedTasks v + 1,
      dv_state := (dv_state v)\<lparr> qs_LastVisitedEnqueued := w \<rparr>, dv_counters := (dv_counters v1)\<lparr> cnt_EnqueuedTasksCount :=
        i64 (cnt_EnqueuedTasksCount (dv_counters v1) - 1) \<rparr> \<rparr>"
    and "scan_result now limit ds v2 ks v'"
  shows "scan_result now limit ds v (k # ks) v'"
proof -
  have cap: "cnt_InProgressTasksCount (dv_counters v') \<le> max (cnt_InProgressTasksCount (dv_counters v)) (ds_MaxInProgressTasks d)"
    if d: "ds = Some d" "0 < ds_MaxInProgressTasks d" "ds_MaxInProgressTasks d < 2 ^ 63" "cnt_InProgressTasksCount (dv_counters v) = i64 y" for d y
  proof -
    have sat: "\<not> maxInProgress_saturated (Some d) (dv_counters v)" using assms(1) d(1) by (simp add: capped_def)
    have "\<exists>z. cnt_InProgressTasksCount (dv_counters v2) = i64 z"
      using assms(2,3) d(4) by (cases "expired_at now k") auto
    then have "cnt_InProgressTasksCount (dv_counters v') \<le> max (cnt_InProgressTasksCount (dv_counters v2)) (ds_MaxInProgressTasks d)"
      using assms(4) d(1-3) unfolding scan_result_def by blast
    moreover have "cnt_InProgressTasksCount (dv_counters v2) \<le> max (cnt_InProgressTasksCount (dv_counters v)) (ds_MaxInProgressTasks d)"
      using assms(2,3) below_max_step[OF sat d(2-4)] d(4) by (cases "expired_at now k") auto
    ultimately show ?thesis by linarith
  qed
  show ?thesis
  proof (cases "expired_at now k")
    case True
    then show ?thesis using assms cap
      by (auto simp: scan_result_def capped_def same_totals_def diff_diff_eq add.commute)
  next
    case False
    then show ?thesis using assms cap
      by (auto simp: scan_result_def capped_def same_totals_def diff_diff_eq add.commute add.assoc)
  qed
qed

section \<open>Counters set aside\<close>

text \<open>The loops of \<open>dequeueTasksBeforeTime\<close> run after the counters have been
  written: the invariant holds with the gauges \<open>e\<close> and \<open>p\<close> the rows would
  have at that point.\<close>

definition coh_with :: "uint64 \<Rightarrow> uint64 \<Rightarrow> rows \<Rightarrow> qview \<Rightarrow> int \<Rightarrow> int \<Rightarrow> bool" where
  "coh_with a q M X e p \<longleftrightarrow> coh a q M (X\<lparr> qv_counters :=
     (qv_counters X)\<lparr> cnt_EnqueuedTasksCount := i64 e, cnt_InProgressTasksCount := i64 p \<rparr> \<rparr>)"

lemma coh_with_self:
  assumes "coh a q M X"
  shows "coh_with a q M X (cnt_EnqueuedTasksCount (qv_counters X)) (cnt_InProgressTasksCount (qv_counters X))"
proof -
  have "i64 (cnt_EnqueuedTasksCount (qv_counters X)) = cnt_EnqueuedTasksCount (qv_counters X)"
    "i64 (cnt_InProgressTasksCount (qv_counters X)) = cnt_InProgressTasksCount (qv_counters X)"
    using cohD(8)[OF assms] by (simp_all add: counters_ok_def)
  then show ?thesis using assms by (simp add: coh_with_def)
qed

lemma coh_with_counters:
  assumes "coh_with a q M X e p" "cnt_EnqueuedTasksCount cn = i64 e" "cnt_InProgressTasksCount cn = i64 p"
    "cnt_DeadTasksCount cn = cnt_DeadTasksCount (qv_counters X)"
  shows "coh a q M (X\<lparr> qv_counters := cn \<rparr>)"
  using assms threads_ok_fields[of "X\<lparr> qv_counters := cn \<rparr>" X a q M]
    threads_ok_fields[of "X\<lparr> qv_counters := (qv_counters X)\<lparr> cnt_EnqueuedTasksCount := i64 e, cnt_InProgressTasksCount := i64 p \<rparr> \<rparr>" X a q M]
  by (simp add: coh_with_def coh_def counters_ok_def)

text \<open>Rows of the queue index: stored under their ids, enqueued, in the index.\<close>

definition queued :: "qview \<Rightarrow> rows \<Rightarrow> Task \<Rightarrow> bool" where
  "queued X M k \<longleftrightarrow> M (task_tid k) = Some k \<and> is_enq k \<and> sched_key k (task_tid k) \<in> qv_queue X"

context tasks_store
begin

section \<open>Handing out\<close>

lemma handOut_ok:
  assumes W: "W s" and c: "coh_with a q M (Q s (a, q)) e p" and M: "qv_tasks (Q s (a, q)) = M" "M t = Some k" "is_enq k"
    and inq: "sched_key k t \<in> qv_queue (Q s (a, q))"
  shows "\<exists>s' X'. handOut P c a q now ka k out s = Inr (out @ [hand_row now ka k], s') \<and> W s' \<and> Q s' = (Q s)((a, q) := X') \<and>
    coh_with a q (M(t \<mapsto> hand_row now ka k)) X' (e - 1) (p + 1) \<and> qv_tasks X' = M(t \<mapsto> hand_row now ka k) \<and>
    qv_queue X' = qv_queue (Q s (a, q)) - {sched_key k t} \<and> qv_counters X' = qv_counters (Q s (a, q)) \<and> same_rest (Q s (a, q)) X'"
proof -
  let ?X = "Q s (a, q)" and ?k = "hand_row now ka k"
  let ?Xc = "?X\<lparr> qv_counters := (qv_counters ?X)\<lparr> cnt_EnqueuedTasksCount := i64 e, cnt_InProgressTasksCount := i64 p \<rparr> \<rparr>"
  have c': "coh a q M ?Xc" using c by (simp add: coh_with_def)
  have wf: "row_wf a q t k" using cohD(9)[OF c' M(2)] .
  have id: "t_Id k = mkTaskId a q t" using wf by (simp add: row_wf_def)
  have st: "\<not> is_dead k" "\<not> is_inprog k" "is_live k" using M(3) by (simp_all add: state_defs)
  let ?X' = "?X\<lparr> qv_queue := qv_queue ?X - {sched_key k t}, qv_expiration := qv_expiration ?X - {(tw (t_ExpiresAt k), t)},
    qv_tasks := M(t \<mapsto> ?k), qv_inProgress := insert (tw (t_VisibleAt ?k), t) (qv_inProgress ?X) \<rparr>"
  have "\<exists>s'. handOut P c a q now ka k out s = Inr (out @ [?k], s') \<and> W s' \<and> Q s' = (Q s)((a, q) := ?X')"
    using W M id
    by (simp add: handOut_def Let_def keys_run go_run tables_run tables_wf hand_row_def sched_key_def)
  moreover have "coh_with a q (M(t \<mapsto> ?k)) ?X' (e - 1) (p + 1)"
    unfolding coh_with_def
  proof (rule coh_upd[OF c' M(2) hand_row_wf(1)[OF wf M(3)]], goal_cases)
    case 7
    show ?case
      using inq M(3) st by (intro threads_ok_rewrite[OF cohD(7)[OF c'] M(2)]) (auto simp: same_head_def)
  qed (use st M(3) in simp_all)
  ultimately show ?thesis by (auto simp: same_rest_def)
qed

lemma dropExpired_ok:
  assumes W: "W s" and c: "coh_with a q M (Q s (a, q)) e p" and M: "qv_tasks (Q s (a, q)) = M" "M t = Some k" "is_enq k"
    and plain: "t_ThreadId k = []"
  shows "\<exists>s' X'. dropExpired P c a q k s = Inr ((), s') \<and> W s' \<and> Q s' = (Q s)((a, q) := X') \<and>
    coh_with a q (M(t := None)) X' (e - 1) p \<and> qv_tasks X' = M(t := None) \<and>
    qv_queue X' = qv_queue (Q s (a, q)) - {sched_key k t} \<and> qv_counters X' = qv_counters (Q s (a, q)) \<and> same_rest (Q s (a, q)) X'"
proof -
  let ?X = "Q s (a, q)"
  let ?Xc = "?X\<lparr> qv_counters := (qv_counters ?X)\<lparr> cnt_EnqueuedTasksCount := i64 e, cnt_InProgressTasksCount := i64 p \<rparr> \<rparr>"
  have c': "coh a q M ?Xc" using c by (simp add: coh_with_def)
  have id: "t_Id k = mkTaskId a q t" using cohD(9)[OF c' M(2)] by (simp add: row_wf_def)
  have st: "\<not> is_dead k" "\<not> is_inprog k" "is_live k" using M(3) by (simp_all add: state_defs)
  have ded: "t_DedupeKey k \<noteq> [] \<longrightarrow> qv_dedupe ?X (t_DedupeKey k) \<noteq> None"
    using dedupe_ok_lookup[OF cohD(6)[OF c'] M(2) st(3)] by simp
  let ?X' = "?X\<lparr> qv_queue := qv_queue ?X - {sched_key k t}, qv_expiration := qv_expiration ?X - {(tw (t_ExpiresAt k), t)},
    qv_tasks := M(t := None), qv_dedupe := (if t_DedupeKey k = [] then qv_dedupe ?X else (qv_dedupe ?X)(t_DedupeKey k := None)) \<rparr>"
  have "\<exists>s'. dropExpired P c a q k s = Inr ((), s') \<and> W s' \<and> Q s' = (Q s)((a, q) := ?X')"
    using W M id ded by (simp add: dropExpired_def keys_run go_run tables_run tables_wf sched_key_def)
  moreover have "coh_with a q (M(t := None)) ?X' (e - 1) p"
    unfolding coh_with_def
  proof (rule coh_del[OF c' M(2)], goal_cases)
    case 5
    show ?case using plain by (intro threads_ok_plain_del[OF cohD(7)[OF c'] M(2)]) auto
  next
    case 7
    have "i64 (cnt_InProgressTasksCount (qv_counters ?Xc)) = cnt_InProgressTasksCount (qv_counters ?Xc)" by simp
    then show ?case using st by simp
  qed (use st M(3) in simp_all)
  ultimately show ?thesis by (auto simp: same_rest_def)
qed

section \<open>The two loops\<close>

lemma drop_loop_ok:
  assumes "W s" "coh_with a q M (Q s (a, q)) e p" "qv_tasks (Q s (a, q)) = M"
    and "distinct (map task_tid (ks @ hs))" "\<forall>k \<in> set (ks @ hs). queued (Q s (a, q)) M k" "\<forall>k \<in> set ks. t_ThreadId k = []"
  shows "\<exists>s' X'. go_for (\<lambda>task _. dropExpired P c a q task) ks () s = Inr ((), s') \<and> W s' \<and> Q s' = (Q s)((a, q) := X') \<and>
    coh_with a q (drop_all ks M) X' (e - int (length ks)) p \<and> qv_tasks X' = drop_all ks M \<and>
    (\<forall>k \<in> set hs. queued X' (drop_all ks M) k) \<and> qv_counters X' = qv_counters (Q s (a, q)) \<and> same_rest (Q s (a, q)) X'"
  using assms
proof (induction ks arbitrary: s M e)
  case Nil
  then show ?case by (auto simp: drop_all_def same_rest_def intro!: exI[of _ "Q s (a, q)"])
next
  case (Cons k ks)
  let ?t = "task_tid k"
  have k: "M ?t = Some k" "is_enq k" "t_ThreadId k = []" using Cons.prems(5,6) by (auto simp: queued_def)
  obtain s1 X1 where 1: "dropExpired P c a q k s = Inr ((), s1)" "W s1" "Q s1 = (Q s)((a, q) := X1)"
    "coh_with a q (M(?t := None)) X1 (e - 1) p" "qv_tasks X1 = M(?t := None)"
    "qv_queue X1 = qv_queue (Q s (a, q)) - {sched_key k ?t}" "qv_counters X1 = qv_counters (Q s (a, q))" "same_rest (Q s (a, q)) X1"
    using dropExpired_ok[OF Cons.prems(1-3) k] by blast
  have q1: "\<forall>k' \<in> set (ks @ hs). queued (Q s1 (a, q)) (M(?t := None)) k'"
  proof
    fix k' assume k': "k' \<in> set (ks @ hs)"
    then have "task_tid k' \<noteq> ?t" using Cons.prems(4) by (auto simp: image_iff)
    then show "queued (Q s1 (a, q)) (M(?t := None)) k'"
      using Cons.prems(5) k' 1(3,6) by (auto simp: queued_def sched_key_def)
  qed
  obtain s2 X2 where 2: "go_for (\<lambda>task _. dropExpired P c a q task) ks () s1 = Inr ((), s2)" "W s2" "Q s2 = (Q s1)((a, q) := X2)"
    "coh_with a q (drop_all ks (M(?t := None))) X2 (e - 1 - int (length ks)) p" "qv_tasks X2 = drop_all ks (M(?t := None))"
    "\<forall>k \<in> set hs. queued X2 (drop_all ks (M(?t := None))) k" "qv_counters X2 = qv_counters (Q s1 (a, q))" "same_rest (Q s1 (a, q)) X2"
  proof -
    have "coh_with a q (M(?t := None)) (Q s1 (a, q)) (e - 1) p" "qv_tasks (Q s1 (a, q)) = M(?t := None)"
      "distinct (map task_tid (ks @ hs))" "\<forall>k \<in> set ks. t_ThreadId k = []"
      using 1(3-5) Cons.prems(4,6) by simp_all
    from Cons.IH[OF 1(2) this(1,2,3) q1 this(4)] that show thesis by blast
  qed
  have "go_for (\<lambda>task _. dropExpired P c a q task) (k # ks) () s = Inr ((), s2)" using 1(1) 2(1) by (simp add: go_run)
  moreover have "Q s2 = (Q s)((a, q) := X2)" "qv_counters X2 = qv_counters (Q s (a, q))" "same_rest (Q s (a, q)) X2"
    using 1 2 by (simp_all add: same_rest_def)
  moreover have "drop_all ks (M(?t := None)) = drop_all (k # ks) M" by (simp add: drop_all_def)
  moreover have "e - 1 - int (length ks) = e - int (length (k # ks))" by simp
  ultimately show ?case using 2(2,4-6) by metis
qed

lemma hand_loop_ok:
  assumes "W s" "coh_with a q M (Q s (a, q)) e p" "qv_tasks (Q s (a, q)) = M"
    and "distinct (map task_tid ks)" "\<forall>k \<in> set ks. queued (Q s (a, q)) M k"
  shows "\<exists>s' X'. go_for (handOut P c a q now ka) ks out s = Inr (out @ map (hand_row now ka) ks, s') \<and> W s' \<and> Q s' = (Q s)((a, q) := X') \<and>
    coh_with a q (hand_all now ka ks M) X' (e - int (length ks)) (p + int (length ks)) \<and> qv_tasks X' = hand_all now ka ks M \<and>
    qv_counters X' = qv_counters (Q s (a, q)) \<and> same_rest (Q s (a, q)) X'"
  using assms
proof (induction ks arbitrary: s M e p out)
  case Nil
  then show ?case by (auto simp: hand_all_def same_rest_def intro!: exI[of _ "Q s (a, q)"])
next
  case (Cons k ks)
  let ?t = "task_tid k" and ?k = "hand_row now ka k"
  have k: "M ?t = Some k" "is_enq k" "sched_key k ?t \<in> qv_queue (Q s (a, q))" using Cons.prems(5) by (auto simp: queued_def)
  obtain s1 X1 where 1: "handOut P c a q now ka k out s = Inr (out @ [?k], s1)" "W s1" "Q s1 = (Q s)((a, q) := X1)"
    "coh_with a q (M(?t \<mapsto> ?k)) X1 (e - 1) (p + 1)" "qv_tasks X1 = M(?t \<mapsto> ?k)"
    "qv_queue X1 = qv_queue (Q s (a, q)) - {sched_key k ?t}" "qv_counters X1 = qv_counters (Q s (a, q))" "same_rest (Q s (a, q)) X1"
    using handOut_ok[OF Cons.prems(1-3) k] by blast
  have q1: "\<forall>k' \<in> set ks. queued (Q s1 (a, q)) (M(?t \<mapsto> ?k)) k'"
  proof
    fix k' assume k': "k' \<in> set ks"
    then have "task_tid k' \<noteq> ?t" using Cons.prems(4) by (auto simp: image_iff)
    then show "queued (Q s1 (a, q)) (M(?t \<mapsto> ?k)) k'"
      using Cons.prems(5) k' 1(3,6) by (auto simp: queued_def sched_key_def)
  qed
  obtain s2 X2 where 2: "go_for (handOut P c a q now ka) ks (out @ [?k]) s1 = Inr ((out @ [?k]) @ map (hand_row now ka) ks, s2)" "W s2"
    "Q s2 = (Q s1)((a, q) := X2)"
    "coh_with a q (hand_all now ka ks (M(?t \<mapsto> ?k))) X2 (e - 1 - int (length ks)) (p + 1 + int (length ks))"
    "qv_tasks X2 = hand_all now ka ks (M(?t \<mapsto> ?k))" "qv_counters X2 = qv_counters (Q s1 (a, q))" "same_rest (Q s1 (a, q)) X2"
  proof -
    have "coh_with a q (M(?t \<mapsto> ?k)) (Q s1 (a, q)) (e - 1) (p + 1)" "qv_tasks (Q s1 (a, q)) = M(?t \<mapsto> ?k)" "distinct (map task_tid ks)"
      using 1(3-5) Cons.prems(4) by simp_all
    from Cons.IH[OF 1(2) this q1, of "out @ [?k]"] that show thesis by blast
  qed
  have "go_for (handOut P c a q now ka) (k # ks) out s = Inr (out @ map (hand_row now ka) (k # ks), s2)"
    using 1(1) 2(1) by (simp add: go_run)
  moreover have "Q s2 = (Q s)((a, q) := X2)" "qv_counters X2 = qv_counters (Q s (a, q))" "same_rest (Q s (a, q)) X2"
    using 1 2 by (simp_all add: same_rest_def)
  moreover have "hand_all now ka ks (M(?t \<mapsto> ?k)) = hand_all now ka (k # ks) M" by (simp add: hand_all_def)
  moreover have "e - 1 - int (length ks) = e - int (length (k # ks))" "p + 1 + int (length ks) = p + int (length (k # ks))" by simp_all
  ultimately show ?case using 2(2,4,5) by metis
qed

section \<open>The scan\<close>

lemma dequeue_scan_ok:
  assumes "\<And>x. x \<in> set L \<Longrightarrow> qv_tasks (Q s (a, q)) (snd x) = Some (row x)"
  shows "\<exists>n v'. n \<le> length L \<and>
    go_scan (dequeue_callback P c a q now limit ds) (map (\<lambda>(w, t). ikey w t) L) v s = Inr (v', s) \<and>
    scan_result now limit ds v (map row (take n L)) v' \<and> (n < length L \<longrightarrow> capped limit ds v') \<and>
    dv_sawAnyCandidate v' = (dv_sawAnyCandidate v \<or> L \<noteq> [])"
  using assms
proof (induction L arbitrary: v)
  case Nil
  then show ?case using scan_result_nil(2) by simp
next
  case (Cons x L)
  obtain w t where x: "x = (w, t)" by (cases x)
  have row: "qv_tasks (Q s (a, q)) t = Some (row (w, t))" using Cons.prems[of x] x by simp
  let ?f = "dequeue_callback P c a q now limit ds"
  show ?case
  proof (cases "capped limit ds v")
    case True
    let ?v = "v\<lparr> dv_sawAnyCandidate := True \<rparr>"
    have "?f (ikey w t) v s = Inr ((False, ?v), s)"
      using True by (auto simp: dequeue_callback_def capped_def Let_def)
    then have "go_scan ?f (map (\<lambda>(w, t). ikey w t) (x # L)) v s = Inr (?v, s)" using x by (simp add: go_run)
    moreover have "capped limit ds ?v" using True by (simp add: capped_def)
    ultimately show ?thesis using scan_result_nil(1)[of now limit ds v True]
      by (intro exI[of _ 0] exI[of _ ?v]) simp
  next
    case False
    define v1 where "v1 = (if expired_at now (row x) then v\<lparr> dv_expiredTasks := dv_expiredTasks v @ [row x] \<rparr>
      else v\<lparr> dv_dequeuedTasks := dv_dequeuedTasks v @ [row x], dv_counters := (dv_counters v)\<lparr> cnt_InProgressTasksCount :=
        i64 (cnt_InProgressTasksCount (dv_counters v) + 1) \<rparr> \<rparr>)"
    define v2 where "v2 = v1\<lparr> dv_sawAnyCandidate := True, dv_visitedTasks := dv_visitedTasks v + 1,
      dv_state := (dv_state v)\<lparr> qs_LastVisitedEnqueued := sint w \<rparr>, dv_counters := (dv_counters v1)\<lparr> cnt_EnqueuedTasksCount :=
        i64 (cnt_EnqueuedTasksCount (dv_counters v1) - 1) \<rparr> \<rparr>"
    have "?f (ikey w t) v s = Inr ((True, v2), s)"
      using False row by (auto simp: dequeue_callback_def capped_def Let_def go_run tables_run v1_def v2_def expired_at_def x)
    moreover obtain n v' where n: "n \<le> length L" "go_scan ?f (map (\<lambda>(w, t). ikey w t) L) v2 s = Inr (v', s)"
      "scan_result now limit ds v2 (map row (take n L)) v'" "n < length L \<longrightarrow> capped limit ds v'" "dv_sawAnyCandidate v'"
      using Cons.IH[of v2] Cons.prems by (auto simp: v2_def)
    ultimately have "go_scan ?f (map (\<lambda>(w, t). ikey w t) (x # L)) v s = Inr (v', s)" using x by (simp add: go_run)
    moreover have "scan_result now limit ds v (map row (take (Suc n) (x # L))) v'"
      using scan_result_cons[OF False v1_def v2_def n(3)] by simp
    ultimately show ?thesis using n by (intro exI[of _ "Suc n"] exI[of _ v']) simp
  qed
qed

lemma queue_entry_row:
  assumes "coh a q M X" "x \<in> qv_queue X"
  shows "M (snd x) \<noteq> None" "is_enq (the (M (snd x)))" "x = sched_key (the (M (snd x))) (snd x)"
    "task_tid (the (M (snd x))) = snd x"
proof -
  have "in_queue M (qv_threads X) x" using cohD(7)[OF assms(1)] assms(2) unfolding threads_ok_def by blast
  then obtain k where k: "M (snd x) = Some k" "is_enq k" "x = sched_key k (snd x)" unfolding in_queue_def by blast
  moreover have "t_Id k = mkTaskId a q (snd x)" using cohD(9)[OF assms(1) k(1)] by (simp add: row_wf_def)
  ultimately show "M (snd x) \<noteq> None" "is_enq (the (M (snd x)))" "x = sched_key (the (M (snd x))) (snd x)"
    "task_tid (the (M (snd x))) = snd x" by simp_all
qed

lemma due_rows_queued:
  assumes W: "W s" and c: "coh a q M (Q s (a, q))" and M: "qv_tasks (Q s (a, q)) = M"
  shows "\<forall>k \<in> set (due_rows (Q s (a, q)) now). queued (Q s (a, q)) M k"
    and "distinct (map task_tid (due_rows (Q s (a, q)) now))"
proof -
  let ?X = "Q s (a, q)" and ?L = "due_entries (Q s (a, q)) now"
  have L: "set ?L \<subseteq> qv_queue ?X" "distinct ?L"
    using index_finite(1)[OF W, of a q] by (auto simp: due_entries_def)
  have e: "x \<in> set ?L \<Longrightarrow> queued ?X M (the (M (snd x))) \<and> task_tid (the (M (snd x))) = snd x" for x
    using queue_entry_row[OF c, of x] L(1) unfolding queued_def by auto
  then show "\<forall>k \<in> set (due_rows ?X now). queued ?X M k" using M by (auto simp: due_rows_def)
  have "map task_tid (due_rows ?X now) = map snd ?L" using e M by (auto simp: due_rows_def)
  moreover have "inj_on snd (set ?L)"
  proof (rule inj_onI)
    fix x y assume "x \<in> set ?L" "y \<in> set ?L" "snd x = snd y"
    then have "x = sched_key (the (M (snd x))) (snd x)" "sched_key (the (M (snd x))) (snd x) = y"
      using queue_entry_row(3)[OF c, of x] queue_entry_row(3)[OF c, of y] L(1) by auto
    then show "x = y" by (rule trans)
  qed
  ultimately show "distinct (map task_tid (due_rows ?X now))" using L(2) by (simp add: distinct_map)
qed

lemma dequeueTasksBeforeTime_ok:
  assumes W: "W s" and c: "coh a q M (Q s (a, q))" and M: "qv_tasks (Q s (a, q)) = M"
    and exp: "no_expired_threads now M"
  defines "X \<equiv> Q s (a, q)"
  defines "v0 \<equiv> \<lparr> dv_dequeuedTasks = [], dv_expiredTasks = [], dv_state = qv_state X, dv_counters = qv_counters X,
      dv_visitedTasks = 0, dv_sawAnyCandidate = False \<rparr>"
  shows "\<exists>n v s' X'. n \<le> length (due_rows X now) \<and> scan_result now limit ds v0 (take n (due_rows X now)) v \<and>
    (n < length (due_rows X now) \<longrightarrow> capped limit ds v) \<and>
    dequeueTasksBeforeTime P c a q now limit ds ka s = Inr (map (hand_row now ka) (dv_dequeuedTasks v), s') \<and> W s' \<and>
    Q s' = (Q s)((a, q) := X') \<and> coh a q (visit_rows now ka (take n (due_rows X now)) M) X' \<and>
    qv_tasks X' = visit_rows now ka (take n (due_rows X now)) M \<and>
    qs_TaskIdSequence (qv_state X') = qs_TaskIdSequence (qv_state X) \<and>
    qv_rateLimiter X' = qv_rateLimiter X \<and> qv_purge X' = qv_purge X \<and>
    cnt_InProgressTasksCount (qv_counters X') = cnt_InProgressTasksCount (dv_counters v)"
proof -
  let ?L = "due_entries X now" and ?D = "due_rows X now"
  let ?row = "\<lambda>x :: uint64 \<times> uint64. the (M (snd x))"
  have L: "set ?L \<subseteq> qv_queue X" using index_finite(1)[OF W, of a q] by (auto simp: due_entries_def X_def)
  have rows: "x \<in> set ?L \<Longrightarrow> qv_tasks (Q s (a, q)) (snd x) = Some (?row x)" for x
    using queue_entry_row(1)[OF c, of x] L M by (auto simp: X_def)
  have D: "?D = map ?row ?L" using M by (simp add: due_rows_def X_def)
  obtain n v where n: "n \<le> length ?L"
    "go_scan (dequeue_callback P c a q now limit ds) (map (\<lambda>(w, t). ikey w t) ?L) v0 s = Inr (v, s)"
    "scan_result now limit ds v0 (map ?row (take n ?L)) v" "n < length ?L \<longrightarrow> capped limit ds v"
    using dequeue_scan_ok[where L = ?L and row = ?row, OF rows] by blast
  define ks where "ks = take n ?D"
  have ks: "map ?row (take n ?L) = ks" by (simp add: ks_def D take_map)
  define es where "es = filter (expired_at now) ks"
  define hs where "hs = filter (\<lambda>k. \<not> expired_at now k) ks"
  have v: "dv_dequeuedTasks v = hs" "dv_expiredTasks v = es"
    using n(3) unfolding ks by (simp_all add: scan_result_def v0_def es_def hs_def)
  define st' where "st' = (if \<not> dv_sawAnyCandidate v then (dv_state v)\<lparr> qs_LastVisitedEnqueued := now \<rparr> else dv_state v)"
  define cn' where "cn' = (dv_counters v)\<lparr> cnt_ExpiredTasksCount := i64 (cnt_ExpiredTasksCount (dv_counters v) + int (length es)) \<rparr>"
  define s1 where "s1 = go_out (countersTable_Set P (tc_counters c) a q cn') (go_out (queueStateTable_Set P (tc_queueState c) a q st') s)"
  let ?X1 = "X\<lparr> qv_state := st', qv_counters := cn' \<rparr>"
  have s1: "W s1" "Q s1 = (Q s)((a, q) := ?X1)"
    using W by (simp_all add: s1_def X_def tables_run tables_wf)
  let ?e = "cnt_EnqueuedTasksCount (qv_counters X)" and ?p = "cnt_InProgressTasksCount (qv_counters X)"
  have dead: "cnt_DeadTasksCount cn' = cnt_DeadTasksCount (qv_counters X)"
    using n(3) by (simp add: cn'_def scan_result_def v0_def)
  have cw: "coh_with a q M ?X1 ?e ?p"
    using coh_with_self[OF c] dead threads_ok_fields[of X ?X1 a q M]
    by (simp add: coh_with_def coh_def counters_ok_def X_def threads_ok_def)
  have all: "\<forall>k \<in> set ks. queued X M k" "distinct (map task_tid ks)"
    using due_rows_queued[OF W c M, of now] by (auto simp: ks_def X_def take_map[symmetric] dest: in_set_takeD)
  have dist: "distinct (map task_tid (es @ hs))" "distinct (map task_tid hs)"
  proof -
    have i: "inj_on task_tid (set ks)" "distinct ks" using all(2) by (simp_all add: distinct_map)
    then have "distinct (es @ hs)" "set (es @ hs) \<subseteq> set ks" by (auto simp: es_def hs_def)
    then have "distinct (es @ hs) \<and> inj_on task_tid (set (es @ hs))" using i(1) inj_on_subset by blast
    then show "distinct (map task_tid (es @ hs))" by (simp only: distinct_map)
    then show "distinct (map task_tid hs)" by simp
  qed
  have q1: "\<forall>k \<in> set (es @ hs). queued ?X1 M k" using all(1) by (auto simp: es_def hs_def queued_def)
  have plain: "\<forall>k \<in> set es. t_ThreadId k = []"
    using all(1) exp unfolding no_expired_threads_def queued_def es_def by auto
  obtain s2 X2 where 2: "go_for (\<lambda>task _. dropExpired P c a q task) es () s1 = Inr ((), s2)" "W s2" "Q s2 = (Q s1)((a, q) := X2)"
    "coh_with a q (drop_all es M) X2 (?e - int (length es)) ?p" "qv_tasks X2 = drop_all es M"
    "\<forall>k \<in> set hs. queued X2 (drop_all es M) k" "qv_counters X2 = qv_counters (Q s1 (a, q))" "same_rest (Q s1 (a, q)) X2"
  proof -
    have "coh_with a q M (Q s1 (a, q)) ?e ?p" "qv_tasks (Q s1 (a, q)) = M" "\<forall>k \<in> set (es @ hs). queued (Q s1 (a, q)) M k"
      using s1(2) cw q1 M by (simp_all add: X_def)
    from drop_loop_ok[OF s1(1) this(1,2) dist(1) this(3) plain] that show thesis by blast
  qed
  obtain s3 X3 where 3: "go_for (handOut P c a q now ka) hs [] s2 = Inr (map (hand_row now ka) hs, s3)" "W s3" "Q s3 = (Q s2)((a, q) := X3)"
    "coh_with a q (hand_all now ka hs (drop_all es M)) X3 (?e - int (length es) - int (length hs)) (?p + int (length hs))"
    "qv_tasks X3 = hand_all now ka hs (drop_all es M)" "qv_counters X3 = qv_counters (Q s2 (a, q))" "same_rest (Q s2 (a, q)) X3"
  proof -
    have "coh_with a q (drop_all es M) (Q s2 (a, q)) (?e - int (length es)) ?p" "qv_tasks (Q s2 (a, q)) = drop_all es M"
      "\<forall>k \<in> set hs. queued (Q s2 (a, q)) (drop_all es M) k"
      using 2(3-6) by simp_all
    from hand_loop_ok[OF 2(2) this(1,2) dist(2) this(3), of now ka "[]"] that show thesis by auto
  qed
  have code: "dequeueTasksBeforeTime P c a q now limit ds ka s = Inr (map (hand_row now ka) hs, s3)"
    using n(2) 2(1) 3(1) W unfolding dequeueTasksBeforeTime_def
    by (simp add: go_run tables_run keys_run due_entries_def X_def[symmetric] v0_def[symmetric] Let_def v
        st'_def[symmetric] cn'_def[symmetric] s1_def[symmetric] split del: if_split cong: if_cong)
  have len: "length ks = length es + length hs"
    unfolding es_def hs_def using sum_length_filter_compl[of "expired_at now" ks] by simp
  have gauges: "cnt_EnqueuedTasksCount (qv_counters X3) = i64 (?e - int (length es) - int (length hs))"
    "cnt_InProgressTasksCount (qv_counters X3) = i64 (?p + int (length hs))"
    "cnt_InProgressTasksCount (qv_counters X3) = cnt_InProgressTasksCount (dv_counters v)"
  proof -
    have c3: "qv_counters X3 = cn'" using 3(6) 2(3,7) s1(2) by simp
    have norm: "i64 ?e = ?e" "i64 ?p = ?p" using cohD(8)[OF c] by (simp_all add: counters_ok_def X_def)
    have "cnt_EnqueuedTasksCount (dv_counters v) = i64 (?e - int (length ks))"
      "cnt_InProgressTasksCount (dv_counters v) = i64 (?p + int (length hs))"
      using n(3) norm unfolding ks scan_result_def hs_def by (simp_all add: v0_def)
    then show "cnt_EnqueuedTasksCount (qv_counters X3) = i64 (?e - int (length es) - int (length hs))"
      "cnt_InProgressTasksCount (qv_counters X3) = i64 (?p + int (length hs))"
      "cnt_InProgressTasksCount (qv_counters X3) = cnt_InProgressTasksCount (dv_counters v)"
      unfolding c3 cn'_def using len by (simp_all add: diff_diff_eq)
  qed
  have "coh a q (visit_rows now ka ks M) (X3\<lparr> qv_counters := qv_counters X3 \<rparr>)"
    unfolding visit_rows_def es_def[symmetric] hs_def[symmetric]
    by (rule coh_with_counters[OF 3(4) gauges(1,2)]) simp
  moreover have "qs_TaskIdSequence (qv_state X3) = qs_TaskIdSequence (qv_state X)" "qv_rateLimiter X3 = qv_rateLimiter X"
    "qv_purge X3 = qv_purge X"
    using 3(7) 2(3,8) s1(2) n(3) by (simp_all add: same_rest_def st'_def scan_result_def v0_def)
  moreover have "qv_tasks X3 = visit_rows now ka ks M" using 3(5) by (simp add: visit_rows_def es_def hs_def)
  moreover have "Q s3 = (Q s)((a, q) := X3)" using 3(3) 2(3) s1(2) by simp
  ultimately show ?thesis
    using n(1,4) n(3)[unfolded ks] code 3(2) gauges(3) v(1) D unfolding ks_def
    by (intro exI[of _ n] exI[of _ v] exI[of _ s3] exI[of _ X3]) simp
qed

section \<open>Lapsed leases\<close>

lemma inprog_entry_row:
  assumes "coh a q M X" "x \<in> qv_inProgress X"
  shows "M (snd x) \<noteq> None" "is_inprog (the (M (snd x)))" "fst x = tw (t_VisibleAt (the (M (snd x))))"
    "task_tid (the (M (snd x))) = snd x"
proof -
  obtain k where k: "M (snd x) = Some k" "is_inprog k" "fst x = tw (t_VisibleAt k)"
    using cohD(3)[OF assms(1)] assms(2) unfolding idx_ok_def by (metis prod.collapse)
  moreover have "t_Id k = mkTaskId a q (snd x)" using cohD(9)[OF assms(1) k(1)] by (simp add: row_wf_def)
  ultimately show "M (snd x) \<noteq> None" "is_inprog (the (M (snd x)))" "fst x = tw (t_VisibleAt (the (M (snd x))))"
    "task_tid (the (M (snd x))) = snd x" by simp_all
qed

lemma inProgress_scan_ok:
  assumes "\<And>x. x \<in> set L \<Longrightarrow> qv_tasks (Q s (a, q)) (snd x) = Some (row x)" "v < maxVisitedTasksForDequeuing"
  shows "\<exists>st'. go_scan (inProgress_callback P c a q) (map (\<lambda>(w, t). ikey w t) L) (ts, st, v) s =
      Inr ((ts @ map row (take (nat (maxVisitedTasksForDequeuing - v)) L), st',
        v + int (length (take (nat (maxVisitedTasksForDequeuing - v)) L))), s) \<and>
    qs_TaskIdSequence st' = qs_TaskIdSequence st \<and> qs_LastVisitedEnqueued st' = qs_LastVisitedEnqueued st"
  using assms
proof (induction L arbitrary: ts st v)
  case (Cons x L)
  obtain w t where x: "x = (w, t)" by (cases x)
  have row: "qv_tasks (Q s (a, q)) t = Some (row x)" using Cons.prems(1)[of x] x by simp
  let ?f = "inProgress_callback P c a q" and ?st = "st\<lparr> qs_LastVisitedInProgress := sint w \<rparr>"
  have f: "?f (ikey w t) (ts, st, v) s = Inr ((v + 1 < maxVisitedTasksForDequeuing, ts @ [row x], ?st, v + 1), s)"
    using row by (simp add: inProgress_callback_def go_run tables_run Let_def)
  obtain m where m: "nat (maxVisitedTasksForDequeuing - v) = Suc m" "m = nat (maxVisitedTasksForDequeuing - (v + 1))"
    using Cons.prems(2) by (cases "nat (maxVisitedTasksForDequeuing - v)") auto
  show ?case
  proof (cases "v + 1 < maxVisitedTasksForDequeuing")
    case True
    obtain st' where "go_scan ?f (map (\<lambda>(w, t). ikey w t) L) (ts @ [row x], ?st, v + 1) s =
        Inr (((ts @ [row x]) @ map row (take m L), st', v + 1 + int (length (take m L))), s)"
      "qs_TaskIdSequence st' = qs_TaskIdSequence ?st" "qs_LastVisitedEnqueued st' = qs_LastVisitedEnqueued ?st"
      using Cons.IH[of "v + 1" "ts @ [row x]" ?st] Cons.prems(1) True m(2) by auto
    then show ?thesis using True f m(1) x by (auto simp: go_run)
  next
    case False
    then have "m = 0" using m(2) by simp
    then show ?thesis using False f m(1) x by (auto simp: go_run)
  qed
qed auto

lemma lapse_loop_ok:
  assumes "W s" "coh a q M (Q s (a, q))" "qv_tasks (Q s (a, q)) = M" "all_movable now M"
    and "\<forall>k \<in> set ks. M (task_tid k) = Some k \<and> is_inprog k" "distinct (map task_tid ks)"
  shows "steps (go_for (\<lambda>task _. handleTaskFailure P c task now dlq) ks ()) s () a q (lapse_all now dlq ks M) (\<lambda>X'. True)"
  using assms
proof (induction ks arbitrary: s M)
  case Nil
  then show ?case unfolding go_for.simps lapse_all_def by (intro steps_ret) simp_all
next
  case (Cons k ks)
  let ?t = "task_tid k" and ?M = "fail_rows now dlq (task_tid k) k M"
  have k: "M ?t = Some k" "is_inprog k" using Cons.prems(5) by auto
  have "steps (go_bind (handleTaskFailure P c k now dlq) (\<lambda>_. go_for (\<lambda>task _. handleTaskFailure P c task now dlq) ks ())) s () a q
      (lapse_all now dlq ks ?M) (\<lambda>X'. True)"
  proof (rule steps_bind[OF handleTaskFailure_ok[OF Cons.prems(1-3) k Cons.prems(4)]])
    fix s1 assume s1: "W s1" "coh a q ?M (Q s1 (a, q))" "qv_tasks (Q s1 (a, q)) = ?M"
    have rest: "\<forall>k' \<in> set ks. ?M (task_tid k') = Some k' \<and> is_inprog k'"
    proof
      fix k' assume k': "k' \<in> set ks"
      have "?t \<notin> task_tid ` set ks" using Cons.prems(6) by simp
      then have "task_tid k' \<noteq> ?t" using k' by (metis imageI)
      moreover have "M (task_tid k') = Some k'" "is_inprog k'" using Cons.prems(5) k' by simp_all
      moreover have "\<not> is_dead k'" using inprog_states[of k'] calculation(3) by blast
      ultimately show "?M (task_tid k') = Some k' \<and> is_inprog k'" by (simp add: fail_rows_other)
    qed
    have "distinct (map task_tid ks)" using Cons.prems(6) by simp
    from Cons.IH[OF s1 fail_rows_movable[OF Cons.prems(4)] rest this]
    show "steps (go_for (\<lambda>task _. handleTaskFailure P c task now dlq) ks ()) s1 () a q (lapse_all now dlq ks ?M) (\<lambda>X'. True)" .
  qed
  moreover have "lapse_all now dlq ks ?M = lapse_all now dlq (k # ks) M" by (simp add: lapse_all_def)
  ultimately show ?case by simp
qed

lemma coh_state: "coh a q M (X\<lparr> qv_state := st \<rparr>) = coh a q M X"
  using threads_ok_fields[of "X\<lparr> qv_state := st \<rparr>" X a q M] by (simp add: coh_def)

lemma lapsed_rows_inprog:
  assumes W: "W s" and c: "coh a q M (Q s (a, q))" and M: "qv_tasks (Q s (a, q)) = M"
  shows "\<forall>k \<in> set (lapsed_rows (Q s (a, q)) now). M (task_tid k) = Some k \<and> is_inprog k"
    and "distinct (map task_tid (lapsed_rows (Q s (a, q)) now))"
proof -
  let ?X = "Q s (a, q)" and ?L = "lapsed_entries (Q s (a, q)) now"
  have L: "set ?L \<subseteq> qv_inProgress ?X" "distinct ?L"
    using index_finite(2)[OF W, of a q] by (auto simp: lapsed_entries_def)
  have e: "x \<in> set ?L \<Longrightarrow> M (snd x) = Some (the (M (snd x))) \<and> is_inprog (the (M (snd x))) \<and> task_tid (the (M (snd x))) = snd x" for x
    using inprog_entry_row[OF c, of x] L(1) by auto
  then show "\<forall>k \<in> set (lapsed_rows ?X now). M (task_tid k) = Some k \<and> is_inprog k" using M by (auto simp: lapsed_rows_def)
  have "map task_tid (lapsed_rows ?X now) = map snd ?L" using e M by (auto simp: lapsed_rows_def)
  moreover have "inj_on snd (set ?L)"
  proof (rule inj_onI)
    fix x y assume xy: "x \<in> set ?L" "y \<in> set ?L" "snd x = snd y"
    then have "x \<in> qv_inProgress ?X" "y \<in> qv_inProgress ?X" using L(1) by auto
    then have "fst x = fst y" using inprog_entry_row(3)[OF c, of x] inprog_entry_row(3)[OF c, of y] xy(3) by simp
    then show "x = y" using xy(3) by (simp add: prod_eq_iff)
  qed
  ultimately show "distinct (map task_tid (lapsed_rows ?X now))" using L(2) by (simp add: distinct_map)
qed

lemma dequeueInProgressTasksBeforeTime_ok:
  assumes W: "W s" and c: "coh a q M (Q s (a, q))" and M: "qv_tasks (Q s (a, q)) = M" and mv: "all_movable now M"
  defines "X \<equiv> Q s (a, q)"
  defines "ks \<equiv> take (nat maxVisitedTasksForDequeuing) (lapsed_rows X now)"
  shows "\<exists>s' X'. dequeueInProgressTasksBeforeTime P c a q now dlq s = Inr ((), s') \<and> W s' \<and> Q s' = (Q s)((a, q) := X') \<and>
    coh a q (lapse_all now dlq ks M) X' \<and> qv_tasks X' = lapse_all now dlq ks M \<and>
    qs_TaskIdSequence (qv_state X') = qs_TaskIdSequence (qv_state X) \<and>
    qs_LastVisitedEnqueued (qv_state X') = qs_LastVisitedEnqueued (qv_state X) \<and>
    qv_rateLimiter X' = qv_rateLimiter X \<and> qv_purge X' = qv_purge X"
proof -
  let ?L = "lapsed_entries X now" and ?row = "\<lambda>x :: uint64 \<times> uint64. the (M (snd x))"
  have L: "set ?L \<subseteq> qv_inProgress X" "distinct ?L"
    using index_finite(2)[OF W, of a q] by (auto simp: lapsed_entries_def X_def)
  have rows: "x \<in> set ?L \<Longrightarrow> qv_tasks (Q s (a, q)) (snd x) = Some (?row x)" for x
    using inprog_entry_row(1)[OF c, of x] L M by (auto simp: X_def)
  have D: "lapsed_rows X now = map ?row ?L" using M by (simp add: lapsed_rows_def X_def)
  have pos: "0 < maxVisitedTasksForDequeuing" by (simp add: maxVisitedTasksForDequeuing_def)
  obtain st' where st': "go_scan (inProgress_callback P c a q) (map (\<lambda>(w, t). ikey w t) ?L) ([], qv_state X, 0) s =
      Inr ((ks, st', int (length ks)), s)" "qs_TaskIdSequence st' = qs_TaskIdSequence (qv_state X)"
      "qs_LastVisitedEnqueued st' = qs_LastVisitedEnqueued (qv_state X)"
    using inProgress_scan_ok[where L = ?L and row = ?row and ts = "[]" and st = "qv_state X", OF rows pos] D
    by (auto simp: ks_def take_map)
  define st2 where "st2 = (if ks = [] then st'\<lparr> qs_LastVisitedInProgress := now \<rparr> else st')"
  define s1 where "s1 = go_out (queueStateTable_Set P (tc_queueState c) a q st2) s"
  have s1: "W s1" "Q s1 = (Q s)((a, q) := X\<lparr> qv_state := st2 \<rparr>)"
    using W by (simp_all add: s1_def X_def tables_run tables_wf)
  have ksM: "\<forall>k \<in> set ks. M (task_tid k) = Some k \<and> is_inprog k" and dist: "distinct (map task_tid ks)"
    using lapsed_rows_inprog[OF W c M, of now] unfolding ks_def take_map[symmetric] X_def by (auto dest: in_set_takeD)
  have "steps (go_for (\<lambda>task _. handleTaskFailure P c task now dlq) ks ()) s1 () a q (lapse_all now dlq ks M) (\<lambda>X'. True)"
    using s1 c M by (intro lapse_loop_ok[OF s1(1) _ _ mv ksM dist]) (simp_all add: coh_state X_def)
  then obtain s2 X2 where 2: "go_for (\<lambda>task _. handleTaskFailure P c task now dlq) ks () s1 = Inr ((), s2)" "W s2"
    "Q s2 = (Q s1)((a, q) := X2)" "coh a q (lapse_all now dlq ks M) X2" "qv_tasks X2 = lapse_all now dlq ks M" "same_rest (Q s1 (a, q)) X2"
    by (rule stepsE)
  have "dequeueInProgressTasksBeforeTime P c a q now dlq s = Inr ((), s2)"
    using st'(1) 2(1) W unfolding dequeueInProgressTasksBeforeTime_def
    by (simp add: go_run tables_run keys_run lapsed_entries_def X_def[symmetric] Let_def st2_def[symmetric] s1_def[symmetric]
        split del: if_split cong: if_cong)
  moreover have "qs_TaskIdSequence st2 = qs_TaskIdSequence (qv_state X)" "qs_LastVisitedEnqueued st2 = qs_LastVisitedEnqueued (qv_state X)"
    using st'(2,3) by (simp_all add: st2_def)
  ultimately show ?thesis
    using 2 s1(2) by (intro exI[of _ s2] exI[of _ X2]) (simp add: same_rest_def)
qed

end

end
