(* ===== verification/Tasks_Handlers.thy ===== *)
theory Tasks_Handlers
  imports Tasks_Dequeue
begin

text \<open>
  The methods of the tasks core over a whole database.  \<open>good_view\<close> is the
  invariant of the database: well-formed keys and every queue coherent.  Each
  method is shown to keep it, and its effect on the rows of all queues is the
  one of the specification; the queues a request does not name are untouched.
\<close>

type_synonym all_rows = "uint64 \<times> uint64 \<Rightarrow> rows"

definition good_view :: "tasks_view \<Rightarrow> bool" where
  "good_view b \<longleftrightarrow> wf_view b \<and> (\<forall>a q. coherent a q (qview_of b (a, q)))"

definition rows_of :: "tasks_view \<Rightarrow> all_rows" where
  "rows_of b aq = qv_tasks (qview_of b aq)"

definition same_admin :: "tasks_view \<Rightarrow> tasks_view \<Rightarrow> bool" where
  "same_admin b b' \<longleftrightarrow> (\<forall>aq. same_rest (qview_of b aq) (qview_of b' aq))"

section \<open>Specification of the batch methods\<close>

definition report_entry ::
  "int \<Rightarrow> DeadLetterQueueConfig option \<Rightarrow> ReportStatusRequestEntry \<Rightarrow> all_rows \<Rightarrow> ReportStatusResponseEntry \<times> all_rows" where
  "report_entry now dlq e V = (let i = the (rse_TaskId e); aq = (tid_AccountId i, tid_QueueId i);
       r = report_rows now dlq (tid_TaskId i) (rse_Status e) (rse_Attempt e) (rse_KeepaliveTimeoutInSeconds e) (V aq) in
     (\<lparr> rre_TaskId = rse_TaskId e, rre_Result = fst r \<rparr>, V(aq := snd r)))"

fun report_all ::
  "int \<Rightarrow> DeadLetterQueueConfig option \<Rightarrow> ReportStatusRequestEntry list \<Rightarrow> all_rows \<Rightarrow>
   ReportStatusResponseEntry list \<times> all_rows" where
  "report_all now dlq [] V = ([], V)"
| "report_all now dlq (e # es) V = (let r = report_entry now dlq e V; rest = report_all now dlq es (snd r) in
     (fst r # fst rest, snd rest))"

text \<open>Restarting one dead letter, and its answer.\<close>

definition restart_rows ::
  "int \<Rightarrow> RestartTasksRequestEntry \<Rightarrow> rows \<Rightarrow> RestartTasksResponseEntry \<times> rows" where
  "restart_rows now e M = (let t = rte_TaskId e;
       answer = (\<lambda>r k. \<lparr> rtr_TaskId = t, rtr_Result = r, rtr_Task = k \<rparr>) in
     case M t of None \<Rightarrow> (answer RESTART_RESULT_NOT_FOUND None, M)
     | Some k \<Rightarrow>
       if \<not> is_dead k then (answer RESTART_RESULT_NOT_DEAD None, M)
       else if expired_at now k then (answer RESTART_RESULT_NOT_FOUND None, M)
       else if t_DedupeKey k \<noteq> [] \<and> (\<exists>t' k'. M t' = Some k' \<and> is_live k' \<and> t_DedupeKey k' = t_DedupeKey k)
         then (answer RESTART_RESULT_DEDUPE_CONFLICT None, M)
       else let k' = restart_row now (rte_ScheduledAt e) (rte_ExpiresAt e) k in
         (answer RESTART_RESULT_RESTARTED (Some k'), M(t \<mapsto> k')))"

fun restart_all ::
  "int \<Rightarrow> RestartTasksRequestEntry list \<Rightarrow> rows \<Rightarrow> RestartTasksResponseEntry list \<times> rows" where
  "restart_all now [] M = ([], M)"
| "restart_all now (e # es) M = (let r = restart_rows now e M; rest = restart_all now es (snd r) in
     (fst r # fst rest, snd rest))"

text \<open>The oldest entry of the queue index that is due.\<close>

definition oldest_due :: "qview \<Rightarrow> int \<Rightarrow> int" where
  "oldest_due X now = (case filter (\<lambda>(w, t). w \<le> tw now) (sorted_list_of_set (qv_queue X)) of
     [] \<Rightarrow> 0 | (w, t) # _ \<Rightarrow> i64 (now - sint w))"

lemma ids_below_sub: "ids_below n M \<Longrightarrow> dom M' \<subseteq> dom M \<Longrightarrow> ids_below n M'"
  unfolding ids_below_def by blast

lemma dom_upd_present: "M t \<noteq> None \<Longrightarrow> dom (M(t \<mapsto> k)) = dom M"
  by auto

lemma fail_rows_dom: "M t \<noteq> None \<Longrightarrow> dom (fail_rows now dlq t k M) \<subseteq> dom M"
  by (auto simp: fail_rows_def dead_rows_def evict_rows_def Let_def restrict_map_def
      split: if_splits option.splits)

lemma report_rows_dom: "dom (snd (report_rows now dlq t status attempt ka M)) \<subseteq> dom M"
  using fail_rows_dom[of M t]
  by (auto simp: report_rows_def split: option.splits ReportStatus_Status.splits if_splits)

lemma restart_rows_dom: "dom (snd (restart_rows now e M)) \<subseteq> dom M"
  by (auto simp: restart_rows_def Let_def split: option.splits if_splits)

lemma good_viewD:
  assumes "good_view b"
  shows "wf_view b" "coherent a q (qview_of b (a, q))" "coh a q (rows_of b (a, q)) (qview_of b (a, q))"
    "ids_below (qs_TaskIdSequence (qv_state (qview_of b (a, q)))) (rows_of b (a, q))"
  using assms by (auto simp: good_view_def coherent_def rows_of_def)

lemma tkey_less: "tkey a q t < tkey a q t' \<longleftrightarrow> t < t'"
  by (auto simp: tkey_def qkey_def)

lemma same_admin_refl [simp]: "same_admin b b"
  by (simp add: same_admin_def same_rest_def)

lemma same_admin_trans: "same_admin b b' \<Longrightarrow> same_admin b' b'' \<Longrightarrow> same_admin b b''"
  by (simp add: same_admin_def same_rest_def)

context tasks_store
begin

section \<open>Computations over the whole database\<close>

text \<open>\<open>goes m s r V\<close>: \<open>m\<close> runs in \<open>s\<close> without an error, returns \<open>r\<close>,
  keeps the invariant and leaves the rows \<open>V\<close>; queue states, rate limiters and
  purge markers stay.\<close>

definition goes :: "('s, 'r) go \<Rightarrow> 's \<Rightarrow> 'r \<Rightarrow> all_rows \<Rightarrow> bool" where
  "goes m s r V \<longleftrightarrow> (\<exists>s'. m s = Inr (r, s') \<and> good_view (abs s') \<and> rows_of (abs s') = V \<and> same_admin (abs s) (abs s'))"

lemma goesE:
  assumes "goes m s r V"
  obtains s' where "m s = Inr (r, s')" "good_view (abs s')" "rows_of (abs s') = V" "same_admin (abs s) (abs s')"
  using assms unfolding goes_def by blast

lemma goes_ret: "good_view (abs s) \<Longrightarrow> goes (go_ret r) s r (rows_of (abs s))"
  by (simp add: goes_def)

lemma good_view_upd:
  assumes "good_view (abs s)" "W s'" "Q s' = (Q s)((a, q) := X')" "coherent a q X'"
  shows "good_view (abs s')" "rows_of (abs s') = (rows_of (abs s))((a, q) := qv_tasks X')"
  using assms by (auto simp: good_view_def rows_of_def)

lemma steps_goes:
  assumes g: "good_view (abs s)" and st: "steps m s r a q M R"
    and ids: "ids_below (qs_TaskIdSequence (qv_state (Q s (a, q)))) M"
  shows "goes m s r ((rows_of (abs s))((a, q) := M))"
proof -
  obtain s' X' where 1: "m s = Inr (r, s')" "W s'" "Q s' = (Q s)((a, q) := X')" "coh a q M X'" "qv_tasks X' = M"
    "same_rest (Q s (a, q)) X'" "R X'"
    using st by (rule stepsE)
  have "coherent a q X'" using 1 ids by (simp add: coherent_def same_rest_def)
  then have "good_view (abs s')" "rows_of (abs s') = (rows_of (abs s))((a, q) := M)"
    using good_view_upd[OF g 1(2,3)] 1(5) by simp_all
  moreover have "same_admin (abs s) (abs s')" using 1(3,6) by (auto simp: same_admin_def same_rest_def)
  ultimately show ?thesis using 1(1) by (simp add: goes_def)
qed

lemma goes_bind:
  assumes "goes m s r V"
    and "\<And>s1. good_view (abs s1) \<Longrightarrow> rows_of (abs s1) = V \<Longrightarrow> same_admin (abs s) (abs s1) \<Longrightarrow> goes (f r) s1 r' V'"
  shows "goes (go_bind m f) s r' V'"
proof -
  obtain s1 where 1: "m s = Inr (r, s1)" "good_view (abs s1)" "rows_of (abs s1) = V" "same_admin (abs s) (abs s1)"
    using assms(1) by (rule goesE)
  obtain s2 where 2: "f r s1 = Inr (r', s2)" "good_view (abs s2)" "rows_of (abs s2) = V'" "same_admin (abs s1) (abs s2)"
    using assms(2)[OF 1(2-4)] by (rule goesE)
  show ?thesis using 1 2 same_admin_trans[OF 1(4) 2(4)] by (auto simp: goes_def go_run)
qed

lemma goes_map: "goes m s r V \<Longrightarrow> goes (go_bind m (\<lambda>x. go_ret (f x))) s (f r) V"
  by (erule goes_bind) (metis goes_ret)

lemma goes_seq: "go_seq m n = go_bind m (\<lambda>_. n)"
  by (simp add: go_seq_def)

text \<open>A method that runs one computation and commits.\<close>

lemma update_goes:
  assumes "goes body (bs_Update (tc_badgerStore c) d) (Commit r) V" "rows_of (dabs d) = U"
  shows "\<exists>d'. in_update (tc_badgerStore c) body d = (Inr r, d') \<and> good_view (dabs d') \<and> rows_of (dabs d') = V \<and>
    same_admin (dabs d) (dabs d')"
proof -
  obtain s' where 1: "body (bs_Update (tc_badgerStore c) d) = Inr (Commit r, s')" "good_view (abs s')" "rows_of (abs s') = V"
    "same_admin (abs (bs_Update (tc_badgerStore c) d)) (abs s')"
    using assms(1) by (rule goesE)
  obtain d' where "in_update (tc_badgerStore c) body d = (Inr r, d')" "dabs d' = abs s'"
    using store.in_update_commit[of body d r s'] 1(1) by blast
  then show ?thesis using 1 store.Update[of d] by auto
qed

section \<open>Status reports, deletions and restarts\<close>

lemma steps_same:
  assumes "m s = Inr (r, s)" "W s" "coh a q M (Q s (a, q))" "qv_tasks (Q s (a, q)) = M"
  shows "steps m s r a q M (\<lambda>X'. True)"
  using assms by (intro stepsI[where s' = s and X' = "Q s (a, q)"]) (simp_all add: same_rest_def)

lemma report_entry_goes:
  assumes "good_view (abs s)" "\<forall>aq. all_movable now (rows_of (abs s) aq)" "rse_TaskId e \<noteq> None"
  shows "goes (go_bind (go_deref (rse_TaskId e)) (\<lambda>taskId.
        go_bind (reportStatus P c taskId now (rse_Status e) (rse_Attempt e) (rse_KeepaliveTimeoutInSeconds e) dlq) (\<lambda>result.
        go_ret (out @ [\<lparr> rre_TaskId = rse_TaskId e, rre_Result = result \<rparr>])))) s
    (out @ [fst (report_entry now dlq e (rows_of (abs s)))]) (snd (report_entry now dlq e (rows_of (abs s))))"
proof -
  obtain a q t where i: "rse_TaskId e = Some (mkTaskId a q t)" using assms(3) by (metis TaskId.cases option.exhaust)
  let ?V = "rows_of (abs s)"
  let ?r = "report_rows now dlq t (rse_Status e) (rse_Attempt e) (rse_KeepaliveTimeoutInSeconds e) (?V (a, q))"
  have "steps (reportStatus P c (mkTaskId a q t) now (rse_Status e) (rse_Attempt e) (rse_KeepaliveTimeoutInSeconds e) dlq) s
      (fst ?r) a q (snd ?r) (\<lambda>X'. True)"
    using good_viewD(1)[OF assms(1)] good_viewD(3)[OF assms(1), of a q] assms(2) by (intro reportStatus_ok) (simp_all add: rows_of_def)
  moreover have "ids_below (qs_TaskIdSequence (qv_state (Q s (a, q)))) (snd ?r)"
    using good_viewD(4)[OF assms(1)] report_rows_dom by (rule ids_below_sub)
  ultimately have "goes (reportStatus P c (mkTaskId a q t) now (rse_Status e) (rse_Attempt e) (rse_KeepaliveTimeoutInSeconds e) dlq) s
      (fst ?r) (?V((a, q) := snd ?r))"
    by (rule steps_goes[OF assms(1)])
  then have "goes (go_bind (reportStatus P c (mkTaskId a q t) now (rse_Status e) (rse_Attempt e) (rse_KeepaliveTimeoutInSeconds e) dlq)
      (\<lambda>result. go_ret (out @ [\<lparr> rre_TaskId = rse_TaskId e, rre_Result = result \<rparr>]))) s
      (out @ [\<lparr> rre_TaskId = rse_TaskId e, rre_Result = fst ?r \<rparr>]) (?V((a, q) := snd ?r))"
    by (rule goes_map)
  then show ?thesis by (simp add: report_entry_def i Let_def)
qed

lemma report_loop_goes:
  assumes f: "f = (\<lambda>entry entries.
        go_bind (go_deref (rse_TaskId entry)) (\<lambda>taskId.
        go_bind (reportStatus P c taskId now (rse_Status entry) (rse_Attempt entry) (rse_KeepaliveTimeoutInSeconds entry) dlq) (\<lambda>result.
        go_ret (entries @ [\<lparr> rre_TaskId = rse_TaskId entry, rre_Result = result \<rparr>]))))"
    and "good_view (abs s)" "\<forall>aq. all_movable now (rows_of (abs s) aq)" "\<forall>e \<in> set es. rse_TaskId e \<noteq> None"
  shows "goes (go_for f es out) s
    (out @ fst (report_all now dlq es (rows_of (abs s)))) (snd (report_all now dlq es (rows_of (abs s))))"
  using assms(2-4)
proof (induction es arbitrary: s out)
  case Nil
  then show ?case using goes_ret[of s out] by (simp only: go_for.simps report_all.simps fst_conv snd_conv append_Nil2)
next
  case (Cons e es)
  let ?r = "report_entry now dlq e (rows_of (abs s))"
  have "rse_TaskId e \<noteq> None" using Cons.prems(3) by simp
  then have e: "goes (f e out) s (out @ [fst ?r]) (snd ?r)"
    using report_entry_goes[OF Cons.prems(1,2), where e = e and out = out and dlq = dlq] unfolding f by blast
  show ?case unfolding go_for.simps
  proof (rule goes_bind[OF e])
    fix s1 assume s1: "good_view (abs s1)" "rows_of (abs s1) = snd ?r"
    have mv: "\<forall>aq. all_movable now (rows_of (abs s1) aq)"
      using Cons.prems(2) s1(2) report_rows_movable by (simp add: report_entry_def Let_def)
    have "\<forall>e \<in> set es. rse_TaskId e \<noteq> None" using Cons.prems(3) by simp
    from Cons.IH[OF s1(1) mv this, of "out @ [fst ?r]"]
    show "goes (go_for f es (out @ [fst ?r])) s1
      (out @ fst (report_all now dlq (e # es) (rows_of (abs s)))) (snd (report_all now dlq (e # es) (rows_of (abs s))))"
      by (simp add: Let_def s1(2))
  qed
qed

lemma ReportStatus_ok:
  assumes "good_view (dabs d)" "\<forall>aq. all_movable now (rows_of (dabs d) aq)" "\<forall>e \<in> set (rsq_Entries req). rse_TaskId e \<noteq> None"
  defines "r \<equiv> report_all now (rsq_DeadLetterQueueConfig req) (rsq_Entries req) (rows_of (dabs d))"
  shows "\<exists>d'. ReportStatus P c now req d = (Inr (Payload (fst r)), d') \<and> good_view (dabs d') \<and> rows_of (dabs d') = snd r \<and>
    same_admin (dabs d) (dabs d')"
proof -
  let ?s = "bs_Update (tc_badgerStore c) d"
  have s: "abs ?s = dabs d" by (rule store.Update)
  define f where "f = (\<lambda>(entry :: ReportStatusRequestEntry) entries.
        go_bind (go_deref (rse_TaskId entry)) (\<lambda>taskId.
        go_bind (reportStatus P c taskId now (rse_Status entry) (rse_Attempt entry) (rse_KeepaliveTimeoutInSeconds entry) (rsq_DeadLetterQueueConfig req)) (\<lambda>result.
        go_ret (entries @ [\<lparr> rre_TaskId = rse_TaskId entry, rre_Result = result \<rparr>]))))"
  have "goes (go_for f (rsq_Entries req) []) ?s (fst r) (snd r)"
    using report_loop_goes[OF f_def, of ?s "rsq_Entries req" "[]"] assms by (simp add: s r_def)
  then have "goes (go_bind (go_for f (rsq_Entries req) []) (\<lambda>entries. go_ret (Commit (Payload entries)))) ?s (Commit (Payload (fst r))) (snd r)"
    by (rule goes_map)
  from update_goes[OF this refl] show ?thesis by (simp only: ReportStatus_def f_def)
qed

lemma delete_one_goes:
  assumes "good_view (abs s)"
  shows "goes (go_try (tasksTable_Get P (tc_tasks c) (mkTaskId a q t))
      (\<lambda>err. if errors_Is_NotFound err then go_ret () else go_fail err)
      (\<lambda>task. deleteTask P c task taskDeletionNone)) s () ((rows_of (abs s))((a, q) := (rows_of (abs s) (a, q))(t := None)))"
proof (cases "rows_of (abs s) (a, q) t")
  case None
  then have "(rows_of (abs s))((a, q) := (rows_of (abs s) (a, q))(t := None)) = rows_of (abs s)" by (simp add: fun_upd_idem)
  then show ?thesis using goes_ret[OF assms, of "()"] None by (simp add: goes_def go_run tables_run rows_of_def)
next
  case (Some k)
  let ?M = "rows_of (abs s) (a, q)"
  have "steps (deleteTask P c k taskDeletionNone) s () a q (?M(t := None))
      (\<lambda>X'. same_totals (tally taskDeletionNone (qv_counters (Q s (a, q)))) (qv_counters X'))"
    using good_viewD(1)[OF assms] good_viewD(3)[OF assms, of a q] Some by (intro deleteTask_ok) (simp_all add: rows_of_def)
  moreover have "ids_below (qs_TaskIdSequence (qv_state (Q s (a, q)))) (?M(t := None))"
    using good_viewD(4)[OF assms] by (rule ids_below_sub) auto
  ultimately have "goes (deleteTask P c k taskDeletionNone) s () ((rows_of (abs s))((a, q) := ?M(t := None)))"
    by (rule steps_goes[OF assms])
  then show ?thesis using Some by (simp add: goes_def go_run tables_run rows_of_def)
qed

lemma DeleteTasks_ok:
  assumes "good_view (dabs d)" "dt_QueueId req = Some \<lparr> qid_AccountId = a, qid_QueueId = q \<rparr>"
  shows "\<exists>d'. DeleteTasks P c req d = (Inr (Payload ()), d') \<and> good_view (dabs d') \<and>
    rows_of (dabs d') = (rows_of (dabs d))((a, q) := rows_of (dabs d) (a, q) |` (- set (dt_TaskIds req))) \<and>
    same_admin (dabs d) (dabs d')"
proof -
  let ?f = "\<lambda>taskId _. go_try (tasksTable_Get P (tc_tasks c) (mkTaskId a q taskId))
      (\<lambda>err. if errors_Is_NotFound err then go_ret () else go_fail err) (\<lambda>task. deleteTask P c task taskDeletionNone)"
  have loop: "goes (go_for ?f ts ()) s () ((rows_of (abs s))((a, q) := rows_of (abs s) (a, q) |` (- set ts)))"
    if "good_view (abs s)" for ts s
    using that
  proof (induction ts arbitrary: s)
    case Nil
    have "rows_of (abs s) (a, q) |` (- set []) = rows_of (abs s) (a, q)" by (auto simp: restrict_map_def)
    then show ?case using goes_ret[OF Nil, of "()"] by (simp only: go_for.simps fun_upd_triv)
  next
    case (Cons t ts)
    let ?M = "rows_of (abs s) (a, q)"
    have E: "(?M(t := None)) |` (- set ts) = ?M |` (- set (t # ts))" by (auto simp: restrict_map_def)
    show ?case unfolding go_for.simps
    proof (rule goes_bind[OF delete_one_goes[OF Cons.prems]])
      fix s1 assume s1: "good_view (abs s1)" "rows_of (abs s1) = (rows_of (abs s))((a, q) := ?M(t := None))"
      then have "(rows_of (abs s1))((a, q) := rows_of (abs s1) (a, q) |` (- set ts)) = (rows_of (abs s))((a, q) := ?M |` (- set (t # ts)))"
        using E by (simp only: s1(2) fun_upd_same fun_upd_upd)
      with Cons.IH[OF s1(1)] show "goes (go_for ?f ts ()) s1 () ((rows_of (abs s))((a, q) := ?M |` (- set (t # ts))))" by (simp only:)
    qed
  qed
  have "goes (go_seq (go_for ?f (dt_TaskIds req) ()) (go_ret (Commit (Payload ())))) (bs_Update (tc_badgerStore c) d)
      (Commit (Payload ())) ((rows_of (dabs d))((a, q) := rows_of (dabs d) (a, q) |` (- set (dt_TaskIds req))))"
    unfolding goes_seq
    using goes_map[OF loop[of "bs_Update (tc_badgerStore c) d" "dt_TaskIds req"], of "\<lambda>_. Commit (Payload ())"] assms(1) store.Update[of d]
    by simp
  from update_goes[OF this refl] show ?thesis by (simp add: DeleteTasks_def assms(2))
qed

lemma restart_entry_ok:
  assumes W: "W s" and c: "coh a q M (Q s (a, q))" and M: "qv_tasks (Q s (a, q)) = M"
  shows "steps (restart_entry P c now a q e) s (fst (restart_rows now e M)) a q (snd (restart_rows now e M)) (\<lambda>X'. True)"
proof (cases "M (rte_TaskId e)")
  case None
  then have "restart_entry P c now a q e s = Inr (fst (restart_rows now e M), s)" "snd (restart_rows now e M) = M"
    using M by (simp_all add: restart_entry_def restart_rows_def Let_def go_run tables_run)
  then show ?thesis using steps_same[OF _ W c M] by simp
next
  case (Some k)
  have dead: "t_State k \<noteq> TASK_STATE_DEAD \<longleftrightarrow> \<not> is_dead k" by (simp add: is_dead_def)
  let ?conflict = "t_DedupeKey k \<noteq> [] \<and> (\<exists>t' k'. M t' = Some k' \<and> is_live k' \<and> t_DedupeKey k' = t_DedupeKey k)"
  have look: "(if t_DedupeKey k \<noteq> [] then getTaskIdByDedupeKey P c a q (t_DedupeKey k) else go_ret None) s =
      Inr (if t_DedupeKey k \<noteq> [] then map_option (mkTaskId a q) (qv_dedupe (Q s (a, q)) (t_DedupeKey k)) else None, s)"
    by (simp add: getTaskIdByDedupeKey_run)
  have D: "t_DedupeKey k \<noteq> [] \<Longrightarrow> qv_dedupe (Q s (a, q)) (t_DedupeKey k) = Some t' \<longleftrightarrow>
      (\<exists>k'. M t' = Some k' \<and> is_live k' \<and> t_DedupeKey k' = t_DedupeKey k)" for t'
    using cohD(6)[OF c] unfolding dedupe_ok_def by blast
  show ?thesis
  proof (cases "\<not> is_dead k \<or> expired_at now k \<or> ?conflict")
    case True
    then have "restart_entry P c now a q e s = Inr (fst (restart_rows now e M), s) \<and> snd (restart_rows now e M) = M"
    proof (cases "\<not> is_dead k \<or> expired_at now k")
      case True
      then show ?thesis
        using M Some by (auto simp: restart_entry_def restart_rows_def Let_def go_run tables_run dead expired_at_def)
    next
      case False
      then have "?conflict" using True by blast
      then obtain t' where t': "qv_dedupe (Q s (a, q)) (t_DedupeKey k) = Some t'" using D by blast
      then obtain k' where "M t' = Some k'" "is_live k'" using D \<open>?conflict\<close> by blast
      then have "t' \<noteq> rte_TaskId e" using False Some is_state_excl(6) by auto
      moreover have "task_tid k = rte_TaskId e" using cohD(9)[OF c Some] by (simp add: row_wf_def)
      ultimately show ?thesis
        using M Some False t' look \<open>?conflict\<close>
        by (auto simp: restart_entry_def restart_rows_def Let_def go_run tables_run dead expired_at_def)
    qed
    then have "restart_entry P c now a q e s = Inr (fst (restart_rows now e M), s)" "snd (restart_rows now e M) = M" by blast+
    then show ?thesis using steps_same[OF _ W c M] by simp
  next
    case False
    then have ok: "is_dead k" "\<not> expired_at now k" "\<not> ?conflict" by blast+
    have free: "t_DedupeKey k \<noteq> [] \<Longrightarrow> qv_dedupe (Q s (a, q)) (t_DedupeKey k) = None"
      using D ok(3) by (metis not_Some_eq)
    let ?k = "restart_row now (rte_ScheduledAt e) (rte_ExpiresAt e) k"
    have r: "restart_rows now e M = (\<lparr> rtr_TaskId = rte_TaskId e, rtr_Result = RESTART_RESULT_RESTARTED, rtr_Task = Some ?k \<rparr>,
        M(rte_TaskId e \<mapsto> ?k))"
      using Some ok unfolding restart_rows_def Let_def by simp
    have "restart_entry P c now a q e s = go_bind (restartTask P c k now (rte_ScheduledAt e) (rte_ExpiresAt e)) (\<lambda>task'.
        go_ret \<lparr> rtr_TaskId = rte_TaskId e, rtr_Result = RESTART_RESULT_RESTARTED, rtr_Task = Some task' \<rparr>) s"
      using M Some ok(1,2) look free
      by (cases "t_DedupeKey k = []") (simp_all add: restart_entry_def Let_def go_run tables_run dead expired_at_def)
    moreover have "steps (go_bind (restartTask P c k now (rte_ScheduledAt e) (rte_ExpiresAt e)) (\<lambda>task'.
        go_ret \<lparr> rtr_TaskId = rte_TaskId e, rtr_Result = RESTART_RESULT_RESTARTED, rtr_Task = Some task' \<rparr>)) s
        (fst (restart_rows now e M)) a q (snd (restart_rows now e M)) (\<lambda>X'. True)"
      unfolding r fst_conv snd_conv
      by (rule steps_bind[OF restartTask_ok[OF W c M Some ok(1)]]) (erule free, (rule steps_ret; simp))
    ultimately show ?thesis by (simp add: steps_def)
  qed
qed

lemma restart_loop_goes:
  assumes f: "f = (\<lambda>e entries. go_bind (restart_entry P c now a q e) (\<lambda>entry. go_ret (entries @ [entry])))"
    and "good_view (abs s)"
  shows "goes (go_for f es out) s (out @ fst (restart_all now es (rows_of (abs s) (a, q))))
    ((rows_of (abs s))((a, q) := snd (restart_all now es (rows_of (abs s) (a, q)))))"
  using assms(2)
proof (induction es arbitrary: s out)
  case Nil
  then show ?case using goes_ret[of s out] by (simp only: go_for.simps restart_all.simps fst_conv snd_conv append_Nil2 fun_upd_triv)
next
  case (Cons e es)
  let ?M = "rows_of (abs s) (a, q)"
  let ?r = "restart_rows now e ?M"
  have "steps (restart_entry P c now a q e) s (fst ?r) a q (snd ?r) (\<lambda>X'. True)"
    using good_viewD(1)[OF Cons.prems] good_viewD(3)[OF Cons.prems, of a q] by (intro restart_entry_ok) (simp_all add: rows_of_def)
  moreover have "ids_below (qs_TaskIdSequence (qv_state (Q s (a, q)))) (snd ?r)"
    using good_viewD(4)[OF Cons.prems] restart_rows_dom by (rule ids_below_sub)
  ultimately have "goes (restart_entry P c now a q e) s (fst ?r) ((rows_of (abs s))((a, q) := snd ?r))"
    by (rule steps_goes[OF Cons.prems])
  from goes_map[OF this, of "\<lambda>entry. out @ [entry]"]
  have e: "goes (f e out) s (out @ [fst ?r]) ((rows_of (abs s))((a, q) := snd ?r))" by (simp only: f)
  show ?case unfolding go_for.simps
  proof (rule goes_bind[OF e])
    fix s1 assume s1: "good_view (abs s1)" "rows_of (abs s1) = (rows_of (abs s))((a, q) := snd ?r)"
    from Cons.IH[OF s1(1), of "out @ [fst ?r]"]
    show "goes (go_for f es (out @ [fst ?r])) s1 (out @ fst (restart_all now (e # es) ?M))
      ((rows_of (abs s))((a, q) := snd (restart_all now (e # es) ?M)))"
      by (simp add: Let_def s1(2) fun_upd_same del: fun_upd_apply)
  qed
qed

lemma RestartTasks_ok:
  fixes now :: int
  assumes "good_view (dabs d)" "rt_QueueId req = Some \<lparr> qid_AccountId = a, qid_QueueId = q \<rparr>"
  defines "r \<equiv> restart_all now (rt_Entries req) (rows_of (dabs d) (a, q))"
  shows "\<exists>d'. RestartTasks P c now req d = (Inr (Payload (fst r)), d') \<and> good_view (dabs d') \<and>
    rows_of (dabs d') = (rows_of (dabs d))((a, q) := snd r) \<and> same_admin (dabs d) (dabs d')"
proof -
  let ?s = "bs_Update (tc_badgerStore c) d"
  have s: "abs ?s = dabs d" by (rule store.Update)
  define f where "f = (\<lambda>e entries. go_bind (restart_entry P c now a q e) (\<lambda>entry. go_ret (entries @ [entry])))"
  have "goes (go_for f (rt_Entries req) []) ?s (fst r) ((rows_of (dabs d))((a, q) := snd r))"
    using restart_loop_goes[OF f_def, of ?s "rt_Entries req" "[]"] assms by (simp add: s r_def)
  then have "goes (go_bind (go_for f (rt_Entries req) []) (\<lambda>entries. go_ret (Commit (Payload entries)))) ?s
      (Commit (Payload (fst r))) ((rows_of (dabs d))((a, q) := snd r))"
    by (rule goes_map)
  from update_goes[OF this refl] show ?thesis by (simp add: RestartTasks_def f_def assms(2))
qed

section \<open>Purge markers\<close>

lemma checkQueueNotPurged_run [tables_run]:
  "checkQueueNotPurged P c a q s =
    Inr (if qv_purge (Q s (a, q)) = None then None else Some (queueIdPurgedError P a q), s)"
  by (simp add: checkQueueNotPurged_def go_run tables_run)

lemma purged_rejected:
  assumes "qv_purge (qview_of (dabs d) (a, q)) \<noteq> None"
  shows "enq_QueueId ereq = Some \<lparr> qid_AccountId = a, qid_QueueId = q \<rparr> \<Longrightarrow>
      Enqueue P c now ereq d = (Inr (ApplicationError (queueIdPurgedError P a q)), d)"
    and "deq_QueueId dreq = Some \<lparr> qid_AccountId = a, qid_QueueId = q \<rparr> \<Longrightarrow>
      Dequeue P c now dreq d = (Inr (ApplicationError (queueIdPurgedError P a q)), d)"
    and "lt_QueueId lreq = Some \<lparr> qid_AccountId = a, qid_QueueId = q \<rparr> \<Longrightarrow>
      ListTasks P c lreq d = (Inr (ApplicationError (queueIdPurgedError P a q)), d)"
proof -
  let ?u = "bs_Update (tc_badgerStore c) d" and ?v = "bs_View (tc_badgerStore c) d"
  obtain y where "qv_purge (qview_of (dabs d) (a, q)) = Some y" using assms by blast
  then have "qv_purge (Q ?u (a, q)) = Some y" "qv_purge (Q ?v (a, q)) = Some y"
    using store.Update[of d] store.View[of d] by simp_all
  then show "enq_QueueId ereq = Some \<lparr> qid_AccountId = a, qid_QueueId = q \<rparr> \<Longrightarrow>
      Enqueue P c now ereq d = (Inr (ApplicationError (queueIdPurgedError P a q)), d)"
    and "deq_QueueId dreq = Some \<lparr> qid_AccountId = a, qid_QueueId = q \<rparr> \<Longrightarrow>
      Dequeue P c now dreq d = (Inr (ApplicationError (queueIdPurgedError P a q)), d)"
    and "lt_QueueId lreq = Some \<lparr> qid_AccountId = a, qid_QueueId = q \<rparr> \<Longrightarrow>
      ListTasks P c lreq d = (Inr (ApplicationError (queueIdPurgedError P a q)), d)"
    by (simp_all add: Enqueue_def Dequeue_def ListTasks_def in_update_def in_view_def go_run tables_run)
qed

lemma coherent_admin:
  "coherent a q (X\<lparr> qv_rateLimiter := rl \<rparr>) = coherent a q X" "coherent a q (X\<lparr> qv_purge := pm \<rparr>) = coherent a q X"
  using threads_ok_fields[of "X\<lparr> qv_rateLimiter := rl \<rparr>" X a q] threads_ok_fields[of "X\<lparr> qv_purge := pm \<rparr>" X a q]
  by (simp_all add: coherent_def coh_def)

lemma PurgeQueue_ok:
  fixes a q :: uint64
  assumes "good_view (dabs d)"
  defines "X \<equiv> qview_of (dabs d) (a, q)"
  shows "\<exists>d'. PurgeQueue P c (Some \<lparr> qid_AccountId = a, qid_QueueId = q \<rparr>) d = (Inr (Payload ()), d') \<and> good_view (dabs d') \<and>
    qview_of (dabs d') = (qview_of (dabs d))((a, q) := X\<lparr> qv_purge := Some \<lparr> pgc_QueueId = \<lparr> qid_AccountId = a, qid_QueueId = q \<rparr> \<rparr> \<rparr>)"
proof -
  let ?s = "bs_Update (tc_badgerStore c) d" and ?r = "\<lparr> pgc_QueueId = \<lparr> qid_AccountId = a, qid_QueueId = q \<rparr> \<rparr>"
  define s' where "s' = go_out (purgeGCRecordsTable_Create P (tc_purgeGCRecords c) ?r) ?s"
  have s: "abs ?s = dabs d" by (rule store.Update)
  have W: "W ?s" using assms(1) s by (simp add: good_view_def)
  have run: "purgeGCRecordsTable_Create P (tc_purgeGCRecords c) ?r ?s = Inr ((), s')" "W s'"
    "Q s' = (Q ?s)((a, q) := X\<lparr> qv_purge := Some ?r \<rparr>)"
    using W by (simp_all add: s'_def tables_run tables_wf X_def s)
  have "coherent a q (X\<lparr> qv_purge := Some ?r \<rparr>)" using good_viewD(2)[OF assms(1), of a q] by (simp add: coherent_admin X_def)
  then have "good_view (abs s')" using good_view_upd[of ?s s' a q] assms(1) run(2,3) s by simp
  moreover obtain d' where "PurgeQueue P c (Some \<lparr> qid_AccountId = a, qid_QueueId = q \<rparr>) d = (Inr (Payload ()), d')" "dabs d' = abs s'"
  proof -
    define body where "body = go_seq (purgeGCRecordsTable_Create P (tc_purgeGCRecords c) ?r) (go_ret (Commit (Payload ())))"
    have "body ?s = Inr (Commit (Payload ()), s')" using run(1) by (simp add: body_def go_run)
    from store.in_update_commit[of body, OF this] that show thesis
      unfolding PurgeQueue_def go_deref_Some go_bind_ret body_def by blast
  qed
  ultimately show ?thesis using run(3) s by auto
qed

section \<open>Enqueueing\<close>

lemma Enqueue_ok:
  assumes g: "good_view (dabs d)" and q: "enq_QueueId req = Some \<lparr> qid_AccountId = a, qid_QueueId = q \<rparr>"
  defines "X \<equiv> qview_of (dabs d) (a, q)"
  assumes pm: "qv_purge X = None" and es: "list_all entry_ok (enq_Entries req)"
    and seq: "unat (qs_TaskIdSequence (qv_state X)) + length (enq_Entries req) < 2 ^ 64"
    and safe: "entries_safe now a q (enq_Entries req) (qs_TaskIdSequence (qv_state X)) (qv_tasks X)"
  shows "\<exists>d' n' X' out. Enqueue P c now req d = (Inr (Payload out), d') \<and> good_view (dabs d') \<and>
    qview_of (dabs d') = (qview_of (dabs d))((a, q) := X') \<and>
    enqueue_steps now a q (enq_Entries req) (qs_TaskIdSequence (qv_state X)) (qv_tasks X) n' (qv_tasks X') out \<and>
    qv_state X' = (qv_state X)\<lparr> qs_TaskIdSequence := n' \<rparr> \<and> qv_rateLimiter X' = qv_rateLimiter X \<and> qv_purge X' = None"
proof -
  let ?s = "bs_Update (tc_badgerStore c) d" and ?n = "qs_TaskIdSequence (qv_state X)" and ?M = "qv_tasks X"
  have s: "abs ?s = dabs d" by (rule store.Update)
  have X: "Q ?s (a, q) = X" by (simp add: s X_def)
  have c: "W ?s" "coh a q ?M (Q ?s (a, q))" "qv_tasks (Q ?s (a, q)) = ?M" "ids_below ?n ?M"
    using good_viewD(1,3,4)[OF g] good_viewD(3,4)[OF g, of a q] by (simp_all add: s X_def rows_of_def)
  obtain n' M' out where 1: "enqueue_steps now a q (enq_Entries req) ?n ?M n' M' out" "ids_below n' M'"
    "steps (go_for (enqueue_entry P c now a q) (enq_Entries req) (qv_state X, [])) ?s ((qv_state X)\<lparr> qs_TaskIdSequence := n' \<rparr>, [] @ out)
      a q M' (\<lambda>X'. True)"
    using enqueue_entries_ok[OF c seq refl es safe] by blast
  obtain s1 X1 where s1: "go_for (enqueue_entry P c now a q) (enq_Entries req) (qv_state X, []) ?s =
      Inr (((qv_state X)\<lparr> qs_TaskIdSequence := n' \<rparr>, out), s1)" "W s1" "Q s1 = (Q ?s)((a, q) := X1)" "coh a q M' X1" "qv_tasks X1 = M'"
      "same_rest (Q ?s (a, q)) X1"
    using 1(3) unfolding append_Nil by (rule stepsE)
  define st where "st = (qv_state X)\<lparr> qs_TaskIdSequence := n' \<rparr>"
  define s2 where "s2 = go_out (queueStateTable_Set P (tc_queueState c) a q st) s1"
  have s2: "W s2" "Q s2 = (Q ?s)((a, q) := X1\<lparr> qv_state := st \<rparr>)"
    using s1(2,3) by (simp_all add: s2_def tables_run tables_wf)
  have "coherent a q (X1\<lparr> qv_state := st \<rparr>)" using s1(4,5) 1(2) by (simp add: coherent_def coh_state st_def)
  then have good: "good_view (abs s2)" using good_view_upd[of ?s s2 a q] g s2 s by simp
  have purge: "qv_purge (Q ?s (a, q)) = None" using pm X by simp
  have code: "Enqueue P c now req d = in_update (tc_badgerStore c) (\<lambda>_. Inr (Commit (Payload out), s2)) d"
    unfolding Enqueue_def in_update_def
    using s1(1) by (simp add: q go_run tables_run purge pm X st_def[symmetric] s2_def)
  then obtain d' where d': "Enqueue P c now req d = (Inr (Payload out), d')" "dabs d' = abs s2"
    using store.in_update_commit[of "\<lambda>_. Inr (Commit (Payload out), s2)" d "Payload out" s2] by auto
  have "qview_of (dabs d') = (qview_of (dabs d))((a, q) := X1\<lparr> qv_state := st \<rparr>)" using d'(2) s2(2) s by simp
  then show ?thesis
    using d' good 1(1) s1(5,6) pm X
    by (intro exI[of _ d'] exI[of _ n'] exI[of _ "X1\<lparr> qv_state := st \<rparr>"] exI[of _ out]) (simp add: same_rest_def st_def)
qed

section \<open>Reads\<close>

lemma task_rows_under:
  assumes "W s"
  shows "rows_under (v_tasks (abs s)) (qkey a q) = map (\<lambda>t. the (qv_tasks (Q s (a, q)) t)) (sorted_list_of_set (dom (qv_tasks (Q s (a, q)))))"
    and "finite (dom (qv_tasks (Q s (a, q))))"
proof -
  let ?M = "qv_tasks (Q s (a, q))" and ?m = "v_tasks (abs s)"
  have vim: "dom ?M = tkey a q -` dom ?m" by (auto simp: qview_of_simps dom_def)
  then show fin: "finite (dom ?M)" using finite_vimageI[OF tasks.dom_finite[of s], of "tkey a q"] by (simp add: inj_def)
  have "{k \<in> dom ?m. prefix (qkey a q) k} = tkey a q ` dom ?M"
  proof (intro equalityI subsetI)
    fix k assume k: "k \<in> {k \<in> dom ?m. prefix (qkey a q) k}"
    then obtain a' q' t where "k = tkey a' q' t" using assms unfolding wf_view_def by blast
    moreover from this k have "a' = a" "q' = q" by (auto simp: tkey_def prefix_def)
    ultimately show "k \<in> tkey a q ` dom ?M" using k vim by auto
  qed (use vim in \<open>auto simp: tkey_def prefix_def\<close>)
  moreover have "strict_mono_on (dom ?M) (tkey a q)" by (rule strict_mono_onI) (simp add: tkey_less)
  ultimately have "keys_under ?m (qkey a q) = map (tkey a q) (sorted_list_of_set (dom ?M))"
    by (simp add: keys_under_def sorted_list_of_image fin)
  then show "rows_under ?m (qkey a q) = map (\<lambda>t. the (?M t)) (sorted_list_of_set (dom ?M))"
    by (simp add: rows_under_def qview_of_simps comp_def)
qed

lemma task_page_run:
  fixes a q :: uint64
  assumes "W s" "0 < n"
  defines "R \<equiv> map (\<lambda>t. the (qv_tasks (Q s (a, q)) t)) (sorted_list_of_set (dom (qv_tasks (Q s (a, q)))))"
  shows "\<exists>pg. tasksTable_List P (tc_tasks c) a q TASK_STATE_INVALID None n s = Inr (pg, s) \<and> ltr_Tasks pg = take (nat n) R \<and>
    (nat n < length R \<longrightarrow> ltr_NextPaginationToken pg \<noteq> None) \<and> (R = [] \<longrightarrow> ltr_NextPaginationToken pg = None)"
proof -
  have R: "rows_under (v_tasks (abs s)) (qkey a q) = R" unfolding R_def by (rule task_rows_under[OF assms(1)])
  obtain pg where "bt_ListPaginated (tt_table (tc_tasks c)) (qkey a q) None n s = Inr (pg, s)" "pg_Items pg = take (nat n) R"
    "nat n < length R \<longrightarrow> pg_NextPaginationToken pg \<noteq> None" "R = [] \<longrightarrow> pg_NextPaginationToken pg = None"
    using tasks.ListPaginated_first[OF assms(2), of "qkey a q" s] unfolding R by blast
  then show ?thesis
    by (auto simp: tasksTable_List_def Let_def CoreToMonstera_def MonsteraToCore_def unreverse_def keys_run go_run)
qed

lemma GetTask_ok:
  "GetTask P c now (Some (mkTaskId a q t)) d =
    (Inr (case rows_of (dabs d) (a, q) t of
        Some k \<Rightarrow> if \<not> is_inprog k \<and> expired_at now k then ApplicationError (taskNotFoundError P (mkTaskId a q t)) else Payload k
      | None \<Rightarrow> ApplicationError (taskNotFoundError P (mkTaskId a q t))), d)"
  by (auto simp: GetTask_def in_view_def go_run tables_run rows_of_def store.View is_inprog_def expired_at_def split: option.split)

lemma GetStatistics_ok:
  fixes a q :: uint64
  assumes "good_view (dabs d)"
  defines "X \<equiv> qview_of (dabs d) (a, q)" and "M \<equiv> rows_of (dabs d) (a, q)"
  shows "GetStatistics P c now (Some \<lparr> qid_AccountId = a, qid_QueueId = q \<rparr>) d = (Inr (Payload
    \<lparr> st_EnqueuedTasksCount = i64 (int (count_rows is_enq M)), st_InProgressTasksCount = i64 (int (count_rows is_inprog M)),
      st_DeadTasksCount = i64 (int (count_rows is_dead M)), st_ProcessedTasksCount = cnt_ProcessedTasksCount (qv_counters X),
      st_ExpiredTasksCount = cnt_ExpiredTasksCount (qv_counters X), st_AgeOfOldestEnqueuedTask = oldest_due X now,
      st_TaskIdSequence = sint (qs_TaskIdSequence (qv_state X)) \<rparr>), d)"
proof -
  let ?s = "bs_View (tc_badgerStore c) d"
  have s: "abs ?s = dabs d" by (rule store.View)
  have W: "W ?s" using good_viewD(1)[OF assms(1)] s by simp
  have X: "Q ?s (a, q) = X" by (simp add: s X_def)
  have cn: "counters_ok M (qv_counters X)" using cohD(8)[OF good_viewD(3)[OF assms(1), of a q]] by (simp add: X_def M_def)
  have z: "tw 0 = 0" by (simp add: tw_def)
  have "getAgeOfOldestEnqueuedTask P c a q now ?s = Inr (oldest_due X now, ?s)"
    using W by (auto simp: getAgeOfOldestEnqueuedTask_def keys_run go_run tables_run X z oldest_due_def split: list.split)
  then show ?thesis using cn by (simp add: GetStatistics_def in_view_def go_run tables_run X counters_ok_def)
qed

text \<open>The first page of a listing of all tasks: by id.\<close>

lemma ListTasks_ok:
  assumes "good_view (dabs d)" "lt_QueueId req = Some \<lparr> qid_AccountId = a, qid_QueueId = q \<rparr>" "lt_State req = TASK_STATE_INVALID"
    and "lt_PaginationToken req = None" "qv_purge (qview_of (dabs d) (a, q)) = None"
  defines "M \<equiv> rows_of (dabs d) (a, q)"
  shows "\<exists>pg. ListTasks P c req d = (Inr (Payload pg), d) \<and>
    ltr_Tasks pg = take (nat (GetLimitWithDefaults (lt_Limit req))) (map (\<lambda>t. the (M t)) (sorted_list_of_set (dom M)))"
proof -
  let ?s = "bs_View (tc_badgerStore c) d"
  have s: "abs ?s = dabs d" by (rule store.View)
  have W: "W ?s" using good_viewD(1)[OF assms(1)] s by simp
  have M: "qv_tasks (Q ?s (a, q)) = M" by (simp add: s M_def rows_of_def)
  obtain pg where "tasksTable_List P (tc_tasks c) a q TASK_STATE_INVALID None (GetLimitWithDefaults (lt_Limit req)) ?s = Inr (pg, ?s)"
    "ltr_Tasks pg = take (nat (GetLimitWithDefaults (lt_Limit req))) (map (\<lambda>t. the (M t)) (sorted_list_of_set (dom M)))"
    using task_page_run[OF W GetLimitWithDefaults_bounds(1), where a = a and q = q] unfolding M by blast
  then show ?thesis using assms(2-5) by (auto simp: ListTasks_def in_view_def go_run tables_run s)
qed

end

end
