(* ===== verification/Tasks_Delivery.thy ===== *)
theory Tasks_Delivery
  imports Tasks_Handlers
begin

text \<open>
  \<open>Dequeue\<close> as a whole: the token bucket, the sweep over lapsed leases and
  the scan of the queue index.  \<open>delivery\<close> is its specification over the view
  of one queue.
\<close>

section \<open>The token bucket\<close>

definition unit_nanos :: "IntervalUnit \<Rightarrow> int" where
  "unit_nanos u = (case u of INTERVAL_UNIT_SECONDS \<Rightarrow> time_Second | INTERVAL_UNIT_MINUTES \<Rightarrow> time_Minute
     | INTERVAL_UNIT_HOURS \<Rightarrow> time_Hour | _ \<Rightarrow> 0)"

text \<open>A limiter whose refill interval is at least one nanosecond and fits
  \<open>int64\<close>.\<close>

definition limiter_ok :: "TokenBucketRateLimiting \<Rightarrow> bool" where
  "limiter_ok r \<longleftrightarrow> 0 < tb_MaxTokens r \<and> 0 < tb_Interval r \<and>
    tb_MaxTokens r \<le> tb_Interval r * unit_nanos (tb_IntervalUnit r) \<and>
    tb_Interval r * unit_nanos (tb_IntervalUnit r) < 2 ^ 63"

definition refill_interval :: "TokenBucketRateLimiting \<Rightarrow> int" where
  "refill_interval r = tb_Interval r * unit_nanos (tb_IntervalUnit r) div tb_MaxTokens r"

definition refill :: "TokenBucketRateLimiting \<Rightarrow> int \<Rightarrow> RateLimiterState \<Rightarrow> RateLimiterState" where
  "refill r now st = (if rl_Tokens st < tb_MaxTokens r then
      let n = (now - rl_LastRefilledAt st) div refill_interval r in
      if n \<le> 0 then st
      else if rl_Tokens st + n > tb_MaxTokens r then st\<lparr> rl_Tokens := tb_MaxTokens r, rl_LastRefilledAt := now \<rparr>
      else st\<lparr> rl_Tokens := rl_Tokens st + n, rl_LastRefilledAt := rl_LastRefilledAt st + n * refill_interval r \<rparr>
    else st\<lparr> rl_LastRefilledAt := now \<rparr>)"

definition bucket_ok :: "TokenBucketRateLimiting \<Rightarrow> int \<Rightarrow> RateLimiterState \<Rightarrow> bool" where
  "bucket_ok r now st \<longleftrightarrow> 0 \<le> rl_Tokens st \<and> rl_Tokens st \<le> tb_MaxTokens r \<and>
    0 \<le> rl_LastRefilledAt st \<and> rl_LastRefilledAt st \<le> now \<and> now + tb_MaxTokens r < 2 ^ 63"

text \<open>What a bucket can pay for at \<open>now\<close>, in nanoseconds: its tokens at one
  interval each, and the time since the last refill.\<close>

definition credit :: "TokenBucketRateLimiting \<Rightarrow> int \<Rightarrow> RateLimiterState \<Rightarrow> int" where
  "credit r now st = rl_Tokens st * refill_interval r + (now - rl_LastRefilledAt st)"

lemma refill_interval_pos: "limiter_ok r \<Longrightarrow> 0 < refill_interval r"
  by (simp add: limiter_ok_def refill_interval_def pos_imp_zdiv_pos_iff)

lemma div_facts:
  assumes "0 \<le> x" "0 < (y :: int)"
  shows "x sdiv y = x div y" "0 \<le> x div y" "x div y \<le> x" "x div y * y \<le> x"
proof -
  show "x sdiv y = x div y" using assms by (cases "x = 0") (simp_all add: signed_divide_int_def)
  show "0 \<le> x div y" using assms by (simp add: pos_imp_zdiv_nonneg_iff)
  show "x div y \<le> x" using zdiv_mono2[of x 1 y] assms by simp
  have "x div y * y + x mod y = x" by (rule div_mult_mod_eq)
  then show "x div y * y \<le> x" using pos_mod_sign[OF assms(2), of x] by linarith
qed

lemma go_div_nonneg: "0 \<le> x \<Longrightarrow> x < 2 ^ 63 \<Longrightarrow> 0 < y \<Longrightarrow> go_div x y = go_ret (x div y)"
  using div_facts[of x y] by (simp add: go_div_def)

lemma getRefillInterval_run:
  assumes "limiter_ok r"
  shows "getRefillInterval r = go_ret (refill_interval r)"
proof -
  have "0 < tb_Interval r * unit_nanos (tb_IntervalUnit r)" using assms by (simp add: limiter_ok_def)
  then show ?thesis
    using assms by (auto simp: getRefillInterval_def unit_nanos_def limiter_ok_def refill_interval_def go_div_nonneg split: IntervalUnit.splits)
qed

lemma refillTokens_run:
  assumes "limiter_ok r" "bucket_ok r now st"
  shows "refillTokens r now st = go_ret (refill r now st)"
proof -
  let ?I = "refill_interval r" and ?e = "now - rl_LastRefilledAt st"
  have I: "0 < ?I" using assms(1) by (rule refill_interval_pos)
  have b: "0 \<le> ?e" "?e < 2 ^ 63" "0 \<le> rl_Tokens st" "rl_Tokens st \<le> tb_MaxTokens r" "now + tb_MaxTokens r < 2 ^ 63"
    "0 \<le> rl_LastRefilledAt st" "0 < tb_MaxTokens r"
    using assms by (simp_all add: bucket_ok_def limiter_ok_def)
  note n = div_facts(2-4)[OF b(1) I]
  have m: "0 \<le> ?e div ?I * ?I" using n I by simp
  have "i64 (rl_Tokens st + ?e div ?I) = rl_Tokens st + ?e div ?I" using b n by (intro i64_id) linarith+
  moreover have "i64 (?e div ?I * ?I) = ?e div ?I * ?I" using b n m by (intro i64_id) linarith+
  moreover have "i64 (rl_LastRefilledAt st + ?e div ?I * ?I) = rl_LastRefilledAt st + ?e div ?I * ?I"
    using b n m by (intro i64_id) linarith+
  ultimately show ?thesis
    using b(1,2) by (simp add: refillTokens_def getRefillInterval_run[OF assms(1)] go_div_nonneg[OF b(1,2) I] refill_def Let_def not_less)
qed

text \<open>A refill keeps the bucket within its bounds and creates no credit.\<close>

lemma refill_ok:
  assumes "limiter_ok r" "bucket_ok r now st"
  shows "bucket_ok r now (refill r now st)" "credit r now (refill r now st) \<le> credit r now st"
    "rl_Tokens st \<le> rl_Tokens (refill r now st)"
proof -
  let ?I = "refill_interval r" and ?e = "now - rl_LastRefilledAt st"
  let ?n = "?e div ?I"
  have I: "0 < ?I" using assms(1) by (rule refill_interval_pos)
  have b: "0 \<le> ?e" "0 \<le> rl_Tokens st" "rl_Tokens st \<le> tb_MaxTokens r" "now + tb_MaxTokens r < 2 ^ 63" "0 \<le> rl_LastRefilledAt st"
    using assms by (simp_all add: bucket_ok_def)
  have m: "?n * ?I \<le> ?e" "0 \<le> ?n" using div_facts[OF b(1) I] by simp_all
  then have m': "0 \<le> ?n * ?I" using I by simp
  have full: "tb_MaxTokens r * ?I \<le> rl_Tokens st * ?I + ?n * ?I" if "tb_MaxTokens r < rl_Tokens st + ?n"
    using mult_right_mono[of "tb_MaxTokens r" "rl_Tokens st + ?n" ?I] that I by (simp add: distrib_right)
  show "bucket_ok r now (refill r now st)" using b m m' by (auto simp: bucket_ok_def refill_def Let_def)
  show "credit r now (refill r now st) \<le> credit r now st"
  proof -
    consider "tb_MaxTokens r \<le> rl_Tokens st" | "rl_Tokens st < tb_MaxTokens r" "?n \<le> 0"
      | "rl_Tokens st < tb_MaxTokens r" "0 < ?n" "tb_MaxTokens r < rl_Tokens st + ?n"
      | "rl_Tokens st < tb_MaxTokens r" "0 < ?n" "rl_Tokens st + ?n \<le> tb_MaxTokens r" by linarith
    then show ?thesis
      by cases (use b m m' full in \<open>simp_all add: credit_def refill_def Let_def distrib_right\<close>)
  qed
  show "rl_Tokens st \<le> rl_Tokens (refill r now st)" using b m by (auto simp: refill_def Let_def)
qed

section \<open>One dequeue\<close>

text \<open>The state of the bucket a dequeue starts from, and the one it leaves after
  handing out \<open>n\<close> tasks.\<close>

definition bucket :: "TokenBucketRateLimiting \<Rightarrow> int \<Rightarrow> qview \<Rightarrow> RateLimiterState" where
  "bucket r now X = (case qv_rateLimiter X of None \<Rightarrow> \<lparr> rl_Tokens = tb_MaxTokens r, rl_LastRefilledAt = now \<rparr> | Some st \<Rightarrow> st)"

definition limiter_after :: "DequeueRequest \<Rightarrow> int \<Rightarrow> qview \<Rightarrow> nat \<Rightarrow> RateLimiterState option" where
  "limiter_after req now X n = (case enabledRateLimiting (deq_DequeuingSettings req) of None \<Rightarrow> qv_rateLimiter X
     | Some r \<Rightarrow> Some ((refill r now (bucket r now X))\<lparr> rl_Tokens := rl_Tokens (refill r now (bucket r now X)) - int n \<rparr>))"

definition limit_of :: "DequeueRequest \<Rightarrow> int \<Rightarrow> qview \<Rightarrow> int" where
  "limit_of req now X = (case enabledRateLimiting (deq_DequeuingSettings req) of None \<Rightarrow> deq_DequeueLimit req
     | Some r \<Rightarrow> min (rl_Tokens (refill r now (bucket r now X))) (deq_DequeueLimit req))"

definition limiter_sound :: "DequeueRequest \<Rightarrow> int \<Rightarrow> qview \<Rightarrow> bool" where
  "limiter_sound req now X \<longleftrightarrow> (\<forall>r. enabledRateLimiting (deq_DequeuingSettings req) = Some r \<longrightarrow>
     limiter_ok r \<and> bucket_ok r now (bucket r now X))"

definition maxInProgress_reached :: "DequeueRequest \<Rightarrow> rows \<Rightarrow> bool" where
  "maxInProgress_reached req M \<longleftrightarrow> (\<exists>ds. deq_DequeuingSettings req = Some ds \<and> 0 < ds_MaxInProgressTasks ds \<and>
     ds_MaxInProgressTasks ds \<le> i64 (int (count_rows is_inprog M)))"

text \<open>
  \<open>delivery a q req now X ks hs X'\<close>: the leases that lapsed were treated as
  failures, which gave \<open>X1\<close>; the scan visited the rows \<open>ks\<close>, a prefix of
  the due rows of \<open>X1\<close> in the order of the queue index; the ones that have
  expired were dropped and the others, \<open>hs\<close>, handed out.  The scan ends early
  only when it has reached the limit of the call, the visit budget, or the
  bound on tasks in progress.
\<close>

definition delivery ::
  "uint64 \<Rightarrow> uint64 \<Rightarrow> DequeueRequest \<Rightarrow> int \<Rightarrow> qview \<Rightarrow> Task list \<Rightarrow> Task list \<Rightarrow> qview \<Rightarrow> bool" where
  "delivery a q req now X ks hs X' \<longleftrightarrow> (\<exists>X1.
     coh a q (qv_tasks X1) X1 \<and>
     qv_tasks X1 = lapse_all now (deq_DeadLetterQueueConfig req) (take (nat maxVisitedTasksForDequeuing) (lapsed_rows X now)) (qv_tasks X) \<and>
     qs_LastVisitedEnqueued (qv_state X1) = qs_LastVisitedEnqueued (qv_state X) \<and>
     ks = take (length ks) (due_rows X1 now) \<and> hs = filter (\<lambda>k. \<not> expired_at now k) ks \<and>
     distinct (map task_tid ks) \<and> (\<forall>k \<in> set ks. queued X1 (qv_tasks X1) k) \<and>
     qv_tasks X' = visit_rows now (deq_KeepaliveTimeoutInSeconds req) ks (qv_tasks X1) \<and>
     int (length hs) \<le> max 0 (limit_of req now X) \<and> int (length ks) \<le> maxVisitedTasksForDequeuing \<and>
     (\<forall>ds. deq_DequeuingSettings req = Some ds \<and> 0 < ds_MaxInProgressTasks ds \<and> ds_MaxInProgressTasks ds < 2 ^ 63 \<longrightarrow>
        i64 (int (count_rows is_inprog (qv_tasks X'))) \<le> max (i64 (int (count_rows is_inprog (qv_tasks X1)))) (ds_MaxInProgressTasks ds)) \<and>
     (length ks < length (due_rows X1 now) \<longrightarrow> limit_of req now X \<le> int (length hs) \<or>
        int (length ks) = maxVisitedTasksForDequeuing \<or> maxInProgress_reached req (qv_tasks X')) \<and>
     qs_TaskIdSequence (qv_state X') = qs_TaskIdSequence (qv_state X) \<and> qv_purge X' = qv_purge X \<and>
     qv_rateLimiter X' = limiter_after req now X (length hs))"

lemma lapse_all_dom:
  assumes "\<forall>k \<in> set ks. M (task_tid k) = Some k \<and> is_inprog k" "distinct (map task_tid ks)"
  shows "dom (lapse_all now dlq ks M) \<subseteq> dom M"
  using assms
proof (induction ks arbitrary: M)
  case (Cons k ks)
  let ?M = "fail_rows now dlq (task_tid k) k M"
  have "\<forall>k' \<in> set ks. ?M (task_tid k') = Some k' \<and> is_inprog k'"
  proof
    fix k' assume k': "k' \<in> set ks"
    have "task_tid k \<notin> task_tid ` set ks" using Cons.prems(2) by simp
    then have "task_tid k' \<noteq> task_tid k" using k' by (metis imageI)
    moreover have "M (task_tid k') = Some k'" "is_inprog k'" "\<not> is_dead k'" using Cons.prems(1) k' inprog_states[of k'] by auto
    ultimately show "?M (task_tid k') = Some k' \<and> is_inprog k'" by (simp add: fail_rows_other)
  qed
  then have "dom (lapse_all now dlq ks ?M) \<subseteq> dom ?M" using Cons.IH[of ?M] Cons.prems(2) by simp
  moreover have "dom ?M \<subseteq> dom M" using fail_rows_dom[of M "task_tid k"] Cons.prems(1) by simp
  ultimately show ?case by (simp add: lapse_all_def)
qed (simp add: lapse_all_def)

lemma visit_rows_dom:
  assumes "\<forall>k \<in> set ks. M (task_tid k) \<noteq> None"
  shows "dom (visit_rows now ka ks M) \<subseteq> dom M"
proof -
  have "dom (drop_all es M) \<subseteq> dom M" for es
    unfolding drop_all_def by (induction es arbitrary: M) (fastforce split: if_splits)+
  moreover have "dom (hand_all now ka hs N) \<subseteq> dom N \<union> task_tid ` set hs" for hs N
    unfolding hand_all_def by (induction hs arbitrary: N) (fastforce split: if_splits)+
  moreover have "task_tid ` set (filter (\<lambda>k. \<not> expired_at now k) ks) \<subseteq> dom M" using assms by auto
  ultimately show ?thesis unfolding visit_rows_def by blast
qed

lemma enabled_pos: "enabledRateLimiting ds = Some r \<Longrightarrow> 0 < tb_MaxTokens r \<and> 0 < tb_Interval r"
  by (auto simp: enabledRateLimiting_def split: option.splits if_splits)

context tasks_store
begin

text \<open>The two phases after the token bucket.\<close>

lemma deliver_ok:
  fixes dlq :: "DeadLetterQueueConfig option"
  assumes W: "W s" and c: "coh a q M (Q s (a, q))" and M: "qv_tasks (Q s (a, q)) = M"
    and mv: "all_movable now M" and exp: "no_expired_threads now M"
  defines "X \<equiv> Q s (a, q)"
  defines "M1 \<equiv> lapse_all now dlq (take (nat maxVisitedTasksForDequeuing) (lapsed_rows X now)) M"
  shows "\<exists>s1 X1 n v s' X'. dequeueInProgressTasksBeforeTime P c a q now dlq s = Inr ((), s1) \<and> coh a q M1 X1 \<and> qv_tasks X1 = M1 \<and>
    qs_LastVisitedEnqueued (qv_state X1) = qs_LastVisitedEnqueued (qv_state X) \<and>
    n \<le> length (due_rows X1 now) \<and>
    scan_result now limit ds \<lparr> dv_dequeuedTasks = [], dv_expiredTasks = [], dv_state = qv_state X1, dv_counters = qv_counters X1,
      dv_visitedTasks = 0, dv_sawAnyCandidate = False \<rparr> (take n (due_rows X1 now)) v \<and>
    (n < length (due_rows X1 now) \<longrightarrow> capped limit ds v) \<and>
    (\<forall>k \<in> set (due_rows X1 now). queued X1 M1 k) \<and> distinct (map task_tid (due_rows X1 now)) \<and>
    dequeueTasksBeforeTime P c a q now limit ds ka s1 = Inr (map (hand_row now ka) (dv_dequeuedTasks v), s') \<and> W s' \<and>
    Q s' = (Q s)((a, q) := X') \<and> coh a q (visit_rows now ka (take n (due_rows X1 now)) M1) X' \<and>
    qv_tasks X' = visit_rows now ka (take n (due_rows X1 now)) M1 \<and>
    qs_TaskIdSequence (qv_state X') = qs_TaskIdSequence (qv_state X) \<and>
    qv_rateLimiter X' = qv_rateLimiter X \<and> qv_purge X' = qv_purge X \<and>
    cnt_InProgressTasksCount (qv_counters X') = cnt_InProgressTasksCount (dv_counters v)"
proof -
  obtain s1 X1 where 1: "dequeueInProgressTasksBeforeTime P c a q now dlq s = Inr ((), s1)" "W s1" "Q s1 = (Q s)((a, q) := X1)"
    "coh a q M1 X1" "qv_tasks X1 = M1" "qs_TaskIdSequence (qv_state X1) = qs_TaskIdSequence (qv_state X)"
    "qs_LastVisitedEnqueued (qv_state X1) = qs_LastVisitedEnqueued (qv_state X)" "qv_rateLimiter X1 = qv_rateLimiter X" "qv_purge X1 = qv_purge X"
    using dequeueInProgressTasksBeforeTime_ok[OF W c M mv, of dlq] unfolding M1_def X_def by blast
  have X1: "Q s1 (a, q) = X1" using 1(3) by simp
  have c1: "coh a q M1 (Q s1 (a, q))" "qv_tasks (Q s1 (a, q)) = M1" using 1(4,5) X1 by simp_all
  have exp1: "no_expired_threads now M1" unfolding M1_def by (rule lapse_all_keeps[OF exp])
  from dequeueTasksBeforeTime_ok[OF 1(2) c1 exp1, of limit ds ka] obtain n v s' X' where
    2: "n \<le> length (due_rows X1 now)"
      "scan_result now limit ds \<lparr> dv_dequeuedTasks = [], dv_expiredTasks = [], dv_state = qv_state X1, dv_counters = qv_counters X1,
        dv_visitedTasks = 0, dv_sawAnyCandidate = False \<rparr> (take n (due_rows X1 now)) v"
      "n < length (due_rows X1 now) \<longrightarrow> capped limit ds v"
      "dequeueTasksBeforeTime P c a q now limit ds ka s1 = Inr (map (hand_row now ka) (dv_dequeuedTasks v), s')" "W s'"
      "Q s' = (Q s1)((a, q) := X')" "coh a q (visit_rows now ka (take n (due_rows X1 now)) M1) X'"
      "qv_tasks X' = visit_rows now ka (take n (due_rows X1 now)) M1"
      "qs_TaskIdSequence (qv_state X') = qs_TaskIdSequence (qv_state X1)"
      "qv_rateLimiter X' = qv_rateLimiter X1" "qv_purge X' = qv_purge X1"
      "cnt_InProgressTasksCount (qv_counters X') = cnt_InProgressTasksCount (dv_counters v)"
    unfolding X1 by blast
  have "\<forall>k \<in> set (due_rows X1 now). queued X1 M1 k" "distinct (map task_tid (due_rows X1 now))"
    using due_rows_queued[OF 1(2) c1, of now] unfolding X1 by blast+
  moreover have "Q s' = (Q s)((a, q) := X')" using 2(6) 1(3) by simp
  ultimately show ?thesis using 1 2 by (intro exI[of _ s1] exI[of _ X1] exI[of _ n] exI[of _ v] exI[of _ s'] exI[of _ X']) simp
qed

text \<open>What the scan result says once the counters agree with the rows.\<close>

lemma scan_bounds:
  assumes v: "scan_result now limit ds \<lparr> dv_dequeuedTasks = [], dv_expiredTasks = [], dv_state = st, dv_counters = cn,
      dv_visitedTasks = 0, dv_sawAnyCandidate = False \<rparr> ks v"
    and cn: "cnt_InProgressTasksCount cn = i64 p" "cnt_InProgressTasksCount (dv_counters v) = i64 p'"
  defines "hs \<equiv> filter (\<lambda>k. \<not> expired_at now k) ks"
  shows "dv_dequeuedTasks v = hs" "int (length hs) \<le> max 0 limit" "int (length ks) \<le> maxVisitedTasksForDequeuing"
    "\<forall>d. ds = Some d \<and> 0 < ds_MaxInProgressTasks d \<and> ds_MaxInProgressTasks d < 2 ^ 63 \<longrightarrow> i64 p' \<le> max (i64 p) (ds_MaxInProgressTasks d)"
    "capped limit ds v \<longrightarrow> limit \<le> int (length hs) \<or> int (length ks) = maxVisitedTasksForDequeuing \<or>
      (\<exists>d. ds = Some d \<and> 0 < ds_MaxInProgressTasks d \<and> ds_MaxInProgressTasks d \<le> i64 p')"
proof -
  show hs: "dv_dequeuedTasks v = hs" using v by (simp add: scan_result_def hs_def)
  have vis: "dv_visitedTasks v = int (length ks)" using v by (simp add: scan_result_def)
  have "0 \<le> maxVisitedTasksForDequeuing" by (simp add: maxVisitedTasksForDequeuing_def)
  then show le: "int (length ks) \<le> maxVisitedTasksForDequeuing" using v vis by (simp add: scan_result_def)
  show "int (length hs) \<le> max 0 limit"
  proof (cases "limit < 0")
    case True
    then have "ks = []" using v by (simp add: scan_result_def capped_def)
    then show ?thesis by (simp add: hs_def)
  next
    case False
    then have "int (length (dv_dequeuedTasks v)) \<le> limit" using v unfolding scan_result_def by (elim conjE) simp
    then show ?thesis using hs by simp
  qed
  show "\<forall>d. ds = Some d \<and> 0 < ds_MaxInProgressTasks d \<and> ds_MaxInProgressTasks d < 2 ^ 63 \<longrightarrow> i64 p' \<le> max (i64 p) (ds_MaxInProgressTasks d)"
  proof (intro allI impI)
    fix d assume d: "ds = Some d \<and> 0 < ds_MaxInProgressTasks d \<and> ds_MaxInProgressTasks d < 2 ^ 63"
    have "cnt_InProgressTasksCount (dv_counters v) \<le> max (cnt_InProgressTasksCount cn) (ds_MaxInProgressTasks d)"
      using v d cn(1) unfolding scan_result_def by (auto simp del: max.bounded_iff)
    then show "i64 p' \<le> max (i64 p) (ds_MaxInProgressTasks d)" using cn by simp
  qed
  show "capped limit ds v \<longrightarrow> limit \<le> int (length hs) \<or> int (length ks) = maxVisitedTasksForDequeuing \<or>
      (\<exists>d. ds = Some d \<and> 0 < ds_MaxInProgressTasks d \<and> ds_MaxInProgressTasks d \<le> i64 p')"
    using hs vis le cn(2) by (auto simp: capped_def maxInProgress_saturated_def split: option.splits)
qed

end

context tasks_store
begin

lemma Dequeue_ok:
  assumes g: "good_view (dabs d)" and q: "deq_QueueId req = Some \<lparr> qid_AccountId = a, qid_QueueId = q \<rparr>"
  defines "X \<equiv> qview_of (dabs d) (a, q)"
  assumes pm: "qv_purge X = None" and lim: "limiter_sound req now X"
    and mv: "all_movable now (qv_tasks X)" and exp: "no_expired_threads now (qv_tasks X)"
  shows "\<exists>d' ks hs X'. Dequeue P c now req d = (Inr (Payload (map (hand_row now (deq_KeepaliveTimeoutInSeconds req)) hs)), d') \<and>
    good_view (dabs d') \<and> qview_of (dabs d') = (qview_of (dabs d))((a, q) := X') \<and> delivery a q req now X ks hs X'"
proof -
  let ?s = "bs_Update (tc_badgerStore c) d" and ?ka = "deq_KeepaliveTimeoutInSeconds req" and ?dlq = "deq_DeadLetterQueueConfig req"
  let ?ds = "deq_DequeuingSettings req" and ?lim = "limit_of req now X"
  have s: "abs ?s = dabs d" by (rule store.Update)
  have X: "Q ?s (a, q) = X" by (simp add: s X_def)
  have W: "W ?s" using good_viewD(1)[OF g] s by simp
  have c: "coh a q (qv_tasks X) (Q ?s (a, q))" "qv_tasks (Q ?s (a, q)) = qv_tasks X"
    using good_viewD(3)[OF g, of a q] by (simp_all add: s X_def rows_of_def)
  define M1 where "M1 = lapse_all now ?dlq (take (nat maxVisitedTasksForDequeuing) (lapsed_rows X now)) (qv_tasks X)"
  obtain s1 X1 n v s2 X2 where 1: "dequeueInProgressTasksBeforeTime P c a q now ?dlq ?s = Inr ((), s1)" "coh a q M1 X1" "qv_tasks X1 = M1"
    "qs_LastVisitedEnqueued (qv_state X1) = qs_LastVisitedEnqueued (qv_state X)" "n \<le> length (due_rows X1 now)"
    "scan_result now ?lim ?ds \<lparr> dv_dequeuedTasks = [], dv_expiredTasks = [], dv_state = qv_state X1, dv_counters = qv_counters X1,
      dv_visitedTasks = 0, dv_sawAnyCandidate = False \<rparr> (take n (due_rows X1 now)) v"
    "n < length (due_rows X1 now) \<longrightarrow> capped ?lim ?ds v"
    "\<forall>k \<in> set (due_rows X1 now). queued X1 M1 k" "distinct (map task_tid (due_rows X1 now))"
    "dequeueTasksBeforeTime P c a q now ?lim ?ds ?ka s1 = Inr (map (hand_row now ?ka) (dv_dequeuedTasks v), s2)" "W s2"
    "Q s2 = (Q ?s)((a, q) := X2)" "coh a q (visit_rows now ?ka (take n (due_rows X1 now)) M1) X2"
    "qv_tasks X2 = visit_rows now ?ka (take n (due_rows X1 now)) M1"
    "qs_TaskIdSequence (qv_state X2) = qs_TaskIdSequence (qv_state X)"
    "qv_rateLimiter X2 = qv_rateLimiter X" "qv_purge X2 = qv_purge X"
    "cnt_InProgressTasksCount (qv_counters X2) = cnt_InProgressTasksCount (dv_counters v)"
    using deliver_ok[OF W c mv exp, of ?dlq ?lim ?ds ?ka] unfolding X M1_def[symmetric] by blast
  define ks where "ks = take n (due_rows X1 now)"
  define hs where "hs = filter (\<lambda>k. \<not> expired_at now k) ks"
  have p: "cnt_InProgressTasksCount (qv_counters X1) = i64 (int (count_rows is_inprog M1))"
    "cnt_InProgressTasksCount (dv_counters v) = i64 (int (count_rows is_inprog (qv_tasks X2)))"
    using cohD(8)[OF 1(2)] cohD(8)[OF 1(13)] 1(14,18) by (simp_all add: counters_ok_def)
  note b = scan_bounds[OF 1(6)[folded ks_def] p, folded hs_def]
  have len: "length ks = n" using 1(5) by (simp add: ks_def)
  define X' where "X' = X2\<lparr> qv_rateLimiter := limiter_after req now X (length hs) \<rparr>"
  have del: "delivery a q req now X ks hs X'"
    unfolding delivery_def
  proof (rule exI[of _ X1], intro conjI)
    show "distinct (map task_tid ks)" "\<forall>k \<in> set ks. queued X1 (qv_tasks X1) k"
      using 1(3,8,9) unfolding ks_def take_map[symmetric] by (auto dest: in_set_takeD)
    show "ks = take (length ks) (due_rows X1 now)" using len by (simp add: ks_def)
    show "length ks < length (due_rows X1 now) \<longrightarrow> ?lim \<le> int (length hs) \<or>
        int (length ks) = maxVisitedTasksForDequeuing \<or> maxInProgress_reached req (qv_tasks X')"
      using 1(7) b(5) len by (auto simp: maxInProgress_reached_def X'_def)
  qed (use 1 b in \<open>simp_all add: M1_def X'_def ks_def hs_def\<close>)
  define L where "L = map_option (\<lambda>r. refill r now (bucket r now X)) (enabledRateLimiting ?ds)"
  have L: "(case enabledRateLimiting ?ds of None \<Rightarrow> go_ret None
      | Some r \<Rightarrow> go_bind (rateLimitersTable_GetOrDefault P (tc_rateLimiters c) a q r now) (\<lambda>state.
          go_bind (refillTokens r now state) (\<lambda>state'. go_ret (Some state')))) ?s = Inr (L, ?s)"
    using lim unfolding limiter_sound_def L_def
    by (cases "enabledRateLimiting ?ds") (simp_all add: go_run tables_run X bucket_def[symmetric] refillTokens_run)
  have lim': "(case L of None \<Rightarrow> deq_DequeueLimit req
      | Some st \<Rightarrow> if rl_Tokens st < deq_DequeueLimit req then rl_Tokens st else deq_DequeueLimit req) = ?lim"
    by (cases "enabledRateLimiting ?ds") (simp_all add: L_def limit_of_def min_def)
  define E where "E = (case L of None \<Rightarrow> go_ret ()
      | Some st \<Rightarrow> rateLimitersTable_Set P (tc_rateLimiters c) a q (st\<lparr> rl_Tokens := i64 (rl_Tokens st - int (length hs)) \<rparr>))"
  have "runs E s2 ((Q ?s)((a, q) := X'))"
  proof (cases "enabledRateLimiting ?ds")
    case None
    then have "X' = X2" using 1(16) by (simp add: X'_def limiter_after_def)
    then show ?thesis using None 1(11,12) by (simp add: E_def L_def runs_def)
  next
    case (Some r)
    let ?st = "refill r now (bucket r now X)"
    have "bucket_ok r now ?st" using lim Some unfolding limiter_sound_def by (blast intro: refill_ok(1))
    moreover have "int (length hs) \<le> max 0 (rl_Tokens ?st)" using b(2) Some by (simp add: limit_of_def)
    ultimately have "i64 (rl_Tokens ?st - int (length hs)) = rl_Tokens ?st - int (length hs)"
      by (intro i64_id) (auto simp: bucket_ok_def)
    then show ?thesis
      using Some 1(11,12) by (simp add: E_def L_def runs_def X'_def limiter_after_def tables_run tables_wf)
  qed
  then obtain s3 where 3: "E s2 = Inr ((), s3)" "W s3" "Q s3 = (Q ?s)((a, q) := X')" by (rule runsE)
  have "coherent a q X'"
  proof -
    have "ids_below (qs_TaskIdSequence (qv_state X)) (qv_tasks X)" using good_viewD(4)[OF g, of a q] by (simp add: X_def rows_of_def)
    moreover have "dom (qv_tasks X2) \<subseteq> dom (qv_tasks X)"
    proof -
      have "dom M1 \<subseteq> dom (qv_tasks X)" unfolding M1_def
        by (rule lapse_all_dom) (use lapsed_rows_inprog[OF W c, of now] in \<open>auto simp: X take_map[symmetric] dest: in_set_takeD\<close>)
      moreover have "dom (qv_tasks X2) \<subseteq> dom M1" unfolding 1(14)
        by (rule visit_rows_dom) (use 1(8) in \<open>auto simp: queued_def dest!: in_set_takeD\<close>)
      ultimately show ?thesis by (rule subset_trans[rotated])
    qed
    ultimately have "coherent a q X2" using 1(13-15) by (simp add: coherent_def ids_below_sub)
    then show ?thesis by (simp add: X'_def coherent_admin)
  qed
  then have good: "good_view (abs s3)" using good_view_upd[of ?s s3 a q X'] g 3(2,3) s by simp
  have purge: "qv_purge X = None" by (rule pm)
  let ?out = "map (hand_row now ?ka) hs"
  have "Dequeue P c now req d = in_update (tc_badgerStore c) (\<lambda>_. Inr (Commit (Payload ?out), s3)) d"
    unfolding Dequeue_def in_update_def
    using 1(1,10) L lim' 3(1) by (cases L) (simp_all add: q go_run tables_run X purge b(1) E_def)
  then obtain d' where d': "Dequeue P c now req d = (Inr (Payload ?out), d')" "dabs d' = abs s3"
    using store.in_update_commit[of "\<lambda>_. Inr (Commit (Payload ?out), s3)" d "Payload ?out" s3] by auto
  then show ?thesis using good 3(3) s del by (intro exI[of _ d'] exI[of _ ks] exI[of _ hs] exI[of _ X']) simp
qed

end

end
