(* ===== verification/Tasks_Sweeps.thy ===== *)
theory Tasks_Sweeps
  imports Tasks_Delivery
begin

text \<open>
  The two background sweeps of the tasks core.  \<open>RunTasksGarbageCollection\<close>
  deletes the tasks whose expiry has come, in the order of the expiration
  index, and never a task in progress; \<open>RunPurgeQueueGarbageCollection\<close> drains
  the queues that carry a purge marker.  Both end within their visit budget.
\<close>

section \<open>The expiration sweep\<close>

type_synonym ref = "uint64 \<times> uint64 \<times> uint64 \<times> uint64"

text \<open>The expiration index as a function of the rows: one entry per task that
  is not in progress, under its expiry.\<close>

definition refs_of :: "all_rows \<Rightarrow> ref set" where
  "refs_of V = {(w, a, q, t). \<exists>k. V (a, q) t = Some k \<and> \<not> is_inprog k \<and> w = tw (t_ExpiresAt k)}"

definition due_refs :: "all_rows \<Rightarrow> int \<Rightarrow> ref list" where
  "due_refs V now = filter (\<lambda>(w, _). w \<le> tw now) (sorted_list_of_set (refs_of V))"

definition collect :: "ref list \<Rightarrow> all_rows \<Rightarrow> all_rows" where
  "collect rs V = (\<lambda>(a, q). V (a, q) |` (- {t. \<exists>w. (w, a, q, t) \<in> set rs}))"

definition mk_ref :: "ref \<Rightarrow> expiredTaskRef" where
  "mk_ref = (\<lambda>(w, a, q, t). \<lparr> ref_TaskId = mkTaskId a q t, ref_ExpiresAt = sint w \<rparr>)"

lemma collect_Nil [simp]: "collect [] V = V"
  by (auto simp: collect_def fun_eq_iff restrict_map_def)

lemma collect_Cons: "collect ((w, a, q, t) # rs) V = collect rs (V((a, q) := (V (a, q))(t := None)))"
  by (auto simp: collect_def fun_eq_iff restrict_map_def)

lemma collect_append: "collect (rs @ rs') V = collect rs' (collect rs V)"
  by (auto simp: collect_def fun_eq_iff restrict_map_def)

text \<open>Collecting a prefix of the due entries leaves the rest of them due.\<close>

lemma refs_of_collect:
  assumes "set rs \<subseteq> refs_of V"
  shows "refs_of (collect rs V) = refs_of V - set rs"
proof -
  have "w = tw (t_ExpiresAt k)" if "(w, a, q, t) \<in> set rs" "V (a, q) t = Some k" for w a q t k
    using assms that by (auto simp: refs_of_def)
  then show ?thesis by (force simp: refs_of_def collect_def restrict_map_def split: if_splits)
qed

lemma sorted_list_of_set_Diff:
  assumes "finite A"
  shows "sorted_list_of_set (A - B) = filter (\<lambda>x. x \<notin> B) (sorted_list_of_set A)"
proof (rule sorted_distinct_set_unique)
  show "sorted (filter (\<lambda>x. x \<notin> B) (sorted_list_of_set A))" by (intro sorted_wrt_filter) simp
qed (use assms in auto)

lemma due_refs_collect:
  assumes "finite (refs_of V)"
  shows "due_refs (collect (take n (due_refs V now)) V) now = drop n (due_refs V now)"
proof -
  let ?d = "due_refs V now"
  have sub: "set (take n ?d) \<subseteq> refs_of V" using assms by (auto simp: due_refs_def dest!: in_set_takeD)
  have dist: "distinct ?d" by (simp add: due_refs_def)
  have "due_refs (collect (take n ?d) V) now = filter (\<lambda>x. x \<notin> set (take n ?d)) ?d"
    unfolding due_refs_def refs_of_collect[OF sub[unfolded due_refs_def]] sorted_list_of_set_Diff[OF assms]
    by (simp add: conj_commute case_prod_unfold)
  also have "\<dots> = filter (\<lambda>x. x \<notin> set (take n ?d)) (take n ?d @ drop n ?d)" by simp
  also have "\<dots> = drop n ?d"
  proof -
    have "distinct (take n ?d @ drop n ?d)" using dist by simp
    then have "set (take n ?d) \<inter> set (drop n ?d) = {}" by (simp only: distinct_append)
    then have "filter (\<lambda>x. x \<notin> set (take n ?d)) (drop n ?d) = drop n ?d" by (auto intro: filter_True)
    then show ?thesis by (simp only: filter_append) (simp add: filter_empty_conv)
  qed
  finally show ?thesis .
qed

context tasks_store
begin

lemma refs_of_view:
  assumes "good_view (abs s)"
  shows "refs_of (rows_of (abs s)) = {(w, a, q, t). ekey w a q t \<in> v_expiration (abs s)}"
    and "finite (refs_of (rows_of (abs s)))"
proof -
  show eq: "refs_of (rows_of (abs s)) = {(w, a, q, t). ekey w a q t \<in> v_expiration (abs s)}"
    using cohD(5)[OF good_viewD(3)[OF assms]] by (auto simp: refs_of_def idx_ok_def qview_of_simps)
  have "(\<lambda>(w, a, q, t). ekey w a q t) -` v_expiration (abs s) = {(w, a, q, t). ekey w a q t \<in> v_expiration (abs s)}" by auto
  moreover have "inj (\<lambda>(w, a, q, t). ekey w a q t)" by (auto simp: inj_def)
  ultimately show "finite (refs_of (rows_of (abs s)))"
    using finite_vimageI[OF expir.items_finite, of "\<lambda>(w, a, q, t). ekey w a q t" s] eq by simp
qed

lemma scan_ListDue:
  assumes "int (length acc) < limit"
  shows "go_scan (ListDue_callback P limit) (map (\<lambda>(w, a, q, t). ekey w a q t) es) acc =
    go_ret (acc @ map mk_ref (take (nat limit - length acc) es))"
  using assms
proof (induction es arbitrary: acc)
  case (Cons e es)
  obtain w a q t where e: "e = (w, a, q, t)" by (cases e) auto
  show ?case
  proof (cases "int (length acc) + 1 < limit")
    case True
    then have "nat limit - length acc = Suc (nat limit - Suc (length acc))" by linarith
    then show ?thesis using Cons.IH[of "acc @ [mk_ref e]"] True by (simp add: e ListDue_callback_run mk_ref_def)
  next
    case False
    then have "nat limit - length acc = Suc 0" using Cons.prems by linarith
    then show ?thesis using False by (simp add: e ListDue_callback_run mk_ref_def)
  qed
qed simp

lemma ListDue_run:
  assumes "good_view (abs s)" "0 < limit"
  shows "expirationIndex_ListDue P (tt_expiration (tc_tasks c)) now limit s =
    Inr (map mk_ref (take (nat limit) (due_refs (rows_of (abs s)) now)), s)"
proof -
  let ?R = "refs_of (rows_of (abs s))" and ?f = "\<lambda>(w, a, q, t). ekey w a q t"
  have wf: "\<forall>x \<in> v_expiration (abs s). \<exists>w a q t. x = ekey w a q t" using good_viewD(1)[OF assms(1)] by (simp add: wf_view_def)
  have "v_expiration (abs s) = ?f ` ?R"
  proof (intro equalityI subsetI)
    fix x assume x: "x \<in> v_expiration (abs s)"
    then obtain w a q t where e: "x = ekey w a q t" using wf by blast
    then have "(w, a, q, t) \<in> ?R" using x by (simp add: refs_of_view(1)[OF assms(1)])
    then show "x \<in> ?f ` ?R" by (rule rev_image_eqI) (simp add: e)
  qed (auto simp: refs_of_view(1)[OF assms(1)])
  moreover have "strict_mono_on ?R ?f" by (rule strict_mono_onI) (auto simp: ekey_less)
  ultimately have "items_under (v_expiration (abs s)) [] = map ?f (sorted_list_of_set ?R)"
    using sorted_list_of_image[OF _ refs_of_view(2)[OF assms(1)], of ?f] by (simp add: items_under_def)
  then have "filter (in_prefix_range (be64 (tw 0)) (be64 (tw now))) (items_under (v_expiration (abs s)) []) =
      map ?f (due_refs (rows_of (abs s)) now)"
    by (simp add: filter_map comp_def due_refs_def case_prod_unfold tw_def)
  then show ?thesis
    using assms(2) by (simp add: expirationIndex_ListDue_def keys_run expir.ListInRange go_run scan_ListDue[of "[]", simplified])
qed

lemma delete_row_goes:
  assumes "good_view (abs s)" "rows_of (abs s) (a, q) t = Some k"
  shows "goes (deleteTask P c k reason) s () ((rows_of (abs s))((a, q) := (rows_of (abs s) (a, q))(t := None)))"
proof -
  let ?M = "rows_of (abs s) (a, q)"
  have "steps (deleteTask P c k reason) s () a q (?M(t := None))
      (\<lambda>X'. same_totals (tally reason (qv_counters (Q s (a, q)))) (qv_counters X'))"
    using good_viewD(1)[OF assms(1)] good_viewD(3)[OF assms(1), of a q] assms(2) by (intro deleteTask_ok) (simp_all add: rows_of_def)
  moreover have "ids_below (qs_TaskIdSequence (qv_state (Q s (a, q)))) (?M(t := None))"
    using good_viewD(4)[OF assms(1)] by (rule ids_below_sub) auto
  ultimately show ?thesis by (rule steps_goes[OF assms(1)])
qed

lemma gc_one_goes:
  assumes "good_view (abs s)" "(w, a, q, t) \<in> refs_of (rows_of (abs s))"
  shows "goes (gc_one P c (mk_ref (w, a, q, t))) s () ((rows_of (abs s))((a, q) := (rows_of (abs s) (a, q))(t := None)))"
proof -
  obtain k where k: "rows_of (abs s) (a, q) t = Some k" using assms(2) by (auto simp: refs_of_def)
  from delete_row_goes[OF assms(1) k] show ?thesis
    using k by (simp add: goes_def gc_one_def mk_ref_def go_run tables_run rows_of_def)
qed

lemma gc_page_goes:
  assumes f: "f = (\<lambda>ref _. gc_one P c ref)"
    and "good_view (abs s)" "set rs \<subseteq> refs_of (rows_of (abs s))" "distinct rs"
  shows "goes (go_for f (map mk_ref rs) ()) s () (collect rs (rows_of (abs s)))"
  using assms(2-4)
proof (induction rs arbitrary: s)
  case Nil
  then show ?case using goes_ret[of s "()"] by (simp only: list.map go_for.simps collect_Nil)
next
  case (Cons r rs)
  obtain w a q t where r: "r = (w, a, q, t)" by (cases r) auto
  let ?V = "rows_of (abs s)"
  have "goes (f (mk_ref r) ()) s () (?V((a, q) := (?V (a, q))(t := None)))"
    using gc_one_goes[OF Cons.prems(1), of w a q t] Cons.prems(2) by (simp add: f r)
  then show ?case unfolding list.map go_for.simps
  proof (rule goes_bind)
    fix s1 assume s1: "good_view (abs s1)" "rows_of (abs s1) = ?V((a, q) := (?V (a, q))(t := None))"
    have V: "rows_of (abs s1) = collect [r] ?V" using s1(2) by (simp only: r collect_Cons collect_Nil)
    then have "refs_of (rows_of (abs s1)) = refs_of ?V - {r}" using refs_of_collect[of "[r]" ?V] Cons.prems(2) by simp
    then have "set rs \<subseteq> refs_of (rows_of (abs s1))" using Cons.prems(2,3) by auto
    from Cons.IH[OF s1(1) this] Cons.prems(3)
    show "goes (go_for f (map mk_ref rs) ()) s1 () (collect (r # rs) ?V)"
      using collect_append[of "[r]" rs ?V] V by simp
  qed
qed

lemma gc_loop_goes:
  assumes "good_view (abs s)" "0 < pageSize"
  shows "goes (gc_loop P c now maxVisited pageSize visited) s ()
    (collect (take (nat (maxVisited - visited)) (due_refs (rows_of (abs s)) now)) (rows_of (abs s)))"
  using assms(1)
proof (induction "nat (maxVisited - visited)" arbitrary: visited s rule: less_induct)
  case less
  let ?V = "rows_of (abs s)" and ?d = "due_refs (rows_of (abs s)) now"
  define f where "f = (\<lambda>ref (_ :: unit). gc_one P c ref)"
  show ?case
  proof (cases "visited < maxVisited")
    case False
    then have "nat (maxVisited - visited) = 0" by simp
    then show ?thesis using goes_ret[OF less.prems, of "()"] False by (subst gc_loop.simps) simp
  next
    case True
    define limit where "limit = (if pageSize > maxVisited - visited then maxVisited - visited else pageSize)"
    have lim: "0 < limit" "limit \<le> maxVisited - visited" using True assms(2) by (auto simp: limit_def)
    define rs where "rs = take (nat limit) ?d"
    have sub: "set rs \<subseteq> refs_of ?V" "distinct rs"
      using refs_of_view(2)[OF less.prems] by (auto simp: rs_def due_refs_def dest!: in_set_takeD)
    have unfold: "gc_loop P c now maxVisited pageSize visited s =
        (if rs = [] then go_ret () else go_seq (go_for f (map mk_ref rs) ())
          (if int (length rs) < limit then go_ret ()
           else gc_loop P c now maxVisited pageSize (visited + int (length rs)))) s"
    proof -
      have "gc_loop P c now maxVisited pageSize visited s = go_bind (expirationIndex_ListDue P (tt_expiration (tc_tasks c)) now limit)
          (\<lambda>expired. if expired = [] then go_ret () else go_seq (go_for f expired ())
            (if int (length expired) < limit then go_ret ()
             else gc_loop P c now maxVisited pageSize (visited + int (length expired)))) s"
        using True by (subst gc_loop.simps) (simp only: limit_def f_def Let_def if_True)
      also have "\<dots> = (if map mk_ref rs = [] then go_ret () else go_seq (go_for f (map mk_ref rs) ())
          (if int (length (map mk_ref rs)) < limit then go_ret ()
           else gc_loop P c now maxVisited pageSize (visited + int (length (map mk_ref rs))))) s"
        by (rule go_bind_Inr) (unfold rs_def, rule ListDue_run[OF less.prems lim(1)])
      finally show ?thesis by (simp only: length_map map_is_Nil_conv)
    qed
    show ?thesis
    proof (cases "rs = []")
      case True
      then have "?d = []" using lim(1) by (simp add: rs_def)
      then show ?thesis using goes_ret[OF less.prems, of "()"] unfold True by (simp add: goes_def)
    next
      case False
      have "goes (go_seq (go_for f (map mk_ref rs) ())
          (if int (length rs) < limit then go_ret () else gc_loop P c now maxVisited pageSize (visited + int (length rs)))) s ()
          (collect (take (nat (maxVisited - visited)) ?d) ?V)"
        unfolding goes_seq
      proof (rule goes_bind[OF gc_page_goes[OF f_def less.prems sub]])
        fix s1 assume s1: "good_view (abs s1)" "rows_of (abs s1) = collect rs ?V"
        show "goes (if int (length rs) < limit then go_ret () else gc_loop P c now maxVisited pageSize (visited + int (length rs))) s1 ()
            (collect (take (nat (maxVisited - visited)) ?d) ?V)"
        proof (cases "int (length rs) < limit")
          case True
          then have "length ?d < nat limit" by (auto simp: rs_def min_def split: if_splits)
          then have "take (nat (maxVisited - visited)) ?d = rs" using lim by (simp add: rs_def)
          then show ?thesis using goes_ret[OF s1(1), of "()"] s1(2) True by simp
        next
          case False
          then have len: "length rs = nat limit" by (auto simp: rs_def min_def split: if_splits)
          have step: "visited + int (length rs) = visited + limit" using len lim by simp
          have d1: "due_refs (rows_of (abs s1)) now = drop (nat limit) ?d"
            unfolding s1(2) rs_def by (rule due_refs_collect[OF refs_of_view(2)[OF less.prems]])
          have "nat (maxVisited - (visited + limit)) < nat (maxVisited - visited)" using lim by simp
          from less.hyps[OF this s1(1)]
          have "goes (gc_loop P c now maxVisited pageSize (visited + limit)) s1 ()
              (collect (take (nat (maxVisited - (visited + limit))) (drop (nat limit) ?d)) (collect rs ?V))"
            by (simp only: d1) (simp only: s1(2))
          moreover have "take (nat (maxVisited - visited)) ?d = rs @ take (nat (maxVisited - (visited + limit))) (drop (nat limit) ?d)"
          proof -
            have "nat (maxVisited - visited) = nat limit + nat (maxVisited - (visited + limit))" using lim by linarith
            then show ?thesis by (simp add: rs_def take_add)
          qed
          ultimately show ?thesis using False step by (simp add: collect_append)
        qed
      qed
      then show ?thesis using unfold False by (simp add: goes_def)
    qed
  qed
qed

lemma RunTasksGarbageCollection_ok:
  assumes "good_view (dabs d)"
  shows "\<exists>d'. RunTasksGarbageCollection P c now req d = (Inr (Payload ()), d') \<and> good_view (dabs d') \<and>
    rows_of (dabs d') = collect (take (nat (orDefault (rtgc_MaxVisitedTasks req) defaultGCMaxVisitedTasks))
      (due_refs (rows_of (dabs d)) now)) (rows_of (dabs d)) \<and> same_admin (dabs d) (dabs d')"
proof -
  let ?s = "bs_Update (tc_badgerStore c) d"
  have s: "abs ?s = dabs d" by (rule store.Update)
  define n where "n = orDefault (rtgc_MaxVisitedTasks req) defaultGCMaxVisitedTasks"
  define p where "p = (let p0 = orDefault (rtgc_PageSize req) defaultGCPageSize in if p0 > n then n else p0)"
  have "0 < n" "0 < p" by (auto simp: n_def p_def orDefault_def defaultGCMaxVisitedTasks_def defaultGCPageSize_def Let_def)
  then have "goes (gc_loop P c now n p 0) ?s () (collect (take (nat n) (due_refs (rows_of (dabs d)) now)) (rows_of (dabs d)))"
    using gc_loop_goes[of ?s p now n 0] assms s by simp
  then have "goes (go_seq (gc_loop P c now n p 0) (go_ret (Commit (Payload ())))) ?s (Commit (Payload ()))
      (collect (take (nat n) (due_refs (rows_of (dabs d)) now)) (rows_of (dabs d)))"
    unfolding goes_seq by (rule goes_map)
  from update_goes[OF this refl] show ?thesis
    by (simp add: RunTasksGarbageCollection_def n_def[symmetric] p_def Let_def)
qed

end

section \<open>The purge sweep\<close>

type_synonym admin = "QueueState \<times> RateLimiterState option \<times> PurgeQueueGarbageCollectionRecord option"

definition admin_of :: "tasks_view \<Rightarrow> uint64 \<times> uint64 \<Rightarrow> admin" where
  "admin_of b aq = (qv_state (qview_of b aq), qv_rateLimiter (qview_of b aq), qv_purge (qview_of b aq))"

definition marked :: "tasks_view \<Rightarrow> (uint64 \<times> uint64) set" where
  "marked b = {aq. qv_purge (qview_of b aq) \<noteq> None}"

text \<open>A queue nothing is left of: no task, no marker, no sequence, no bucket.\<close>

definition drained :: "tasks_view \<Rightarrow> uint64 \<times> uint64 \<Rightarrow> bool" where
  "drained b aq \<longleftrightarrow> rows_of b aq = Map.empty \<and> admin_of b aq = (QueueState_zero, None, None)"

definition untouched :: "tasks_view \<Rightarrow> tasks_view \<Rightarrow> uint64 \<times> uint64 \<Rightarrow> bool" where
  "untouched b b' aq \<longleftrightarrow> rows_of b' aq = rows_of b aq \<and> admin_of b' aq = admin_of b aq"

definition size_of :: "tasks_view \<Rightarrow> uint64 \<times> uint64 \<Rightarrow> nat" where
  "size_of b aq = card (dom (rows_of b aq))"

text \<open>What a sweep may do to a marked queue: rows only disappear, and the
  marker and the other rows of the queue stay until nothing is left.\<close>

definition swept :: "tasks_view \<Rightarrow> tasks_view \<Rightarrow> uint64 \<times> uint64 \<Rightarrow> bool" where
  "swept b b' aq \<longleftrightarrow> rows_of b' aq \<subseteq>\<^sub>m rows_of b aq \<and> (admin_of b' aq = admin_of b aq \<or> drained b' aq)"

lemma untouched_swept:
  "untouched b b' aq \<Longrightarrow> swept b b' aq"
  "untouched b b1 aq \<Longrightarrow> swept b1 b2 aq \<Longrightarrow> swept b b2 aq"
  by (simp_all add: untouched_def swept_def)

lemma same_admin_iff: "same_admin b b' \<longleftrightarrow> admin_of b' = admin_of b"
  by (auto simp: same_admin_def same_rest_def admin_of_def fun_eq_iff)

lemma good_finite: "good_view b \<Longrightarrow> finite (dom (rows_of b aq))"
  using cohD(2)[OF good_viewD(3), of b "fst aq" "snd aq"] by simp

lemma card_dom_restrict:
  assumes "finite (dom M)" "T \<subseteq> dom M"
  shows "card (dom (M |` (- T))) + card T = card (dom M)"
proof -
  have "dom (M |` (- T)) = dom M - T" by (auto simp: restrict_map_def split: if_splits)
  then show ?thesis using assms by (simp add: card_Diff_subset finite_subset card_mono)
qed

definition queue_of :: "PurgeQueueGarbageCollectionRecord \<Rightarrow> uint64 \<times> uint64" where
  "queue_of r = (qid_AccountId (pgc_QueueId r), qid_QueueId (pgc_QueueId r))"

context tasks_store
begin

text \<open>One page: the first \<open>m\<close> of its tasks are deleted.\<close>

lemma purge_page_goes:
  assumes f: "f = (\<lambda>task (visited, _ :: bool). go_seq (deleteTask P c task taskDeletionNone)
      (let visited' = visited + 1 in
       if visited' \<ge> maxV then go_ret (False, (visited', True)) else go_ret (True, (visited', False))))"
    and "good_view (abs s)" "v < maxV" "distinct ts" "set ts \<subseteq> dom (rows_of (abs s) (a, q))"
  shows "\<exists>m stop. m \<le> length ts \<and> (if stop then v + int m = maxV else m = length ts \<and> v + int m < maxV) \<and>
    goes (go_scan f (map (\<lambda>t. the (rows_of (abs s) (a, q) t)) ts) (v, False)) s (v + int m, stop)
      ((rows_of (abs s))((a, q) := rows_of (abs s) (a, q) |` (- set (take m ts))))"
  using assms(2-5)
proof (induction ts arbitrary: s v)
  case Nil
  have "(rows_of (abs s))((a, q) := rows_of (abs s) (a, q) |` (- set (take 0 []))) = rows_of (abs s)" by (simp add: restrict_map_def)
  then show ?case using goes_ret[OF Nil.prems(1), of "(v, False)"] Nil.prems(2)
    by (intro exI[of _ 0] exI[of _ False]) (simp add: goes_def)
next
  case (Cons t ts)
  let ?V = "rows_of (abs s)"
  let ?M = "?V (a, q)"
  obtain k where k: "?M t = Some k" using Cons.prems(4) by auto
  have del: "goes (deleteTask P c k taskDeletionNone) s () (?V((a, q) := ?M(t := None)))"
    by (rule delete_row_goes[OF Cons.prems(1) k])
  then obtain s1 where s1: "deleteTask P c k taskDeletionNone s = Inr ((), s1)" "good_view (abs s1)"
    "rows_of (abs s1) = ?V((a, q) := ?M(t := None))" "same_admin (abs s) (abs s1)" by (rule goesE)
  show ?case
  proof (cases "v + 1 < maxV")
    case False
    then have v: "v + 1 = maxV" using Cons.prems(2) by simp
    have "go_scan f (map (\<lambda>t. the (?M t)) (t # ts)) (v, False) s = Inr ((v + 1, True), s1)"
      using s1(1) v k by (simp add: f go_run Let_def)
    moreover have "rows_of (abs s1) = ?V((a, q) := ?M |` (- set (take 1 (t # ts))))"
      unfolding s1(3) by (auto simp: restrict_map_def fun_eq_iff)
    ultimately have "goes (go_scan f (map (\<lambda>t. the (?M t)) (t # ts)) (v, False)) s (v + int 1, True)
        (?V((a, q) := ?M |` (- set (take 1 (t # ts)))))"
      using s1(2,4) unfolding goes_def by (intro exI[of _ s1]) (simp del: fun_upd_apply go_scan.simps)
    moreover have "1 \<le> length (t # ts)" "if True then v + int 1 = maxV else 1 = length (t # ts) \<and> v + int 1 < maxV"
      using v by simp_all
    ultimately show ?thesis by blast
  next
    case True
    have M1: "rows_of (abs s1) (a, q) = ?M(t := None)" using s1(3) by simp
    have d: "distinct ts" "set ts \<subseteq> dom (rows_of (abs s1) (a, q))" using Cons.prems(3,4) M1 by auto
    from Cons.IH[OF s1(2) True d] obtain m stop where
      m: "m \<le> length ts" "if stop then v + 1 + int m = maxV else m = length ts \<and> v + 1 + int m < maxV"
      "goes (go_scan f (map (\<lambda>t. the (rows_of (abs s1) (a, q) t)) ts) (v + 1, False)) s1 (v + 1 + int m, stop)
        ((rows_of (abs s1))((a, q) := rows_of (abs s1) (a, q) |` (- set (take m ts))))" by blast
    have same: "map (\<lambda>t. the (rows_of (abs s1) (a, q) t)) ts = map (\<lambda>t. the (?M t)) ts" using Cons.prems(3) M1 by auto
    have V: "(rows_of (abs s1))((a, q) := rows_of (abs s1) (a, q) |` (- set (take m ts))) =
        ?V((a, q) := ?M |` (- set (take (Suc m) (t # ts))))"
      unfolding M1 s1(3) by (auto simp: restrict_map_def fun_eq_iff)
    have "go_scan f (map (\<lambda>t. the (?M t)) (t # ts)) (v, False) s = go_scan f (map (\<lambda>t. the (?M t)) ts) (v + 1, False) s1"
      using s1(1) True k by (simp add: f go_run Let_def)
    then have "goes (go_scan f (map (\<lambda>t. the (?M t)) (t # ts)) (v, False)) s (v + int (Suc m), stop)
        (?V((a, q) := ?M |` (- set (take (Suc m) (t # ts)))))"
      using m(3) same_admin_trans[OF s1(4)] unfolding V same goes_def by (auto simp: add.assoc)
    moreover have "Suc m \<le> length (t # ts)"
      "if stop then v + int (Suc m) = maxV else Suc m = length (t # ts) \<and> v + int (Suc m) < maxV"
      using m(1,2) by (auto split: if_splits)
    ultimately show ?thesis by blast
  qed
qed

text \<open>The result of draining one queue from visit count \<open>v\<close>.\<close>

definition drains ::
  "('s, int \<times> bool) go \<Rightarrow> 's \<Rightarrow> uint64 \<times> uint64 \<Rightarrow> int \<Rightarrow> int \<Rightarrow> bool" where
  "drains m s aq v maxV \<longleftrightarrow> (\<exists>s' n stop. m s = Inr ((v + int n, stop), s') \<and> good_view (abs s') \<and>
     (\<forall>x. x \<noteq> aq \<longrightarrow> untouched (abs s) (abs s') x) \<and> rows_of (abs s') aq \<subseteq>\<^sub>m rows_of (abs s) aq \<and>
     n + size_of (abs s') aq = size_of (abs s) aq \<and>
     (if stop then v + int n = maxV \<and> admin_of (abs s') aq = admin_of (abs s) aq
      else v + int n < maxV \<and> drained (abs s') aq))"

lemma drained_queue:
  assumes "good_view (abs s)" "rows_of (abs s) (a, q) = Map.empty" "qv_purge (Q s (a, q)) \<noteq> None"
    and r: "pgc_QueueId r = \<lparr> qid_AccountId = a, qid_QueueId = q \<rparr>"
  shows "\<exists>s'. go_seq (purgeGCRecordsTable_Delete P (tc_purgeGCRecords c) r)
     (go_seq (countersTable_Delete P (tc_counters c) a q)
     (go_seq (queueStateTable_Delete P (tc_queueState c) a q)
     (go_seq (rateLimitersTable_Delete P (tc_rateLimiters c) a q) (go_ret x)))) s = Inr (x, s') \<and> good_view (abs s') \<and>
     (\<forall>y. y \<noteq> (a, q) \<longrightarrow> untouched (abs s) (abs s') y) \<and> drained (abs s') (a, q)"
proof -
  let ?X = "Q s (a, q)"
  define s1 where "s1 = go_out (purgeGCRecordsTable_Delete P (tc_purgeGCRecords c) r) s"
  define s2 where "s2 = go_out (countersTable_Delete P (tc_counters c) a q) s1"
  define s3 where "s3 = go_out (queueStateTable_Delete P (tc_queueState c) a q) s2"
  define s4 where "s4 = go_out (rateLimitersTable_Delete P (tc_rateLimiters c) a q) s3"
  let ?X' = "?X\<lparr> qv_purge := None, qv_counters := TasksCounter_zero, qv_state := QueueState_zero, qv_rateLimiter := None \<rparr>"
  have W: "W s" using good_viewD(1)[OF assms(1)] .
  have run: "purgeGCRecordsTable_Delete P (tc_purgeGCRecords c) r s = Inr ((), s1)"
    "countersTable_Delete P (tc_counters c) a q s1 = Inr ((), s2)" "queueStateTable_Delete P (tc_queueState c) a q s2 = Inr ((), s3)"
    "rateLimitersTable_Delete P (tc_rateLimiters c) a q s3 = Inr ((), s4)"
    using assms(3) r by (simp_all add: s1_def s2_def s3_def s4_def tables_run)
  have Q4: "Q s4 = (Q s)((a, q) := ?X')" using assms(3) r by (simp add: s1_def s2_def s3_def s4_def tables_run)
  have W4: "W s4" using W assms(3) r by (simp add: s1_def s2_def s3_def s4_def tables_wf)
  have M: "qv_tasks ?X = Map.empty" using assms(2) by (simp add: rows_of_def)
  have "coh a q Map.empty ?X" using good_viewD(3)[OF assms(1), of a q] assms(2) by simp
  then have "coh a q Map.empty ?X'"
    using threads_ok_fields[of ?X' ?X a q] by (simp add: coh_def counters_ok_def count_rows_def TasksCounter_zero_def i64_def)
  then have "coherent a q ?X'" using M by (simp add: coherent_def ids_below_def)
  then have good: "good_view (abs s4)" using good_view_upd[OF assms(1) W4 Q4] by blast
  have "go_seq (purgeGCRecordsTable_Delete P (tc_purgeGCRecords c) r)
     (go_seq (countersTable_Delete P (tc_counters c) a q)
     (go_seq (queueStateTable_Delete P (tc_queueState c) a q)
     (go_seq (rateLimitersTable_Delete P (tc_rateLimiters c) a q) (go_ret x)))) s = Inr (x, s4)"
    using run by (simp add: go_run)
  moreover have "untouched (abs s) (abs s4) y" if "y \<noteq> (a, q)" for y
    using Q4 that by (simp add: untouched_def rows_of_def admin_of_def)
  moreover have "drained (abs s4) (a, q)" using Q4 M by (simp add: drained_def rows_of_def admin_of_def)
  ultimately show ?thesis using good by blast
qed

lemma untouched_trans: "untouched b b1 x \<Longrightarrow> untouched b1 b2 x \<Longrightarrow> untouched b b2 x"
  by (simp add: untouched_def)

lemma purge_record_drains:
  assumes "good_view (abs s)" "qv_purge (Q s (a, q)) \<noteq> None" "0 < pageSize" "v < maxV" "nat (maxV - v) \<le> n"
    and r: "pgc_QueueId r = \<lparr> qid_AccountId = a, qid_QueueId = q \<rparr>"
  shows "drains (purge_record (Suc n) P c pageSize maxV r v) s (a, q) v maxV"
  using assms(1,2,4,5)
proof (induction n arbitrary: s v)
  case 0
  then show ?case by simp
next
  case (Suc n)
  let ?V = "rows_of (abs s)"
  let ?M = "?V (a, q)"
  let ?ids = "sorted_list_of_set (dom ?M)"
  have W: "W s" using good_viewD(1)[OF Suc.prems(1)] .
  have fin: "finite (dom ?M)" by (rule good_finite[OF Suc.prems(1)])
  obtain pg where pg: "tasksTable_List P (tc_tasks c) a q TASK_STATE_INVALID None pageSize s = Inr (pg, s)"
    "ltr_Tasks pg = map (\<lambda>t. the (?M t)) (take (nat pageSize) ?ids)"
    "nat pageSize < length ?ids \<longrightarrow> ltr_NextPaginationToken pg \<noteq> None" "?ids = [] \<longrightarrow> ltr_NextPaginationToken pg = None"
    using task_page_run[OF W assms(3), where a = a and q = q] by (auto simp: rows_of_def take_map)
  define ts where "ts = take (nat pageSize) ?ids"
  have ts: "distinct ts" "set ts \<subseteq> dom ?M" using fin by (auto simp: ts_def dest!: in_set_takeD)
  define f where "f = (\<lambda>task (visited, _ :: bool). go_seq (deleteTask P c task taskDeletionNone)
      (let visited' = visited + 1 in
       if visited' \<ge> maxV then go_ret (False, (visited', True)) else go_ret (True, (visited', False))))"
  obtain m stop where m: "m \<le> length ts" "if stop then v + int m = maxV else m = length ts \<and> v + int m < maxV"
    "goes (go_scan f (map (\<lambda>t. the (?M t)) ts) (v, False)) s (v + int m, stop) (?V((a, q) := ?M |` (- set (take m ts))))"
    using purge_page_goes[OF f_def Suc.prems(1,3) ts] by blast
  from m(3) obtain s1 where s1: "go_scan f (map (\<lambda>t. the (?M t)) ts) (v, False) s = Inr ((v + int m, stop), s1)" "good_view (abs s1)"
    "rows_of (abs s1) = ?V((a, q) := ?M |` (- set (take m ts)))" "same_admin (abs s) (abs s1)" by (rule goesE)
  have page: "purge_page P c maxV (ltr_Tasks pg) v s = Inr ((v + int m, stop), s1)"
    using s1(1) by (simp add: purge_page_def f_def ts_def pg(2))
  have sz: "m + size_of (abs s1) (a, q) = size_of (abs s) (a, q)"
  proof -
    have "set (take m ts) \<subseteq> dom ?M" using ts(2) by (auto dest!: in_set_takeD)
    from card_dom_restrict[OF fin this] show ?thesis
      using m(1) ts(1) by (simp add: size_of_def s1(3) distinct_card)
  qed
  have adm: "admin_of (abs s1) = admin_of (abs s)" using s1(4) by (simp add: same_admin_iff)
  have off: "untouched (abs s) (abs s1) x" if "x \<noteq> (a, q)" for x using that adm by (simp add: untouched_def s1(3))
  have sub: "rows_of (abs s1) (a, q) \<subseteq>\<^sub>m ?M" by (auto simp: s1(3) map_le_def restrict_map_def)
  have purge1: "qv_purge (Q s1 (a, q)) \<noteq> None" using Suc.prems(2) adm by (simp add: admin_of_def fun_eq_iff)
  have code: "purge_record (Suc (Suc n)) P c pageSize maxV r v s =
      (if stop then go_ret (v + int m, True)
       else if ltr_NextPaginationToken pg \<noteq> None then purge_record (Suc n) P c pageSize maxV r (v + int m)
       else go_seq (purgeGCRecordsTable_Delete P (tc_purgeGCRecords c) r)
         (go_seq (countersTable_Delete P (tc_counters c) a q)
         (go_seq (queueStateTable_Delete P (tc_queueState c) a q)
         (go_seq (rateLimitersTable_Delete P (tc_rateLimiters c) a q) (go_ret (v + int m, False)))))) s1"
    unfolding purge_record.simps(2) Let_def r QueueId.select_convs
    by (simp only: go_bind_def pg(1) page sum.case prod.case)
  show ?case
  proof (cases stop)
    case True
    then show ?thesis using code m(2) s1(2) off sub sz adm
      unfolding drains_def by (intro exI[of _ s1] exI[of _ m] exI[of _ True]) simp
  next
    case go: False
    then have m': "m = length ts" "v + int m < maxV" using m(2) by simp_all
    show ?thesis
    proof (cases "ltr_NextPaginationToken pg")
      case None
      then have "length ?ids \<le> nat pageSize" using pg(3) by (meson not_le_imp_less)
      then have "set ts = dom ?M" using fin by (simp add: ts_def)
      then have "rows_of (abs s1) (a, q) = Map.empty" using m'(1) by (auto simp: s1(3) restrict_map_def fun_eq_iff dom_def)
      from drained_queue[OF s1(2) this purge1 r, of "(v + int m, False)"] obtain s2 where
        s2: "purge_record (Suc (Suc n)) P c pageSize maxV r v s = Inr ((v + int m, False), s2)" "good_view (abs s2)"
        "\<forall>y. y \<noteq> (a, q) \<longrightarrow> untouched (abs s1) (abs s2) y" "drained (abs s2) (a, q)"
        using code go None by auto
      have "size_of (abs s1) (a, q) = 0" "size_of (abs s2) (a, q) = 0"
        using \<open>rows_of (abs s1) (a, q) = Map.empty\<close> s2(4) by (simp_all add: size_of_def drained_def)
      then show ?thesis
        using s2 m'(2) sz untouched_trans[OF off]
        unfolding drains_def by (intro exI[of _ s2] exI[of _ m] exI[of _ False]) (simp add: drained_def)
    next
      case (Some tok)
      then have "ts \<noteq> []" using pg(4) assms(3) by (auto simp: ts_def)
      then have "0 < m" using m'(1) by simp
      then have "nat (maxV - (v + int m)) \<le> n" using Suc.prems(4) by linarith
      from Suc.IH[OF s1(2) purge1 m'(2) this] obtain s2 n2 stop2 where
        s2: "purge_record (Suc n) P c pageSize maxV r (v + int m) s1 = Inr ((v + int m + int n2, stop2), s2)" "good_view (abs s2)"
        "\<forall>x. x \<noteq> (a, q) \<longrightarrow> untouched (abs s1) (abs s2) x" "rows_of (abs s2) (a, q) \<subseteq>\<^sub>m rows_of (abs s1) (a, q)"
        "n2 + size_of (abs s2) (a, q) = size_of (abs s1) (a, q)"
        "if stop2 then v + int m + int n2 = maxV \<and> admin_of (abs s2) (a, q) = admin_of (abs s1) (a, q)
          else v + int m + int n2 < maxV \<and> drained (abs s2) (a, q)"
        unfolding drains_def by blast
      have "purge_record (Suc (Suc n)) P c pageSize maxV r v s = Inr ((v + int (m + n2), stop2), s2)"
        using code go Some s2(1) by (simp add: add.assoc)
      moreover have "rows_of (abs s2) (a, q) \<subseteq>\<^sub>m ?M" using s2(4) sub by (rule map_le_trans)
      moreover have "m + n2 + size_of (abs s2) (a, q) = size_of (abs s) (a, q)" using s2(5) sz by simp
      moreover have "if stop2 then v + int (m + n2) = maxV \<and> admin_of (abs s2) (a, q) = admin_of (abs s) (a, q)
          else v + int (m + n2) < maxV \<and> drained (abs s2) (a, q)" using s2(6) adm by (auto simp: add.assoc split: if_splits)
      ultimately show ?thesis
        using s2(2,3) untouched_trans[OF off] unfolding drains_def by blast
    qed
  qed
qed

text \<open>The loop over the markers.\<close>

lemma purge_loop:
  assumes f: "f = (\<lambda>gcRecord visitedTasks.
        go_bind (purge_record (Suc (nat maxV)) P c pageSize maxV gcRecord visitedTasks)
          (\<lambda>(visitedTasks', stop). go_ret (\<not> stop, visitedTasks')))"
    and "0 < pageSize"
    and "good_view (abs s)" "0 \<le> v" "v < maxV" "distinct (map queue_of rs)" "queue_of ` set rs \<subseteq> marked (abs s)"
  shows "\<exists>v' s'. go_scan f rs v s = Inr (v', s') \<and> good_view (abs s') \<and> v \<le> v' \<and> v' \<le> maxV \<and>
    (\<forall>aq. aq \<notin> queue_of ` set rs \<longrightarrow> untouched (abs s) (abs s') aq) \<and> (\<forall>aq \<in> queue_of ` set rs. swept (abs s) (abs s') aq) \<and>
    v' = v + (\<Sum>aq \<in> queue_of ` set rs. int (size_of (abs s) aq) - int (size_of (abs s') aq)) \<and>
    (v' < maxV \<longrightarrow> (\<forall>aq \<in> queue_of ` set rs. drained (abs s') aq))"
  using assms(3-7)
proof (induction rs arbitrary: s v)
  case Nil
  then show ?case by (simp add: untouched_def)
next
  case (Cons r rs)
  obtain a q where aq: "queue_of r = (a, q)" by (cases "queue_of r")
  then have r: "pgc_QueueId r = \<lparr> qid_AccountId = a, qid_QueueId = q \<rparr>" by (simp add: queue_of_def)
  have purge: "qv_purge (Q s (a, q)) \<noteq> None" using Cons.prems(5) aq by (simp add: marked_def)
  have "drains (purge_record (Suc (nat maxV)) P c pageSize maxV r v) s (a, q) v maxV"
    using Cons.prems(2,3) by (intro purge_record_drains[OF Cons.prems(1) purge assms(2) _ _ r]) simp_all
  then obtain s1 n stop where s1: "purge_record (Suc (nat maxV)) P c pageSize maxV r v s = Inr ((v + int n, stop), s1)" "good_view (abs s1)"
    "\<forall>x. x \<noteq> (a, q) \<longrightarrow> untouched (abs s) (abs s1) x" "rows_of (abs s1) (a, q) \<subseteq>\<^sub>m rows_of (abs s) (a, q)"
    "n + size_of (abs s1) (a, q) = size_of (abs s) (a, q)"
    "if stop then v + int n = maxV \<and> admin_of (abs s1) (a, q) = admin_of (abs s) (a, q) else v + int n < maxV \<and> drained (abs s1) (a, q)"
    unfolding drains_def by blast
  have fr: "f r v s = Inr ((\<not> stop, v + int n), s1)"
    unfolding f by (simp only: go_bind_def s1(1) sum.case prod.case go_run_basic)
  have new: "(a, q) \<notin> queue_of ` set rs" using Cons.prems(4) aq by auto
  have off1: "untouched (abs s) (abs s1) x" if "x \<in> queue_of ` set rs" for x using s1(3) new that by metis
  show ?case
  proof (cases stop)
    case True
    have "go_scan f (r # rs) v s = Inr (v + int n, s1)"
      unfolding go_scan.simps by (simp only: go_bind_def fr sum.case prod.case True not_True_eq_False if_False go_run_basic)
    moreover have "v + int n = v + (\<Sum>x \<in> queue_of ` set (r # rs). int (size_of (abs s) x) - int (size_of (abs s1) x))"
    proof -
      have "(\<Sum>x \<in> queue_of ` set rs. int (size_of (abs s) x) - int (size_of (abs s1) x)) = 0"
        using off1 by (intro sum.neutral) (simp add: untouched_def size_of_def)
      then show ?thesis using new s1(5) by (simp add: aq)
    qed
    moreover have "swept (abs s) (abs s1) x" if x: "x \<in> queue_of ` set (r # rs)" for x
    proof (cases "x = (a, q)")
      case True
      then show ?thesis using s1(4,6) \<open>stop\<close> by (simp add: swept_def)
    next
      case False
      then have "x \<in> queue_of ` set rs" using x aq by auto
      then show ?thesis using off1 untouched_swept(1) by blast
    qed
    ultimately show ?thesis using s1(2,3,6) True aq by (intro exI[of _ "v + int n"] exI[of _ s1]) auto
  next
    case go: False
    then have v1: "v + int n < maxV" "drained (abs s1) (a, q)" using s1(6) by simp_all
    have "queue_of ` set rs \<subseteq> marked (abs s1)"
    proof
      fix x assume x: "x \<in> queue_of ` set rs"
      then have "x \<in> marked (abs s)" using Cons.prems(5) by auto
      then show "x \<in> marked (abs s1)" using off1[OF x] by (simp add: marked_def untouched_def admin_of_def)
    qed
    moreover have "0 \<le> v + int n" "distinct (map queue_of rs)" using Cons.prems(2,4) by simp_all
    ultimately obtain v' s' where s2: "go_scan f rs (v + int n) s1 = Inr (v', s')" "good_view (abs s')" "v + int n \<le> v'" "v' \<le> maxV"
      "\<forall>x. x \<notin> queue_of ` set rs \<longrightarrow> untouched (abs s1) (abs s') x" "\<forall>x \<in> queue_of ` set rs. swept (abs s1) (abs s') x"
      "v' = v + int n + (\<Sum>x \<in> queue_of ` set rs. int (size_of (abs s1) x) - int (size_of (abs s') x))"
      "v' < maxV \<longrightarrow> (\<forall>x \<in> queue_of ` set rs. drained (abs s') x)"
      using Cons.IH[OF s1(2) _ v1(1)] by blast
    have "go_scan f (r # rs) v s = Inr (v', s')"
      unfolding go_scan.simps by (simp only: go_bind_def fr sum.case prod.case go not_False_eq_True if_True s2(1))
    moreover have aq': "untouched (abs s1) (abs s') (a, q)" using s2(5) new by blast
    then have dr: "drained (abs s') (a, q)" "size_of (abs s') (a, q) = size_of (abs s1) (a, q)"
      using v1(2) by (simp_all add: drained_def untouched_def size_of_def)
    moreover have "untouched (abs s) (abs s') x" if "x \<notin> queue_of ` set (r # rs)" for x
      using that s1(3) s2(5) aq untouched_trans by (metis image_insert insert_iff list.simps(15))
    moreover have "swept (abs s) (abs s') x" if x: "x \<in> queue_of ` set (r # rs)" for x
    proof (cases "x = (a, q)")
      case True
      then show ?thesis using dr(1) by (simp add: swept_def drained_def)
    next
      case False
      then have "x \<in> queue_of ` set rs" using x aq by auto
      then show ?thesis using s2(6) off1 untouched_swept(2) by blast
    qed
    moreover have "v' = v + (\<Sum>x \<in> queue_of ` set (r # rs). int (size_of (abs s) x) - int (size_of (abs s') x))"
    proof -
      have "(\<Sum>x \<in> queue_of ` set rs. int (size_of (abs s) x) - int (size_of (abs s') x)) =
          (\<Sum>x \<in> queue_of ` set rs. int (size_of (abs s1) x) - int (size_of (abs s') x))"
        using off1 by (intro sum.cong) (simp_all add: untouched_def size_of_def)
      then show ?thesis using new s1(5) s2(7) dr(2) by (simp add: aq)
    qed
    moreover have "v' < maxV \<longrightarrow> (\<forall>x \<in> queue_of ` set (r # rs). drained (abs s') x)" using s2(8) dr(1) aq by simp
    ultimately show ?thesis using s2(2-4) by (intro exI[of _ v'] exI[of _ s']) simp
  qed
qed

lemma marker_list:
  assumes "W s" "0 < n"
  shows "\<exists>rs. purgeGCRecordsTable_List P (tc_purgeGCRecords c) n s = Inr (rs, s) \<and> distinct (map queue_of rs) \<and>
    queue_of ` set rs \<subseteq> marked (abs s) \<and> (card (marked (abs s)) \<le> nat n \<longrightarrow> queue_of ` set rs = marked (abs s)) \<and> finite (marked (abs s))"
proof -
  let ?m = "v_purge (abs s)"
  let ?ks = "sorted_list_of_set (dom ?m)"
  have fin: "finite (dom ?m)" by (rule purge.dom_finite)
  have key: "k = (case queue_of (the (?m k)) of (a, q) \<Rightarrow> qkey a q)" if "k \<in> dom ?m" for k
    using assms(1) that by (auto simp: wf_view_def queue_of_def)
  have mk: "marked (abs s) = {(a, q). qkey a q \<in> dom ?m}" by (auto simp: marked_def qview_of_simps)
  have im: "(\<lambda>k. queue_of (the (?m k))) ` dom ?m = marked (abs s)"
  proof (intro equalityI subsetI)
    fix x assume "x \<in> (\<lambda>k. queue_of (the (?m k))) ` dom ?m"
    then obtain k where "k \<in> dom ?m" "x = queue_of (the (?m k))" by blast
    then show "x \<in> marked (abs s)" using key[of k] by (auto simp: mk split: prod.splits)
  next
    fix x assume "x \<in> marked (abs s)"
    then obtain a q where x: "x = (a, q)" "qkey a q \<in> dom ?m" by (auto simp: mk)
    then have "queue_of (the (?m (qkey a q))) = x" using key[OF x(2)] by (auto split: prod.splits)
    then show "x \<in> (\<lambda>k. queue_of (the (?m k))) ` dom ?m" using x(2) by (metis imageI)
  qed
  have inj: "inj_on (\<lambda>k. queue_of (the (?m k))) (dom ?m)" by (rule inj_onI) (metis key)
  have cd: "card (marked (abs s)) = length ?ks" using card_image[OF inj] im by simp
  have rows: "rows_under ?m [] = map (\<lambda>k. the (?m k)) ?ks" by (simp add: rows_under_def keys_under_def)
  obtain pg where pg: "bt_ListPaginated (pgt_table (tc_purgeGCRecords c)) [] None n s = Inr (pg, s)"
    "pg_Items pg = take (nat n) (map (\<lambda>k. the (?m k)) ?ks)"
    using purge.ListPaginated_first[OF assms(2), of "[]" s] unfolding rows by blast
  let ?rs = "map (\<lambda>k. the (?m k)) (take (nat n) ?ks)"
  have run: "purgeGCRecordsTable_List P (tc_purgeGCRecords c) n s = Inr (?rs, s)"
    using pg by (simp add: purgeGCRecordsTable_List_def go_run take_map)
  have sub: "set (take (nat n) ?ks) \<subseteq> dom ?m" using fin by (auto dest: in_set_takeD)
  have "distinct (map queue_of ?rs)"
    using inj_on_subset[OF inj sub] by (simp add: distinct_map comp_def)
  moreover have "queue_of ` set ?rs \<subseteq> marked (abs s)" using sub im by (auto simp: image_image)
  moreover have "queue_of ` set ?rs = marked (abs s)" if "card (marked (abs s)) \<le> nat n"
    using that cd fin im by (simp add: image_image)
  moreover have "finite (marked (abs s))" using im fin by (metis finite_imageI)
  ultimately show ?thesis using run by blast
qed

lemma RunPurgeQueueGarbageCollection_ok:
  fixes req :: RunPurgeQueueGarbageCollectionRequest
  assumes "good_view (dabs d)"
  defines "n \<equiv> orDefault (rpgc_GcRecordsPageSize req) defaultPurgeGCRecordsPageSize"
    and "maxV \<equiv> orDefault (rpgc_MaxVisitedTasks req) defaultPurgeGCMaxVisitedTasks"
  shows "\<exists>d'. RunPurgeQueueGarbageCollection P c req d = (Inr (Payload ()), d') \<and> good_view (dabs d') \<and>
    (\<forall>aq. aq \<notin> marked (dabs d) \<longrightarrow> untouched (dabs d) (dabs d') aq) \<and> (\<forall>aq \<in> marked (dabs d). swept (dabs d) (dabs d') aq) \<and>
    (\<Sum>aq \<in> marked (dabs d). int (size_of (dabs d) aq) - int (size_of (dabs d') aq)) \<le> maxV \<and>
    (card (marked (dabs d)) \<le> nat n \<and> (\<Sum>aq \<in> marked (dabs d). int (size_of (dabs d) aq)) < maxV \<longrightarrow>
      (\<forall>aq \<in> marked (dabs d). drained (dabs d') aq))"
proof -
  let ?s = "bs_Update (tc_badgerStore c) d"
  have s: "abs ?s = dabs d" by (rule store.Update)
  have pos: "0 < n" "0 < maxV" by (auto simp: n_def maxV_def orDefault_def defaultPurgeGCRecordsPageSize_def defaultPurgeGCMaxVisitedTasks_def)
  define p where "p = orDefault (rpgc_GcRecordTasksPageSize req) defaultPurgeGCRecordTasksPageSize"
  have p: "0 < p" by (simp add: p_def orDefault_def defaultPurgeGCRecordTasksPageSize_def)
  have W: "W ?s" and g: "good_view (abs ?s)" using assms(1) s good_viewD(1) by simp_all
  define f where "f = (\<lambda>gcRecord visitedTasks.
        go_bind (purge_record (Suc (nat maxV)) P c p maxV gcRecord visitedTasks)
          (\<lambda>(visitedTasks', stop). go_ret (\<not> stop, visitedTasks')))"
  from marker_list[OF W pos(1)] obtain rs where rs: "purgeGCRecordsTable_List P (tc_purgeGCRecords c) n ?s = Inr (rs, ?s)"
    "distinct (map queue_of rs)" "queue_of ` set rs \<subseteq> marked (abs ?s)"
    "card (marked (abs ?s)) \<le> nat n \<longrightarrow> queue_of ` set rs = marked (abs ?s)" "finite (marked (abs ?s))" by blast
  from purge_loop[OF f_def p g order_refl pos(2) rs(2,3)] obtain v' s' where
    l: "go_scan f rs 0 ?s = Inr (v', s')" "good_view (abs s')" "v' \<le> maxV"
    "\<forall>aq. aq \<notin> queue_of ` set rs \<longrightarrow> untouched (dabs d) (abs s') aq" "\<forall>aq \<in> queue_of ` set rs. swept (dabs d) (abs s') aq"
    "v' = 0 + (\<Sum>aq \<in> queue_of ` set rs. int (size_of (dabs d) aq) - int (size_of (abs s') aq))"
    "v' < maxV \<longrightarrow> (\<forall>aq \<in> queue_of ` set rs. drained (abs s') aq)"
    unfolding s by blast
  have "RunPurgeQueueGarbageCollection P c req d = in_update (tc_badgerStore c) (\<lambda>_. Inr (Commit (Payload ()), s')) d"
    unfolding RunPurgeQueueGarbageCollection_def in_update_def Let_def n_def[symmetric] maxV_def[symmetric] p_def[symmetric] f_def[symmetric]
    by (simp only: go_bind_def rs(1) l(1) sum.case prod.case go_run_basic)
  then obtain d' where d': "RunPurgeQueueGarbageCollection P c req d = (Inr (Payload ()), d')" "dabs d' = abs s'"
    using store.in_update_commit[of "\<lambda>_. Inr (Commit (Payload ()), s')" d "Payload ()" s'] by auto
  have off: "\<forall>aq. aq \<notin> marked (dabs d) \<longrightarrow> untouched (dabs d) (abs s') aq" using l(4) rs(3) s by auto
  have sw: "\<forall>aq \<in> marked (dabs d). swept (dabs d) (abs s') aq" using l(4,5) untouched_swept(1) by blast
  have tot: "(\<Sum>aq \<in> marked (dabs d). int (size_of (dabs d) aq) - int (size_of (abs s') aq)) = v'"
  proof -
    have "(\<Sum>aq \<in> marked (dabs d). int (size_of (dabs d) aq) - int (size_of (abs s') aq)) =
        (\<Sum>aq \<in> queue_of ` set rs. int (size_of (dabs d) aq) - int (size_of (abs s') aq))"
      using rs(3,5) l(4) s by (intro sum.mono_neutral_right) (auto simp: untouched_def size_of_def)
    then show ?thesis using l(6) by simp
  qed
  have live: "\<forall>aq \<in> marked (dabs d). drained (abs s') aq"
    if "card (marked (dabs d)) \<le> nat n" "(\<Sum>aq \<in> marked (dabs d). int (size_of (dabs d) aq)) < maxV"
  proof -
    have "v' \<le> (\<Sum>aq \<in> marked (dabs d). int (size_of (dabs d) aq))" unfolding tot[symmetric] by (rule sum_mono) simp
    then have "v' < maxV" using that(2) by simp
    then show ?thesis using l(7) rs(4) that(1) s by simp
  qed
  have "(\<Sum>aq \<in> marked (dabs d). int (size_of (dabs d) aq) - int (size_of (abs s') aq)) \<le> maxV" using tot l(3) by simp
  then show ?thesis using d' l(2) off sw live by auto
qed

end

end
