(* ===== verification/Tasks_System.thy ===== *)
theory Tasks_System
  imports Tasks_Sweeps
begin

text \<open>
  The tasks core as a transition system.  \<open>tasks_step\<close> is one request of any
  kind that changes the database, under the conditions that keep clear of the
  known defects of thread coordination; the invariant holds in every state a
  run reaches.  From the invariant follow the guarantees a client sees: one
  task in progress per thread, one live task per deduplication key, bounded
  attempts, a bounded dead letter queue, and progress of the scan.
\<close>

section \<open>Requests as steps\<close>

definition safe_enqueue :: "int \<Rightarrow> EnqueueRequest \<Rightarrow> tasks_view \<Rightarrow> bool" where
  "safe_enqueue now req b \<longleftrightarrow> (\<forall>a q. enq_QueueId req = Some \<lparr> qid_AccountId = a, qid_QueueId = q \<rparr> \<and>
     qv_purge (qview_of b (a, q)) = None \<longrightarrow>
     list_all entry_ok (enq_Entries req) \<and>
     unat (qs_TaskIdSequence (qv_state (qview_of b (a, q)))) + length (enq_Entries req) < 2 ^ 64 \<and>
     entries_safe now a q (enq_Entries req) (qs_TaskIdSequence (qv_state (qview_of b (a, q)))) (rows_of b (a, q)))"

definition safe_dequeue :: "int \<Rightarrow> DequeueRequest \<Rightarrow> tasks_view \<Rightarrow> bool" where
  "safe_dequeue now req b \<longleftrightarrow> (\<forall>a q. deq_QueueId req = Some \<lparr> qid_AccountId = a, qid_QueueId = q \<rparr> \<and>
     qv_purge (qview_of b (a, q)) = None \<longrightarrow>
     limiter_sound req now (qview_of b (a, q)) \<and> all_movable now (rows_of b (a, q)) \<and> no_expired_threads now (rows_of b (a, q)))"

definition safe_report :: "int \<Rightarrow> ReportStatusRequest \<Rightarrow> tasks_view \<Rightarrow> bool" where
  "safe_report now req b \<longleftrightarrow> (\<forall>aq. all_movable now (rows_of b aq)) \<and> (\<forall>e \<in> set (rsq_Entries req). rse_TaskId e \<noteq> None)"

inductive tasks_step :: "pkgs \<Rightarrow> ('d, 's) TasksCore \<Rightarrow> ('d \<Rightarrow> tasks_view) \<Rightarrow> 'd \<Rightarrow> 'd \<Rightarrow> bool"
  for P c dabs where
  enqueue: "safe_enqueue now req (dabs d) \<Longrightarrow> tasks_step P c dabs d (snd (Enqueue P c now req d))"
| dequeue: "safe_dequeue now dreq (dabs d) \<Longrightarrow> tasks_step P c dabs d (snd (Dequeue P c now dreq d))"
| report: "safe_report now rreq (dabs d) \<Longrightarrow> tasks_step P c dabs d (snd (ReportStatus P c now rreq d))"
| delete: "tasks_step P c dabs d (snd (DeleteTasks P c xreq d))"
| restart: "tasks_step P c dabs d (snd (RestartTasks P c now sreq d))"
| purge: "tasks_step P c dabs d (snd (PurgeQueue P c qid d))"
| gc: "tasks_step P c dabs d (snd (RunTasksGarbageCollection P c now greq d))"
| purge_gc: "tasks_step P c dabs d (snd (RunPurgeQueueGarbageCollection P c preq d))"

lemma QueueId_cases:
  obtains "x = None" | a q where "x = Some \<lparr> qid_AccountId = a, qid_QueueId = q \<rparr>"
  by (cases x) (auto, metis QueueId.cases)

lemma in_update_no_queue: "snd (in_update bs (go_bind (go_deref None) f) d) = d"
  by (simp add: in_update_def go_deref_def go_run)

context tasks_store
begin

lemma Enqueue_step:
  assumes "good_view (dabs d)" "safe_enqueue now req (dabs d)"
  shows "good_view (dabs (snd (Enqueue P c now req d)))"
proof (cases "enq_QueueId req" rule: QueueId_cases)
  case 1
  then show ?thesis using assms(1) by (simp add: Enqueue_def in_update_no_queue)
next
  case (2 a q)
  show ?thesis
  proof (cases "qv_purge (qview_of (dabs d) (a, q)) = None")
    case True
    then show ?thesis using Enqueue_ok[OF assms(1) 2, of now] assms(2) 2 by (auto simp: safe_enqueue_def rows_of_def)
  next
    case False
    then show ?thesis using purged_rejected(1)[OF False 2, of now] assms(1) by simp
  qed
qed

lemma Dequeue_step:
  assumes "good_view (dabs d)" "safe_dequeue now req (dabs d)"
  shows "good_view (dabs (snd (Dequeue P c now req d)))"
proof (cases "deq_QueueId req" rule: QueueId_cases)
  case 1
  then show ?thesis using assms(1) by (simp add: Dequeue_def in_update_no_queue)
next
  case (2 a q)
  show ?thesis
  proof (cases "qv_purge (qview_of (dabs d) (a, q)) = None")
    case True
    then show ?thesis using Dequeue_ok[OF assms(1) 2, of now] assms(2) 2 by (auto simp: safe_dequeue_def rows_of_def)
  next
    case False
    then show ?thesis using purged_rejected(2)[OF False 2, of now] assms(1) by simp
  qed
qed

lemma simple_steps:
  assumes "good_view (dabs d)"
  shows "good_view (dabs (snd (DeleteTasks P c xreq d)))"
    and "good_view (dabs (snd (RestartTasks P c now sreq d)))"
    and "good_view (dabs (snd (PurgeQueue P c qid d)))"
proof -
  show "good_view (dabs (snd (DeleteTasks P c xreq d)))"
  proof (cases "dt_QueueId xreq" rule: QueueId_cases)
    case 1
    then show ?thesis using assms by (simp add: DeleteTasks_def in_update_no_queue)
  next
    case (2 a q)
    then show ?thesis using DeleteTasks_ok[OF assms 2] by auto
  qed
  show "good_view (dabs (snd (RestartTasks P c now sreq d)))"
  proof (cases "rt_QueueId sreq" rule: QueueId_cases)
    case 1
    then show ?thesis using assms by (simp add: RestartTasks_def in_update_no_queue)
  next
    case (2 a q)
    then show ?thesis using RestartTasks_ok[OF assms 2, of now] by auto
  qed
  show "good_view (dabs (snd (PurgeQueue P c qid d)))"
  proof (cases qid rule: QueueId_cases)
    case 1
    then show ?thesis using assms by (simp add: PurgeQueue_def in_update_no_queue)
  next
    case (2 a q)
    then show ?thesis using PurgeQueue_ok[OF assms, of a q] by auto
  qed
qed

lemma tasks_step_good:
  assumes "tasks_step P c dabs d d'" "good_view (dabs d)"
  shows "good_view (dabs d')"
  using assms(1)
proof cases
  case (enqueue now req)
  then show ?thesis using Enqueue_step[OF assms(2)] by simp
next
  case (dequeue now dreq)
  then show ?thesis using Dequeue_step[OF assms(2)] by simp
next
  case (report now rreq)
  then show ?thesis using ReportStatus_ok[OF assms(2), of now rreq] by (auto simp: safe_report_def)
next
  case (gc now greq)
  then show ?thesis using RunTasksGarbageCollection_ok[OF assms(2), of now greq] by auto
next
  case (purge_gc preq)
  then show ?thesis using RunPurgeQueueGarbageCollection_ok[OF assms(2), of preq] by auto
qed (use simple_steps[OF assms(2)] in simp_all)

lemma tasks_run_good:
  assumes "(tasks_step P c dabs)\<^sup>*\<^sup>* d d'" "good_view (dabs d)"
  shows "good_view (dabs d')"
  using assms by (induction rule: rtranclp_induct) (blast intro: tasks_step_good)+

end

section \<open>What the invariant guarantees\<close>

lemma good_thread_exclusive:
  assumes "good_view b" "rows_of b (a, q) t = Some k" "rows_of b (a, q) t' = Some k'"
    and "is_inprog k" "is_inprog k'" "t_ThreadId k = t_ThreadId k'" "t_ThreadId k \<noteq> []"
  shows "t = t'"
proof -
  let ?M = "rows_of b (a, q)" and ?X = "qview_of b (a, q)"
  have m: "member ?M (t_ThreadId k) t k" "member ?M (t_ThreadId k) t' k'"
    using assms by (simp_all add: member_def)
  have "thread_ok a q ?M (t_ThreadId k) (qv_threads ?X (t_ThreadId k))"
    using cohD(7)[OF good_viewD(3)[OF assms(1), of a q]] assms(7) by (simp add: threads_ok_def)
  then obtain h where "\<forall>t k'. member ?M (t_ThreadId k) t k' \<and> is_inprog k' \<longrightarrow> t = h"
    using m by (auto simp: thread_ok_def head_ok_def split: option.splits)
  then show ?thesis using m assms(4,5) by metis
qed

lemma good_dedupe_unique:
  assumes "good_view b" "rows_of b (a, q) t = Some k" "rows_of b (a, q) t' = Some k'"
    and "is_live k" "is_live k'" "t_DedupeKey k = t_DedupeKey k'" "t_DedupeKey k \<noteq> []"
  shows "t = t'"
  using dedupe_ok_lookup[OF cohD(6)[OF good_viewD(3)[OF assms(1), of a q]], of t k]
    dedupe_ok_lookup[OF cohD(6)[OF good_viewD(3)[OF assms(1), of a q]], of t' k'] assms by simp

lemma good_attempts:
  assumes "good_view b" "rows_of b (a, q) t = Some k"
  shows "t_Id k = mkTaskId a q t" "0 \<le> t_Attempts k" "is_enq k \<Longrightarrow> t_Attempts k \<le> retries_of k"
    "is_inprog k \<Longrightarrow> 1 \<le> t_Attempts k \<and> t_Attempts k \<le> retries_of k + 1" "is_live k \<or> is_dead k"
  using cohD(9)[OF good_viewD(3)[OF assms(1), of a q] assms(2)] by (auto simp: row_wf_def attempts_ok_def)

section \<open>The dead letter bound\<close>

lemma dead_index_card:
  assumes "finite (dom M)"
  shows "finite (dead_index M)" "card (dead_index M) = count_rows is_dead M"
proof -
  let ?D = "{t. \<exists>k. M t = Some k \<and> is_dead k}"
  have im: "dead_index M = (\<lambda>t. (tw (t_LastFailedAt (the (M t))), t)) ` ?D" by (force simp: dead_index_def)
  have fin: "finite ?D" by (rule finite_subset[OF _ assms]) auto
  show "finite (dead_index M)" using im fin by simp
  show "card (dead_index M) = count_rows is_dead M"
    unfolding im count_rows_def by (rule card_image) (auto simp: inj_on_def)
qed

lemma oldest_dead_card:
  assumes "finite (dom M)"
  shows "card (oldest_dead M n) = min n (count_rows is_dead M)" "oldest_dead M n \<subseteq> {t. \<exists>k. M t = Some k \<and> is_dead k}"
proof -
  let ?l = "sorted_list_of_set (dead_index M)"
  have inj: "inj_on snd (dead_index M)" by (auto simp: inj_on_def dead_index_def)
  have sub: "set (take n ?l) \<subseteq> dead_index M" using dead_index_card(1)[OF assms] by (auto dest!: in_set_takeD)
  have "card (oldest_dead M n) = card (set (take n ?l))"
    unfolding oldest_dead_def by (rule card_image[OF inj_on_subset[OF inj sub]])
  also have "\<dots> = min n (count_rows is_dead M)"
    using dead_index_card[OF assms] by (simp add: distinct_card)
  finally show "card (oldest_dead M n) = min n (count_rows is_dead M)" .
  show "oldest_dead M n \<subseteq> {t. \<exists>k. M t = Some k \<and> is_dead k}" using oldest_dead_dead[of _ M n] by blast
qed

lemma evict_bound:
  assumes "finite (dom M)" "0 < m" "int (count_rows is_dead M) < 2 ^ 63"
  shows "int (count_rows is_dead (evict_rows m (i64 (int (count_rows is_dead M))) M)) \<le> m"
proof -
  let ?n = "count_rows is_dead M" and ?D = "{t. \<exists>k. M t = Some k \<and> is_dead k}"
  have i: "i64 (int ?n) = int ?n" "m \<le> int ?n \<Longrightarrow> i64 (int ?n - m) = int ?n - m" using assms by (simp_all add: i64_id)
  let ?j = "nat (i64 (int ?n - m))"
  have fin: "finite (oldest_dead M ?j)"
    by (rule finite_subset[OF oldest_dead_card(2)[OF assms(1)]]) (rule finite_subset[OF _ assms(1)], auto)
  have "{t. \<exists>k. (M |` (- oldest_dead M ?j)) t = Some k \<and> is_dead k} = ?D - oldest_dead M ?j"
    by (auto simp: restrict_map_def)
  then have "count_rows is_dead (M |` (- oldest_dead M ?j)) = ?n - min ?j ?n"
    using card_Diff_subset[OF fin(1) oldest_dead_card(2)[OF assms(1)]] oldest_dead_card(1)[OF assms(1), of ?j]
    by (simp only: count_rows_def)
  then show ?thesis using assms(2) i by (cases "m \<le> int ?n") (auto simp: evict_rows_def min_def)
qed

text \<open>A dead letter configuration with a usable size limit.\<close>

definition dlq_limits :: "DeadLetterQueueConfig option \<Rightarrow> int \<Rightarrow> bool" where
  "dlq_limits dlq m \<longleftrightarrow> 0 < m \<and> m < 2 ^ 63 - 1 \<and> (\<forall>cfg. dlq = Some cfg \<longrightarrow> dlq_MaxSize cfg = m)"

lemma count_rows_le:
  assumes "finite (dom M)" "\<And>t k. M' t = Some k \<Longrightarrow> is_dead k \<Longrightarrow> t \<noteq> t0 \<Longrightarrow> M t = Some k"
  shows "count_rows is_dead M' \<le> Suc (count_rows is_dead M)"
    and "(\<And>k. M' t0 = Some k \<Longrightarrow> \<not> is_dead k) \<Longrightarrow> count_rows is_dead M' \<le> count_rows is_dead M"
proof -
  let ?D = "{t. \<exists>k. M t = Some k \<and> is_dead k}" and ?D' = "{t. \<exists>k. M' t = Some k \<and> is_dead k}"
  have fin: "finite ?D" by (rule finite_subset[OF _ assms(1)]) auto
  have "?D' \<subseteq> insert t0 ?D" using assms(2) by auto
  then have "card ?D' \<le> card (insert t0 ?D)" using fin by (intro card_mono) auto
  also have "\<dots> \<le> Suc (card ?D)" using fin by (simp add: card_insert_if)
  finally show "count_rows is_dead M' \<le> Suc (count_rows is_dead M)" by (simp add: count_rows_def)
  assume "\<And>k. M' t0 = Some k \<Longrightarrow> \<not> is_dead k"
  then have "?D' \<subseteq> ?D" using assms(2) by auto
  then show "count_rows is_dead M' \<le> count_rows is_dead M" unfolding count_rows_def using fin by (rule card_mono[rotated])
qed

lemma fail_rows_dlq:
  assumes "finite (dom M)" "M t = Some k" "is_inprog k" "dlq_limits dlq m" "int (count_rows is_dead M) \<le> m"
  shows "int (count_rows is_dead (fail_rows now dlq t k M)) \<le> m"
proof -
  have le: "int (count_rows is_dead M') \<le> m"
    if "\<And>t' k. M' t' = Some k \<Longrightarrow> is_dead k \<Longrightarrow> t' \<noteq> t \<Longrightarrow> M t' = Some k" "\<And>k. M' t = Some k \<Longrightarrow> \<not> is_dead k" for M'
    using count_rows_le(2)[OF assms(1), of M' t] that assms(5) by fastforce
  have "int (count_rows is_dead (evict_rows m (i64 (int (count_rows is_dead N))) N)) \<le> m" if "N = M(t \<mapsto> x)" for N x
  proof (rule evict_bound)
    have "count_rows is_dead N \<le> Suc (count_rows is_dead M)" using that by (intro count_rows_le(1)[OF assms(1), of _ t]) simp
    then show "int (count_rows is_dead N) < 2 ^ 63" using assms(4,5) by (simp add: dlq_limits_def)
  qed (use assms(1,4) that in \<open>simp_all add: dlq_limits_def\<close>)
  moreover have "int (count_rows is_dead (M(t := None))) \<le> m" by (rule le) (auto split: if_splits)
  moreover have "int (count_rows is_dead (M(t \<mapsto> retry_row now k))) \<le> m" by (rule le) (auto split: if_splits)
  ultimately show ?thesis using assms(4) by (simp add: fail_rows_def dead_rows_def dlq_limits_def Let_def split: option.split)
qed

lemma report_rows_dlq:
  assumes "finite (dom M)" "dlq_limits dlq m" "int (count_rows is_dead M) \<le> m"
  shows "int (count_rows is_dead (snd (report_rows now dlq t status attempt ka M))) \<le> m"
proof (cases "M t")
  case None
  then show ?thesis using assms by (simp add: report_rows_def)
next
  case (Some k)
  have le: "int (count_rows is_dead M') \<le> m"
    if "\<And>t' k. M' t' = Some k \<Longrightarrow> is_dead k \<Longrightarrow> t' \<noteq> t \<Longrightarrow> M t' = Some k" "\<And>k. M' t = Some k \<Longrightarrow> \<not> is_dead k" for M'
    using count_rows_le(2)[OF assms(1), of M' t] that assms(3) by fastforce
  have "int (count_rows is_dead (M(t := None))) \<le> m" by (rule le) (auto split: if_splits)
  moreover have "int (count_rows is_dead (M(t \<mapsto> heartbeat_row now ka k))) \<le> m" if "is_inprog k"
    using inprog_states[OF that] by (intro le) (auto split: if_splits)
  ultimately show ?thesis
    using assms Some fail_rows_dlq[OF assms(1) Some _ assms(2,3)] by (simp add: report_rows_def split: ReportStatus_Status.split)
qed

lemma report_rows_finite:
  assumes "finite (dom M)"
  shows "finite (dom (snd (report_rows now dlq t status attempt ka M)))"
  using assms by (auto simp: report_rows_def fail_rows_def dead_rows_def evict_rows_def Let_def
    split: option.split ReportStatus_Status.split)

lemma report_all_dlq:
  assumes "\<forall>aq. finite (dom (V aq)) \<and> int (count_rows is_dead (V aq)) \<le> m" "dlq_limits dlq m"
  shows "int (count_rows is_dead (snd (report_all now dlq es V) aq)) \<le> m"
  using assms(1)
proof (induction es arbitrary: V)
  case (Cons e es)
  have "\<forall>aq. finite (dom (snd (report_entry now dlq e V) aq)) \<and> int (count_rows is_dead (snd (report_entry now dlq e V) aq)) \<le> m"
    using Cons.prems report_rows_finite report_rows_dlq[OF _ assms(2)] by (simp add: report_entry_def Let_def)
  then show ?case using Cons.IH by (simp add: Let_def)
qed (simp only: report_all.simps snd_conv)

section \<open>Progress of the scan\<close>

lemma lapse_all_other:
  assumes "t \<notin> task_tid ` set ks" "M t = Some k" "\<not> is_dead k"
  shows "lapse_all now dlq ks M t = Some k"
  using assms by (induction ks arbitrary: M) (simp_all add: lapse_all_def fail_rows_other)

lemma due_rows_mem:
  assumes "coh a q (qv_tasks X) X" "finite (qv_queue X)" "qv_tasks X t = Some k" "is_enq k" "t_ThreadId k = []"
    and "tw (qs_LastVisitedEnqueued (qv_state X)) \<le> tw (t_ScheduledAt k)" "tw (t_ScheduledAt k) \<le> tw now"
  shows "k \<in> set (due_rows X now)"
proof -
  have "sched_key k t \<in> qv_queue X" using cohD(7)[OF assms(1)] assms(3-5) by (auto simp: threads_ok_def in_queue_def sched_key_def)
  then have "sched_key k t \<in> set (due_entries X now)" using assms(2,6,7) by (simp add: due_entries_def sched_key_def)
  then have "the (qv_tasks X (snd (sched_key k t))) \<in> set (due_rows X now)"
    unfolding due_rows_def set_map by (rule imageI)
  then show ?thesis using assms(3) by (simp add: sched_key_def)
qed

lemma queue_small:
  assumes "coh a q M X" "finite (dom M)"
  shows "finite (qv_queue X)" "card (qv_queue X) \<le> card (dom M)"
proof -
  have sub: "qv_queue X \<subseteq> (\<lambda>t. sched_key (the (M t)) t) ` dom M"
  proof
    fix e assume "e \<in> qv_queue X"
    then obtain k where "M (snd e) = Some k" "e = sched_key k (snd e)"
      using cohD(7)[OF assms(1)] unfolding threads_ok_def in_queue_def by blast
    then show "e \<in> (\<lambda>t. sched_key (the (M t)) t) ` dom M" by (intro image_eqI[of _ _ "snd e"]) auto
  qed
  show "finite (qv_queue X)" by (rule finite_subset[OF sub]) (simp add: assms(2))
  have "card (qv_queue X) \<le> card ((\<lambda>t. sched_key (the (M t)) t) ` dom M)" by (rule card_mono[OF _ sub]) (simp add: assms(2))
  also have "\<dots> \<le> card (dom M)" by (rule card_image_le[OF assms(2)])
  finally show "card (qv_queue X) \<le> card (dom M)" .
qed

lemma due_rows_length:
  assumes "coh a q (qv_tasks X) X" "finite (dom (qv_tasks X))"
  shows "length (due_rows X now) \<le> card (dom (qv_tasks X))"
proof -
  have "length (due_rows X now) \<le> length (sorted_list_of_set (qv_queue X))"
    unfolding due_rows_def due_entries_def by (simp only: length_map length_filter_le)
  then show ?thesis using queue_small(2)[OF assms] by simp
qed

text \<open>A task that is ready: waiting, in no thread, due, and not before the
  cursor of the scan.\<close>

definition ready :: "qview \<Rightarrow> int \<Rightarrow> uint64 \<Rightarrow> Task \<Rightarrow> bool" where
  "ready X now t k \<longleftrightarrow> qv_tasks X t = Some k \<and> is_enq k \<and> t_ThreadId k = [] \<and> \<not> expired_at now k \<and>
    tw (qs_LastVisitedEnqueued (qv_state X)) \<le> tw (t_ScheduledAt k) \<and> tw (t_ScheduledAt k) \<le> tw now"

definition roomy :: "DequeueRequest \<Rightarrow> int \<Rightarrow> qview \<Rightarrow> bool" where
  "roomy req now X \<longleftrightarrow> int (card (dom (qv_tasks X))) \<le> limit_of req now X \<and>
    int (card (dom (qv_tasks X))) \<le> maxVisitedTasksForDequeuing \<and>
    (\<forall>ds. deq_DequeuingSettings req = Some ds \<longrightarrow> ds_MaxInProgressTasks ds \<le> 0)"

lemma delivery_live:
  assumes d: "delivery a q req now X ks hs X'" and c: "coh a q (qv_tasks X) X" and r: "ready X now t k" "roomy req now X"
    and l: "\<forall>k \<in> set (lapsed_rows X now). qv_tasks X (task_tid k) = Some k \<and> is_inprog k" "distinct (map task_tid (lapsed_rows X now))"
  shows "k \<in> set hs"
proof -
  let ?ls = "take (nat maxVisitedTasksForDequeuing) (lapsed_rows X now)"
  obtain X1 where X1: "coh a q (qv_tasks X1) X1" "qv_tasks X1 = lapse_all now (deq_DeadLetterQueueConfig req) ?ls (qv_tasks X)"
    "qs_LastVisitedEnqueued (qv_state X1) = qs_LastVisitedEnqueued (qv_state X)"
    "ks = take (length ks) (due_rows X1 now)" "hs = filter (\<lambda>k. \<not> expired_at now k) ks"
    "length ks < length (due_rows X1 now) \<longrightarrow> limit_of req now X \<le> int (length hs) \<or>
        int (length ks) = maxVisitedTasksForDequeuing \<or> maxInProgress_reached req (qv_tasks X')"
    using d unfolding delivery_def by blast
  have k: "qv_tasks X t = Some k" "is_enq k" "\<not> is_dead k" using r(1) by (auto simp: ready_def state_defs)
  have ls: "\<forall>k \<in> set ?ls. qv_tasks X (task_tid k) = Some k \<and> is_inprog k" using l(1) by (auto dest: in_set_takeD)
  have "t \<notin> task_tid ` set ?ls" using ls k by (auto simp: state_defs)
  then have t: "qv_tasks X1 t = Some k" unfolding X1(2) using k by (intro lapse_all_other)
  have dl: "distinct (map task_tid ?ls)" using l(2) by (simp add: take_map[symmetric])
  have dom: "dom (qv_tasks X1) \<subseteq> dom (qv_tasks X)" unfolding X1(2) by (rule lapse_all_dom[OF ls dl])
  have fin: "finite (dom (qv_tasks X))" "finite (dom (qv_tasks X1))" using cohD(1,2)[OF c] cohD(1,2)[OF X1(1)] by auto
  have "length (due_rows X1 now) \<le> card (dom (qv_tasks X))"
    using due_rows_length[OF X1(1) fin(2), of now] card_mono[OF fin(1) dom] by linarith
  moreover have "length hs \<le> length ks" using X1(5) by simp
  moreover have "\<not> maxInProgress_reached req (qv_tasks X')" using r(2) by (auto simp: maxInProgress_reached_def roomy_def)
  ultimately have "ks = due_rows X1 now" using X1(4,6) r(2) unfolding roomy_def
    by (metis (no_types, lifting) le_less_linear linorder_not_less nat_int_comparison(2,3) order.trans take_all)
  moreover have "k \<in> set (due_rows X1 now)"
    using due_rows_mem[OF X1(1) queue_small(1)[OF X1(1) fin(2)] t] r(1) by (simp add: ready_def X1(3))
  ultimately show ?thesis using X1(5) r(1) by (simp add: ready_def)
qed

text \<open>The bucket pays for what it hands out.\<close>

lemma limiter_after_ok:
  assumes "enabledRateLimiting (deq_DequeuingSettings req) = Some r" "limiter_ok r" "bucket_ok r now (bucket r now X)"
    and "int n \<le> max 0 (limit_of req now X)"
  obtains st where "limiter_after req now X n = Some st" "bucket_ok r now st" "int n \<le> tb_MaxTokens r"
    "credit r now st + int n * refill_interval r \<le> credit r now (bucket r now X)"
proof -
  let ?b = "refill r now (bucket r now X)"
  note b = refill_ok[OF assms(2,3)]
  have n: "int n \<le> rl_Tokens ?b" using assms(1,4) b(1) by (auto simp: limit_of_def bucket_ok_def max_def min_def split: if_splits)
  show ?thesis
  proof (rule that)
    show "limiter_after req now X n = Some (?b\<lparr> rl_Tokens := rl_Tokens ?b - int n \<rparr>)" using assms(1) by (simp add: limiter_after_def)
    show "bucket_ok r now (?b\<lparr> rl_Tokens := rl_Tokens ?b - int n \<rparr>)" using b(1) n by (simp add: bucket_ok_def)
    show "int n \<le> tb_MaxTokens r" using b(1) n by (simp add: bucket_ok_def)
    show "credit r now (?b\<lparr> rl_Tokens := rl_Tokens ?b - int n \<rparr>) + int n * refill_interval r \<le> credit r now (bucket r now X)"
      using b(2) by (simp add: credit_def left_diff_distrib)
  qed
qed

text \<open>A limiter with more tokens than nanoseconds in its interval.\<close>

definition limiter_too_fast :: "TokenBucketRateLimiting \<Rightarrow> bool" where
  "limiter_too_fast r \<longleftrightarrow> 0 < tb_Interval r \<and> 0 < unit_nanos (tb_IntervalUnit r) \<and>
    tb_Interval r * unit_nanos (tb_IntervalUnit r) < tb_MaxTokens r \<and> tb_MaxTokens r < 2 ^ 63"

lemma too_fast_interval:
  assumes "limiter_too_fast r"
  shows "getRefillInterval r = go_ret 0"
proof -
  let ?n = "tb_Interval r * unit_nanos (tb_IntervalUnit r)"
  have n: "0 < ?n" "?n < tb_MaxTokens r" "tb_MaxTokens r < 2 ^ 63" using assms by (simp_all add: limiter_too_fast_def)
  then have "go_div (i64 ?n) (tb_MaxTokens r) = go_ret 0" using go_div_nonneg[of ?n "tb_MaxTokens r"] by (simp add: i64_id)
  then show ?thesis using assms by (auto simp: getRefillInterval_def unit_nanos_def limiter_too_fast_def split: IntervalUnit.splits)
qed

lemma too_fast_panics:
  assumes "limiter_too_fast r" "rl_Tokens st < tb_MaxTokens r"
  shows "refillTokens r now st = go_fail (Panic ''integer divide by zero'')"
  using assms(2) by (auto simp: refillTokens_def too_fast_interval[OF assms(1)] go_div_def go_run fun_eq_iff)

context tasks_store
begin

lemma refs_of_finite:
  assumes "good_view (dabs d)"
  shows "finite (refs_of (rows_of (dabs d)))"
  using refs_of_view(2)[of "bs_Update (tc_badgerStore c) d"] assms store.Update[of d] by simp

lemma Dequeue_live:
  assumes g: "good_view (dabs d)" and s: "safe_dequeue now req (dabs d)"
    and q: "deq_QueueId req = Some \<lparr> qid_AccountId = a, qid_QueueId = q \<rparr>" and p: "qv_purge (qview_of (dabs d) (a, q)) = None"
    and r: "ready (qview_of (dabs d) (a, q)) now t k" "roomy req now (qview_of (dabs d) (a, q))"
  shows "\<exists>out. fst (Dequeue P c now req d) = Inr (Payload out) \<and> hand_row now (deq_KeepaliveTimeoutInSeconds req) k \<in> set out"
proof -
  let ?X = "qview_of (dabs d) (a, q)" and ?s = "bs_Update (tc_badgerStore c) d"
  have u: "Q ?s = qview_of (dabs d)" "W ?s" using store.Update[of d] good_viewD(1)[OF g] by simp_all
  have c: "coh a q (qv_tasks ?X) ?X" using good_viewD(3)[OF g, of a q] by (simp add: rows_of_def)
  note l = lapsed_rows_inprog[OF u(2), of a q "qv_tasks ?X" now, unfolded u(1), OF c refl]
  obtain d' ks hs X' where D: "Dequeue P c now req d = (Inr (Payload (map (hand_row now (deq_KeepaliveTimeoutInSeconds req)) hs)), d')"
    "delivery a q req now ?X ks hs X'"
    using Dequeue_ok[OF g q p, of now] s q p unfolding safe_dequeue_def rows_of_def by blast
  have "k \<in> set hs" by (rule delivery_live[OF D(2) c r l])
  then show ?thesis using D(1) by simp
qed

lemma Dequeue_too_fast:
  assumes "deq_QueueId req = Some \<lparr> qid_AccountId = a, qid_QueueId = q \<rparr>" "qv_purge (qview_of (dabs d) (a, q)) = None"
    and "enabledRateLimiting (deq_DequeuingSettings req) = Some r" "limiter_too_fast r"
    and "qv_rateLimiter (qview_of (dabs d) (a, q)) = Some st" "rl_Tokens st < tb_MaxTokens r"
  shows "Dequeue P c now req d = (Inl (Panic ''integer divide by zero''), d)"
proof -
  have u: "Q (bs_Update (tc_badgerStore c) d) = qview_of (dabs d)" using store.Update[of d] by simp
  show ?thesis
    using assms by (simp add: Dequeue_def in_update_def go_run tables_run u too_fast_panics Let_def)
qed

end

end
