(* ===== verification/Queues_Tables.thy ===== *)
theory Queues_Tables
  imports Ids_Pagination
begin

text \<open>
  The leaf tables of the queues core: \<open>pkg/queues/queues.go\<close>,
  \<open>schedules.go\<close>, \<open>counters.go\<close>, \<open>gc_records.go\<close> and
  \<open>table_prefixes.go\<close>.  Names that also occur in the tasks package carry the
  prefix \<open>queues_\<close>.
\<close>

text \<open>The table constructors of the imported package, one per row type.\<close>

record 's queues_honey =
  NewBinaryTable_Queue :: "bytes \<Rightarrow> ('s, Queue) BinaryTable"
  NewBinaryTable_Schedule :: "bytes \<Rightarrow> ('s, Schedule) BinaryTable"
  NewBinaryTable_QueuesCounter :: "bytes \<Rightarrow> ('s, QueuesCounter) BinaryTable"
  NewBinaryTable_QueuesGCRecord :: "bytes \<Rightarrow> ('s, QueuesGarbageCollectionRecord) BinaryTable"
  queues_NewUint64Table :: "bytes \<Rightarrow> 's Uint64Table"
  queues_NewSortedIndex :: "bytes \<Rightarrow> 's SortedIndex"

section \<open>table\_prefixes.go\<close>

definition tablePrefixQueues :: bytes where "tablePrefixQueues = [0x00]"
definition tablePrefixQueuesNamesIndex :: bytes where "tablePrefixQueuesNamesIndex = [0x01]"
definition tablePrefixSchedules :: bytes where "tablePrefixSchedules = [0x02]"
definition tablePrefixSchedulesNamesIndex :: bytes where "tablePrefixSchedulesNamesIndex = [0x03]"
definition tablePrefixSchedulesScheduledIndex :: bytes where "tablePrefixSchedulesScheduledIndex = [0x04]"
definition queues_tablePrefixCounters :: bytes where "queues_tablePrefixCounters = [0x05]"
definition tablePrefixGCRecords :: bytes where "tablePrefixGCRecords = [0x06]"

section \<open>queues.go\<close>

record 's queuesTable =
  qt_table :: "('s, Queue) BinaryTable"
  qt_namesIndex :: "'s Uint64Table"

definition newQueuesTable :: "pkgs \<Rightarrow> 's queues_honey \<Rightarrow> bytes \<Rightarrow> 's queuesTable" where
  "newQueuesTable P H replicaPrefix =
    \<lparr> qt_table = NewBinaryTable_Queue H (ConcatBytes P [CBytes replicaPrefix, CBytes tablePrefixQueues]),
      qt_namesIndex = queues_NewUint64Table H (ConcatBytes P [CBytes replicaPrefix, CBytes tablePrefixQueuesNamesIndex]) \<rparr>"

definition queuesTable_tablePK :: "pkgs \<Rightarrow> uint64 \<Rightarrow> bytes" where
  "queuesTable_tablePK P accountId = ConcatBytes P [CU64 accountId]"

definition queuesTable_tableSK :: "pkgs \<Rightarrow> uint64 \<Rightarrow> bytes" where
  "queuesTable_tableSK P queueId = ConcatBytes P [CU64 queueId]"

definition queuesTable_namesIndexPK :: "pkgs \<Rightarrow> uint64 \<Rightarrow> string \<Rightarrow> bytes" where
  "queuesTable_namesIndexPK P accountId queueName = ConcatBytes P [CU64 accountId, CStr queueName]"

definition queuesTable_Get :: "pkgs \<Rightarrow> 's queuesTable \<Rightarrow> QueueId \<Rightarrow> ('s, Queue) go" where
  "queuesTable_Get P t queueId = bt_Get (qt_table t) (ConcatBytes P
    [CBytes (queuesTable_tablePK P (qid_AccountId queueId)), CBytes (queuesTable_tableSK P (qid_QueueId queueId))])"

definition queuesTable_GetByName :: "pkgs \<Rightarrow> 's queuesTable \<Rightarrow> uint64 \<Rightarrow> string \<Rightarrow> ('s, Queue) go" where
  "queuesTable_GetByName P t accountId queueName =
    go_bind (ut_Get (qt_namesIndex t) (queuesTable_namesIndexPK P accountId queueName)) (\<lambda>queueId.
    queuesTable_Get P t \<lparr> qid_AccountId = accountId, qid_QueueId = queueId \<rparr>)"

text \<open>\<open>listQueuesResult\<close> has the fields of \<open>ListQueuesResponse\<close>; a page
  read in reverse is turned around.\<close>

definition in_order :: "honey_PaginationToken option \<Rightarrow> 'a list \<Rightarrow> 'a list" where
  "in_order tok xs = (case tok of Some t \<Rightarrow> if hpt_Reverse t then rev xs else xs | None \<Rightarrow> xs)"

definition queuesTable_List ::
  "pkgs \<Rightarrow> 's queuesTable \<Rightarrow> uint64 \<Rightarrow> PaginationToken option \<Rightarrow> int \<Rightarrow> ('s, ListQueuesResponse) go" where
  "queuesTable_List P t accountId paginationToken limit =
    (let monsteraToken = CoreToMonstera paginationToken in
     go_bind (bt_ListPaginated (qt_table t) (queuesTable_tablePK P accountId) monsteraToken limit) (\<lambda>result.
     go_ret \<lparr> lqr_Queues = in_order monsteraToken (pg_Items result),
              lqr_NextPaginationToken = MonsteraToCore (pg_NextPaginationToken result),
              lqr_PreviousPaginationToken = MonsteraToCore (pg_PreviousPaginationToken result) \<rparr>))"

definition queuesTable_Create :: "pkgs \<Rightarrow> 's queuesTable \<Rightarrow> Queue \<Rightarrow> ('s, unit) go" where
  "queuesTable_Create P t queue =
    go_seq (ut_Set (qt_namesIndex t) (queuesTable_namesIndexPK P (qid_AccountId (q_Id queue)) (q_Name queue)) (qid_QueueId (q_Id queue)))
    (bt_Set (qt_table t) (ConcatBytes P
      [CBytes (queuesTable_tablePK P (qid_AccountId (q_Id queue))), CBytes (queuesTable_tableSK P (qid_QueueId (q_Id queue)))]) queue)"

definition queuesTable_Update :: "pkgs \<Rightarrow> 's queuesTable \<Rightarrow> Queue \<Rightarrow> ('s, unit) go" where
  "queuesTable_Update P t queue = bt_Set (qt_table t) (ConcatBytes P
    [CBytes (queuesTable_tablePK P (qid_AccountId (q_Id queue))), CBytes (queuesTable_tableSK P (qid_QueueId (q_Id queue)))]) queue"

definition queuesTable_SwapId :: "pkgs \<Rightarrow> 's queuesTable \<Rightarrow> QueueId \<Rightarrow> Queue \<Rightarrow> ('s, unit) go" where
  "queuesTable_SwapId P t oldQueueId newQueue =
    go_seq (ut_Set (qt_namesIndex t) (queuesTable_namesIndexPK P (qid_AccountId (q_Id newQueue)) (q_Name newQueue)) (qid_QueueId (q_Id newQueue)))
   (go_seq (bt_Set (qt_table t) (ConcatBytes P
      [CBytes (queuesTable_tablePK P (qid_AccountId (q_Id newQueue))), CBytes (queuesTable_tableSK P (qid_QueueId (q_Id newQueue)))]) newQueue)
    (bt_Delete (qt_table t) (ConcatBytes P
      [CBytes (queuesTable_tablePK P (qid_AccountId oldQueueId)), CBytes (queuesTable_tableSK P (qid_QueueId oldQueueId))])))"

text \<open>A delete whose \<open>ErrNotFound\<close> is ignored.\<close>

definition ignore_NotFound :: "('s, unit) go \<Rightarrow> ('s, unit) go" where
  "ignore_NotFound m = go_try m (\<lambda>err. if \<not> errors_Is_NotFound err then go_fail err else go_ret ()) go_ret"

definition queuesTable_Delete :: "pkgs \<Rightarrow> 's queuesTable \<Rightarrow> Queue \<Rightarrow> ('s, unit) go" where
  "queuesTable_Delete P t queue =
    go_seq (ignore_NotFound (bt_Delete (qt_table t) (ConcatBytes P
      [CBytes (queuesTable_tablePK P (qid_AccountId (q_Id queue))), CBytes (queuesTable_tableSK P (qid_QueueId (q_Id queue)))])))
    (ignore_NotFound (ut_Delete (qt_namesIndex t) (queuesTable_namesIndexPK P (qid_AccountId (q_Id queue)) (q_Name queue))))"

section \<open>schedules.go\<close>

record 's schedulesTable =
  sct_table :: "('s, Schedule) BinaryTable"
  sct_namesIndex :: "'s Uint64Table"
  sct_scheduledIndex :: "'s SortedIndex"

definition newSchedulesTable :: "pkgs \<Rightarrow> 's queues_honey \<Rightarrow> bytes \<Rightarrow> 's schedulesTable" where
  "newSchedulesTable P H replicaPrefix =
    \<lparr> sct_table = NewBinaryTable_Schedule H (ConcatBytes P [CBytes replicaPrefix, CBytes tablePrefixSchedules]),
      sct_namesIndex = queues_NewUint64Table H (ConcatBytes P [CBytes replicaPrefix, CBytes tablePrefixSchedulesNamesIndex]),
      sct_scheduledIndex = queues_NewSortedIndex H (ConcatBytes P [CBytes replicaPrefix, CBytes tablePrefixSchedulesScheduledIndex]) \<rparr>"

definition schedulesTable_tablePK :: "pkgs \<Rightarrow> uint64 \<Rightarrow> uint64 \<Rightarrow> bytes" where
  "schedulesTable_tablePK P accountId queueId = ConcatBytes P [CU64 accountId, CU64 queueId]"

definition schedulesTable_tableSK :: "pkgs \<Rightarrow> uint64 \<Rightarrow> bytes" where
  "schedulesTable_tableSK P scheduleId = ConcatBytes P [CU64 scheduleId]"

definition schedulesTable_namesIndexPK :: "pkgs \<Rightarrow> uint64 \<Rightarrow> uint64 \<Rightarrow> string \<Rightarrow> bytes" where
  "schedulesTable_namesIndexPK P accountId queueId scheduleName = ConcatBytes P [CU64 accountId, CU64 queueId, CStr scheduleName]"

definition scheduledIndexPKPrefix :: "pkgs \<Rightarrow> int \<Rightarrow> bytes" where
  "scheduledIndexPKPrefix P time = ConcatBytes P [CI64 time]"

definition scheduledIndexPK :: "pkgs \<Rightarrow> int \<Rightarrow> uint64 \<Rightarrow> uint64 \<Rightarrow> uint64 \<Rightarrow> bytes" where
  "scheduledIndexPK P time accountId queueId scheduleId = ConcatBytes P [CI64 time, CU64 accountId, CU64 queueId, CU64 scheduleId]"

definition schedulesTable_Get :: "pkgs \<Rightarrow> 's schedulesTable \<Rightarrow> ScheduleId \<Rightarrow> ('s, Schedule) go" where
  "schedulesTable_Get P t scheduleId = bt_Get (sct_table t) (ConcatBytes P
    [CBytes (schedulesTable_tablePK P (sid_AccountId scheduleId) (sid_QueueId scheduleId)),
     CBytes (schedulesTable_tableSK P (sid_ScheduleId scheduleId))])"

definition schedulesTable_GetByName :: "pkgs \<Rightarrow> 's schedulesTable \<Rightarrow> QueueId \<Rightarrow> string \<Rightarrow> ('s, Schedule) go" where
  "schedulesTable_GetByName P t queueId scheduleName =
    go_bind (ut_Get (sct_namesIndex t) (schedulesTable_namesIndexPK P (qid_AccountId queueId) (qid_QueueId queueId) scheduleName)) (\<lambda>scheduleId.
    schedulesTable_Get P t \<lparr> sid_AccountId = qid_AccountId queueId, sid_QueueId = qid_QueueId queueId, sid_ScheduleId = scheduleId \<rparr>)"

definition schedulesTable_ListAll :: "pkgs \<Rightarrow> 's schedulesTable \<Rightarrow> QueueId \<Rightarrow> ('s, Schedule list) go" where
  "schedulesTable_ListAll P t queueId =
    bt_ListAll (sct_table t) (schedulesTable_tablePK P (qid_AccountId queueId) (qid_QueueId queueId))"

definition schedulesTable_List ::
  "pkgs \<Rightarrow> 's schedulesTable \<Rightarrow> QueueId \<Rightarrow> PaginationToken option \<Rightarrow> int \<Rightarrow> ('s, ListSchedulesResponse) go" where
  "schedulesTable_List P t queueId paginationToken limit =
    (let monsteraToken = CoreToMonstera paginationToken in
     go_bind (bt_ListPaginated (sct_table t) (schedulesTable_tablePK P (qid_AccountId queueId) (qid_QueueId queueId)) monsteraToken limit) (\<lambda>result.
     go_ret \<lparr> lsr_Schedules = in_order monsteraToken (pg_Items result),
              lsr_NextPaginationToken = MonsteraToCore (pg_NextPaginationToken result),
              lsr_PreviousPaginationToken = MonsteraToCore (pg_PreviousPaginationToken result) \<rparr>))"

abbreviation sch_acc :: "Schedule \<Rightarrow> uint64" where "sch_acc x \<equiv> sid_AccountId (sch_Id x)"
abbreviation sch_que :: "Schedule \<Rightarrow> uint64" where "sch_que x \<equiv> sid_QueueId (sch_Id x)"
abbreviation sch_sid :: "Schedule \<Rightarrow> uint64" where "sch_sid x \<equiv> sid_ScheduleId (sch_Id x)"

definition schedulesTable_Create :: "pkgs \<Rightarrow> 's schedulesTable \<Rightarrow> Schedule \<Rightarrow> ('s, unit) go" where
  "schedulesTable_Create P t schedule =
    go_seq (si_Add (sct_scheduledIndex t)
      (scheduledIndexPK P (sch_NextScheduledAt schedule) (sch_acc schedule) (sch_que schedule) (sch_sid schedule)))
   (go_seq (ut_Set (sct_namesIndex t)
      (schedulesTable_namesIndexPK P (sch_acc schedule) (sch_que schedule) (sch_Name schedule)) (sch_sid schedule))
   (bt_Set (sct_table t) (ConcatBytes P
      [CBytes (schedulesTable_tablePK P (sch_acc schedule) (sch_que schedule)),
       CBytes (schedulesTable_tableSK P (sch_sid schedule))]) schedule))"

definition schedulesTable_Update :: "pkgs \<Rightarrow> 's schedulesTable \<Rightarrow> Schedule \<Rightarrow> ('s, unit) go" where
  "schedulesTable_Update P t schedule =
    go_bind (schedulesTable_Get P t (sch_Id schedule)) (\<lambda>existing.
    let oldNextScheduledAt = sch_NextScheduledAt existing in
    go_seq (go_when (sch_NextScheduledAt schedule \<noteq> oldNextScheduledAt)
      (go_seq (si_Delete (sct_scheduledIndex t)
         (scheduledIndexPK P oldNextScheduledAt (sch_acc schedule) (sch_que schedule) (sch_sid schedule)))
       (si_Add (sct_scheduledIndex t)
         (scheduledIndexPK P (sch_NextScheduledAt schedule) (sch_acc schedule) (sch_que schedule) (sch_sid schedule)))))
    (bt_Set (sct_table t) (ConcatBytes P
      [CBytes (schedulesTable_tablePK P (sch_acc schedule) (sch_que schedule)),
       CBytes (schedulesTable_tableSK P (sch_sid schedule))]) schedule))"

text \<open>The callback of \<open>ListDue\<close>: decode one item, read its schedule, append
  it.\<close>

definition schedules_ListDue_callback ::
  "pkgs \<Rightarrow> 's schedulesTable \<Rightarrow> int \<Rightarrow> bytes \<Rightarrow> Schedule list \<Rightarrow> ('s, bool \<times> Schedule list) go" where
  "schedules_ListDue_callback P t limit item schedules =
    go_bind (go_slice item 8 16) (\<lambda>a.
    go_bind (go_slice item 16 24) (\<lambda>q.
    go_bind (go_slice item 24 32) (\<lambda>i.
    go_bind (schedulesTable_Get P t \<lparr> sid_AccountId = BytesToUint64 P a, sid_QueueId = BytesToUint64 P q,
        sid_ScheduleId = BytesToUint64 P i \<rparr>) (\<lambda>schedule.
    let schedules' = schedules @ [schedule] in
    go_ret (int (length schedules') < limit, schedules')))))"

definition schedulesTable_ListDue :: "pkgs \<Rightarrow> 's schedulesTable \<Rightarrow> int \<Rightarrow> int \<Rightarrow> ('s, Schedule list) go" where
  "schedulesTable_ListDue P t before limit =
    go_bind (si_ListInRange (sct_scheduledIndex t) (scheduledIndexPKPrefix P 0) (scheduledIndexPKPrefix P before)) (\<lambda>items.
    go_scan (schedules_ListDue_callback P t limit) items [])"

definition schedulesTable_Delete :: "pkgs \<Rightarrow> 's schedulesTable \<Rightarrow> Schedule \<Rightarrow> ('s, unit) go" where
  "schedulesTable_Delete P t schedule =
    go_seq (si_Delete (sct_scheduledIndex t)
      (scheduledIndexPK P (sch_NextScheduledAt schedule) (sch_acc schedule) (sch_que schedule) (sch_sid schedule)))
   (go_seq (ignore_NotFound (ut_Delete (sct_namesIndex t)
      (schedulesTable_namesIndexPK P (sch_acc schedule) (sch_que schedule) (sch_Name schedule))))
   (ignore_NotFound (bt_Delete (sct_table t) (ConcatBytes P
      [CBytes (schedulesTable_tablePK P (sch_acc schedule) (sch_que schedule)),
       CBytes (schedulesTable_tableSK P (sch_sid schedule))]))))"

section \<open>counters.go\<close>

record 's queues_countersTable =
  qct_table :: "('s, QueuesCounter) BinaryTable"

definition queues_newCountersTable :: "pkgs \<Rightarrow> 's queues_honey \<Rightarrow> bytes \<Rightarrow> 's queues_countersTable" where
  "queues_newCountersTable P H replicaPrefix =
    \<lparr> qct_table = NewBinaryTable_QueuesCounter H (ConcatBytes P [CBytes replicaPrefix, CBytes queues_tablePrefixCounters]) \<rparr>"

definition queues_countersTable_tablePK :: "pkgs \<Rightarrow> uint64 \<Rightarrow> bytes" where
  "queues_countersTable_tablePK P accountId = ConcatBytes P [CU64 accountId]"

definition queues_countersTable_Get :: "pkgs \<Rightarrow> 's queues_countersTable \<Rightarrow> uint64 \<Rightarrow> ('s, QueuesCounter) go" where
  "queues_countersTable_Get P t accountId =
    go_try (bt_Get (qct_table t) (queues_countersTable_tablePK P accountId))
      (\<lambda>err. if errors_Is_NotFound err then go_ret QueuesCounter_zero else go_fail err)
      go_ret"

definition queues_countersTable_Set :: "pkgs \<Rightarrow> 's queues_countersTable \<Rightarrow> uint64 \<Rightarrow> QueuesCounter \<Rightarrow> ('s, unit) go" where
  "queues_countersTable_Set P t accountId counters = bt_Set (qct_table t) (queues_countersTable_tablePK P accountId) counters"

section \<open>gc\_records.go\<close>

record 's gcRecordsTable =
  gct_table :: "('s, QueuesGarbageCollectionRecord) BinaryTable"

definition newGCRecordsTable :: "pkgs \<Rightarrow> 's queues_honey \<Rightarrow> bytes \<Rightarrow> 's gcRecordsTable" where
  "newGCRecordsTable P H replicaPrefix =
    \<lparr> gct_table = NewBinaryTable_QueuesGCRecord H (ConcatBytes P [CBytes replicaPrefix, CBytes tablePrefixGCRecords]) \<rparr>"

definition gcRecordsTable_tablePK :: "pkgs \<Rightarrow> uint64 \<Rightarrow> uint64 \<Rightarrow> bytes" where
  "gcRecordsTable_tablePK P accountId queueId = ConcatBytes P [CU64 accountId, CU64 queueId]"

definition gcRecordsTable_Create :: "pkgs \<Rightarrow> 's gcRecordsTable \<Rightarrow> QueuesGarbageCollectionRecord \<Rightarrow> ('s, unit) go" where
  "gcRecordsTable_Create P t rec = bt_Set (gct_table t)
    (gcRecordsTable_tablePK P (qid_AccountId (qgc_QueueId rec)) (qid_QueueId (qgc_QueueId rec))) rec"

definition gcRecordsTable_Delete :: "pkgs \<Rightarrow> 's gcRecordsTable \<Rightarrow> QueuesGarbageCollectionRecord \<Rightarrow> ('s, unit) go" where
  "gcRecordsTable_Delete P t rec = bt_Delete (gct_table t)
    (gcRecordsTable_tablePK P (qid_AccountId (qgc_QueueId rec)) (qid_QueueId (qgc_QueueId rec)))"

definition gcRecordsTable_List :: "pkgs \<Rightarrow> 's gcRecordsTable \<Rightarrow> int \<Rightarrow> ('s, QueuesGarbageCollectionRecord list) go" where
  "gcRecordsTable_List P t limit =
    go_bind (bt_ListPaginated (gct_table t) [] None limit) (\<lambda>result. go_ret (pg_Items result))"

end
