(* ===== verification/Ref_Packages.thy ===== *)
theory Ref_Packages
  imports Ids_Pagination
begin

text \<open>
  An executable instance of the pure imported functions, to show that the
  contracts \<open>utils_pkg\<close> and \<open>base62_pkg\<close> can be met: plain big-endian
  concatenation, the low 32 bits as shard hash, and a codec that writes a byte as
  two letters.
\<close>

definition nibble_char :: "nat \<Rightarrow> char" where
  "nibble_char n = char_of (97 + n)"

definition char_nibble :: "char \<Rightarrow> nat" where
  "char_nibble ch = of_char ch - 97"

fun ref_encode :: "bytes \<Rightarrow> string" where
  "ref_encode [] = []"
| "ref_encode (b # bs) = nibble_char (unat b div 16) # nibble_char (unat b mod 16) # ref_encode bs"

fun ref_decode :: "string \<Rightarrow> bytes option" where
  "ref_decode [] = Some []"
| "ref_decode [_] = None"
| "ref_decode (x # y # cs) =
    (if char_nibble x < 16 \<and> char_nibble y < 16
     then map_option (\<lambda>bs. of_nat (char_nibble x * 16 + char_nibble y) # bs) (ref_decode cs) else None)"

definition refP :: pkgs where
  "refP = \<lparr> ConcatBytes = (\<lambda>args. concat (map concat_arg_bytes args)),
            BytesToUint64 = (\<lambda>b. of_nat (unbe b)),
            GetShardKey = (\<lambda>b. of_nat (unbe b)),
            base62_Encode = ref_encode,
            base62_DecodeString = ref_decode \<rparr>"

lemma of_char_nibble [simp]: "n < 16 \<Longrightarrow> (of_char (nibble_char n) :: nat) = 97 + n"
  by (simp add: nibble_char_def)

lemma char_nibble_inverse [simp]: "n < 16 \<Longrightarrow> char_nibble (nibble_char n) = n"
  by (simp add: char_nibble_def)

lemma unat_byte_div [simp]: "unat (b :: 8 word) div 16 < 16"
proof -
  have "unat b < 2 ^ LENGTH(8)" by (rule unsigned_less)
  then show ?thesis by simp
qed

lemma nibble_alnum [simp]: "n < 16 \<Longrightarrow> is_alnum (nibble_char n)"
  by (simp add: is_alnum_def)

lemma ref_encode_alnum: "list_all is_alnum (ref_encode bs)"
  by (induction bs) simp_all

lemma ref_decode_encode: "ref_decode (ref_encode bs) = Some bs"
proof (induction bs)
  case (Cons b bs)
  have "unat b div 16 * 16 + unat b mod 16 = unat b" by simp
  then show ?case using Cons by (simp del: of_nat_add of_nat_mult)
qed simp

interpretation ref_utils: utils_pkg refP
  by unfold_locales (simp_all add: refP_def)

interpretation ref_base62: base62_pkg refP
proof
  fix b :: bytes
  show "b \<noteq> [] \<Longrightarrow> base62_Encode refP b \<noteq> []" by (cases b) (simp_all add: refP_def)
qed (simp_all add: refP_def ref_encode_alnum ref_decode_encode)

end
