(* ===== verification/Ref_Store.thy ===== *)
theory Ref_Store
  imports Tasks_Handlers Queues_Tables Ref_Packages
begin

text \<open>
  An executable instance of the imported storage packages: one flat list of
  key-value pairs under all tables, each table a key prefix.  It shows that the
  storage contracts can be met together by the tables the constructors
  \<open>NewTasksCore\<close> and \<open>NewQueuesCore\<close> build, whatever the replica
  prefix, and it is the store the witnesses run on.
\<close>

section \<open>A flat key-value store\<close>

datatype row =
    RTask Task
  | RThread Thread
  | RTasksCounter TasksCounter
  | RQueueState QueueState
  | RRateLimiter RateLimiterState
  | RPurge PurgeQueueGarbageCollectionRecord
  | RQueue Queue
  | RSchedule Schedule
  | RQueuesCounter QueuesCounter
  | RQueuesGC QueuesGarbageCollectionRecord
  | RU64 uint64
  | RItem

type_synonym kv = "(bytes \<times> row) list"

definition kv_set :: "bytes \<Rightarrow> row \<Rightarrow> kv \<Rightarrow> kv" where
  "kv_set k r s = (k, r) # filter (\<lambda>(k', _). k' \<noteq> k) s"

definition kv_del :: "bytes \<Rightarrow> kv \<Rightarrow> kv" where
  "kv_del k s = filter (\<lambda>(k', _). k' \<noteq> k) s"

text \<open>What a table stored under prefix \<open>p\<close> holds, and the keys it has
  rows for.\<close>

definition tab :: "(row \<Rightarrow> 'v option) \<Rightarrow> bytes \<Rightarrow> kv \<Rightarrow> bytes \<Rightarrow> 'v option" where
  "tab dest p s k = Option.bind (map_of s (p @ k)) dest"

definition tabset :: "bytes \<Rightarrow> kv \<Rightarrow> bytes set" where
  "tabset p s = {x. map_of s (p @ x) \<noteq> None}"

definition kv_keys :: "bytes \<Rightarrow> kv \<Rightarrow> bytes list" where
  "kv_keys p s = sort (remdups (map (drop (length p)) (filter (prefix p) (map fst s))))"

lemma map_of_kv [simp]:
  "map_of (kv_set k r s) = (map_of s)(k \<mapsto> r)"
  "map_of (kv_del k s) = (map_of s)(k := None)"
proof -
  show "map_of (kv_del k s) = (map_of s)(k := None)"
    by (induction s) (auto simp: kv_del_def fun_eq_iff)
  then show "map_of (kv_set k r s) = (map_of s)(k \<mapsto> r)"
    by (simp add: kv_set_def kv_del_def)
qed

lemma tab_upd:
  "dest r = Some v \<Longrightarrow> tab dest p (kv_set (p @ k) r s) = (tab dest p s)(k \<mapsto> v)"
  "tab dest p (kv_del (p @ k) s) = (tab dest p s)(k := None)"
  by (auto simp: tab_def fun_eq_iff)

lemma tabset_upd:
  "tabset p (kv_set (p @ k) r s) = insert k (tabset p s)"
  "tabset p (kv_del (p @ k) s) = tabset p s - {k}"
  by (auto simp: tabset_def)

text \<open>Tables of one replica are told apart by one byte after the replica
  prefix.\<close>

lemma replica_tab_upd:
  "dest r = Some v \<Longrightarrow> tab dest (rp @ [b]) (kv_set (rp @ b # k) r s) = (tab dest (rp @ [b]) s)(k \<mapsto> v)"
  "tab dest (rp @ [b]) (kv_del (rp @ b # k) s) = (tab dest (rp @ [b]) s)(k := None)"
  "tabset (rp @ [b]) (kv_set (rp @ b # k) r s) = insert k (tabset (rp @ [b]) s)"
  "tabset (rp @ [b]) (kv_del (rp @ b # k) s) = tabset (rp @ [b]) s - {k}"
  using tab_upd(1)[of dest r v "rp @ [b]" k s] tab_upd(2)[of dest "rp @ [b]" k s]
    tabset_upd(1)[of "rp @ [b]" k] tabset_upd(2)[of "rp @ [b]" k] by simp_all

lemma replica_tab_other:
  assumes "b \<noteq> b'"
  shows "tab dest (rp @ [b]) (kv_set (rp @ b' # k) r s) = tab dest (rp @ [b]) s"
    and "tab dest (rp @ [b]) (kv_del (rp @ b' # k) s) = tab dest (rp @ [b]) s"
    and "tabset (rp @ [b]) (kv_set (rp @ b' # k) r s) = tabset (rp @ [b]) s"
    and "tabset (rp @ [b]) (kv_del (rp @ b' # k) s) = tabset (rp @ [b]) s"
  using assms by (auto simp: tab_def tabset_def fun_eq_iff)

lemma finite_tabset: "finite (tabset p s)"
proof -
  have "tabset p s = (\<lambda>x. p @ x) -` dom (map_of s)" by (auto simp: tabset_def)
  then show ?thesis using finite_vimageI[OF finite_dom_map_of, of "\<lambda>x. p @ x" s] by (simp add: inj_def)
qed

lemma finite_dom_tab: "finite (dom (tab dest p s))"
  by (rule finite_subset[OF _ finite_tabset[of p s]])
     (auto simp: tab_def tabset_def split: Option.bind_splits)

lemma set_kv_keys: "set (kv_keys p s) = tabset p s"
  by (force simp: kv_keys_def tabset_def map_of_eq_None_iff image_iff prefix_def)

lemma sorted_kv_keys: "sorted (kv_keys p s)" "distinct (kv_keys p s)"
  by (simp_all add: kv_keys_def)

lemma sorted_filter_kv_keys: "filter Q (kv_keys p s) = sorted_list_of_set {x \<in> tabset p s. Q x}"
proof -
  have "sorted (filter Q (kv_keys p s))" "distinct (filter Q (kv_keys p s))"
    using sorted_kv_keys[of p s] by (auto intro: sorted_wrt_filter)
  then have "sorted_list_of_set (set (filter Q (kv_keys p s))) = filter Q (kv_keys p s)"
    by (rule sorted_list_of_set.idem_if_sorted_distinct)
  then show ?thesis by (simp add: set_kv_keys)
qed

section \<open>Tables\<close>

text \<open>One page of a sorted key list: the keys after the token's (before it, in
  descending order, when the token walks backward), with tokens for the
  neighbouring pages.\<close>

definition ref_page :: "bytes list \<Rightarrow> honey_PaginationToken option \<Rightarrow> int \<Rightarrow> bytes page" where
  "ref_page ks tok n =
    (let back = (case tok of Some t \<Rightarrow> hpt_Reverse t | None \<Rightarrow> False);
         rest = (case tok of None \<Rightarrow> ks
           | Some t \<Rightarrow> if back then rev (filter (\<lambda>k. k < hpt_Key t) ks) else filter (\<lambda>k. hpt_Key t < k) ks);
         items = take (nat n) rest;
         more = (nat n < length rest);
         on = (\<lambda>r. Some \<lparr> hpt_Key = last items, hpt_Reverse = r \<rparr>);
         off = (\<lambda>r. if tok = None \<or> items = [] then None else Some \<lparr> hpt_Key = hd items, hpt_Reverse = r \<rparr>) in
     \<lparr> pg_Items = items,
       pg_NextPaginationToken = (if back then off False else if more then on False else None),
       pg_PreviousPaginationToken = (if back then if more then on True else None else off True) \<rparr>)"

definition ref_table :: "('v \<Rightarrow> row) \<Rightarrow> (row \<Rightarrow> 'v option) \<Rightarrow> bytes \<Rightarrow> (kv, 'v) BinaryTable" where
  "ref_table mk dest p =
    \<lparr> bt_TableId = p,
      bt_Get = (\<lambda>k s. case tab dest p s k of None \<Rightarrow> Inl ErrNotFound | Some v \<Rightarrow> Inr (v, s)),
      bt_Set = (\<lambda>k v s. Inr ((), kv_set (p @ k) (mk v) s)),
      bt_Delete = (\<lambda>k s. Inr ((), kv_del (p @ k) s)),
      bt_ListAll = (\<lambda>pfx s. Inr (map (\<lambda>k. the (tab dest p s k))
        (filter (\<lambda>k. prefix pfx k \<and> tab dest p s k \<noteq> None) (kv_keys p s)), s)),
      bt_ListPaginated = (\<lambda>pfx tok n s.
        let pg = ref_page (filter (\<lambda>k. prefix pfx k \<and> tab dest p s k \<noteq> None) (kv_keys p s)) tok n in
        Inr (\<lparr> pg_Items = map (\<lambda>k. the (tab dest p s k)) (pg_Items pg),
               pg_NextPaginationToken = pg_NextPaginationToken pg,
               pg_PreviousPaginationToken = pg_PreviousPaginationToken pg \<rparr>, s)) \<rparr>"

fun dest_U64 :: "row \<Rightarrow> uint64 option" where
  "dest_U64 (RU64 w) = Some w"
| "dest_U64 _ = None"

definition ref_uint64 :: "bytes \<Rightarrow> kv Uint64Table" where
  "ref_uint64 p =
    \<lparr> ut_TableId = p,
      ut_Get = (\<lambda>k s. case tab dest_U64 p s k of None \<Rightarrow> Inl ErrNotFound | Some v \<Rightarrow> Inr (v, s)),
      ut_Set = (\<lambda>k v s. Inr ((), kv_set (p @ k) (RU64 v) s)),
      ut_Delete = (\<lambda>k s. Inr ((), kv_del (p @ k) s)) \<rparr>"

definition items_from :: "bytes list \<Rightarrow> bytes \<Rightarrow> bytes list" where
  "items_from ks pk = map (drop (length pk)) (filter (prefix pk) ks)"

definition ref_index :: "bytes \<Rightarrow> kv OneToManySortedIndex" where
  "ref_index p =
    \<lparr> oi_TableId = p,
      oi_Add = (\<lambda>pk x s. Inr ((), kv_set (p @ pk @ x) RItem s)),
      oi_Delete = (\<lambda>pk x s. Inr ((), kv_del (p @ pk @ x) s)),
      oi_ListAll = (\<lambda>pk s. Inr (items_from (kv_keys p s) pk, s)),
      oi_ListInRange = (\<lambda>pk lo hi s. Inr (filter (in_prefix_range lo hi) (items_from (kv_keys p s) pk), s)),
      oi_ListPaginated = (\<lambda>pk tok n s. Inr (ref_page (items_from (kv_keys p s) pk) tok n, s)) \<rparr>"

definition ref_sorted :: "bytes \<Rightarrow> kv SortedIndex" where
  "ref_sorted p =
    \<lparr> si_TableId = p,
      si_Add = (\<lambda>x s. Inr ((), kv_set (p @ x) RItem s)),
      si_Delete = (\<lambda>x s. Inr ((), kv_del (p @ x) s)),
      si_ListInRange = (\<lambda>lo hi s. Inr (filter (in_prefix_range lo hi) (kv_keys p s), s)) \<rparr>"

definition refBs :: "(kv, kv) BadgerStore" where
  "refBs = \<lparr> bs_View = (\<lambda>d. d), bs_Update = (\<lambda>d. d), bs_Commit = Inr,
             bs_DeletePrefix = (\<lambda>p d. Inr (filter (\<lambda>(k, _). \<not> prefix p k) d)) \<rparr>"

text \<open>The contracts, for a table seen through any view that follows it.\<close>

lemma keys_under_tab:
  "filter (\<lambda>k. prefix pfx k \<and> tab dest p s k \<noteq> None) (kv_keys p s) = keys_under (tab dest p s) pfx"
proof -
  have "{x \<in> tabset p s. prefix pfx x \<and> tab dest p s x \<noteq> None} = {k \<in> dom (tab dest p s). prefix pfx k}"
    by (auto simp: tabset_def tab_def dom_def split: Option.bind_splits)
  then show ?thesis by (simp add: sorted_filter_kv_keys keys_under_def)
qed

lemma ref_page_first:
  "pg_Items (ref_page ks None n) = take (nat n) ks"
  "nat n < length ks \<Longrightarrow> pg_NextPaginationToken (ref_page ks None n) \<noteq> None"
  "ks = [] \<Longrightarrow> pg_NextPaginationToken (ref_page ks None n) = None"
  by (simp_all add: ref_page_def Let_def)

lemma ref_binary_table:
  assumes get: "\<And>s. get (view s) = tab dest p s"
    and set: "\<And>s k v. view (kv_set (p @ k) (mk v) s) = upd (\<lambda>m. m(k \<mapsto> v)) (view s)"
    and del: "\<And>s k. view (kv_del (p @ k) s) = upd (\<lambda>m. m(k := None)) (view s)"
    and del0: "\<And>s k. tab dest p s k = None \<Longrightarrow> upd (\<lambda>m. m(k := None)) (view s) = view s"
  shows "binary_table (ref_table mk dest p) view get upd"
proof
  fix pfx s n
  show "bt_ListAll (ref_table mk dest p) pfx s = Inr (rows_under (get (view s)) pfx, s)"
    by (simp add: ref_table_def keys_under_tab[simplified] rows_under_def get)
  show "\<exists>pg. bt_ListPaginated (ref_table mk dest p) pfx None n s = Inr (pg, s) \<and>
      pg_Items pg = take (nat n) (rows_under (get (view s)) pfx) \<and>
      (nat n < length (rows_under (get (view s)) pfx) \<longrightarrow> pg_NextPaginationToken pg \<noteq> None) \<and>
      (rows_under (get (view s)) pfx = [] \<longrightarrow> pg_NextPaginationToken pg = None)"
    using ref_page_first
    by (simp add: ref_table_def keys_under_tab[simplified] rows_under_def get Let_def take_map)
qed (simp_all add: ref_table_def get set del del0 finite_dom_tab)

lemma ref_uint64_table:
  assumes "\<And>s. get (view s) = tab dest_U64 p s"
    and "\<And>s k v. view (kv_set (p @ k) (RU64 v) s) = upd (\<lambda>m. m(k \<mapsto> v)) (view s)"
    and "\<And>s k. view (kv_del (p @ k) s) = upd (\<lambda>m. m(k := None)) (view s)"
  shows "uint64_table (ref_uint64 p) view get upd"
  by unfold_locales (simp_all add: ref_uint64_def assms)

lemma items_under_from: "items_from (kv_keys p s) pk = items_under (tabset p s) pk"
proof -
  have eq: "filter (prefix pk) (kv_keys p s) = sorted_list_of_set ((\<lambda>x. pk @ x) ` {x. pk @ x \<in> tabset p s})"
    unfolding sorted_filter_kv_keys by (rule arg_cong[of _ _ sorted_list_of_set]) (auto simp: prefix_def)
  have mono: "strict_mono_on {x. pk @ x \<in> tabset p s} (\<lambda>x. pk @ x)"
  proof (rule strict_mono_onI)
    fix x y :: bytes
    assume "x < y"
    then show "pk @ x < pk @ y" by (induction pk) simp_all
  qed
  have fin: "finite {x. pk @ x \<in> tabset p s}"
    using finite_vimageI[OF finite_tabset, of "\<lambda>x. pk @ x" p s] by (simp add: inj_def vimage_def)
  show ?thesis
    by (simp add: items_from_def eq sorted_list_of_image[OF mono fin] items_under_def comp_def)
qed

lemma ref_sorted_index:
  assumes get: "\<And>s. get (view s) = tabset p s"
    and set: "\<And>s x. view (kv_set (p @ x) RItem s) = upd (insert x) (view s)"
    and del: "\<And>s x. view (kv_del (p @ x) s) = upd (\<lambda>K. K - {x}) (view s)"
  shows "sorted_index (ref_index p) view get upd"
  by unfold_locales (simp_all add: ref_index_def get set del finite_tabset items_under_from ref_page_first)

lemma ref_global_index:
  assumes get: "\<And>s. get (view s) = tabset p s"
    and set: "\<And>s x. view (kv_set (p @ x) RItem s) = upd (insert x) (view s)"
    and del: "\<And>s x. view (kv_del (p @ x) s) = upd (\<lambda>K. K - {x}) (view s)"
  shows "global_index (ref_sorted p) view get upd"
proof -
  have "kv_keys p s = items_under (tabset p s) []" for s
    using sorted_filter_kv_keys[of "\<lambda>_. True" p s] by (simp add: items_under_def)
  then show ?thesis
    by unfold_locales (simp_all add: ref_sorted_def get set del finite_tabset)
qed

lemma ref_badger_store: "badger_store refBs view view"
  by unfold_locales (simp_all add: refBs_def)

section \<open>The tasks core\<close>

fun dest_Task :: "row \<Rightarrow> Task option" where "dest_Task (RTask x) = Some x" | "dest_Task _ = None"
fun dest_Thread :: "row \<Rightarrow> Thread option" where "dest_Thread (RThread x) = Some x" | "dest_Thread _ = None"
fun dest_TasksCounter :: "row \<Rightarrow> TasksCounter option" where
  "dest_TasksCounter (RTasksCounter x) = Some x" | "dest_TasksCounter _ = None"
fun dest_QueueState :: "row \<Rightarrow> QueueState option" where
  "dest_QueueState (RQueueState x) = Some x" | "dest_QueueState _ = None"
fun dest_RateLimiter :: "row \<Rightarrow> RateLimiterState option" where
  "dest_RateLimiter (RRateLimiter x) = Some x" | "dest_RateLimiter _ = None"
fun dest_Purge :: "row \<Rightarrow> PurgeQueueGarbageCollectionRecord option" where
  "dest_Purge (RPurge x) = Some x" | "dest_Purge _ = None"
fun dest_Queue :: "row \<Rightarrow> Queue option" where "dest_Queue (RQueue x) = Some x" | "dest_Queue _ = None"
fun dest_Schedule :: "row \<Rightarrow> Schedule option" where
  "dest_Schedule (RSchedule x) = Some x" | "dest_Schedule _ = None"
fun dest_QueuesCounter :: "row \<Rightarrow> QueuesCounter option" where
  "dest_QueuesCounter (RQueuesCounter x) = Some x" | "dest_QueuesCounter _ = None"
fun dest_QueuesGC :: "row \<Rightarrow> QueuesGarbageCollectionRecord option" where
  "dest_QueuesGC (RQueuesGC x) = Some x" | "dest_QueuesGC _ = None"

definition refH :: "kv honey" where
  "refH = \<lparr> NewBinaryTable_Task = ref_table RTask dest_Task,
            NewBinaryTable_Thread = ref_table RThread dest_Thread,
            NewBinaryTable_TasksCounter = ref_table RTasksCounter dest_TasksCounter,
            NewBinaryTable_QueueState = ref_table RQueueState dest_QueueState,
            NewBinaryTable_RateLimiterState = ref_table RRateLimiter dest_RateLimiter,
            NewBinaryTable_PurgeRecord = ref_table RPurge dest_Purge,
            NewUint64Table = ref_uint64,
            NewOneToManySortedIndex = ref_index,
            NewSortedIndex = ref_sorted \<rparr>"

definition refQH :: "kv queues_honey" where
  "refQH = \<lparr> NewBinaryTable_Queue = ref_table RQueue dest_Queue,
             NewBinaryTable_Schedule = ref_table RSchedule dest_Schedule,
             NewBinaryTable_QueuesCounter = ref_table RQueuesCounter dest_QueuesCounter,
             NewBinaryTable_QueuesGCRecord = ref_table RQueuesGC dest_QueuesGC,
             queues_NewUint64Table = ref_uint64,
             queues_NewSortedIndex = ref_sorted \<rparr>"

text \<open>The content of the twelve tables of the core with replica prefix
  \<open>rp\<close>.\<close>

definition ref_view :: "bytes \<Rightarrow> kv \<Rightarrow> tasks_view" where
  "ref_view rp s =
    \<lparr> v_tasks = tab dest_Task (rp @ tablePrefixTasks) s,
      v_dedupe = tab dest_U64 (rp @ tablePrefixDedupeKeysIndex) s,
      v_queue = tabset (rp @ tablePrefixQueueIndex) s,
      v_inProgress = tabset (rp @ tablePrefixInProgressIndex) s,
      v_dead = tabset (rp @ tablePrefixDeadTasksIndex) s,
      v_expiration = tabset (rp @ tablePrefixExpirationIndex) s,
      v_threads = tab dest_Thread (rp @ tablePrefixThreads) s,
      v_threaded = tabset (rp @ tablePrefixThreadedTasksIndex) s,
      v_counters = tab dest_TasksCounter (rp @ tablePrefixCounters) s,
      v_queueState = tab dest_QueueState (rp @ tablePrefixQueueState) s,
      v_rateLimiters = tab dest_RateLimiter (rp @ tablePrefixRateLimiters) s,
      v_purge = tab dest_Purge (rp @ tablePrefixPurgeGCRecords) s \<rparr>"

definition refC :: "bytes \<Rightarrow> (kv, kv) TasksCore" where
  "refC rp = NewTasksCore refP refH refBs rp 0 (- 1)"

lemmas table_prefix_defs =
  tablePrefixTasks_def tablePrefixDedupeKeysIndex_def tablePrefixQueueIndex_def tablePrefixInProgressIndex_def
  tablePrefixDeadTasksIndex_def tablePrefixExpirationIndex_def tablePrefixThreads_def
  tablePrefixThreadedTasksIndex_def tablePrefixCounters_def tablePrefixQueueState_def
  tablePrefixRateLimiters_def tablePrefixPurgeGCRecords_def

lemma upd_idle: "m k = None \<Longrightarrow> m(k := None) = m"
  by (simp add: fun_eq_iff)

lemma refC_tables:
  "tt_table (tc_tasks (refC rp)) = ref_table RTask dest_Task (rp @ tablePrefixTasks)"
  "tt_dedupeKeysIndex (tc_tasks (refC rp)) = ref_uint64 (rp @ tablePrefixDedupeKeysIndex)"
  "tt_queueIndex (tc_tasks (refC rp)) = ref_index (rp @ tablePrefixQueueIndex)"
  "tt_inProgressIndex (tc_tasks (refC rp)) = ref_index (rp @ tablePrefixInProgressIndex)"
  "tt_deadTasksIndex (tc_tasks (refC rp)) = ref_index (rp @ tablePrefixDeadTasksIndex)"
  "ei_index (tt_expiration (tc_tasks (refC rp))) = ref_sorted (rp @ tablePrefixExpirationIndex)"
  "tht_table (tc_threads (refC rp)) = ref_table RThread dest_Thread (rp @ tablePrefixThreads)"
  "tht_threadedTasksIndex (tc_threads (refC rp)) = ref_index (rp @ tablePrefixThreadedTasksIndex)"
  "ct_table (tc_counters (refC rp)) = ref_table RTasksCounter dest_TasksCounter (rp @ tablePrefixCounters)"
  "qst_table (tc_queueState (refC rp)) = ref_table RQueueState dest_QueueState (rp @ tablePrefixQueueState)"
  "rlt_table (tc_rateLimiters (refC rp)) = ref_table RRateLimiter dest_RateLimiter (rp @ tablePrefixRateLimiters)"
  "pgt_table (tc_purgeGCRecords (refC rp)) = ref_table RPurge dest_Purge (rp @ tablePrefixPurgeGCRecords)"
  "tc_badgerStore (refC rp) = refBs"
  by (simp_all add: refC_def NewTasksCore_def newTasksTable_def newThreadsTable_def newCountersTable_def
      newQueueStateTable_def newRateLimitersTable_def newPurgeGCRecordsTable_def newExpirationIndex_def
      refP_def refH_def)

lemmas ref_view_simps = ref_view_def table_prefix_defs replica_tab_upd replica_tab_other upd_idle

interpretation ref_tasks: tasks_store refP "refC rp" "ref_view rp" "ref_view rp" for rp
proof (intro tasks_store.intro)
  show "utils_pkg refP" by (rule ref_utils.utils_pkg_axioms)
qed (unfold refC_tables,
    (rule ref_binary_table ref_uint64_table ref_sorted_index ref_global_index ref_badger_store;
     simp add: ref_view_simps)+)

end
