(* ===== verification/Ref_Runs.thy ===== *)
theory Ref_Runs
  imports Ref_Store Tasks_System
begin

text \<open>
  A small run of the tasks core on the reference store: one task of a thread is
  enqueued, delivered, failed into the dead letter queue, and its queue is
  purged.  The states of the run are named, and the facts about them that the
  witnesses need are derived from the lemmas of the library.
\<close>

section \<open>The empty store\<close>

definition empty_qview :: qview where
  "empty_qview = \<lparr> qv_tasks = Map.empty, qv_dedupe = Map.empty, qv_queue = {}, qv_inProgress = {}, qv_dead = {},
     qv_expiration = {}, qv_threads = Map.empty, qv_threaded = (\<lambda>_. {}), qv_counters = TasksCounter_zero,
     qv_state = QueueState_zero, qv_rateLimiter = None, qv_purge = None \<rparr>"

lemma ref_view_empty [simp]: "qview_of (ref_view rp []) = (\<lambda>_. empty_qview)"
  by (rule ext) (simp add: qview_of_def ref_view_def tab_def tabset_def empty_qview_def or_zero_def fun_eq_iff)

lemma coherent_empty: "coherent a q empty_qview"
  by (simp add: coherent_def coh_def empty_qview_def rows_wf_def idx_ok_def dedupe_ok_def threads_ok_def threaded_ok_def
      thread_ok_def in_queue_def member_def counters_ok_def count_rows_def TasksCounter_zero_def i64_def ids_below_def)

lemma good_empty [simp]: "good_view (ref_view rp [])"
  using coherent_empty by (simp add: good_view_def wf_view_def) (simp add: ref_view_def tab_def tabset_def dom_def)

section \<open>The run\<close>

definition the_queue :: QueueId where
  "the_queue = \<lparr> qid_AccountId = 1, qid_QueueId = 2 \<rparr>"

definition the_entry :: EnqueueRequestEntry where
  "the_entry = \<lparr> ent_Payload = [7], ent_ScheduledAt = 0, ent_ExpiresAt = 1000, ent_DedupeKey = ''k'',
     ent_RetryStrategy = None, ent_OverwriteOnDuplicate = [], ent_ThreadId = ''th'' \<rparr>"

definition the_enqueue :: EnqueueRequest where
  "the_enqueue = \<lparr> enq_QueueId = Some the_queue, enq_Entries = [the_entry] \<rparr>"

definition the_dlq :: DeadLetterQueueConfig where
  "the_dlq = \<lparr> dlq_Enable = True, dlq_MaxSize = 10, dlq_RetentionPeriodInSeconds = 60 \<rparr>"

definition the_dequeue :: DequeueRequest where
  "the_dequeue = \<lparr> deq_QueueId = Some the_queue, deq_DequeuingSettings = None, deq_DequeueLimit = 5,
     deq_DeadLetterQueueConfig = Some the_dlq, deq_KeepaliveTimeoutInSeconds = 30 \<rparr>"

definition the_report :: ReportStatusRequest where
  "the_report = \<lparr> rsq_QueueId = Some the_queue,
     rsq_Entries = [\<lparr> rse_TaskId = Some (mkTaskId 1 2 1), rse_Attempt = 1, rse_Status = STATUS_FAILED,
       rse_KeepaliveTimeoutInSeconds = 0 \<rparr>],
     rsq_DeadLetterQueueConfig = Some the_dlq \<rparr>"

lemma the_request_fields [simp]:
  "dlq_Enable the_dlq" "dlq_MaxSize the_dlq = 10" "dlq_RetentionPeriodInSeconds the_dlq = 60"
  "deq_QueueId the_dequeue = Some the_queue" "deq_DequeuingSettings the_dequeue = None" "deq_DequeueLimit the_dequeue = 5"
  "deq_DeadLetterQueueConfig the_dequeue = Some the_dlq" "deq_KeepaliveTimeoutInSeconds the_dequeue = 30"
  by (simp_all add: the_dlq_def the_dequeue_def)

definition refC0 :: "(kv, kv) TasksCore" where "refC0 = refC []"

definition d_enq :: kv where "d_enq = snd (Enqueue refP refC0 100 the_enqueue [])"
definition d_deq :: kv where "d_deq = snd (Dequeue refP refC0 200 the_dequeue d_enq)"
definition d_dead :: kv where "d_dead = snd (ReportStatus refP refC0 300 the_report d_deq)"
definition d_purge :: kv where "d_purge = snd (PurgeQueue refP refC0 (Some the_queue) d_dead)"

abbreviation ref_abs :: "kv \<Rightarrow> tasks_view" where "ref_abs \<equiv> ref_view []"

lemma ref_store [simp]: "tasks_store refP refC0 ref_abs ref_abs"
  unfolding refC0_def by (rule ref_tasks.tasks_store_axioms)

definition the_task :: Task where "the_task = new_task 100 1 2 1 the_entry"
definition the_task_out :: Task where "the_task_out = hand_row 200 30 the_task"
definition the_task_dead :: Task where "the_task_dead = dead_row 300 the_dlq the_task_out"

inductive_simps enqueue_steps_Nil: "enqueue_steps now a q [] n M n' M' out"
inductive_simps enqueue_steps_Cons: "enqueue_steps now a q (e # es) n M n' M' out"
inductive_simps enqueue_step_iff: "enqueue_step now a q e n M n' M' out"

lemma enqueue_one_fresh:
  "enqueue_steps now a q [e] n Map.empty n' M' out \<longleftrightarrow>
    n' = n + 1 \<and> M' = [n + 1 \<mapsto> new_task now a q (n + 1) e] \<and> out = [new_task now a q (n + 1) e]"
  by (auto simp: enqueue_steps_Nil enqueue_steps_Cons enqueue_step_iff)

lemma the_task_simps [simp]:
  "is_enq the_task" "task_tid the_task = 1" "t_ThreadId the_task = ''th''" "t_ExpiresAt the_task = 1000"
  "t_ScheduledAt the_task = 100" "t_RetryStrategy the_task = None" "t_Attempts the_task = 0"
  "t_Id the_task = mkTaskId 1 2 1" "t_DedupeKey the_task = ''k''" "t_State the_task = TASK_STATE_ENQUEUED"
  by (simp_all add: the_task_def new_task_def the_entry_def entry_time_def is_enq_def)

text \<open>The empty store after one entry.\<close>

lemma enqueue_one_state:
  fixes now :: int
  assumes "entry_ok e" "ent_OverwriteOnDuplicate e = []"
  defines "r \<equiv> Enqueue refP refC0 now \<lparr> enq_QueueId = Some the_queue, enq_Entries = [e] \<rparr> []"
  shows "\<exists>X. fst r = Inr (Payload [new_task now 1 2 1 e]) \<and> good_view (ref_abs (snd r)) \<and>
     qview_of (ref_abs (snd r)) = (\<lambda>_. empty_qview)((1, 2) := X) \<and> qv_tasks X = [1 \<mapsto> new_task now 1 2 1 e] \<and>
     qv_state X = QueueState_zero\<lparr> qs_TaskIdSequence := 1 \<rparr> \<and> qv_rateLimiter X = None \<and> qv_purge X = None"
proof -
  have "entries_safe now 1 2 [e] 0 Map.empty"
    by (rule entries_safe_static) (simp add: assms(2))
  then have "\<exists>d' n' X' out. r = (Inr (Payload out), d') \<and> good_view (ref_abs d') \<and>
    qview_of (ref_abs d') = (qview_of (ref_abs []))((1, 2) := X') \<and>
    enqueue_steps now 1 2 [e] 0 Map.empty n' (qv_tasks X') out \<and>
    qv_state X' = QueueState_zero\<lparr> qs_TaskIdSequence := n' \<rparr> \<and> qv_rateLimiter X' = None \<and> qv_purge X' = None"
    using tasks_store.Enqueue_ok[OF ref_store, of "[]" "\<lparr> enq_QueueId = Some the_queue, enq_Entries = [e] \<rparr>" 1 2 now] assms(1)
    by (simp add: r_def the_queue_def empty_qview_def QueueState_zero_def)
  then show ?thesis unfolding enqueue_one_fresh by auto
qed

text \<open>What each state holds.\<close>

lemma enq_state:
  "\<exists>X. Enqueue refP refC0 100 the_enqueue [] = (Inr (Payload [the_task]), d_enq) \<and> good_view (ref_abs d_enq) \<and>
     qview_of (ref_abs d_enq) = (\<lambda>_. empty_qview)((1, 2) := X) \<and> qv_tasks X = [1 \<mapsto> the_task] \<and>
     qv_state X = QueueState_zero\<lparr> qs_TaskIdSequence := 1 \<rparr> \<and> qv_rateLimiter X = None \<and> qv_purge X = None"
  using enqueue_one_state[of the_entry 100]
  by (simp add: d_enq_def the_task_def the_enqueue_def entry_ok_def prod_eq_iff) (simp add: the_entry_def)

lemma lone_queue:
  assumes "coh a q [t \<mapsto> k] X" "is_enq k"
  shows "qv_queue X = {sched_key k t}"
proof -
  let ?M = "[t \<mapsto> k]"
  have "head_of (qv_threads X) (t_ThreadId k) = Some t" if th: "t_ThreadId k \<noteq> []"
  proof -
    have m: "member ?M (t_ThreadId k) t k" using assms(2) by (simp add: member_def)
    have ok: "thread_ok a q ?M (t_ThreadId k) (qv_threads X (t_ThreadId k))"
      using cohD(7)[OF assms(1)] th by (simp add: threads_ok_def)
    then obtain thr where thr: "qv_threads X (t_ThreadId k) = Some thr" "head_ok a q ?M (t_ThreadId k) thr"
      using m by (cases "qv_threads X (t_ThreadId k)") (auto simp: thread_ok_def)
    then obtain h k' where "th_HeadTaskId thr = mkTaskId a q h" "member ?M (t_ThreadId k) h k'"
      unfolding head_ok_def by blast
    then have "tid_TaskId (th_HeadTaskId thr) = t" by (simp add: member_def split: if_splits)
    then show ?thesis using thr(1) by (simp add: head_of_def)
  qed
  then have "in_queue ?M (qv_threads X) e \<longleftrightarrow> e = sched_key k t" for e
    using assms(2) by (auto simp: in_queue_def)
  then show ?thesis using cohD(7)[OF assms(1)] by (auto simp: threads_ok_def)
qed

lemma tw_le_nat: "0 \<le> x \<Longrightarrow> x \<le> y \<Longrightarrow> y < 2 ^ 63 \<Longrightarrow> tw x \<le> tw y"
  by (simp add: tw_def word_le_def take_bit_int_eq_self unsigned_of_int)

lemma lone_due:
  assumes "coh a q [t \<mapsto> k] X" "qv_tasks X = [t \<mapsto> k]" "is_enq k" "0 \<le> t_ScheduledAt k" "t_ScheduledAt k \<le> now" "now < 2 ^ 63"
    and "qs_LastVisitedEnqueued (qv_state X) = 0"
  shows "due_rows X now = [k]"
  using lone_queue[OF assms(1,3)] tw_le_nat[OF assms(4-6)] assms(2,7)
  by (simp add: due_rows_def due_entries_def sched_key_def tw_def)

lemma deq_state:
  "\<exists>X. Dequeue refP refC0 200 the_dequeue d_enq = (Inr (Payload [the_task_out]), d_deq) \<and> good_view (ref_abs d_deq) \<and>
     qview_of (ref_abs d_deq) = (\<lambda>_. empty_qview)((1, 2) := X) \<and> qv_tasks X = [1 \<mapsto> the_task_out] \<and>
     qv_rateLimiter X = None \<and> qv_purge X = None"
proof -
  obtain X where X: "good_view (ref_abs d_enq)" "qview_of (ref_abs d_enq) = (\<lambda>_. empty_qview)((1, 2) := X)"
    "qv_tasks X = [1 \<mapsto> the_task]" "qv_state X = QueueState_zero\<lparr> qs_TaskIdSequence := 1 \<rparr>" "qv_rateLimiter X = None" "qv_purge X = None"
    using enq_state by blast
  have "coh 1 2 [1 \<mapsto> the_task] X" using good_viewD(2)[OF X(1), of 1 2] X(2,3) by (simp add: coherent_def)
  from cohD(3)[OF this] have "(w, t) \<notin> qv_inProgress X" for w t unfolding idx_ok_def by auto
  then have "qv_inProgress X = {}" by auto
  then have lapsed: "lapsed_rows X 200 = []" by (simp add: lapsed_rows_def lapsed_entries_def)
  have sound: "limiter_sound the_dequeue 200 X" "all_movable 200 [1 \<mapsto> the_task]" "no_expired_threads 200 [1 \<mapsto> the_task]"
    by (simp_all add: limiter_sound_def enabledRateLimiting_def all_movable_def no_expired_threads_def expired_at_def)
  obtain d' ks hs X' where D: "Dequeue refP refC0 200 the_dequeue d_enq = (Inr (Payload (map (hand_row 200 30) hs)), d')"
    "good_view (ref_abs d')" "qview_of (ref_abs d') = (qview_of (ref_abs d_enq))((1, 2) := X')" "delivery 1 2 the_dequeue 200 X ks hs X'"
    using tasks_store.Dequeue_ok[OF ref_store X(1), of the_dequeue 1 2 200] X sound
    by (auto simp: the_queue_def)
  have lim: "limit_of the_dequeue 200 X = 5" "\<not> maxInProgress_reached the_dequeue M" for M
    by (simp_all add: limit_of_def enabledRateLimiting_def maxInProgress_reached_def)
  from D(4) obtain X1 where X1: "coh 1 2 (qv_tasks X1) X1" "qv_tasks X1 = [1 \<mapsto> the_task]"
    "qs_LastVisitedEnqueued (qv_state X1) = 0" "ks = take (length ks) (due_rows X1 200)" "hs = filter (\<lambda>k. \<not> expired_at 200 k) ks"
    "qv_tasks X' = visit_rows 200 30 ks (qv_tasks X1)"
    "length ks < length (due_rows X1 200) \<longrightarrow> 5 \<le> int (length hs) \<or> int (length ks) = 100"
    "qv_purge X' = None" "qv_rateLimiter X' = None"
    unfolding delivery_def lapsed
    using X by (auto simp: lim lapse_all_def QueueState_zero_def maxVisitedTasksForDequeuing_def limiter_after_def
        enabledRateLimiting_def)
  have "due_rows X1 200 = [the_task]" using lone_due[of 1 2 1 the_task X1 200] X1(1-3) by simp
  then have "ks = [the_task]" using X1(4,5,7) by (cases ks) auto
  moreover from this have "hs = [the_task]" using X1(5) by (simp add: expired_at_def)
  moreover from calculation have "qv_tasks X' = [1 \<mapsto> the_task_out]"
    using X1(2,6) by (simp add: visit_rows_def hand_all_def drop_all_def expired_at_def the_task_out_def)
  ultimately show ?thesis using D(1-3) X(2) X1(8,9) by (auto simp: d_deq_def the_task_out_def)
qed

lemma the_task_out_simps [simp]:
  "is_inprog the_task_out" "task_tid the_task_out = 1" "t_ThreadId the_task_out = ''th''" "t_ExpiresAt the_task_out = 1000"
  "t_RetryStrategy the_task_out = None" "t_Attempts the_task_out = 1" "t_Id the_task_out = mkTaskId 1 2 1"
  by (simp_all add: the_task_out_def i32_def)

lemma exhausted_out [simp]: "exhausted the_task_out"
  by (simp add: exhausted_def retries_of_def)

lemma dead_evict: "evict_rows 10 (i64 (int (count_rows is_dead [1 \<mapsto> the_task_dead]))) [1 \<mapsto> the_task_dead] = [1 \<mapsto> the_task_dead]"
proof -
  have "{t. \<exists>k. [(1 :: uint64) \<mapsto> the_task_dead] t = Some k \<and> is_dead k} = {1}" by (auto simp: the_task_dead_def)
  then have "count_rows is_dead [1 \<mapsto> the_task_dead] = 1" unfolding count_rows_def by (simp del: fun_upd_apply)
  then show ?thesis by (simp add: evict_rows_def i64_def oldest_dead_def del: fun_upd_apply)
qed

lemma deq_rows: "rows_of (ref_abs d_deq) = (\<lambda>_. Map.empty)((1, 2) := [1 \<mapsto> the_task_out])"
  using deq_state by (auto simp: rows_of_def empty_qview_def fun_eq_iff)

lemma deq_movable: "all_movable now (rows_of (ref_abs d_deq) aq)"
  by (simp add: deq_rows all_movable_def)

lemma deq_good: "good_view (ref_abs d_deq)" "qv_purge (qview_of (ref_abs d_deq) aq) = None"
  using deq_state by (auto simp: empty_qview_def)

lemma dead_fail: "fail_rows 300 (Some the_dlq) 1 the_task_out [1 \<mapsto> the_task_out] = [1 \<mapsto> the_task_dead]"
  unfolding fail_rows_def dead_rows_def option.case Let_def
  by (simp add: dead_evict the_task_dead_def[symmetric] del: fun_upd_apply)

lemma dead_report:
  "report_all 300 (Some the_dlq) (rsq_Entries the_report) (rows_of (ref_abs d_deq)) =
    ([\<lparr> rre_TaskId = Some (mkTaskId 1 2 1), rre_Result = RESULT_OK \<rparr>], (\<lambda>_. Map.empty)((1, 2) := [1 \<mapsto> the_task_dead]))"
proof -
  have "report_rows 300 (Some the_dlq) 1 STATUS_FAILED 1 0 [1 \<mapsto> the_task_out] = (RESULT_OK, [1 \<mapsto> the_task_dead])"
    using dead_fail by (simp add: report_rows_def fun_upd_same del: fun_upd_apply)
  then show ?thesis
    by (simp add: the_report_def report_entry_def deq_rows Let_def fun_upd_same fun_upd_upd del: fun_upd_apply)
qed

lemma dead_state:
  "ReportStatus refP refC0 300 the_report d_deq =
     (Inr (Payload [\<lparr> rre_TaskId = Some (mkTaskId 1 2 1), rre_Result = RESULT_OK \<rparr>]), d_dead)"
  "good_view (ref_abs d_dead)" "rows_of (ref_abs d_dead) = (\<lambda>_. Map.empty)((1, 2) := [1 \<mapsto> the_task_dead])"
  "qv_purge (qview_of (ref_abs d_dead) aq) = None"
proof -
  have "rsq_DeadLetterQueueConfig the_report = Some the_dlq" "\<forall>e \<in> set (rsq_Entries the_report). rse_TaskId e \<noteq> None"
    by (simp_all add: the_report_def)
  then obtain d' where "ReportStatus refP refC0 300 the_report d_deq =
       (Inr (Payload [\<lparr> rre_TaskId = Some (mkTaskId 1 2 1), rre_Result = RESULT_OK \<rparr>]), d')" "good_view (ref_abs d')"
     "rows_of (ref_abs d') = (\<lambda>_. Map.empty)((1, 2) := [1 \<mapsto> the_task_dead])" "same_admin (ref_abs d_deq) (ref_abs d')"
    using tasks_store.ReportStatus_ok[OF ref_store deq_good(1), of 300 the_report] deq_movable dead_report by auto
  then show "ReportStatus refP refC0 300 the_report d_deq =
     (Inr (Payload [\<lparr> rre_TaskId = Some (mkTaskId 1 2 1), rre_Result = RESULT_OK \<rparr>]), d_dead)"
  "good_view (ref_abs d_dead)" "rows_of (ref_abs d_dead) = (\<lambda>_. Map.empty)((1, 2) := [1 \<mapsto> the_task_dead])"
  "qv_purge (qview_of (ref_abs d_dead) aq) = None"
    using deq_good(2) by (cases aq; simp add: d_dead_def same_admin_def same_rest_def)+
qed

lemma purge_state:
  "PurgeQueue refP refC0 (Some the_queue) d_dead = (Inr (Payload ()), d_purge)"
  "good_view (ref_abs d_purge)" "qv_purge (qview_of (ref_abs d_purge) (1, 2)) = Some \<lparr> pgc_QueueId = the_queue \<rparr>"
  "marked (ref_abs d_purge) = {(1, 2)}" "rows_of (ref_abs d_purge) = rows_of (ref_abs d_dead)"
proof -
  let ?X = "(qview_of (ref_abs d_dead) (1, 2))\<lparr> qv_purge := Some \<lparr> pgc_QueueId = the_queue \<rparr> \<rparr>"
  from tasks_store.PurgeQueue_ok[OF ref_store dead_state(2), of 1 2] have
    P: "PurgeQueue refP refC0 (Some the_queue) d_dead = (Inr (Payload ()), d_purge)" "good_view (ref_abs d_purge)"
    "qview_of (ref_abs d_purge) = (qview_of (ref_abs d_dead))((1, 2) := ?X)"
    by (auto simp: the_queue_def d_purge_def)
  show "PurgeQueue refP refC0 (Some the_queue) d_dead = (Inr (Payload ()), d_purge)" "good_view (ref_abs d_purge)"
    "qv_purge (qview_of (ref_abs d_purge) (1, 2)) = Some \<lparr> pgc_QueueId = the_queue \<rparr>"
    using P by simp_all
  show "marked (ref_abs d_purge) = {(1, 2)}" using dead_state(4) by (auto simp: marked_def P(3))
  show "rows_of (ref_abs d_purge) = rows_of (ref_abs d_dead)" by (rule ext) (simp add: rows_of_def P(3))
qed

section \<open>The requests of the run are safe\<close>

lemma the_queue_iff [simp]:
  "the_queue = \<lparr> qid_AccountId = a, qid_QueueId = q \<rparr> \<longleftrightarrow> a = 1 \<and> q = 2"
  by (auto simp: the_queue_def)

lemma the_queue_ids [simp]: "enq_QueueId the_enqueue = Some the_queue"
  by (simp add: the_enqueue_def)

lemma enq_good: "good_view (ref_abs d_enq)" "qv_purge (qview_of (ref_abs d_enq) aq) = None"
  "rows_of (ref_abs d_enq) = (\<lambda>_. Map.empty)((1, 2) := [1 \<mapsto> the_task])"
  "qs_LastVisitedEnqueued (qv_state (qview_of (ref_abs d_enq) aq)) = 0"
  using enq_state by (cases aq; auto simp: empty_qview_def rows_of_def fun_eq_iff QueueState_zero_def)+

lemma safe_the_enqueue: "safe_enqueue 100 the_enqueue (ref_abs [])"
proof -
  have "entries_safe 100 1 2 [the_entry] 0 Map.empty"
    by (rule entries_safe_static) (simp add: the_entry_def)
  then show ?thesis
    by (simp add: safe_enqueue_def the_enqueue_def empty_qview_def QueueState_zero_def rows_of_def)
      (simp add: entry_ok_def the_entry_def)
qed

lemma safe_the_dequeue: "safe_dequeue 200 the_dequeue (ref_abs d_enq)"
  by (simp add: safe_dequeue_def limiter_sound_def enabledRateLimiting_def enq_good all_movable_def no_expired_threads_def expired_at_def)

lemma safe_the_report: "safe_report 300 the_report (ref_abs d_deq)"
  using deq_movable by (simp add: safe_report_def the_report_def)

section \<open>A queue with one unthreaded task\<close>

definition free_entry :: EnqueueRequestEntry where
  "free_entry = the_entry\<lparr> ent_ThreadId := [] \<rparr>"

definition d_free :: kv where
  "d_free = snd (Enqueue refP refC0 100 \<lparr> enq_QueueId = Some the_queue, enq_Entries = [free_entry] \<rparr> [])"

definition free_task :: Task where "free_task = new_task 100 1 2 1 free_entry"

lemma free_task_simps [simp]:
  "is_enq free_task" "t_ThreadId free_task = []" "t_ExpiresAt free_task = 1000" "t_ScheduledAt free_task = 100"
  by (simp_all add: free_task_def new_task_def free_entry_def the_entry_def entry_time_def is_enq_def)

lemma free_state:
  "good_view (ref_abs d_free)" "qv_purge (qview_of (ref_abs d_free) aq) = None"
  "rows_of (ref_abs d_free) = (\<lambda>_. Map.empty)((1, 2) := [1 \<mapsto> free_task])"
  "qs_LastVisitedEnqueued (qv_state (qview_of (ref_abs d_free) aq)) = 0" "qv_rateLimiter (qview_of (ref_abs d_free) aq) = None"
proof -
  have "entry_ok free_entry" "ent_OverwriteOnDuplicate free_entry = []"
    by (simp_all add: entry_ok_def free_entry_def the_entry_def)
  from enqueue_one_state[OF this, of 100] show "good_view (ref_abs d_free)" "qv_purge (qview_of (ref_abs d_free) aq) = None"
    "rows_of (ref_abs d_free) = (\<lambda>_. Map.empty)((1, 2) := [1 \<mapsto> free_task])"
    "qs_LastVisitedEnqueued (qv_state (qview_of (ref_abs d_free) aq)) = 0" "qv_rateLimiter (qview_of (ref_abs d_free) aq) = None"
    unfolding d_free_def[symmetric] free_task_def[symmetric]
    by (cases aq; auto simp: empty_qview_def rows_of_def fun_eq_iff QueueState_zero_def)+
qed

lemma safe_free_dequeue: "safe_dequeue 200 the_dequeue (ref_abs d_free)"
  by (simp add: safe_dequeue_def limiter_sound_def enabledRateLimiting_def free_state all_movable_def no_expired_threads_def expired_at_def)

lemma free_ready: "ready (qview_of (ref_abs d_free) (1, 2)) 200 1 free_task"
proof -
  have "qv_tasks (qview_of (ref_abs d_free) (1, 2)) 1 = Some free_task"
    using free_state(3) by (simp add: rows_of_def fun_eq_iff)
  moreover have "tw 0 \<le> tw 100" "tw 100 \<le> tw 200" by (rule tw_le_nat; simp)+
  ultimately show ?thesis using free_state(4)[of "(1, 2)"] by (simp add: ready_def expired_at_def)
qed

lemma free_roomy: "roomy the_dequeue 200 (qview_of (ref_abs d_free) (1, 2))"
proof -
  have "qv_tasks (qview_of (ref_abs d_free) (1, 2)) = [1 \<mapsto> free_task]"
    using free_state(3) by (simp add: rows_of_def fun_eq_iff)
  then show ?thesis by (simp add: roomy_def limit_of_def enabledRateLimiting_def maxVisitedTasksForDequeuing_def)
qed

section \<open>A rate-limited dequeue\<close>

definition the_limiter :: TokenBucketRateLimiting where
  "the_limiter = \<lparr> tb_MaxTokens = 10, tb_Interval = 5, tb_IntervalUnit = INTERVAL_UNIT_SECONDS \<rparr>"

definition limited_dequeue :: DequeueRequest where
  "limited_dequeue = the_dequeue\<lparr> deq_DequeuingSettings := Some \<lparr> ds_MaxInProgressTasks = 0, ds_RateLimiting = Some the_limiter, ds_DequeuingPaused = False \<rparr> \<rparr>"

definition d_lim :: kv where "d_lim = snd (Dequeue refP refC0 200 limited_dequeue d_enq)"

text \<open>Two tokens per nanosecond.\<close>

definition fast_limiter :: TokenBucketRateLimiting where
  "fast_limiter = \<lparr> tb_MaxTokens = 2000000000, tb_Interval = 1, tb_IntervalUnit = INTERVAL_UNIT_SECONDS \<rparr>"

definition fast_dequeue :: DequeueRequest where
  "fast_dequeue = the_dequeue\<lparr> deq_DequeuingSettings := Some \<lparr> ds_MaxInProgressTasks = 0, ds_RateLimiting = Some fast_limiter, ds_DequeuingPaused = False \<rparr> \<rparr>"

lemma limited_dequeue_simps [simp]:
  "deq_QueueId limited_dequeue = Some the_queue" "enabledRateLimiting (deq_DequeuingSettings limited_dequeue) = Some the_limiter"
  "deq_QueueId fast_dequeue = Some the_queue" "enabledRateLimiting (deq_DequeuingSettings fast_dequeue) = Some fast_limiter"
  by (simp_all add: limited_dequeue_def fast_dequeue_def the_dequeue_def enabledRateLimiting_def the_limiter_def fast_limiter_def)

lemma the_limiter_ok: "limiter_ok the_limiter" "limiter_too_fast fast_limiter"
  by (simp_all add: limiter_ok_def limiter_too_fast_def the_limiter_def fast_limiter_def unit_nanos_def time_Second_def)

lemma enq_limiter: "qv_rateLimiter (qview_of (ref_abs d_enq) (1, 2)) = None"
  using enq_state by auto

lemma safe_limited_dequeue: "safe_dequeue 200 limited_dequeue (ref_abs d_enq)"
proof -
  have "bucket_ok the_limiter 200 (bucket the_limiter 200 (qview_of (ref_abs d_enq) (1, 2)))"
    by (simp add: bucket_def bucket_ok_def enq_limiter the_limiter_def)
  then show ?thesis using the_limiter_ok(1)
    by (simp add: safe_dequeue_def limiter_sound_def enq_good all_movable_def no_expired_threads_def expired_at_def)
qed

lemma lim_state:
  "\<exists>st. qv_rateLimiter (qview_of (ref_abs d_lim) (1, 2)) = Some st \<and> rl_Tokens st \<le> 10" "qv_purge (qview_of (ref_abs d_lim) (1, 2)) = None"
proof -
  let ?X = "qview_of (ref_abs d_enq) (1, 2)"
  have q: "deq_QueueId limited_dequeue = Some \<lparr> qid_AccountId = 1, qid_QueueId = 2 \<rparr>" by simp
  have s: "limiter_sound limited_dequeue 200 ?X" "all_movable 200 (qv_tasks ?X)" "no_expired_threads 200 (qv_tasks ?X)"
    using safe_limited_dequeue q enq_good(2) unfolding safe_dequeue_def rows_of_def by blast+
  obtain d' ks hs X' where D: "snd (Dequeue refP refC0 200 limited_dequeue d_enq) = d'"
    "qview_of (ref_abs d') = (qview_of (ref_abs d_enq))((1, 2) := X')" "delivery 1 2 limited_dequeue 200 ?X ks hs X'"
    using tasks_store.Dequeue_ok[OF ref_store enq_good(1) q enq_good(2) s] by auto
  have h: "int (length hs) \<le> max 0 (limit_of limited_dequeue 200 ?X)" "qv_rateLimiter X' = limiter_after limited_dequeue 200 ?X (length hs)"
    "qv_purge X' = qv_purge ?X" using D(3) unfolding delivery_def by blast+
  have "bucket_ok the_limiter 200 (bucket the_limiter 200 ?X)" using s(1) by (simp add: limiter_sound_def)
  from limiter_after_ok[OF limited_dequeue_simps(2) the_limiter_ok(1) this h(1)] obtain st where
    "limiter_after limited_dequeue 200 ?X (length hs) = Some st" "bucket_ok the_limiter 200 st" by blast
  then show "\<exists>st. qv_rateLimiter (qview_of (ref_abs d_lim) (1, 2)) = Some st \<and> rl_Tokens st \<le> 10"
    using h(2) D(1,2) by (simp add: d_lim_def bucket_ok_def the_limiter_def)
  show "qv_purge (qview_of (ref_abs d_lim) (1, 2)) = None" using h(3) D(1,2) enq_good(2) by (simp add: d_lim_def)
qed

section \<open>Further requests on the states of the run\<close>

lemma safe_again: "safe_enqueue 150 the_enqueue (ref_abs d_enq)"
proof -
  have "qs_TaskIdSequence (qv_state (qview_of (ref_abs d_enq) (1, 2))) = 1" using enq_state by auto
  moreover have "entries_safe 150 1 2 [the_entry] 1 M" for M
    by (rule entries_safe_static) (simp add: the_entry_def)
  ultimately show ?thesis by (simp add: safe_enqueue_def the_enqueue_def) (simp add: entry_ok_def the_entry_def)
qed

definition stale_report :: ReportStatusRequest where
  "stale_report = the_report\<lparr> rsq_Entries := [\<lparr> rse_TaskId = Some (mkTaskId 1 2 1), rse_Attempt = 0,
     rse_Status = STATUS_SUCCEEDED, rse_KeepaliveTimeoutInSeconds = 0 \<rparr>] \<rparr>"

lemma safe_stale_report: "safe_report 300 stale_report (ref_abs d_deq)"
  using deq_movable by (simp add: safe_report_def stale_report_def)

lemma deq_no_dead: "count_rows is_dead (rows_of (ref_abs d_deq) aq) = 0"
proof -
  have "\<not> is_dead the_task_out" using inprog_states[of the_task_out] by simp
  then have "{t. \<exists>k. rows_of (ref_abs d_deq) aq t = Some k \<and> is_dead k} = {}" by (auto simp: deq_rows split: if_splits)
  then show ?thesis unfolding count_rows_def by (simp only: card.empty)
qed

definition the_list :: ListTasksRequest where
  "the_list = \<lparr> lt_QueueId = Some the_queue, lt_PaginationToken = None, lt_Limit = 10, lt_State = TASK_STATE_INVALID \<rparr>"

definition the_restart :: RestartTasksRequest where
  "the_restart = \<lparr> rt_QueueId = Some the_queue,
     rt_Entries = [\<lparr> rte_TaskId = 1, rte_ScheduledAt = 500, rte_ExpiresAt = 2000 \<rparr>] \<rparr>"

definition the_sweep :: RunPurgeQueueGarbageCollectionRequest where
  "the_sweep = \<lparr> rpgc_GcRecordsPageSize = 4, rpgc_GcRecordTasksPageSize = 2, rpgc_MaxVisitedTasks = 8 \<rparr>"

lemma purge_size: "size_of (ref_abs d_purge) (1, 2) = 1"
  by (simp add: size_of_def purge_state(5) dead_state(3))

section \<open>The run as steps\<close>

lemma run_deq: "(tasks_step refP refC0 ref_abs)\<^sup>*\<^sup>* [] d_deq"
proof -
  have "tasks_step refP refC0 ref_abs [] d_enq" unfolding d_enq_def by (rule tasks_step.enqueue) (rule safe_the_enqueue)
  moreover have "tasks_step refP refC0 ref_abs d_enq d_deq" unfolding d_deq_def by (rule tasks_step.dequeue) (rule safe_the_dequeue)
  ultimately show ?thesis by (meson r_into_rtranclp rtranclp.rtrancl_into_rtrancl)
qed

lemma run_dead: "(tasks_step refP refC0 ref_abs)\<^sup>*\<^sup>* [] d_dead"
proof -
  have "tasks_step refP refC0 ref_abs d_deq d_dead" unfolding d_dead_def by (rule tasks_step.report) (rule safe_the_report)
  with run_deq show ?thesis by (rule rtranclp.rtrancl_into_rtrancl)
qed

end
