(* ===== verification/Tasks_Properties.thy ===== *)
theory Tasks_Properties
  imports Tasks_System Ref_Runs
begin


lemma duplicate_step:
  assumes "enqueue_steps now a q [e] n M n' M' out" "ent_DedupeKey e \<noteq> []" "ent_OverwriteOnDuplicate e = []"
    and "M t = Some k" "is_live k" "t_DedupeKey k = ent_DedupeKey e"
  shows "n' = n \<and> M' = M \<and> out = []"
  using assms by (auto simp: enqueue_steps_Nil enqueue_steps_Cons enqueue_step_iff overwritten_def fun_eq_iff)

section \<open>Refinement of the abstract queue\<close>

text \<open>C3.  Enqueue implements its specification: from a consistent state, a
  request for a queue that is not being purged succeeds, the state stays
  consistent, the rows and the id sequence of the addressed queue take exactly
  the steps the entries prescribe (a duplicate of a live task overwrites the
  requested fields, any other entry becomes a new task under the next id), the
  answer lists the tasks of those steps, and no other queue changes.\<close>

theorem enqueue_refines:
  assumes "tasks_store P c tabs dabs" "good_view (dabs d)" "safe_enqueue now req (dabs d)"
    and "enq_QueueId req = Some \<lparr> qid_AccountId = a, qid_QueueId = q \<rparr>" "qv_purge (qview_of (dabs d) (a, q)) = None"
  shows "\<exists>d' X' out. Enqueue P c now req d = (Inr (Payload out), d') \<and> good_view (dabs d') \<and>
    qview_of (dabs d') = (qview_of (dabs d))((a, q) := X') \<and>
    enqueue_steps now a q (enq_Entries req)
      (qs_TaskIdSequence (qv_state (qview_of (dabs d) (a, q)))) (qv_tasks (qview_of (dabs d) (a, q)))
      (qs_TaskIdSequence (qv_state X')) (qv_tasks X') out \<and>
    qv_rateLimiter X' = qv_rateLimiter (qview_of (dabs d) (a, q)) \<and> qv_purge X' = None"
proof -
  have "list_all entry_ok (enq_Entries req) \<and>
     unat (qs_TaskIdSequence (qv_state (qview_of (dabs d) (a, q)))) + length (enq_Entries req) < 2 ^ 64 \<and>
     entries_safe now a q (enq_Entries req) (qs_TaskIdSequence (qv_state (qview_of (dabs d) (a, q)))) (qv_tasks (qview_of (dabs d) (a, q)))"
    using assms(3-5) unfolding safe_enqueue_def rows_of_def by blast
  then show ?thesis
    using tasks_store.Enqueue_ok[OF assms(1,2,4,5), of now] by fastforce
qed

theorem enqueue_refines_witness:
  "\<exists>d' X' out. Enqueue refP refC0 100 the_enqueue [] = (Inr (Payload out), d') \<and> good_view (ref_abs d') \<and>
    qview_of (ref_abs d') = (qview_of (ref_abs []))((1, 2) := X') \<and>
    enqueue_steps 100 1 2 (enq_Entries the_enqueue)
      (qs_TaskIdSequence (qv_state (qview_of (ref_abs []) (1, 2)))) (qv_tasks (qview_of (ref_abs []) (1, 2)))
      (qs_TaskIdSequence (qv_state X')) (qv_tasks X') out \<and>
    qv_rateLimiter X' = qv_rateLimiter (qview_of (ref_abs []) (1, 2)) \<and> qv_purge X' = None"
  by (rule enqueue_refines[OF ref_store good_empty safe_the_enqueue]) (simp_all add: the_enqueue_def the_queue_def empty_qview_def)

text \<open>C2.  Dequeue implements its specification: it first treats every lapsed
  lease (up to the visit limit) as a failed attempt, then hands out the due
  tasks of the queue index in order, dropping the expired ones, until the
  limit, the visit limit or the in-progress cap stops it; each task handed out
  is in progress with one more attempt and a new lease, and no other queue
  changes.\<close>

theorem dequeue_refines:
  assumes "tasks_store P c tabs dabs" "good_view (dabs d)" "safe_dequeue now req (dabs d)"
    and "deq_QueueId req = Some \<lparr> qid_AccountId = a, qid_QueueId = q \<rparr>" "qv_purge (qview_of (dabs d) (a, q)) = None"
  shows "\<exists>d' ks hs X'. Dequeue P c now req d = (Inr (Payload (map (hand_row now (deq_KeepaliveTimeoutInSeconds req)) hs)), d') \<and>
    good_view (dabs d') \<and> qview_of (dabs d') = (qview_of (dabs d))((a, q) := X') \<and>
    delivery a q req now (qview_of (dabs d) (a, q)) ks hs X'"
proof -
  have "limiter_sound req now (qview_of (dabs d) (a, q)) \<and> all_movable now (qv_tasks (qview_of (dabs d) (a, q))) \<and>
      no_expired_threads now (qv_tasks (qview_of (dabs d) (a, q)))"
    using assms(3-5) unfolding safe_dequeue_def rows_of_def by blast
  then show ?thesis using tasks_store.Dequeue_ok[OF assms(1,2,4,5), of now] by blast
qed

theorem dequeue_refines_witness:
  "\<exists>d' ks hs X'. Dequeue refP refC0 200 the_dequeue d_enq =
      (Inr (Payload (map (hand_row 200 (deq_KeepaliveTimeoutInSeconds the_dequeue)) hs)), d') \<and>
    good_view (ref_abs d') \<and> qview_of (ref_abs d') = (qview_of (ref_abs d_enq))((1, 2) := X') \<and>
    delivery 1 2 the_dequeue 200 (qview_of (ref_abs d_enq) (1, 2)) ks hs X'"
  by (rule dequeue_refines[OF ref_store enq_good(1) safe_the_dequeue]) (simp_all add: the_queue_def enq_good(2))

text \<open>C4.  ReportStatus implements its specification: entry by entry, a report
  on a task in progress with the current attempt renews the lease, removes the
  task, or retries it after its backoff, or moves it to the dead letter queue
  when its retries are used up, evicting the oldest dead letters above the
  size limit; every other report is answered with its reason and changes
  nothing.\<close>

theorem report_refines:
  assumes "tasks_store P c tabs dabs" "good_view (dabs d)" "safe_report now req (dabs d)"
  shows "\<exists>d'. ReportStatus P c now req d =
      (Inr (Payload (fst (report_all now (rsq_DeadLetterQueueConfig req) (rsq_Entries req) (rows_of (dabs d))))), d') \<and>
    good_view (dabs d') \<and>
    rows_of (dabs d') = snd (report_all now (rsq_DeadLetterQueueConfig req) (rsq_Entries req) (rows_of (dabs d))) \<and>
    same_admin (dabs d) (dabs d')"
proof -
  have s: "\<forall>aq. all_movable now (rows_of (dabs d) aq)" "\<forall>e \<in> set (rsq_Entries req). rse_TaskId e \<noteq> None"
    using assms(3) unfolding safe_report_def by blast+
  show ?thesis by (rule tasks_store.ReportStatus_ok[OF assms(1,2) s])
qed

theorem report_refines_witness:
  "\<exists>d'. ReportStatus refP refC0 300 the_report d_deq =
      (Inr (Payload (fst (report_all 300 (rsq_DeadLetterQueueConfig the_report) (rsq_Entries the_report) (rows_of (ref_abs d_deq))))), d') \<and>
    good_view (ref_abs d') \<and>
    rows_of (ref_abs d') = snd (report_all 300 (rsq_DeadLetterQueueConfig the_report) (rsq_Entries the_report) (rows_of (ref_abs d_deq))) \<and>
    same_admin (ref_abs d_deq) (ref_abs d')"
  by (rule report_refines[OF ref_store deq_good(1) safe_the_report])

section \<open>The invariant along every run\<close>









section \<open>Delivery\<close>

text \<open>C10.  Progress: a waiting task without a thread that is due, not expired
  and not behind the cursor of the scan is handed out by the next dequeue,
  when neither the limits of the request nor its rate limiter are below the
  size of the queue.\<close>

theorem ready_task_delivered:
  assumes "tasks_store P c tabs dabs" "good_view (dabs d)" "safe_dequeue now req (dabs d)"
    and "deq_QueueId req = Some \<lparr> qid_AccountId = a, qid_QueueId = q \<rparr>" "qv_purge (qview_of (dabs d) (a, q)) = None"
    and "ready (qview_of (dabs d) (a, q)) now t k" "roomy req now (qview_of (dabs d) (a, q))"
  shows "\<exists>out. fst (Dequeue P c now req d) = Inr (Payload out) \<and>
    hand_row now (deq_KeepaliveTimeoutInSeconds req) k \<in> set out"
  by (rule tasks_store.Dequeue_live[OF assms])

theorem ready_task_delivered_witness:
  "\<exists>out. fst (Dequeue refP refC0 200 the_dequeue d_free) = Inr (Payload out) \<and> hand_row 200 30 free_task \<in> set out"
  using ready_task_delivered[OF ref_store free_state(1) safe_free_dequeue _ _ free_ready free_roomy]
  by (simp add: the_queue_def free_state(2))



text \<open>C19.  A token bucket with more tokens than nanoseconds in its interval
  makes the refill interval zero, and every dequeue of a queue whose bucket is
  not full panics with a division by zero.\<close>

theorem fast_limiter_panics:
  assumes "tasks_store P c tabs dabs"
    and "deq_QueueId req = Some \<lparr> qid_AccountId = a, qid_QueueId = q \<rparr>" "qv_purge (qview_of (dabs d) (a, q)) = None"
    and "enabledRateLimiting (deq_DequeuingSettings req) = Some r" "limiter_too_fast r"
    and "qv_rateLimiter (qview_of (dabs d) (a, q)) = Some st" "rl_Tokens st < tb_MaxTokens r"
  shows "Dequeue P c now req d = (Inl (Panic ''integer divide by zero''), d)"
  by (rule tasks_store.Dequeue_too_fast[OF assms])

theorem fast_limiter_panics_witness:
  "Dequeue refP refC0 300 fast_dequeue d_lim = (Inl (Panic ''integer divide by zero''), d_lim)"
proof -
  obtain st where st: "qv_rateLimiter (qview_of (ref_abs d_lim) (1, 2)) = Some st" "rl_Tokens st < tb_MaxTokens fast_limiter"
    using lim_state(1) by (force simp: fast_limiter_def)
  show ?thesis
    by (rule fast_limiter_panics[OF ref_store _ lim_state(2) _ the_limiter_ok(2) st]) simp_all
qed

section \<open>Deduplication, fencing and the dead letter queue\<close>

text \<open>C12.  Enqueueing is idempotent: an entry whose deduplication key belongs
  to a live task of the queue, with nothing to overwrite, leaves every row and
  the id sequence as they are, and the answer lists no task.\<close>

theorem duplicate_enqueue_ignored:
  assumes "tasks_store P c tabs dabs" "good_view (dabs d)" "safe_enqueue now req (dabs d)"
    and "enq_QueueId req = Some \<lparr> qid_AccountId = a, qid_QueueId = q \<rparr>" "qv_purge (qview_of (dabs d) (a, q)) = None"
    and "enq_Entries req = [e]" "ent_DedupeKey e \<noteq> []" "ent_OverwriteOnDuplicate e = []"
    and "rows_of (dabs d) (a, q) t = Some k" "is_live k" "t_DedupeKey k = ent_DedupeKey e"
  shows "\<exists>d'. Enqueue P c now req d = (Inr (Payload []), d') \<and> rows_of (dabs d') = rows_of (dabs d) \<and>
    qs_TaskIdSequence (qv_state (qview_of (dabs d') (a, q))) = qs_TaskIdSequence (qv_state (qview_of (dabs d) (a, q)))"
proof -
  let ?X = "qview_of (dabs d) (a, q)"
  have s: "list_all entry_ok (enq_Entries req)"
     "unat (qs_TaskIdSequence (qv_state ?X)) + length (enq_Entries req) < 2 ^ 64"
     "entries_safe now a q (enq_Entries req) (qs_TaskIdSequence (qv_state ?X)) (qv_tasks ?X)"
    using assms(3-5) unfolding safe_enqueue_def rows_of_def by blast+
  obtain d' n' X' out where E: "Enqueue P c now req d = (Inr (Payload out), d')"
    "qview_of (dabs d') = (qview_of (dabs d))((a, q) := X')"
    "enqueue_steps now a q [e] (qs_TaskIdSequence (qv_state ?X)) (qv_tasks ?X) n' (qv_tasks X') out"
    "qv_state X' = (qv_state ?X)\<lparr> qs_TaskIdSequence := n' \<rparr>"
    using tasks_store.Enqueue_ok[OF assms(1,2,4,5) s] unfolding assms(6) by blast
  have "n' = qs_TaskIdSequence (qv_state ?X) \<and> qv_tasks X' = qv_tasks ?X \<and> out = []"
    by (rule duplicate_step[OF E(3) assms(7,8)]) (use assms(9-11) in \<open>simp_all add: rows_of_def\<close>)
  then show ?thesis using E by (auto simp: rows_of_def fun_eq_iff)
qed

theorem duplicate_enqueue_ignored_witness:
  "\<exists>d'. Enqueue refP refC0 150 the_enqueue d_enq = (Inr (Payload []), d') \<and> rows_of (ref_abs d') = rows_of (ref_abs d_enq) \<and>
    qs_TaskIdSequence (qv_state (qview_of (ref_abs d') (1, 2))) = qs_TaskIdSequence (qv_state (qview_of (ref_abs d_enq) (1, 2)))"
  by (rule duplicate_enqueue_ignored[OF ref_store enq_good(1) safe_again, where e = the_entry and t = 1 and k = the_task])
    (simp_all add: enq_good(2,3) the_enqueue_def, simp_all add: the_entry_def is_live_def)

text \<open>C13.  Fencing: a report that carries another attempt than the task in
  progress has, such as the report of a worker whose lease lapsed and whose
  task was handed out again, is answered STALE_ATTEMPT and changes no row.\<close>

theorem stale_report_rejected:
  assumes "tasks_store P c tabs dabs" "good_view (dabs d)" "safe_report now req (dabs d)"
    and "rsq_Entries req = [e]" "rse_TaskId e = Some (mkTaskId a q t)"
    and "rows_of (dabs d) (a, q) t = Some k" "is_inprog k" "t_Attempts k \<noteq> rse_Attempt e"
  shows "\<exists>d'. ReportStatus P c now req d =
      (Inr (Payload [\<lparr> rre_TaskId = Some (mkTaskId a q t), rre_Result = RESULT_STALE_ATTEMPT \<rparr>]), d') \<and>
    rows_of (dabs d') = rows_of (dabs d)"
proof -
  have s: "\<forall>aq. all_movable now (rows_of (dabs d) aq)" "\<forall>e \<in> set (rsq_Entries req). rse_TaskId e \<noteq> None"
    using assms(3) unfolding safe_report_def by blast+
  show ?thesis using tasks_store.ReportStatus_ok[OF assms(1,2) s] assms(4-8)
    by (auto simp: report_entry_def report_rows_def Let_def)
qed

theorem stale_report_rejected_witness:
  "\<exists>d'. ReportStatus refP refC0 300 stale_report d_deq =
      (Inr (Payload [\<lparr> rre_TaskId = Some (mkTaskId 1 2 1), rre_Result = RESULT_STALE_ATTEMPT \<rparr>]), d') \<and>
    rows_of (ref_abs d') = rows_of (ref_abs d_deq)"
  by (rule stale_report_rejected[OF ref_store deq_good(1) safe_stale_report, where k = the_task_out and e = "hd (rsq_Entries stale_report)"])
    (simp_all add: stale_report_def deq_rows)



section \<open>Administration\<close>

text \<open>C18.  A queue under purge takes no work: enqueues, dequeues and listings
  are answered with the error that its id is being purged, and nothing
  changes.\<close>

theorem purged_queue_rejects:
  assumes "tasks_store P c tabs dabs" "qv_purge (qview_of (dabs d) (a, q)) \<noteq> None"
    and "enq_QueueId ereq = Some \<lparr> qid_AccountId = a, qid_QueueId = q \<rparr>"
    and "deq_QueueId dreq = Some \<lparr> qid_AccountId = a, qid_QueueId = q \<rparr>"
    and "lt_QueueId lreq = Some \<lparr> qid_AccountId = a, qid_QueueId = q \<rparr>"
  shows "Enqueue P c now ereq d = (Inr (ApplicationError (queueIdPurgedError P a q)), d) \<and>
    Dequeue P c now dreq d = (Inr (ApplicationError (queueIdPurgedError P a q)), d) \<and>
    ListTasks P c lreq d = (Inr (ApplicationError (queueIdPurgedError P a q)), d)"
  using tasks_store.purged_rejected[OF assms(1,2)] assms(3-5) by simp

theorem purged_queue_rejects_witness:
  "Enqueue refP refC0 400 the_enqueue d_purge = (Inr (ApplicationError (queueIdPurgedError refP 1 2)), d_purge) \<and>
    Dequeue refP refC0 400 the_dequeue d_purge = (Inr (ApplicationError (queueIdPurgedError refP 1 2)), d_purge) \<and>
    ListTasks refP refC0 the_list d_purge = (Inr (ApplicationError (queueIdPurgedError refP 1 2)), d_purge)"
  by (rule purged_queue_rejects[OF ref_store]) (simp_all add: purge_state(3) the_list_def)

text \<open>C21.  DeleteTasks removes exactly the listed tasks of its queue, whatever
  their state, ignores ids that do not exist, and keeps the state
  consistent.\<close>

theorem delete_exact:
  assumes "tasks_store P c tabs dabs" "good_view (dabs d)" "dt_QueueId req = Some \<lparr> qid_AccountId = a, qid_QueueId = q \<rparr>"
  shows "\<exists>d'. DeleteTasks P c req d = (Inr (Payload ()), d') \<and> good_view (dabs d') \<and>
    rows_of (dabs d') = (rows_of (dabs d))((a, q) := rows_of (dabs d) (a, q) |` (- set (dt_TaskIds req))) \<and>
    same_admin (dabs d) (dabs d')"
  by (rule tasks_store.DeleteTasks_ok[OF assms])

theorem delete_exact_witness:
  "\<exists>d'. DeleteTasks refP refC0 \<lparr> dt_QueueId = Some the_queue, dt_TaskIds = [1, 9] \<rparr> d_deq = (Inr (Payload ()), d') \<and>
    good_view (ref_abs d') \<and>
    rows_of (ref_abs d') = (rows_of (ref_abs d_deq))((1, 2) := rows_of (ref_abs d_deq) (1, 2) |` (- {1, 9})) \<and>
    same_admin (ref_abs d_deq) (ref_abs d')"
  using delete_exact[OF ref_store deq_good(1), of "\<lparr> dt_QueueId = Some the_queue, dt_TaskIds = [1, 9] \<rparr>" 1 2] by simp

text \<open>C20.  RestartTasks brings back exactly the dead letters of the request
  that have not expired and whose deduplication key no live task has taken
  over, with their attempts reset, and answers every other entry with its
  reason.\<close>

theorem restart_refines:
  assumes "tasks_store P c tabs dabs" "good_view (dabs d)" "rt_QueueId req = Some \<lparr> qid_AccountId = a, qid_QueueId = q \<rparr>"
  shows "\<exists>d'. RestartTasks P c now req d =
      (Inr (Payload (fst (restart_all now (rt_Entries req) (rows_of (dabs d) (a, q))))), d') \<and> good_view (dabs d') \<and>
    rows_of (dabs d') = (rows_of (dabs d))((a, q) := snd (restart_all now (rt_Entries req) (rows_of (dabs d) (a, q)))) \<and>
    same_admin (dabs d) (dabs d')"
  by (rule tasks_store.RestartTasks_ok[OF assms])

theorem restart_refines_witness:
  "\<exists>d'. RestartTasks refP refC0 400 the_restart d_dead =
      (Inr (Payload (fst (restart_all 400 (rt_Entries the_restart) (rows_of (ref_abs d_dead) (1, 2))))), d') \<and> good_view (ref_abs d') \<and>
    rows_of (ref_abs d') = (rows_of (ref_abs d_dead))((1, 2) := snd (restart_all 400 (rt_Entries the_restart) (rows_of (ref_abs d_dead) (1, 2)))) \<and>
    same_admin (ref_abs d_dead) (ref_abs d')"
  by (rule restart_refines[OF ref_store dead_state(2)]) (simp add: the_restart_def)

text \<open>C22.  Statistics are exact: the enqueued, in-progress and dead counts are
  the numbers of rows in those states, and the age is that of the first due
  entry of the queue index.\<close>

theorem statistics_exact:
  assumes "tasks_store P c tabs dabs" "good_view (dabs d)"
  shows "\<exists>st. GetStatistics P c now (Some \<lparr> qid_AccountId = a, qid_QueueId = q \<rparr>) d = (Inr (Payload st), d) \<and>
    st_EnqueuedTasksCount st = i64 (int (count_rows is_enq (rows_of (dabs d) (a, q)))) \<and>
    st_InProgressTasksCount st = i64 (int (count_rows is_inprog (rows_of (dabs d) (a, q)))) \<and>
    st_DeadTasksCount st = i64 (int (count_rows is_dead (rows_of (dabs d) (a, q)))) \<and>
    st_AgeOfOldestEnqueuedTask st = oldest_due (qview_of (dabs d) (a, q)) now"
  using tasks_store.GetStatistics_ok[OF assms, of now a q] by simp

theorem statistics_exact_witness:
  "\<exists>st. GetStatistics refP refC0 250 (Some the_queue) d_deq = (Inr (Payload st), d_deq) \<and>
    st_EnqueuedTasksCount st = i64 (int (count_rows is_enq (rows_of (ref_abs d_deq) (1, 2)))) \<and>
    st_InProgressTasksCount st = i64 (int (count_rows is_inprog (rows_of (ref_abs d_deq) (1, 2)))) \<and>
    st_DeadTasksCount st = i64 (int (count_rows is_dead (rows_of (ref_abs d_deq) (1, 2)))) \<and>
    st_AgeOfOldestEnqueuedTask st = oldest_due (qview_of (ref_abs d_deq) (1, 2)) 250"
  unfolding the_queue_def by (rule statistics_exact[OF ref_store deq_good(1)])

text \<open>C23.  GetTask answers with the row of the task, with not-found when there
  is none, and hides a task that has expired unless a worker holds it; it
  changes nothing.\<close>

theorem get_task_visible:
  assumes "tasks_store P c tabs dabs"
  shows "GetTask P c now (Some (mkTaskId a q t)) d =
    (Inr (case rows_of (dabs d) (a, q) t of
        Some k \<Rightarrow> if \<not> is_inprog k \<and> expired_at now k then ApplicationError (taskNotFoundError P (mkTaskId a q t)) else Payload k
      | None \<Rightarrow> ApplicationError (taskNotFoundError P (mkTaskId a q t))), d)"
  by (rule tasks_store.GetTask_ok[OF assms])

theorem get_task_visible_witness:
  "GetTask refP refC0 5000 (Some (mkTaskId 1 2 1)) d_deq = (Inr (Payload the_task_out), d_deq) \<and>
   GetTask refP refC0 5000 (Some (mkTaskId 1 2 1)) d_enq = (Inr (ApplicationError (taskNotFoundError refP (mkTaskId 1 2 1))), d_enq)"
proof -
  have "\<not> is_inprog the_task" by (simp add: is_inprog_def)
  then show ?thesis
    using get_task_visible[OF ref_store, of 5000 1 2 1 d_deq] get_task_visible[OF ref_store, of 5000 1 2 1 d_enq]
    by (simp add: deq_rows enq_good(3) expired_at_def)
qed



section \<open>The sweeps\<close>

text \<open>C17.  Expired tasks are collected: a sweep ends, deletes the due entries
  of the expiration index in order up to its visit budget and no task in
  progress, keeps the state consistent, and leaves due exactly what the budget
  did not reach.\<close>

theorem gc_collects_expired:
  fixes req :: RunTasksGarbageCollectionRequest
  assumes "tasks_store P c tabs dabs" "good_view (dabs d)"
  defines "n \<equiv> nat (orDefault (rtgc_MaxVisitedTasks req) defaultGCMaxVisitedTasks)"
  shows "\<exists>d'. RunTasksGarbageCollection P c now req d = (Inr (Payload ()), d') \<and> good_view (dabs d') \<and>
    rows_of (dabs d') = collect (take n (due_refs (rows_of (dabs d)) now)) (rows_of (dabs d)) \<and>
    due_refs (rows_of (dabs d')) now = drop n (due_refs (rows_of (dabs d)) now) \<and> same_admin (dabs d) (dabs d')"
proof -
  have "finite (refs_of (rows_of (dabs d)))" by (rule tasks_store.refs_of_finite[OF assms(1,2)])
  then show ?thesis using tasks_store.RunTasksGarbageCollection_ok[OF assms(1,2), of now req]
    by (auto simp: due_refs_collect n_def)
qed

theorem gc_collects_expired_witness:
  "\<exists>d'. RunTasksGarbageCollection refP refC0 2000 \<lparr> rtgc_MaxVisitedTasks = 3, rtgc_PageSize = 0 \<rparr> d_enq = (Inr (Payload ()), d') \<and>
    good_view (ref_abs d') \<and>
    rows_of (ref_abs d') = collect (take 3 (due_refs (rows_of (ref_abs d_enq)) 2000)) (rows_of (ref_abs d_enq)) \<and>
    due_refs (rows_of (ref_abs d')) 2000 = drop 3 (due_refs (rows_of (ref_abs d_enq)) 2000) \<and> same_admin (ref_abs d_enq) (ref_abs d')"
  using gc_collects_expired[OF ref_store enq_good(1), of 2000 "\<lparr> rtgc_MaxVisitedTasks = 3, rtgc_PageSize = 0 \<rparr>"]
  by (simp add: orDefault_def)



text \<open>C16.  A purge sweep of any state keeps within its budget and only ever
  removes tasks of marked queues: the unmarked ones are untouched, the marked
  ones lose rows and gain none.\<close>

theorem purge_sweep_bounded:
  fixes req :: RunPurgeQueueGarbageCollectionRequest
  assumes "tasks_store P c tabs dabs" "good_view (dabs d)"
  shows "\<exists>d'. RunPurgeQueueGarbageCollection P c req d = (Inr (Payload ()), d') \<and> good_view (dabs d') \<and>
    (\<forall>aq. aq \<notin> marked (dabs d) \<longrightarrow> untouched (dabs d) (dabs d') aq) \<and> (\<forall>aq \<in> marked (dabs d). swept (dabs d) (dabs d') aq) \<and>
    (\<Sum>aq \<in> marked (dabs d). int (size_of (dabs d) aq) - int (size_of (dabs d') aq))
      \<le> orDefault (rpgc_MaxVisitedTasks req) defaultPurgeGCMaxVisitedTasks"
  using tasks_store.RunPurgeQueueGarbageCollection_ok[OF assms(1,2), of req] by blast

theorem purge_sweep_bounded_witness:
  "\<exists>d'. RunPurgeQueueGarbageCollection refP refC0 the_sweep d_purge = (Inr (Payload ()), d') \<and>
    swept (ref_abs d_purge) (ref_abs d') (1, 2) \<and> untouched (ref_abs d_purge) (ref_abs d') (1, 3)"
  using purge_sweep_bounded[OF ref_store purge_state(2), of the_sweep]
  by (auto simp: purge_state(4))

end
