(* ===== verification/Queues_Core.thy ===== *)
theory Queues_Core
  imports Queues_Tables
begin

text \<open>
  The queues core, \<open>pkg/queues/core.go\<close>: every method of \<open>Core\<close>, in the
  shape of the source.  \<open>QueuesCore\<close> is the struct \<open>Core\<close>; \<open>now\<close> is
  \<open>req.Now\<close>.  The cron parser (\<open>gronx\<close>) and the time zone
  database behind \<open>time.LoadLocation\<close> are the parameter \<open>cron\<close>.
\<close>

definition maxDequeueSchedules :: int where "maxDequeueSchedules = 250"
definition defaultGCRecordsPageSize :: int where "defaultGCRecordsPageSize = 100"
definition defaultGCRecordSchedulesPageSize :: int where "defaultGCRecordSchedulesPageSize = 250"
definition defaultGCMaxVisitedSchedules :: int where "defaultGCMaxVisitedSchedules = 1000"

text \<open>A \<open>time.Time\<close>: an instant (nanoseconds since the epoch) and the
  name of its location.\<close>

record Time =
  tm_UnixNano :: int
  tm_Location :: string

record cron_pkg =
  LoadLocation :: "string \<Rightarrow> goerr + string"
  NextTickAfter :: "string \<Rightarrow> Time \<Rightarrow> bool \<Rightarrow> goerr + Time"
  gronx_IsValid :: "string \<Rightarrow> bool"

record ('d, 's) QueuesCore =
  qc_badgerStore :: "('d, 's) BadgerStore"
  qc_replicaPrefix :: bytes
  qc_shardLowerBound :: ShardKey
  qc_shardUpperBound :: ShardKey
  qc_queues :: "'s queuesTable"
  qc_counters :: "'s queues_countersTable"
  qc_schedules :: "'s schedulesTable"
  qc_gcRecords :: "'s gcRecordsTable"

definition NewQueuesCore ::
  "pkgs \<Rightarrow> 's queues_honey \<Rightarrow> ('d, 's) BadgerStore \<Rightarrow> bytes \<Rightarrow> ShardKey \<Rightarrow> ShardKey \<Rightarrow> ('d, 's) QueuesCore" where
  "NewQueuesCore P H badgerStore replicaPrefix shardLowerBound shardUpperBound =
    \<lparr> qc_badgerStore = badgerStore,
      qc_replicaPrefix = replicaPrefix,
      qc_shardLowerBound = shardLowerBound,
      qc_shardUpperBound = shardUpperBound,
      qc_queues = newQueuesTable P H replicaPrefix,
      qc_counters = queues_newCountersTable P H replicaPrefix,
      qc_schedules = newSchedulesTable P H replicaPrefix,
      qc_gcRecords = newGCRecordsTable P H replicaPrefix \<rparr>"

section \<open>Application errors\<close>

definition queueNotFoundError :: "string \<Rightarrow> mrpc_Error" where
  "queueNotFoundError queueName =
    \<lparr> err_Code = NotFound, err_Message = ''queue not found'', err_Context = [(''queue_name'', queueName)] \<rparr>"

definition scheduleNotFoundError :: "string \<Rightarrow> string \<Rightarrow> mrpc_Error" where
  "scheduleNotFoundError queueName scheduleName =
    \<lparr> err_Code = NotFound, err_Message = ''schedule not found'',
      err_Context = [(''schedule_name'', scheduleName), (''queue_name'', queueName)] \<rparr>"

text \<open>The two ways the methods react to \<open>store.ErrNotFound\<close>: a row that
  must exist, with what to do when it does not; and a row that must not exist,
  with what to do when it does.\<close>

definition go_lookup :: "('s, 'a) go \<Rightarrow> ('s, 'b) go \<Rightarrow> ('a \<Rightarrow> ('s, 'b) go) \<Rightarrow> ('s, 'b) go" where
  "go_lookup m absent f = go_try m (\<lambda>err. if errors_Is_NotFound err then absent else go_fail err) f"

definition go_vacant :: "('s, 'a) go \<Rightarrow> ('s, 'b) go \<Rightarrow> ('s, 'b) go \<Rightarrow> ('s, 'b) go" where
  "go_vacant m taken rest = go_try m (\<lambda>err. if \<not> errors_Is_NotFound err then go_fail err else rest) (\<lambda>_. taken)"

section \<open>Queues\<close>

definition CreateQueue ::
  "pkgs \<Rightarrow> ('d, 's) QueuesCore \<Rightarrow> int \<Rightarrow> CreateQueueRequest \<Rightarrow> ('d, Queue response) handler" where
  "CreateQueue P c now req = in_update (qc_badgerStore c)
    (go_bind (go_deref (cq_QueueId req)) (\<lambda>queueId.
     go_bind (queues_countersTable_Get P (qc_counters c) (qid_AccountId queueId)) (\<lambda>counters.
     go_vacant (queuesTable_GetByName P (qc_queues c) (qid_AccountId queueId) (cq_Name req))
       (go_ret (Discard (ApplicationError
         \<lparr> err_Code = AlreadyExists, err_Message = ''queue with this name already exists'',
           err_Context = [(''queue_name'', cq_Name req)] \<rparr>)))
    (if qc_NumberOfQueues counters \<ge> cq_MaxNumberOfQueues req then
       go_ret (Discard (ApplicationError
         \<lparr> err_Code = ResourceExhausted, err_Message = ''max number of queues reached'',
           err_Context = [(''limit'', fmt_int (cq_MaxNumberOfQueues req))] \<rparr>))
     else
     go_vacant (queuesTable_Get P (qc_queues c) queueId)
       (go_ret (Discard (ApplicationError
         \<lparr> err_Code = IDCollision, err_Message = ''queue with this id already exists'',
           err_Context = [(''queue_id'', EncodeQueueId P queueId)] \<rparr>)))
    (let queue =
       \<lparr> q_Id = queueId,
         q_Name = cq_Name req,
         q_Description = cq_Description req,
         q_CreatedAt = now,
         q_UpdatedAt = now,
         q_Version = 1,
         q_KeepaliveTimeoutInSeconds = cq_KeepaliveTimeoutInSeconds req,
         q_RetryStrategy = cq_RetryStrategy req,
         q_DequeuingSettings = cq_DequeuingSettings req,
         q_DeadLetterQueueConfig = cq_DeadLetterQueueConfig req,
         q_ExpiresInSeconds = cq_ExpiresInSeconds req,
         q_SchedulesCount = 0 \<rparr> in
     go_seq (queuesTable_Create P (qc_queues c) queue)
    (go_seq (queues_countersTable_Set P (qc_counters c) (qid_AccountId queueId)
       (counters\<lparr> qc_NumberOfQueues := i64 (qc_NumberOfQueues counters + 1) \<rparr>))
    (go_ret (Commit (Payload queue)))))))))"

definition ListQueues ::
  "pkgs \<Rightarrow> ('d, 's) QueuesCore \<Rightarrow> ListQueuesRequest \<Rightarrow> ('d, ListQueuesResponse response) handler" where
  "ListQueues P c req = in_view (qc_badgerStore c)
    (go_bind (queuesTable_List P (qc_queues c) (lq_AccountId req) (lq_PaginationToken req)
       (GetLimitWithDefaults (lq_Limit req))) (\<lambda>result.
     go_ret (Payload result)))"

definition GetQueue :: "pkgs \<Rightarrow> ('d, 's) QueuesCore \<Rightarrow> QueueId option \<Rightarrow> ('d, Queue response) handler" where
  "GetQueue P c reqQueueId = in_view (qc_badgerStore c)
    (go_bind (go_deref reqQueueId) (\<lambda>queueId.
     go_lookup (queuesTable_Get P (qc_queues c) queueId)
       (go_ret (ApplicationError
         \<lparr> err_Code = NotFound, err_Message = ''queue not found'',
           err_Context = [(''queue_id'', EncodeQueueId P queueId)] \<rparr>))
       (\<lambda>queue. go_ret (Payload queue))))"

definition GetQueueByName ::
  "pkgs \<Rightarrow> ('d, 's) QueuesCore \<Rightarrow> GetQueueByNameRequest \<Rightarrow> ('d, Queue response) handler" where
  "GetQueueByName P c req = in_view (qc_badgerStore c)
    (go_lookup (queuesTable_GetByName P (qc_queues c) (gqn_AccountId req) (gqn_QueueName req))
       (go_ret (ApplicationError (queueNotFoundError (gqn_QueueName req))))
       (\<lambda>queue. go_ret (Payload queue)))"

definition UpdateQueue ::
  "pkgs \<Rightarrow> ('d, 's) QueuesCore \<Rightarrow> int \<Rightarrow> UpdateQueueRequest \<Rightarrow> ('d, Queue response) handler" where
  "UpdateQueue P c now req = in_update (qc_badgerStore c)
    (go_lookup (queuesTable_GetByName P (qc_queues c) (uq_AccountId req) (uq_QueueName req))
       (go_ret (Discard (ApplicationError (queueNotFoundError (uq_QueueName req)))))
       (\<lambda>queue.
     if q_Version queue \<noteq> uq_ExpectedVersion req then
       go_ret (Discard (ApplicationError
         \<lparr> err_Code = InvalidRequest, err_Message = ''version mismatch'',
           err_Context = [(''queue_name'', uq_QueueName req),
             (''actual_version'', fmt_int (q_Version queue)),
             (''expected_version'', fmt_int (uq_ExpectedVersion req))] \<rparr>))
     else
     let queue' = queue\<lparr>
         q_Description := uq_Description req,
         q_UpdatedAt := now,
         q_KeepaliveTimeoutInSeconds := uq_KeepaliveTimeoutInSeconds req,
         q_RetryStrategy := uq_RetryStrategy req,
         q_DequeuingSettings := uq_DequeuingSettings req,
         q_DeadLetterQueueConfig := uq_DeadLetterQueueConfig req,
         q_ExpiresInSeconds := uq_ExpiresInSeconds req,
         q_Version := i64 (q_Version queue + 1) \<rparr> in
     go_seq (queuesTable_Update P (qc_queues c) queue')
     (go_ret (Commit (Payload queue')))))"

definition DeleteQueue ::
  "pkgs \<Rightarrow> ('d, 's) QueuesCore \<Rightarrow> DeleteQueueRequest \<Rightarrow> ('d, QueueId response) handler" where
  "DeleteQueue P c req = in_update (qc_badgerStore c)
    (go_lookup (queuesTable_GetByName P (qc_queues c) (dq_AccountId req) (dq_QueueName req))
       (go_ret (Discard (ApplicationError (queueNotFoundError (dq_QueueName req)))))
       (\<lambda>queue.
     go_bind (queues_countersTable_Get P (qc_counters c) (qid_AccountId (q_Id queue))) (\<lambda>counters.
     go_seq (queuesTable_Delete P (qc_queues c) queue)
    (go_seq (queues_countersTable_Set P (qc_counters c) (qid_AccountId (q_Id queue))
       (counters\<lparr> qc_NumberOfQueues := i64 (qc_NumberOfQueues counters - 1) \<rparr>))
    (go_seq (gcRecordsTable_Create P (qc_gcRecords c) \<lparr> qgc_QueueId = q_Id queue \<rparr>)
    (go_ret (Commit (Payload (q_Id queue)))))))))"

text \<open>
  \<open>SwapQueueId\<close>: the loop that moves one page of schedules onto the new id,
  and the loop over the pages, whose first argument bounds their number.
\<close>

definition swap_schedule ::
  "pkgs \<Rightarrow> ('d, 's) QueuesCore \<Rightarrow> QueueId \<Rightarrow> Schedule \<Rightarrow> ('s, unit) go" where
  "swap_schedule P c newQueueId schedule =
    go_seq (schedulesTable_Delete P (qc_schedules c) schedule)
    (let schedule' = schedule\<lparr> sch_Id := \<lparr> sid_AccountId = qid_AccountId newQueueId,
           sid_QueueId = qid_QueueId newQueueId, sid_ScheduleId = sch_sid schedule \<rparr> \<rparr> in
     schedulesTable_Create P (qc_schedules c) schedule')"

fun swap_schedules ::
  "nat \<Rightarrow> pkgs \<Rightarrow> ('d, 's) QueuesCore \<Rightarrow> QueueId \<Rightarrow> QueueId \<Rightarrow> PaginationToken option \<Rightarrow> ('s, unit) go" where
  "swap_schedules 0 P c oldQueueId newQueueId paginationToken = go_fail OutOfFuel"
| "swap_schedules (Suc n) P c oldQueueId newQueueId paginationToken =
    go_bind (schedulesTable_List P (qc_schedules c) oldQueueId paginationToken defaultGCRecordSchedulesPageSize) (\<lambda>result.
    go_seq (go_for (\<lambda>schedule _. swap_schedule P c newQueueId schedule) (lsr_Schedules result) ())
    (if lsr_NextPaginationToken result = None then go_ret ()
     else swap_schedules n P c oldQueueId newQueueId (lsr_NextPaginationToken result)))"

definition SwapQueueId ::
  "nat \<Rightarrow> pkgs \<Rightarrow> ('d, 's) QueuesCore \<Rightarrow> int \<Rightarrow> SwapQueueIdRequest \<Rightarrow> ('d, SwapQueueIdResponse response) handler" where
  "SwapQueueId pages P c now req = in_update (qc_badgerStore c)
    (go_lookup (queuesTable_GetByName P (qc_queues c) (sw_AccountId req) (sw_QueueName req))
       (go_ret (Discard (ApplicationError (queueNotFoundError (sw_QueueName req)))))
       (\<lambda>queue.
     let oldQueueId = q_Id queue;
         newQueueId = \<lparr> qid_AccountId = sw_AccountId req, qid_QueueId = sw_NewQueueId req \<rparr> in
     go_vacant (queuesTable_Get P (qc_queues c) newQueueId)
       (go_ret (Discard (ApplicationError
         \<lparr> err_Code = IDCollision, err_Message = ''queue with this id already exists'',
           err_Context = [(''queue_id'', EncodeQueueId P newQueueId)] \<rparr>)))
    (let newQueue =
       \<lparr> q_Id = newQueueId,
         q_Name = q_Name queue,
         q_Description = q_Description queue,
         q_CreatedAt = q_CreatedAt queue,
         q_UpdatedAt = now,
         q_Version = i64 (q_Version queue + 1),
         q_KeepaliveTimeoutInSeconds = q_KeepaliveTimeoutInSeconds queue,
         q_RetryStrategy = q_RetryStrategy queue,
         q_DequeuingSettings = q_DequeuingSettings queue,
         q_DeadLetterQueueConfig = q_DeadLetterQueueConfig queue,
         q_ExpiresInSeconds = q_ExpiresInSeconds queue,
         q_SchedulesCount = q_SchedulesCount queue \<rparr> in
     go_seq (swap_schedules pages P c oldQueueId newQueueId None)
    (go_seq (queuesTable_SwapId P (qc_queues c) oldQueueId newQueue)
    (go_ret (Commit (Payload \<lparr> swr_Queue = newQueue, swr_OldQueueId = oldQueueId \<rparr>)))))))"

section \<open>Schedules\<close>

text \<open>The lines both \<open>CreateSchedule\<close> and \<open>UpdateSchedule\<close> compute the
  next tick with.\<close>

definition next_tick :: "cron_pkg \<Rightarrow> string \<Rightarrow> string \<Rightarrow> int \<Rightarrow> ('s, int) go" where
  "next_tick cron timezone expr now =
    go_bind (go_of_sum (LoadLocation cron timezone)) (\<lambda>tz.
    go_bind (go_of_sum (NextTickAfter cron expr \<lparr> tm_UnixNano = now, tm_Location = tz \<rparr> False)) (\<lambda>nextTime.
    go_ret (tm_UnixNano nextTime)))"

definition CreateSchedule ::
  "cron_pkg \<Rightarrow> pkgs \<Rightarrow> ('d, 's) QueuesCore \<Rightarrow> int \<Rightarrow> CreateScheduleRequest \<Rightarrow> ('d, Schedule response) handler" where
  "CreateSchedule cron P c now req = in_update (qc_badgerStore c)
    (go_lookup (queuesTable_GetByName P (qc_queues c) (cs_AccountId req) (cs_QueueName req))
       (go_ret (Discard (ApplicationError (queueNotFoundError (cs_QueueName req)))))
       (\<lambda>queue.
     let scheduleId = \<lparr> sid_AccountId = cs_AccountId req, sid_QueueId = qid_QueueId (q_Id queue),
           sid_ScheduleId = cs_ScheduleId req \<rparr> in
     go_vacant (schedulesTable_Get P (qc_schedules c) scheduleId)
       (go_ret (Discard (ApplicationError
         \<lparr> err_Code = IDCollision, err_Message = ''schedule with this id already exists'',
           err_Context = [(''schedule_id'', EncodeScheduleId P scheduleId)] \<rparr>)))
    (if q_SchedulesCount queue \<ge> cs_MaxNumberOfSchedulesPerQueue req then
       go_ret (Discard (ApplicationError
         \<lparr> err_Code = ResourceExhausted, err_Message = ''max number of schedules per queue reached'',
           err_Context = [(''limit'', fmt_int (cs_MaxNumberOfSchedulesPerQueue req))] \<rparr>))
     else
     go_vacant (schedulesTable_GetByName P (qc_schedules c) (q_Id queue) (cs_ScheduleName req))
       (go_ret (Discard (ApplicationError
         \<lparr> err_Code = AlreadyExists, err_Message = ''schedule with this name already exists'',
           err_Context = [(''schedule_name'', cs_ScheduleName req), (''queue_name'', q_Name queue)] \<rparr>)))
    (go_bind (next_tick cron (cs_Timezone req) (cs_Cron req) now) (\<lambda>nextScheduledAt.
     let schedule =
       \<lparr> sch_Id = scheduleId,
         sch_Name = cs_ScheduleName req,
         sch_Description = cs_Description req,
         sch_CreatedAt = now,
         sch_UpdatedAt = now,
         sch_Version = 1,
         sch_Cron = cs_Cron req,
         sch_Payload = cs_Payload req,
         sch_DedupeKey = cs_DedupeKey req,
         sch_ExpiresInSeconds = cs_ExpiresInSeconds req,
         sch_RetryStrategy = cs_RetryStrategy req,
         sch_Timezone = cs_Timezone req,
         sch_LastCheckedAt = 0,
         sch_NextScheduledAt = nextScheduledAt,
         sch_LastEnqueuedFor = 0 \<rparr> in
     go_seq (schedulesTable_Create P (qc_schedules c) schedule)
    (go_seq (queuesTable_Update P (qc_queues c)
       (queue\<lparr> q_SchedulesCount := i64 (q_SchedulesCount queue + 1) \<rparr>))
    (go_ret (Commit (Payload schedule)))))))))"

definition GetSchedule ::
  "pkgs \<Rightarrow> ('d, 's) QueuesCore \<Rightarrow> GetScheduleRequest \<Rightarrow> ('d, Schedule response) handler" where
  "GetSchedule P c req = in_view (qc_badgerStore c)
    (go_lookup (queuesTable_GetByName P (qc_queues c) (gs_AccountId req) (gs_QueueName req))
       (go_ret (ApplicationError (queueNotFoundError (gs_QueueName req))))
       (\<lambda>queue.
     go_lookup (schedulesTable_GetByName P (qc_schedules c) (q_Id queue) (gs_ScheduleName req))
       (go_ret (ApplicationError (scheduleNotFoundError (q_Name queue) (gs_ScheduleName req))))
       (\<lambda>schedule. go_ret (Payload schedule))))"

definition ListSchedules ::
  "pkgs \<Rightarrow> ('d, 's) QueuesCore \<Rightarrow> ListSchedulesRequest \<Rightarrow> ('d, ListSchedulesResponse response) handler" where
  "ListSchedules P c req = in_view (qc_badgerStore c)
    (go_bind (go_deref (ls_QueueId req)) (\<lambda>queueId.
     go_bind (schedulesTable_List P (qc_schedules c) queueId (ls_PaginationToken req)
       (GetLimitWithDefaults (ls_Limit req))) (\<lambda>result.
     go_ret (Payload result))))"

definition UpdateSchedule ::
  "cron_pkg \<Rightarrow> pkgs \<Rightarrow> ('d, 's) QueuesCore \<Rightarrow> int \<Rightarrow> UpdateScheduleRequest \<Rightarrow> ('d, Schedule response) handler" where
  "UpdateSchedule cron P c now req = in_update (qc_badgerStore c)
    (go_lookup (queuesTable_GetByName P (qc_queues c) (us_AccountId req) (us_QueueName req))
       (go_ret (Discard (ApplicationError (queueNotFoundError (us_QueueName req)))))
       (\<lambda>queue.
     go_lookup (schedulesTable_GetByName P (qc_schedules c) (q_Id queue) (us_ScheduleName req))
       (go_ret (Discard (ApplicationError (scheduleNotFoundError (q_Name queue) (us_ScheduleName req)))))
       (\<lambda>schedule.
     if sch_Version schedule \<noteq> us_ExpectedVersion req then
       go_ret (Discard (ApplicationError
         \<lparr> err_Code = InvalidRequest, err_Message = ''version mismatch'',
           err_Context = [(''queue_name'', us_QueueName req),
             (''schedule_name'', us_ScheduleName req),
             (''actual_version'', fmt_int (sch_Version schedule)),
             (''expected_version'', fmt_int (us_ExpectedVersion req))] \<rparr>))
     else
     go_bind (next_tick cron (us_Timezone req) (us_Cron req) now) (\<lambda>nextScheduledAt.
     let schedule' = schedule\<lparr>
         sch_Description := us_Description req,
         sch_UpdatedAt := now,
         sch_Payload := us_Payload req,
         sch_DedupeKey := us_DedupeKey req,
         sch_Cron := us_Cron req,
         sch_RetryStrategy := us_RetryStrategy req,
         sch_ExpiresInSeconds := us_ExpiresInSeconds req,
         sch_Timezone := us_Timezone req,
         sch_Version := i64 (sch_Version schedule + 1),
         sch_NextScheduledAt := nextScheduledAt \<rparr> in
     go_seq (schedulesTable_Update P (qc_schedules c) schedule')
     (go_ret (Commit (Payload schedule')))))))"

definition DeleteSchedule ::
  "pkgs \<Rightarrow> ('d, 's) QueuesCore \<Rightarrow> DeleteScheduleRequest \<Rightarrow> ('d, unit response) handler" where
  "DeleteSchedule P c req = in_update (qc_badgerStore c)
    (go_lookup (queuesTable_GetByName P (qc_queues c) (dsr_AccountId req) (dsr_QueueName req))
       (go_ret (Discard (ApplicationError (queueNotFoundError (dsr_QueueName req)))))
       (\<lambda>queue.
     go_lookup (schedulesTable_GetByName P (qc_schedules c) (q_Id queue) (dsr_ScheduleName req))
       (go_ret (Discard (ApplicationError (scheduleNotFoundError (q_Name queue) (dsr_ScheduleName req)))))
       (\<lambda>schedule.
     go_seq (schedulesTable_Delete P (qc_schedules c) schedule)
    (go_seq (queuesTable_Update P (qc_queues c)
       (queue\<lparr> q_SchedulesCount := i64 (q_SchedulesCount queue - 1) \<rparr>))
    (go_ret (Commit (Payload ())))))))"

definition DequeSchedules ::
  "pkgs \<Rightarrow> ('d, 's) QueuesCore \<Rightarrow> int \<Rightarrow> ('d, DequeSchedulesResponseEntry list response) handler" where
  "DequeSchedules P c reqDueBefore = in_view (qc_badgerStore c)
    (go_bind (schedulesTable_ListDue P (qc_schedules c) reqDueBefore maxDequeueSchedules) (\<lambda>schedules.
     go_bind (go_for (\<lambda>schedule entries.
        go_bind (queuesTable_Get P (qc_queues c)
            \<lparr> qid_AccountId = sch_acc schedule, qid_QueueId = sch_que schedule \<rparr>) (\<lambda>queue.
        go_ret (entries @ [\<lparr> dse_Schedule = schedule, dse_Queue = queue \<rparr>]))) schedules []) (\<lambda>entries.
     go_ret (Payload entries))))"

definition ReportSchedulesStatus ::
  "pkgs \<Rightarrow> ('d, 's) QueuesCore \<Rightarrow> int \<Rightarrow> ReportSchedulesStatusRequest \<Rightarrow> ('d, unit response) handler" where
  "ReportSchedulesStatus P c now req = in_update (qc_badgerStore c)
    (go_bind (go_deref (rss_ScheduleId req)) (\<lambda>scheduleId.
     go_lookup (schedulesTable_Get P (qc_schedules c) scheduleId)
       (go_ret (Discard (ApplicationError
         \<lparr> err_Code = NotFound, err_Message = ''schedule not found'',
           err_Context = [(''schedule_id'', fmt_nat (unat (sid_ScheduleId scheduleId)))] \<rparr>)))
       (\<lambda>schedule.
     let schedule1 = schedule\<lparr> sch_NextScheduledAt := rss_NextScheduledAt req, sch_LastCheckedAt := now \<rparr>;
         schedule2 = (if rss_LastEnqueuedFor req \<noteq> 0
           then schedule1\<lparr> sch_LastEnqueuedFor := rss_LastEnqueuedFor req \<rparr> else schedule1) in
     go_seq (schedulesTable_Update P (qc_schedules c) schedule2)
     (go_ret (Commit (Payload ()))))))"

section \<open>Garbage collection\<close>

text \<open>\<open>queues_gc_page\<close> is the loop over one page of a deleted queue's
  schedules: the visit count, and whether the visit budget ended the sweep
  (\<open>break recordsLoop\<close>).\<close>

definition queues_gc_page ::
  "pkgs \<Rightarrow> ('d, 's) QueuesCore \<Rightarrow> int \<Rightarrow> Schedule list \<Rightarrow> int \<Rightarrow> ('s, int \<times> bool) go" where
  "queues_gc_page P c maxVisitedSchedules schedules visitedSchedules =
    go_scan (\<lambda>schedule (visited, _).
      go_seq (schedulesTable_Delete P (qc_schedules c) schedule)
      (let visited' = visited + 1 in
       if visited' \<ge> maxVisitedSchedules then go_ret (False, (visited', True))
       else go_ret (True, (visited', False)))) schedules (visitedSchedules, False)"

definition queues_gc_record ::
  "pkgs \<Rightarrow> ('d, 's) QueuesCore \<Rightarrow> int \<Rightarrow> int \<Rightarrow> QueuesGarbageCollectionRecord \<Rightarrow> int \<Rightarrow> ('s, bool \<times> int) go" where
  "queues_gc_record P c pageSize maxVisitedSchedules gcRecord visitedSchedules =
    go_bind (schedulesTable_List P (qc_schedules c) (qgc_QueueId gcRecord) None pageSize) (\<lambda>result.
    go_bind (queues_gc_page P c maxVisitedSchedules (lsr_Schedules result) visitedSchedules) (\<lambda>(visited', stop).
    if stop then go_ret (False, visited')
    else go_seq (go_when (lsr_NextPaginationToken result = None)
        (gcRecordsTable_Delete P (qc_gcRecords c) gcRecord))
      (go_ret (True, visited'))))"

definition RunQueuesGarbageCollection ::
  "pkgs \<Rightarrow> ('d, 's) QueuesCore \<Rightarrow> RunQueuesGarbageCollectionRequest \<Rightarrow> ('d, unit response) handler" where
  "RunQueuesGarbageCollection P c req = in_update (qc_badgerStore c)
    (let gcRecordsPageSize = orDefault (rqgc_GcRecordsPageSize req) defaultGCRecordsPageSize;
         gcRecordSchedulesPageSize = orDefault (rqgc_GcRecordSchedulesPageSize req) defaultGCRecordSchedulesPageSize;
         maxVisitedSchedules = orDefault (rqgc_MaxVisitedSchedules req) defaultGCMaxVisitedSchedules in
     go_bind (gcRecordsTable_List P (qc_gcRecords c) gcRecordsPageSize) (\<lambda>gcRecords.
     go_bind (go_scan (queues_gc_record P c gcRecordSchedulesPageSize maxVisitedSchedules) gcRecords 0) (\<lambda>_.
     go_ret (Commit (Payload ())))))"

end
