(* ===== verification/Queues_View.thy ===== *)
theory Queues_View
  imports Queues_Core Tasks_View
begin

text \<open>
  From bytes to queues and schedules.  \<open>queues_view\<close> is the content of the
  seven tables of a queues core, keyed by bytes; \<open>catalog\<close> is the same
  content with typed keys.  The locale \<open>queues_store\<close> states that the tables
  of a core obey the contracts of their interfaces and do not disturb each
  other; the rules proved in it say, for each table method the core calls,
  that it runs and what it changes in the catalog.
\<close>

named_theorems catalog_run \<open>table methods of the queues core succeed, with their result and their effect on the catalog\<close>

section \<open>Content of the tables\<close>

definition nkey :: "uint64 \<Rightarrow> string \<Rightarrow> bytes" where "nkey a n = be64 a @ str_bytes n"

record queues_view =
  w_queues :: "bytes \<Rightarrow> Queue option"
  w_names :: "bytes \<Rightarrow> uint64 option"
  w_schedules :: "bytes \<Rightarrow> Schedule option"
  w_snames :: "bytes \<Rightarrow> uint64 option"
  w_due :: "bytes set"
  w_counters :: "bytes \<Rightarrow> QueuesCounter option"
  w_gc :: "bytes \<Rightarrow> QueuesGarbageCollectionRecord option"

text \<open>Queues by account and id, schedules by account, queue and id; an entry of
  the schedule index is a time (its bit pattern) and the ids of a schedule.\<close>

type_synonym qref = "uint64 \<times> uint64"
type_synonym sref = "uint64 \<times> uint64 \<times> uint64"

record catalog =
  cg_queues :: "qref \<Rightarrow> Queue option"
  cg_names :: "uint64 \<times> string \<Rightarrow> uint64 option"
  cg_schedules :: "sref \<Rightarrow> Schedule option"
  cg_snames :: "uint64 \<times> uint64 \<times> string \<Rightarrow> uint64 option"
  cg_due :: "(uint64 \<times> sref) set"
  cg_counters :: "uint64 \<Rightarrow> QueuesCounter"
  cg_gc :: "qref \<Rightarrow> QueuesGarbageCollectionRecord option"

definition catalog_of :: "queues_view \<Rightarrow> catalog" where
  "catalog_of b =
    \<lparr> cg_queues = (\<lambda>(a, q). w_queues b (qkey a q)),
      cg_names = (\<lambda>(a, n). w_names b (nkey a n)),
      cg_schedules = (\<lambda>(a, q, s). w_schedules b (tkey a q s)),
      cg_snames = (\<lambda>(a, q, n). w_snames b (dkey a q n)),
      cg_due = {(w, a, q, s). ekey w a q s \<in> w_due b},
      cg_counters = (\<lambda>a. or_zero QueuesCounter_zero (w_counters b (be64 a))),
      cg_gc = (\<lambda>(a, q). w_gc b (qkey a q)) \<rparr>"

text \<open>Well-formed content: the keys are encodings.\<close>

definition wf_queues :: "queues_view \<Rightarrow> bool" where
  "wf_queues b \<longleftrightarrow>
    (\<forall>k \<in> dom (w_queues b). \<exists>a q. k = qkey a q) \<and>
    (\<forall>k \<in> dom (w_schedules b). \<exists>a q s. k = tkey a q s) \<and>
    (\<forall>x \<in> w_due b. \<exists>w a q s. x = ekey w a q s) \<and>
    (\<forall>k \<in> dom (w_gc b). \<exists>a q. k = qkey a q)"

locale queues_store =
  utils_pkg P +
  queues: binary_table "qt_table (qc_queues c)" abs w_queues w_queues_update +
  names: uint64_table "qt_namesIndex (qc_queues c)" abs w_names w_names_update +
  schedules: binary_table "sct_table (qc_schedules c)" abs w_schedules w_schedules_update +
  snames: uint64_table "sct_namesIndex (qc_schedules c)" abs w_snames w_snames_update +
  due: global_index "sct_scheduledIndex (qc_schedules c)" abs w_due w_due_update +
  counters: binary_table "qct_table (qc_counters c)" abs w_counters w_counters_update +
  gc: binary_table "gct_table (qc_gcRecords c)" abs w_gc w_gc_update +
  store: badger_store "qc_badgerStore c" abs dabs
  for P :: pkgs
    and c :: "('d, 's) QueuesCore"
    and abs :: "'s \<Rightarrow> queues_view"
    and dabs :: "'d \<Rightarrow> queues_view"

section \<open>Encoding lemmas\<close>

lemma nkey_inject [simp]: "nkey a n = nkey a' n' \<longleftrightarrow> a = a' \<and> n = n'"
  by (simp add: nkey_def)

lemma catalog_of_simps:
  "cg_queues (catalog_of b) (a, q) = w_queues b (qkey a q)"
  "cg_names (catalog_of b) (a, n) = w_names b (nkey a n)"
  "cg_schedules (catalog_of b) (a, q, s) = w_schedules b (tkey a q s)"
  "cg_snames (catalog_of b) (a, q, n) = w_snames b (dkey a q n)"
  "(w, a, q, s) \<in> cg_due (catalog_of b) \<longleftrightarrow> ekey w a q s \<in> w_due b"
  "cg_counters (catalog_of b) a = or_zero QueuesCounter_zero (w_counters b (be64 a))"
  "cg_gc (catalog_of b) (a, q) = w_gc b (qkey a q)"
  by (simp_all add: catalog_of_def)

lemma catalog_of_upd:
  "catalog_of (w_queues_update (\<lambda>m. m(qkey a q := x)) b) = (catalog_of b)\<lparr> cg_queues := (cg_queues (catalog_of b))((a, q) := x) \<rparr>"
  "catalog_of (w_names_update (\<lambda>m. m(nkey a n := y)) b) = (catalog_of b)\<lparr> cg_names := (cg_names (catalog_of b))((a, n) := y) \<rparr>"
  "catalog_of (w_schedules_update (\<lambda>m. m(tkey a q s := z)) b) = (catalog_of b)\<lparr> cg_schedules := (cg_schedules (catalog_of b))((a, q, s) := z) \<rparr>"
  "catalog_of (w_snames_update (\<lambda>m. m(dkey a q n := y)) b) = (catalog_of b)\<lparr> cg_snames := (cg_snames (catalog_of b))((a, q, n) := y) \<rparr>"
  "catalog_of (w_counters_update (\<lambda>m. m(be64 a \<mapsto> cn)) b) = (catalog_of b)\<lparr> cg_counters := (cg_counters (catalog_of b))(a := cn) \<rparr>"
  "catalog_of (w_gc_update (\<lambda>m. m(qkey a q := r)) b) = (catalog_of b)\<lparr> cg_gc := (cg_gc (catalog_of b))((a, q) := r) \<rparr>"
  "catalog_of (w_due_update (insert (ekey w a q s)) b) = (catalog_of b)\<lparr> cg_due := insert (w, a, q, s) (cg_due (catalog_of b)) \<rparr>"
  "catalog_of (w_due_update (\<lambda>K. K - {ekey w a q s}) b) = (catalog_of b)\<lparr> cg_due := cg_due (catalog_of b) - {(w, a, q, s)} \<rparr>"
  by (auto simp: catalog_of_def fun_eq_iff or_zero_def)

lemma wf_queues_upd:
  assumes "wf_queues b"
  shows "wf_queues (w_queues_update (\<lambda>m. m(qkey a q := x)) b)" "wf_queues (w_names_update f1 b)"
    "wf_queues (w_schedules_update (\<lambda>m. m(tkey a q s := z)) b)" "wf_queues (w_snames_update f2 b)"
    "wf_queues (w_counters_update f3 b)" "wf_queues (w_gc_update (\<lambda>m. m(qkey a q := r)) b)"
    "wf_queues (w_due_update (insert (ekey w a q s)) b)" "wf_queues (w_due_update (\<lambda>K. K - A) b)"
  using assms unfolding wf_queues_def by (simp_all add: dom_def)

section \<open>Keys\<close>

context utils_pkg
begin

lemma catalog_keys:
  "queuesTable_tablePK P a = be64 a"
  "ConcatBytes P [CBytes (be64 a), CBytes (queuesTable_tableSK P q)] = qkey a q"
  "queuesTable_namesIndexPK P a n = nkey a n"
  "schedulesTable_tablePK P a q = qkey a q"
  "ConcatBytes P [CBytes (qkey a q), CBytes (schedulesTable_tableSK P i)] = tkey a q i"
  "schedulesTable_namesIndexPK P a q n = dkey a q n"
  "scheduledIndexPKPrefix P x = be64 (tw x)"
  "scheduledIndexPK P x a q i = ekey (tw x) a q i"
  "queues_countersTable_tablePK P a = be64 a"
  "gcRecordsTable_tablePK P a q = qkey a q"
  by (simp_all add: ConcatBytes_raw queuesTable_tablePK_def queuesTable_tableSK_def queuesTable_namesIndexPK_def
    schedulesTable_tablePK_def schedulesTable_tableSK_def schedulesTable_namesIndexPK_def scheduledIndexPKPrefix_def
    scheduledIndexPK_def queues_countersTable_tablePK_def gcRecordsTable_tablePK_def
    qkey_def nkey_def tkey_def dkey_def ekey_def)

end

section \<open>Table methods\<close>

text \<open>The schedules of one queue and the queues under garbage collection, by id,
  and the schedule index after a schedule moved.\<close>

definition due_moved :: "Schedule \<Rightarrow> int \<Rightarrow> (uint64 \<times> sref) set \<Rightarrow> (uint64 \<times> sref) set" where
  "due_moved x from D = (if sch_NextScheduledAt x = from then D
     else insert (tw (sch_NextScheduledAt x), sch_acc x, sch_que x, sch_sid x) (D - {(tw from, sch_acc x, sch_que x, sch_sid x)}))"

definition schedules_of :: "catalog \<Rightarrow> qref \<Rightarrow> Schedule list" where
  "schedules_of C aq = map (\<lambda>t. the (cg_schedules C (fst aq, snd aq, t))) (sorted_list_of_set {t. cg_schedules C (fst aq, snd aq, t) \<noteq> None})"

definition gc_refs :: "catalog \<Rightarrow> qref list" where
  "gc_refs C = sorted_list_of_set {aq. cg_gc C aq \<noteq> None}"

context queues_store
begin

abbreviation K :: "'s \<Rightarrow> catalog" where "K s \<equiv> catalog_of (abs s)"
abbreviation W :: "'s \<Rightarrow> bool" where "W s \<equiv> wf_queues (abs s)"

lemma queue_reads [catalog_run]:
  "queuesTable_Get P (qc_queues c) i s =
    (case cg_queues (K s) (qid_AccountId i, qid_QueueId i) of None \<Rightarrow> Inl ErrNotFound | Some x \<Rightarrow> Inr (x, s))"
  "queuesTable_GetByName P (qc_queues c) a n s =
    (case cg_names (K s) (a, n) of None \<Rightarrow> Inl ErrNotFound
     | Some q \<Rightarrow> (case cg_queues (K s) (a, q) of None \<Rightarrow> Inl ErrNotFound | Some x \<Rightarrow> Inr (x, s)))"
  by (auto simp: queuesTable_Get_def queuesTable_GetByName_def catalog_keys queues.Get names.Get catalog_of_simps go_run
    split: option.splits)

lemma schedule_reads [catalog_run]:
  "schedulesTable_Get P (qc_schedules c) i s =
    (case cg_schedules (K s) (sid_AccountId i, sid_QueueId i, sid_ScheduleId i) of None \<Rightarrow> Inl ErrNotFound | Some x \<Rightarrow> Inr (x, s))"
  "schedulesTable_GetByName P (qc_schedules c) j n s =
    (case cg_snames (K s) (qid_AccountId j, qid_QueueId j, n) of None \<Rightarrow> Inl ErrNotFound
     | Some t \<Rightarrow> (case cg_schedules (K s) (qid_AccountId j, qid_QueueId j, t) of None \<Rightarrow> Inl ErrNotFound | Some x \<Rightarrow> Inr (x, s)))"
  by (auto simp: schedulesTable_Get_def schedulesTable_GetByName_def catalog_keys schedules.Get snames.Get catalog_of_simps go_run
    split: option.splits)

lemma counter_reads [catalog_run]:
  "queues_countersTable_Get P (qc_counters c) a s = Inr (cg_counters (K s) a, s)"
  by (simp add: queues_countersTable_Get_def catalog_keys counters.Get catalog_of_simps or_zero_def go_run split: option.split)

lemma prim_writes:
  "K (go_out (ut_Set (qt_namesIndex (qc_queues c)) (nkey a n) q) s) = (K s)\<lparr> cg_names := (cg_names (K s))((a, n) \<mapsto> q) \<rparr>"
  "K (go_out (bt_Set (qt_table (qc_queues c)) (qkey a q) x) s) = (K s)\<lparr> cg_queues := (cg_queues (K s))((a, q) \<mapsto> x) \<rparr>"
  "K (go_out (ut_Set (sct_namesIndex (qc_schedules c)) (dkey a q n) t) s) = (K s)\<lparr> cg_snames := (cg_snames (K s))((a, q, n) \<mapsto> t) \<rparr>"
  "K (go_out (bt_Set (sct_table (qc_schedules c)) (tkey a q t) y) s) = (K s)\<lparr> cg_schedules := (cg_schedules (K s))((a, q, t) \<mapsto> y) \<rparr>"
  "K (go_out (si_Add (sct_scheduledIndex (qc_schedules c)) (ekey w a q t)) s) = (K s)\<lparr> cg_due := insert (w, a, q, t) (cg_due (K s)) \<rparr>"
  "K (go_out (si_Delete (sct_scheduledIndex (qc_schedules c)) (ekey w a q t)) s) = (K s)\<lparr> cg_due := cg_due (K s) - {(w, a, q, t)} \<rparr>"
  by (simp_all add: names.Set_run queues.Set_run snames.Set_run schedules.Set_run due.Add_run due.Delete_run catalog_of_upd)

lemma prim_wf:
  assumes "W s"
  shows "W (go_out (ut_Set (qt_namesIndex (qc_queues c)) (nkey a n) q) s)" "W (go_out (bt_Set (qt_table (qc_queues c)) (qkey a q) x) s)"
    "W (go_out (ut_Set (sct_namesIndex (qc_schedules c)) (dkey a q n) t) s)" "W (go_out (bt_Set (sct_table (qc_schedules c)) (tkey a q t) y) s)"
    "W (go_out (si_Add (sct_scheduledIndex (qc_schedules c)) (ekey w a q t)) s)" "W (go_out (si_Delete (sct_scheduledIndex (qc_schedules c)) (ekey w a q t)) s)"
  using assms by (simp_all add: names.Set_run queues.Set_run snames.Set_run schedules.Set_run due.Add_run due.Delete_run wf_queues_upd)

lemma prim_deletes:
  assumes "cg_queues (K s) (a, q) \<noteq> None"
  shows "bt_Delete (qt_table (qc_queues c)) (qkey a q) s = Inr ((), go_out (bt_Delete (qt_table (qc_queues c)) (qkey a q)) s)"
    "K (go_out (bt_Delete (qt_table (qc_queues c)) (qkey a q)) s) = (K s)\<lparr> cg_queues := (cg_queues (K s))((a, q) := None) \<rparr>"
    "W s \<Longrightarrow> W (go_out (bt_Delete (qt_table (qc_queues c)) (qkey a q)) s)"
  using assms queues.Delete_run[of s "qkey a q"] by (auto simp: catalog_of_simps catalog_of_upd wf_queues_upd)

lemma prim_sdeletes:
  assumes "cg_schedules (K s) (a, q, t) \<noteq> None"
  shows "bt_Delete (sct_table (qc_schedules c)) (tkey a q t) s = Inr ((), go_out (bt_Delete (sct_table (qc_schedules c)) (tkey a q t)) s)"
    "K (go_out (bt_Delete (sct_table (qc_schedules c)) (tkey a q t)) s) = (K s)\<lparr> cg_schedules := (cg_schedules (K s))((a, q, t) := None) \<rparr>"
    "W s \<Longrightarrow> W (go_out (bt_Delete (sct_table (qc_schedules c)) (tkey a q t)) s)"
  using assms schedules.Delete_run[of s "tkey a q t"] by (auto simp: catalog_of_simps catalog_of_upd wf_queues_upd)

lemma prim_ndeletes:
  assumes "cg_names (K s) (a, n) \<noteq> None"
  shows "ut_Delete (qt_namesIndex (qc_queues c)) (nkey a n) s = Inr ((), go_out (ut_Delete (qt_namesIndex (qc_queues c)) (nkey a n)) s)"
    "K (go_out (ut_Delete (qt_namesIndex (qc_queues c)) (nkey a n)) s) = (K s)\<lparr> cg_names := (cg_names (K s))((a, n) := None) \<rparr>"
    "W s \<Longrightarrow> W (go_out (ut_Delete (qt_namesIndex (qc_queues c)) (nkey a n)) s)"
  using assms names.Delete_run[of s "nkey a n"] by (auto simp: catalog_of_simps catalog_of_upd wf_queues_upd)

lemma prim_snamedeletes:
  assumes "cg_snames (K s) (a, q, n) \<noteq> None"
  shows "ut_Delete (sct_namesIndex (qc_schedules c)) (dkey a q n) s = Inr ((), go_out (ut_Delete (sct_namesIndex (qc_schedules c)) (dkey a q n)) s)"
    "K (go_out (ut_Delete (sct_namesIndex (qc_schedules c)) (dkey a q n)) s) = (K s)\<lparr> cg_snames := (cg_snames (K s))((a, q, n) := None) \<rparr>"
    "W s \<Longrightarrow> W (go_out (ut_Delete (sct_namesIndex (qc_schedules c)) (dkey a q n)) s)"
  using assms snames.Delete_run[of s "dkey a q n"] by (auto simp: catalog_of_simps catalog_of_upd wf_queues_upd)

lemmas prim_run = names.Set_run(1) queues.Set_run(1) snames.Set_run(1) schedules.Set_run(1) due.Add_run(1) due.Delete_run(1)
  prim_writes prim_wf prim_deletes prim_sdeletes prim_ndeletes prim_snamedeletes

lemma queue_writes [catalog_run]:
  "queuesTable_Create P (qc_queues c) x s = Inr ((), go_out (queuesTable_Create P (qc_queues c) x) s)"
  "K (go_out (queuesTable_Create P (qc_queues c) x) s) = (K s)\<lparr>
     cg_names := (cg_names (K s))((qid_AccountId (q_Id x), q_Name x) \<mapsto> qid_QueueId (q_Id x)),
     cg_queues := (cg_queues (K s))((qid_AccountId (q_Id x), qid_QueueId (q_Id x)) \<mapsto> x) \<rparr>"
  "queuesTable_Update P (qc_queues c) x s = Inr ((), go_out (queuesTable_Update P (qc_queues c) x) s)"
  "K (go_out (queuesTable_Update P (qc_queues c) x) s) = (K s)\<lparr>
     cg_queues := (cg_queues (K s))((qid_AccountId (q_Id x), qid_QueueId (q_Id x)) \<mapsto> x) \<rparr>"
  "W s \<Longrightarrow> W (go_out (queuesTable_Create P (qc_queues c) x) s)"
  "W s \<Longrightarrow> W (go_out (queuesTable_Update P (qc_queues c) x) s)"
  by (simp_all add: queuesTable_Create_def queuesTable_Update_def catalog_keys go_run names.Set_run queues.Set_run
    go_out_eq[of "go_seq m n" for m n] catalog_of_upd wf_queues_upd)


lemma swap_writes [catalog_run]:
  assumes "cg_queues (K s) (qid_AccountId i, qid_QueueId i) \<noteq> None"
  shows "queuesTable_SwapId P (qc_queues c) i x s = Inr ((), go_out (queuesTable_SwapId P (qc_queues c) i x) s)"
    "K (go_out (queuesTable_SwapId P (qc_queues c) i x) s) = (K s)\<lparr>
       cg_names := (cg_names (K s))((qid_AccountId (q_Id x), q_Name x) \<mapsto> qid_QueueId (q_Id x)),
       cg_queues := (cg_queues (K s))((qid_AccountId (q_Id x), qid_QueueId (q_Id x)) \<mapsto> x, (qid_AccountId i, qid_QueueId i) := None) \<rparr>"
    "W s \<Longrightarrow> W (go_out (queuesTable_SwapId P (qc_queues c) i x) s)"
  using assms by (simp_all add: queuesTable_SwapId_def catalog_keys go_run prim_run go_out_eq[of "go_seq m n" for m n])

lemma queue_delete [catalog_run]:
  assumes "cg_queues (K s) (qid_AccountId (q_Id x), qid_QueueId (q_Id x)) \<noteq> None" "cg_names (K s) (qid_AccountId (q_Id x), q_Name x) \<noteq> None"
  shows "queuesTable_Delete P (qc_queues c) x s = Inr ((), go_out (queuesTable_Delete P (qc_queues c) x) s)"
    "K (go_out (queuesTable_Delete P (qc_queues c) x) s) = (K s)\<lparr>
       cg_queues := (cg_queues (K s))((qid_AccountId (q_Id x), qid_QueueId (q_Id x)) := None),
       cg_names := (cg_names (K s))((qid_AccountId (q_Id x), q_Name x) := None) \<rparr>"
    "W s \<Longrightarrow> W (go_out (queuesTable_Delete P (qc_queues c) x) s)"
  using assms by (simp_all add: queuesTable_Delete_def ignore_NotFound_def catalog_keys go_run prim_run go_out_eq[of "go_seq m n" for m n])

lemma counter_writes [catalog_run]:
  "queues_countersTable_Set P (qc_counters c) a cn s = Inr ((), go_out (queues_countersTable_Set P (qc_counters c) a cn) s)"
  "K (go_out (queues_countersTable_Set P (qc_counters c) a cn) s) = (K s)\<lparr> cg_counters := (cg_counters (K s))(a := cn) \<rparr>"
  "W s \<Longrightarrow> W (go_out (queues_countersTable_Set P (qc_counters c) a cn) s)"
  by (simp_all add: queues_countersTable_Set_def catalog_keys counters.Set_run catalog_of_upd wf_queues_upd)

lemma gc_writes [catalog_run]:
  "gcRecordsTable_Create P (qc_gcRecords c) r s = Inr ((), go_out (gcRecordsTable_Create P (qc_gcRecords c) r) s)"
  "K (go_out (gcRecordsTable_Create P (qc_gcRecords c) r) s) =
     (K s)\<lparr> cg_gc := (cg_gc (K s))((qid_AccountId (qgc_QueueId r), qid_QueueId (qgc_QueueId r)) \<mapsto> r) \<rparr>"
  "W s \<Longrightarrow> W (go_out (gcRecordsTable_Create P (qc_gcRecords c) r) s)"
  by (simp_all add: gcRecordsTable_Create_def catalog_keys gc.Set_run catalog_of_upd wf_queues_upd)

lemma gc_delete [catalog_run]:
  assumes "cg_gc (K s) (qid_AccountId (qgc_QueueId r), qid_QueueId (qgc_QueueId r)) \<noteq> None"
  shows "gcRecordsTable_Delete P (qc_gcRecords c) r s = Inr ((), go_out (gcRecordsTable_Delete P (qc_gcRecords c) r) s)"
    "K (go_out (gcRecordsTable_Delete P (qc_gcRecords c) r) s) =
       (K s)\<lparr> cg_gc := (cg_gc (K s))((qid_AccountId (qgc_QueueId r), qid_QueueId (qgc_QueueId r)) := None) \<rparr>"
    "W s \<Longrightarrow> W (go_out (gcRecordsTable_Delete P (qc_gcRecords c) r) s)"
  using assms gc.Delete_run[of s "qkey (qid_AccountId (qgc_QueueId r)) (qid_QueueId (qgc_QueueId r))"]
  by (auto simp: gcRecordsTable_Delete_def catalog_keys catalog_of_simps catalog_of_upd wf_queues_upd)

lemma schedule_create [catalog_run]:
  "schedulesTable_Create P (qc_schedules c) x s = Inr ((), go_out (schedulesTable_Create P (qc_schedules c) x) s)"
  "K (go_out (schedulesTable_Create P (qc_schedules c) x) s) = (K s)\<lparr>
     cg_due := insert (tw (sch_NextScheduledAt x), sch_acc x, sch_que x, sch_sid x) (cg_due (K s)),
     cg_snames := (cg_snames (K s))((sch_acc x, sch_que x, sch_Name x) \<mapsto> sch_sid x),
     cg_schedules := (cg_schedules (K s))((sch_acc x, sch_que x, sch_sid x) \<mapsto> x) \<rparr>"
  "W s \<Longrightarrow> W (go_out (schedulesTable_Create P (qc_schedules c) x) s)"
  by (simp_all add: schedulesTable_Create_def catalog_keys go_run prim_run go_out_eq[of "go_seq m n" for m n])

lemma schedule_update [catalog_run]:
  assumes "cg_schedules (K s) (sch_acc x, sch_que x, sch_sid x) = Some old"
  shows "schedulesTable_Update P (qc_schedules c) x s = Inr ((), go_out (schedulesTable_Update P (qc_schedules c) x) s)"
    "K (go_out (schedulesTable_Update P (qc_schedules c) x) s) = (K s)\<lparr>
       cg_due := due_moved x (sch_NextScheduledAt old) (cg_due (K s)),
       cg_schedules := (cg_schedules (K s))((sch_acc x, sch_que x, sch_sid x) \<mapsto> x) \<rparr>"
    "W s \<Longrightarrow> W (go_out (schedulesTable_Update P (qc_schedules c) x) s)"
  using assms
  by (cases "sch_NextScheduledAt x = sch_NextScheduledAt old";
      simp add: schedulesTable_Update_def due_moved_def catalog_keys go_run go_when_def prim_run catalog_run Let_def go_out_eq[of "go_bind m n" for m n])+

lemma schedule_delete [catalog_run]:
  assumes "cg_schedules (K s) (sch_acc x, sch_que x, sch_sid x) \<noteq> None" "cg_snames (K s) (sch_acc x, sch_que x, sch_Name x) \<noteq> None"
  shows "schedulesTable_Delete P (qc_schedules c) x s = Inr ((), go_out (schedulesTable_Delete P (qc_schedules c) x) s)"
    "K (go_out (schedulesTable_Delete P (qc_schedules c) x) s) = (K s)\<lparr>
       cg_due := cg_due (K s) - {(tw (sch_NextScheduledAt x), sch_acc x, sch_que x, sch_sid x)},
       cg_snames := (cg_snames (K s))((sch_acc x, sch_que x, sch_Name x) := None),
       cg_schedules := (cg_schedules (K s))((sch_acc x, sch_que x, sch_sid x) := None) \<rparr>"
    "W s \<Longrightarrow> W (go_out (schedulesTable_Delete P (qc_schedules c) x) s)"
  using assms by (simp_all add: schedulesTable_Delete_def ignore_NotFound_def catalog_keys go_run prim_run go_out_eq[of "go_seq m n" for m n])

section \<open>Listings\<close>

lemma schedule_rows_under:
  assumes "W s"
  shows "rows_under (w_schedules (abs s)) (qkey a q) =
      map (\<lambda>t. the (cg_schedules (K s) (a, q, t))) (sorted_list_of_set {t. cg_schedules (K s) (a, q, t) \<noteq> None})"
    and "finite {t. cg_schedules (K s) (a, q, t) \<noteq> None}"
proof -
  let ?m = "w_schedules (abs s)" and ?D = "{t. cg_schedules (K s) (a, q, t) \<noteq> None}"
  have vim: "?D = tkey a q -` dom ?m" by (auto simp: catalog_of_simps dom_def)
  then show fin: "finite ?D" using finite_vimageI[OF schedules.dom_finite[of s], of "tkey a q"] by (simp add: inj_def)
  have "{k \<in> dom ?m. prefix (qkey a q) k} = tkey a q ` ?D"
  proof (intro equalityI subsetI)
    fix k assume k: "k \<in> {k \<in> dom ?m. prefix (qkey a q) k}"
    then obtain a' q' t where "k = tkey a' q' t" using assms unfolding wf_queues_def by blast
    moreover from this k have "a' = a" "q' = q" by (auto simp: tkey_def prefix_def)
    ultimately show "k \<in> tkey a q ` ?D" using k vim by auto
  qed (use vim in \<open>auto simp: tkey_def prefix_def\<close>)
  moreover have "strict_mono_on ?D (tkey a q)" by (rule strict_mono_onI) (simp add: tkey_def qkey_def)
  ultimately have "keys_under ?m (qkey a q) = map (tkey a q) (sorted_list_of_set ?D)"
    by (simp add: keys_under_def sorted_list_of_image fin)
  then show "rows_under ?m (qkey a q) = map (\<lambda>t. the (cg_schedules (K s) (a, q, t))) (sorted_list_of_set ?D)"
    by (simp add: rows_under_def catalog_of_simps comp_def)
qed

lemma schedule_page_run:
  fixes i :: QueueId
  assumes "W s" "0 < n"
  defines "R \<equiv> schedules_of (K s) (qid_AccountId i, qid_QueueId i)"
  shows "\<exists>pg. schedulesTable_List P (qc_schedules c) i None n s = Inr (pg, s) \<and> lsr_Schedules pg = take (nat n) R \<and>
    (nat n < length R \<longrightarrow> lsr_NextPaginationToken pg \<noteq> None) \<and> (R = [] \<longrightarrow> lsr_NextPaginationToken pg = None)"
proof -
  have R: "rows_under (w_schedules (abs s)) (qkey (qid_AccountId i) (qid_QueueId i)) = R"
    unfolding R_def schedules_of_def using schedule_rows_under[OF assms(1)] by simp
  obtain pg where "bt_ListPaginated (sct_table (qc_schedules c)) (qkey (qid_AccountId i) (qid_QueueId i)) None n s = Inr (pg, s)"
    "pg_Items pg = take (nat n) R" "nat n < length R \<longrightarrow> pg_NextPaginationToken pg \<noteq> None" "R = [] \<longrightarrow> pg_NextPaginationToken pg = None"
    using schedules.ListPaginated_first[OF assms(2), of "qkey (qid_AccountId i) (qid_QueueId i)" s] unfolding R by blast
  then show ?thesis
    by (auto simp: schedulesTable_List_def Let_def CoreToMonstera_def MonsteraToCore_def in_order_def catalog_keys go_run)
qed

lemma gc_page_run:
  assumes "W s" "0 < n"
  shows "gcRecordsTable_List P (qc_gcRecords c) n s = Inr (map (\<lambda>aq. the (cg_gc (K s) aq)) (take (nat n) (gc_refs (K s))), s)"
    and "finite {aq. cg_gc (K s) aq \<noteq> None}"
proof -
  let ?m = "w_gc (abs s)" and ?D = "{aq. cg_gc (K s) aq \<noteq> None}" and ?f = "\<lambda>(a, q). qkey a q"
  have get: "cg_gc (K s) x = ?m (?f x)" for x by (cases x) (simp add: catalog_of_simps)
  then have vim: "?D = ?f -` dom ?m" by (auto simp: dom_def)
  then show fin: "finite ?D" using finite_vimageI[OF gc.dom_finite[of s], of ?f] by (auto simp: inj_def)
  have "dom ?m = ?f ` ?D"
  proof (intro equalityI subsetI)
    fix k assume k: "k \<in> dom ?m"
    then obtain a q where "k = qkey a q" using assms(1) unfolding wf_queues_def by blast
    then show "k \<in> ?f ` ?D" using k vim by auto
  qed (use vim in auto)
  moreover have "strict_mono_on ?D ?f" by (rule strict_mono_onI) (auto simp: qkey_def)
  ultimately have "keys_under ?m [] = map ?f (gc_refs (K s))"
    by (simp add: keys_under_def sorted_list_of_image fin gc_refs_def)
  then have "rows_under ?m [] = map (\<lambda>aq. the (cg_gc (K s) aq)) (gc_refs (K s))"
    by (simp add: rows_under_def get comp_def)
  then show "gcRecordsTable_List P (qc_gcRecords c) n s = Inr (map (\<lambda>aq. the (cg_gc (K s) aq)) (take (nat n) (gc_refs (K s))), s)"
    using gc.ListPaginated_first[OF assms(2), of "[]" s] by (auto simp: gcRecordsTable_List_def go_run take_map)
qed

lemma due_range_run:
  assumes "W s"
  shows "si_ListInRange (sct_scheduledIndex (qc_schedules c)) (be64 lo) (be64 hi) s =
      Inr (map (\<lambda>(w, a, q, t). ekey w a q t) (filter (\<lambda>(w, _). lo \<le> w \<and> w \<le> hi) (sorted_list_of_set (cg_due (K s)))), s)"
    and "finite (cg_due (K s))"
proof -
  let ?f = "\<lambda>(w, a, q, t). ekey w a q t" and ?D = "cg_due (K s)"
  have "x \<in> ?D \<longleftrightarrow> ?f x \<in> w_due (abs s)" for x by (cases x) (simp add: catalog_of_simps)
  then have vim: "?D = ?f -` w_due (abs s)" by auto
  then show fin: "finite ?D" using finite_vimageI[OF due.items_finite[of s], of ?f] by (auto simp: inj_def)
  have "w_due (abs s) = ?f ` ?D"
  proof (intro equalityI subsetI)
    fix x assume x: "x \<in> w_due (abs s)"
    then obtain w a q t where "x = ekey w a q t" using assms unfolding wf_queues_def by blast
    then show "x \<in> ?f ` ?D" using x vim by (intro rev_image_eqI[of "(w, a, q, t)"]) auto
  qed (use vim in auto)
  moreover have "strict_mono_on ?D ?f" by (rule strict_mono_onI) (auto simp: ekey_less)
  ultimately have "items_under (w_due (abs s)) [] = map ?f (sorted_list_of_set ?D)"
    using sorted_list_of_image[OF _ fin, of ?f] by (simp add: items_under_def)
  then show "si_ListInRange (sct_scheduledIndex (qc_schedules c)) (be64 lo) (be64 hi) s =
      Inr (map ?f (filter (\<lambda>(w, _). lo \<le> w \<and> w \<le> hi) (sorted_list_of_set ?D)), s)"
    by (simp add: due.ListInRange filter_map comp_def case_prod_unfold)
qed

end

end
