(* ===== verification/Queues_Invariant.thy ===== *)
theory Queues_Invariant
  imports Queues_View
begin

text \<open>
  The invariant of a queues core, and that every elementary change of the
  catalog keeps it.  The two name indexes, the schedule index and the two kinds
  of counters describe exactly the rows; a queue whose schedules await
  collection has no row; and a schedule without a queue awaits collection.
\<close>

section \<open>The invariant\<close>

definition row_count :: "(qref \<Rightarrow> 'v option) \<Rightarrow> uint64 \<Rightarrow> nat" where
  "row_count f a = card (dom (\<lambda>q. f (a, q)))"

definition sub_count :: "(sref \<Rightarrow> 'v option) \<Rightarrow> qref \<Rightarrow> nat" where
  "sub_count g aq = card (dom (\<lambda>t. g (fst aq, snd aq, t)))"

abbreviation queue_count :: "catalog \<Rightarrow> uint64 \<Rightarrow> nat" where
  "queue_count C \<equiv> row_count (cg_queues C)"

abbreviation schedule_count :: "catalog \<Rightarrow> qref \<Rightarrow> nat" where
  "schedule_count C \<equiv> sub_count (cg_schedules C)"

definition ids_ok :: "catalog \<Rightarrow> bool" where
  "ids_ok C \<longleftrightarrow> (\<forall>a q x. cg_queues C (a, q) = Some x \<longrightarrow> q_Id x = \<lparr> qid_AccountId = a, qid_QueueId = q \<rparr>) \<and>
    (\<forall>a q t y. cg_schedules C (a, q, t) = Some y \<longrightarrow> sch_Id y = \<lparr> sid_AccountId = a, sid_QueueId = q, sid_ScheduleId = t \<rparr>) \<and>
    (\<forall>a q r. cg_gc C (a, q) = Some r \<longrightarrow> qgc_QueueId r = \<lparr> qid_AccountId = a, qid_QueueId = q \<rparr>)"

definition names_ok :: "catalog \<Rightarrow> bool" where
  "names_ok C \<longleftrightarrow> (\<forall>a n q. cg_names C (a, n) = Some q \<longleftrightarrow> (\<exists>x. cg_queues C (a, q) = Some x \<and> q_Name x = n))"

definition snames_ok :: "catalog \<Rightarrow> bool" where
  "snames_ok C \<longleftrightarrow> (\<forall>a q n t. cg_snames C (a, q, n) = Some t \<longleftrightarrow> (\<exists>y. cg_schedules C (a, q, t) = Some y \<and> sch_Name y = n))"

definition due_ok :: "catalog \<Rightarrow> bool" where
  "due_ok C \<longleftrightarrow> (\<forall>w a q t. (w, a, q, t) \<in> cg_due C \<longleftrightarrow> (\<exists>y. cg_schedules C (a, q, t) = Some y \<and> w = tw (sch_NextScheduledAt y)))"

definition counts_ok :: "catalog \<Rightarrow> bool" where
  "counts_ok C \<longleftrightarrow> (\<forall>a. qc_NumberOfQueues (cg_counters C a) = i64 (int (queue_count C a))) \<and>
    (\<forall>aq x. cg_queues C aq = Some x \<longrightarrow> q_SchedulesCount x = i64 (int (schedule_count C aq)))"

definition gc_ok :: "catalog \<Rightarrow> bool" where
  "gc_ok C \<longleftrightarrow> (\<forall>aq. cg_queues C aq = None \<or> cg_gc C aq = None) \<and>
    (\<forall>a q t. cg_queues C (a, q) = None \<longrightarrow> cg_gc C (a, q) = None \<longrightarrow> cg_schedules C (a, q, t) = None)"

definition good_catalog :: "catalog \<Rightarrow> bool" where
  "good_catalog C \<longleftrightarrow> ids_ok C \<and> names_ok C \<and> snames_ok C \<and> due_ok C \<and> counts_ok C \<and> gc_ok C"

lemmas catalog_defs = good_catalog_def ids_ok_def names_ok_def snames_ok_def due_ok_def gc_ok_def counts_ok_def

definition good_queues :: "queues_view \<Rightarrow> bool" where
  "good_queues b \<longleftrightarrow> wf_queues b \<and> good_catalog (catalog_of b)"

section \<open>Counting\<close>

lemma finite_rows [simp]: "finite (dom (m :: uint64 \<Rightarrow> 'v option))"
  by (rule finite_subset[OF subset_UNIV]) simp

lemma card_dom_upd:
  "card (dom (m(k := v))) = (if v = None then if m k = None then card (dom m) else card (dom m) - 1
     else if m k = None then Suc (card (dom m)) else card (dom (m :: uint64 \<Rightarrow> 'v option)))"
  by (auto simp: card_insert_if domIff)

lemma row_count_upd:
  "row_count (f((a, q) := v)) a' = (if a' = a then
     if v = None then if f (a, q) = None then row_count f a else row_count f a - 1
     else if f (a, q) = None then Suc (row_count f a) else row_count f a else row_count f a')"
proof (cases "a' = a")
  case True
  then have "(\<lambda>q'. (f((a, q) := v)) (a', q')) = (\<lambda>q'. f (a, q'))(q := v)" by (auto simp: fun_eq_iff)
  then show ?thesis by (simp only: row_count_def card_dom_upd True if_True simp_thms)
qed (simp add: row_count_def)

lemma sub_count_upd:
  "sub_count (g((a, q, t) := v)) aq = (if aq = (a, q) then
     if v = None then if g (a, q, t) = None then sub_count g (a, q) else sub_count g (a, q) - 1
     else if g (a, q, t) = None then Suc (sub_count g (a, q)) else sub_count g (a, q) else sub_count g aq)"
proof (cases "aq = (a, q)")
  case True
  then have "(\<lambda>t'. (g((a, q, t) := v)) (fst aq, snd aq, t')) = (\<lambda>t'. g (a, q, t'))(t := v)" by (auto simp: fun_eq_iff)
  then show ?thesis by (simp only: sub_count_def card_dom_upd True if_True fst_conv snd_conv simp_thms)
next
  case False
  then have "(\<lambda>t'. (g((a, q, t) := v)) (fst aq, snd aq, t')) = (\<lambda>t'. g (fst aq, snd aq, t'))" by (cases aq) auto
  then show ?thesis using False by (simp only: sub_count_def if_False)
qed

lemma row_count_pos: "f (a, q) \<noteq> None \<Longrightarrow> 0 < row_count f a"
  unfolding row_count_def card_gt_0_iff by (metis domIff empty_iff finite_rows)

lemma sub_count_pos: "g (a, q, t) \<noteq> None \<Longrightarrow> 0 < sub_count g (a, q)"
  unfolding sub_count_def card_gt_0_iff fst_conv snd_conv by (metis domIff empty_iff finite_rows)

lemma sub_count_none: "(\<And>t. g (a, q, t) = None) \<Longrightarrow> sub_count g (a, q) = 0"
  by (simp add: sub_count_def dom_def)

lemma i64_0 [simp]: "i64 0 = 0"
  by (simp add: i64_def)

section \<open>Elementary changes\<close>

definition add_queue :: "Queue \<Rightarrow> catalog \<Rightarrow> catalog" where
  "add_queue x C = (let a = qid_AccountId (q_Id x); q = qid_QueueId (q_Id x) in
    C\<lparr> cg_names := (cg_names C)((a, q_Name x) \<mapsto> q), cg_queues := (cg_queues C)((a, q) \<mapsto> x),
       cg_counters := (cg_counters C)(a := (cg_counters C a)\<lparr> qc_NumberOfQueues := i64 (qc_NumberOfQueues (cg_counters C a) + 1) \<rparr>) \<rparr>)"

definition put_queue :: "Queue \<Rightarrow> catalog \<Rightarrow> catalog" where
  "put_queue x C = C\<lparr> cg_queues := (cg_queues C)((qid_AccountId (q_Id x), qid_QueueId (q_Id x)) \<mapsto> x) \<rparr>"

definition remove_queue :: "Queue \<Rightarrow> catalog \<Rightarrow> catalog" where
  "remove_queue x C = (let a = qid_AccountId (q_Id x); q = qid_QueueId (q_Id x) in
    C\<lparr> cg_queues := (cg_queues C)((a, q) := None), cg_names := (cg_names C)((a, q_Name x) := None),
       cg_counters := (cg_counters C)(a := (cg_counters C a)\<lparr> qc_NumberOfQueues := i64 (qc_NumberOfQueues (cg_counters C a) - 1) \<rparr>),
       cg_gc := (cg_gc C)((a, q) \<mapsto> \<lparr> qgc_QueueId = q_Id x \<rparr>) \<rparr>)"

definition add_schedule :: "Schedule \<Rightarrow> catalog \<Rightarrow> catalog" where
  "add_schedule y C = C\<lparr> cg_due := insert (tw (sch_NextScheduledAt y), sch_acc y, sch_que y, sch_sid y) (cg_due C),
     cg_snames := (cg_snames C)((sch_acc y, sch_que y, sch_Name y) \<mapsto> sch_sid y),
     cg_schedules := (cg_schedules C)((sch_acc y, sch_que y, sch_sid y) \<mapsto> y) \<rparr>"

definition put_schedule :: "Schedule \<Rightarrow> int \<Rightarrow> catalog \<Rightarrow> catalog" where
  "put_schedule y from C = C\<lparr> cg_due := due_moved y from (cg_due C),
     cg_schedules := (cg_schedules C)((sch_acc y, sch_que y, sch_sid y) \<mapsto> y) \<rparr>"

definition remove_schedule :: "Schedule \<Rightarrow> catalog \<Rightarrow> catalog" where
  "remove_schedule y C = C\<lparr> cg_due := cg_due C - {(tw (sch_NextScheduledAt y), sch_acc y, sch_que y, sch_sid y)},
     cg_snames := (cg_snames C)((sch_acc y, sch_que y, sch_Name y) := None),
     cg_schedules := (cg_schedules C)((sch_acc y, sch_que y, sch_sid y) := None) \<rparr>"

definition count_schedules :: "qref \<Rightarrow> int \<Rightarrow> catalog \<Rightarrow> catalog" where
  "count_schedules aq n C = C\<lparr> cg_queues := (cg_queues C)(aq := map_option (\<lambda>x. x\<lparr> q_SchedulesCount := i64 (q_SchedulesCount x + n) \<rparr>) (cg_queues C aq)) \<rparr>"

lemma good_names:
  assumes "good_catalog C" "cg_names C (a, n) = Some q"
  obtains x where "cg_queues C (a, q) = Some x" "q_Name x = n" "q_Id x = \<lparr> qid_AccountId = a, qid_QueueId = q \<rparr>"
  using assms by (auto simp: catalog_defs)

lemma good_snames:
  assumes "good_catalog C" "cg_snames C (a, q, n) = Some t"
  obtains y where "cg_schedules C (a, q, t) = Some y" "sch_Name y = n" "sch_Id y = \<lparr> sid_AccountId = a, sid_QueueId = q, sid_ScheduleId = t \<rparr>"
  using assms by (auto simp: catalog_defs)

lemma good_no_orphans:
  assumes "good_catalog C" "cg_queues C (a, q) = None" "cg_gc C (a, q) = None"
  shows "cg_schedules C (a, q, t) = None"
proof -
  have "gc_ok C" using assms(1) by (simp add: good_catalog_def)
  then show ?thesis using assms(2,3) unfolding gc_ok_def by blast
qed

lemma goodD:
  assumes "good_catalog C"
  shows "ids_ok C" "names_ok C" "snames_ok C" "due_ok C" "counts_ok C" "gc_ok C"
  using assms by (simp_all add: good_catalog_def)

lemma goodI: "ids_ok C \<Longrightarrow> names_ok C \<Longrightarrow> snames_ok C \<Longrightarrow> due_ok C \<Longrightarrow> counts_ok C \<Longrightarrow> gc_ok C \<Longrightarrow> good_catalog C"
  by (simp add: good_catalog_def)

lemma option_free: "v = None \<longleftrightarrow> (\<forall>x. v \<noteq> Some x)"
  by (cases v) auto

lemma names_iff: "names_ok C \<Longrightarrow> cg_names C (a, n) = Some q \<longleftrightarrow> (\<exists>x. cg_queues C (a, q) = Some x \<and> q_Name x = n)"
  by (simp add: names_ok_def)

lemma names_free: "names_ok C \<Longrightarrow> cg_names C (a, n) = None \<longleftrightarrow> (\<forall>q x. cg_queues C (a, q) = Some x \<longrightarrow> q_Name x \<noteq> n)"
  by (simp add: option_free names_iff)

lemma snames_iff: "snames_ok C \<Longrightarrow> cg_snames C (a, q, n) = Some t \<longleftrightarrow> (\<exists>y. cg_schedules C (a, q, t) = Some y \<and> sch_Name y = n)"
  by (simp add: snames_ok_def)

lemma snames_free: "snames_ok C \<Longrightarrow> cg_snames C (a, q, n) = None \<longleftrightarrow> (\<forall>t y. cg_schedules C (a, q, t) = Some y \<longrightarrow> sch_Name y \<noteq> n)"
  by (simp add: option_free snames_iff)

lemma add_queue_good:
  assumes "good_catalog C" "q_Id x = \<lparr> qid_AccountId = a, qid_QueueId = q \<rparr>"
    and "cg_queues C (a, q) = None" "cg_names C (a, q_Name x) = None" "cg_gc C (a, q) = None" "q_SchedulesCount x = 0"
  shows "good_catalog (add_queue x C)"
proof (rule goodI)
  note i = goodD[OF assms(1)] and no = good_no_orphans[OF assms(1,3,5)]
  have free: "cg_queues C (a, q') = Some y \<Longrightarrow> q_Name y \<noteq> q_Name x" for q' y using assms(4) names_free[OF i(2)] by blast
  show "names_ok (add_queue x C)"
    unfolding names_ok_def by (auto simp: add_queue_def Let_def assms(2,3) names_iff[OF i(2)] dest: free)
  show "counts_ok (add_queue x C)"
    using i(5) sub_count_none[of "cg_schedules C" a q] no assms(2,3,6)
    by (auto simp: counts_ok_def add_queue_def Let_def row_count_upd add.commute)
  show "ids_ok (add_queue x C)" "snames_ok (add_queue x C)" "due_ok (add_queue x C)"
    using i assms(2) by (auto simp: ids_ok_def snames_ok_def due_ok_def add_queue_def Let_def)
  show "gc_ok (add_queue x C)"
    using i(6) assms(2,5) by (auto simp: gc_ok_def add_queue_def Let_def)
qed

lemma put_queue_good:
  assumes "good_catalog C" "q_Id x = \<lparr> qid_AccountId = a, qid_QueueId = q \<rparr>" "cg_queues C (a, q) = Some old"
    and "q_Name x = q_Name old" "q_SchedulesCount x = q_SchedulesCount old"
  shows "good_catalog (put_queue x C)"
proof (rule goodI)
  note i = goodD[OF assms(1)]
  show "names_ok (put_queue x C)"
    unfolding names_ok_def by (auto simp: put_queue_def names_iff[OF i(2)] assms(2-4))
  show "counts_ok (put_queue x C)"
    using i(5) assms(2,3,5) by (auto simp: counts_ok_def put_queue_def row_count_upd)
  show "ids_ok (put_queue x C)" "snames_ok (put_queue x C)" "due_ok (put_queue x C)"
    using i assms(2,3) by (auto simp: ids_ok_def snames_ok_def due_ok_def put_queue_def)
  have "cg_gc C (a, q) = None" using i(6) assms(3) unfolding gc_ok_def by (metis option.distinct(1))
  then show "gc_ok (put_queue x C)" using i(6) assms(2) by (auto simp: gc_ok_def put_queue_def)
qed

lemma remove_queue_good:
  assumes "good_catalog C" "q_Id x = \<lparr> qid_AccountId = a, qid_QueueId = q \<rparr>" "cg_queues C (a, q) = Some x"
  shows "good_catalog (remove_queue x C)"
proof (rule goodI)
  note i = goodD[OF assms(1)]
  have own: "cg_names C (a, q_Name x) = Some q" using assms(3) names_iff[OF i(2)] by blast
  have alone: "cg_queues C (a, q') = Some y \<Longrightarrow> q_Name y = q_Name x \<Longrightarrow> q' = q" for q' y
    using own names_iff[OF i(2), of a "q_Name x" q'] by auto
  show "names_ok (remove_queue x C)"
    unfolding names_ok_def by (auto simp: remove_queue_def Let_def names_iff[OF i(2)] assms(2,3) dest: alone)
  have "0 < queue_count C a" by (rule row_count_pos[of _ _ q]) (simp add: assms(3))
  then show "counts_ok (remove_queue x C)"
    using i(5) assms(2,3) by (auto simp: counts_ok_def remove_queue_def Let_def row_count_upd of_nat_diff)
  show "ids_ok (remove_queue x C)" "snames_ok (remove_queue x C)" "due_ok (remove_queue x C)"
    using i assms(2,3) by (auto simp: ids_ok_def snames_ok_def due_ok_def remove_queue_def Let_def)
  show "gc_ok (remove_queue x C)" using i(6) assms(2) by (auto simp: gc_ok_def remove_queue_def Let_def)
qed

lemma add_schedule_good:
  assumes "good_catalog C" "sch_Id y = \<lparr> sid_AccountId = a, sid_QueueId = q, sid_ScheduleId = t \<rparr>"
    and "cg_schedules C (a, q, t) = None" "cg_snames C (a, q, sch_Name y) = None" "cg_queues C (a, q) \<noteq> None"
  shows "good_catalog (count_schedules (a, q) 1 (add_schedule y C))"
proof (rule goodI)
  note i = goodD[OF assms(1)] and d = count_schedules_def add_schedule_def
  obtain x where x: "cg_queues C (a, q) = Some x" using assms(5) by blast
  have free: "cg_schedules C (a, q, t') = Some z \<Longrightarrow> sch_Name z \<noteq> sch_Name y" for t' z using assms(4) snames_free[OF i(3)] by blast
  show "snames_ok (count_schedules (a, q) 1 (add_schedule y C))"
    unfolding snames_ok_def by (auto simp: d assms(2,3) snames_iff[OF i(3)] dest: free)
  show "names_ok (count_schedules (a, q) 1 (add_schedule y C))"
    unfolding names_ok_def by (auto simp: d assms(2) x names_iff[OF i(2)])
  show "counts_ok (count_schedules (a, q) 1 (add_schedule y C))"
    using i(5) assms(2,3) x by (auto simp: counts_ok_def d row_count_upd sub_count_upd add.commute)
  show "ids_ok (count_schedules (a, q) 1 (add_schedule y C))" "due_ok (count_schedules (a, q) 1 (add_schedule y C))"
    using i assms(2,3) x by (auto simp: ids_ok_def due_ok_def d)
  have "cg_gc C (a, q) = None" using i(6) x unfolding gc_ok_def by (metis option.distinct(1))
  then show "gc_ok (count_schedules (a, q) 1 (add_schedule y C))" using i(6) assms(2) x by (auto simp: gc_ok_def d)
qed

lemma put_schedule_good:
  assumes "good_catalog C" "sch_Id y = \<lparr> sid_AccountId = a, sid_QueueId = q, sid_ScheduleId = t \<rparr>"
    and "cg_schedules C (a, q, t) = Some old" "sch_Name y = sch_Name old"
  shows "good_catalog (put_schedule y (sch_NextScheduledAt old) C)"
proof (rule goodI)
  note i = goodD[OF assms(1)] and d = put_schedule_def
  show "snames_ok (put_schedule y (sch_NextScheduledAt old) C)"
    unfolding snames_ok_def by (auto simp: d assms(2-4) snames_iff[OF i(3)])
  show "counts_ok (put_schedule y (sch_NextScheduledAt old) C)"
    using i(5) assms(2,3) by (auto simp: counts_ok_def d sub_count_upd)
  show "ids_ok (put_schedule y (sch_NextScheduledAt old) C)" "names_ok (put_schedule y (sch_NextScheduledAt old) C)"
    "gc_ok (put_schedule y (sch_NextScheduledAt old) C)"
    using i assms(2,3) by (auto simp: ids_ok_def names_ok_def gc_ok_def d)
  show "due_ok (put_schedule y (sch_NextScheduledAt old) C)"
    using i(4) assms(2,3) unfolding due_ok_def by (auto simp: d due_moved_def)
qed

text \<open>Removing a schedule, without a change of a queue row.\<close>

lemma remove_schedule_parts:
  assumes "good_catalog C" "sch_Id y = \<lparr> sid_AccountId = a, sid_QueueId = q, sid_ScheduleId = t \<rparr>" "cg_schedules C (a, q, t) = Some y"
  shows "snames_ok (remove_schedule y C)" "due_ok (remove_schedule y C)" "ids_ok (remove_schedule y C)" "names_ok (remove_schedule y C)"
    "gc_ok (remove_schedule y C)" "cg_snames C (a, q, sch_Name y) = Some t"
proof -
  note i = goodD[OF assms(1)] and d = remove_schedule_def
  show own: "cg_snames C (a, q, sch_Name y) = Some t" using assms(3) snames_iff[OF i(3)] by blast
  have alone: "cg_schedules C (a, q, t') = Some z \<Longrightarrow> sch_Name z = sch_Name y \<Longrightarrow> t' = t" for t' z
    using own snames_iff[OF i(3), of a q "sch_Name y" t'] by auto
  show "snames_ok (remove_schedule y C)"
    unfolding snames_ok_def by (auto simp: d snames_iff[OF i(3)] assms(2,3) dest: alone)
  show "due_ok (remove_schedule y C)" "ids_ok (remove_schedule y C)" "names_ok (remove_schedule y C)" "gc_ok (remove_schedule y C)"
    using i assms(2,3) by (auto simp: ids_ok_def due_ok_def names_ok_def gc_ok_def d)
qed

lemma remove_schedule_good:
  assumes "good_catalog C" "sch_Id y = \<lparr> sid_AccountId = a, sid_QueueId = q, sid_ScheduleId = t \<rparr>" "cg_schedules C (a, q, t) = Some y"
    and "cg_queues C (a, q) \<noteq> None"
  shows "good_catalog (count_schedules (a, q) (- 1) (remove_schedule y C))"
proof (rule goodI)
  note i = goodD[OF assms(1)] and p = remove_schedule_parts[OF assms(1-3)] and d = count_schedules_def remove_schedule_def
  obtain x where x: "cg_queues C (a, q) = Some x" using assms(4) by blast
  let ?C = "remove_schedule y C"
  have same: "cg_queues ?C = cg_queues C" by (simp add: d)
  show "snames_ok (count_schedules (a, q) (- 1) ?C)" "due_ok (count_schedules (a, q) (- 1) ?C)"
    using p(1,2) by (simp_all add: snames_ok_def due_ok_def count_schedules_def)
  show "names_ok (count_schedules (a, q) (- 1) ?C)"
    using p(4) x same by (auto simp: names_ok_def count_schedules_def)
  show "ids_ok (count_schedules (a, q) (- 1) ?C)" using p(3) x same by (auto simp: ids_ok_def count_schedules_def)
  have "cg_gc ?C (a, q) = None" using p(5) x same unfolding gc_ok_def by (metis option.distinct(1))
  then show "gc_ok (count_schedules (a, q) (- 1) ?C)" using p(5) x same by (auto simp: gc_ok_def count_schedules_def)
  have "0 < schedule_count C (a, q)" by (rule sub_count_pos[of _ _ _ t]) (simp add: assms(3))
  then show "counts_ok (count_schedules (a, q) (- 1) ?C)"
    using i(5) assms(2,3) x by (auto simp: counts_ok_def d row_count_upd sub_count_upd of_nat_diff)
qed

lemma collect_schedule_good:
  assumes "good_catalog C" "sch_Id y = \<lparr> sid_AccountId = a, sid_QueueId = q, sid_ScheduleId = t \<rparr>" "cg_schedules C (a, q, t) = Some y"
    and "cg_queues C (a, q) = None"
  shows "good_catalog (remove_schedule y C)"
proof (rule goodI)
  note i = goodD[OF assms(1)]
  show "counts_ok (remove_schedule y C)"
    using i(5) assms(2-4) by (auto simp: counts_ok_def remove_schedule_def sub_count_upd)
qed (rule remove_schedule_parts[OF assms(1-3)])+

lemma drop_record_good:
  assumes "good_catalog C" "\<And>t. cg_schedules C (fst aq, snd aq, t) = None"
  shows "good_catalog (C\<lparr> cg_gc := (cg_gc C)(aq := None) \<rparr>)"
  using assms(2) goodD[OF assms(1)]
  by (intro goodI) (auto simp: ids_ok_def names_ok_def snames_ok_def due_ok_def counts_ok_def gc_ok_def)

end
