(* ===== verification/Queues_Handlers.thy ===== *)
theory Queues_Handlers
  imports Queues_Invariant
begin

text \<open>
  The handlers of the queues core over a store that obeys the contracts, from
  a state that satisfies the invariant: what each one answers and how it
  changes the catalog.
\<close>

section \<open>Answers\<close>

definition new_queue :: "int \<Rightarrow> CreateQueueRequest \<Rightarrow> QueueId \<Rightarrow> Queue" where
  "new_queue now req i =
    \<lparr> q_Id = i, q_Name = cq_Name req, q_Description = cq_Description req, q_CreatedAt = now, q_UpdatedAt = now, q_Version = 1,
      q_KeepaliveTimeoutInSeconds = cq_KeepaliveTimeoutInSeconds req, q_RetryStrategy = cq_RetryStrategy req,
      q_DequeuingSettings = cq_DequeuingSettings req, q_DeadLetterQueueConfig = cq_DeadLetterQueueConfig req,
      q_ExpiresInSeconds = cq_ExpiresInSeconds req, q_SchedulesCount = 0 \<rparr>"

definition updated_queue :: "int \<Rightarrow> UpdateQueueRequest \<Rightarrow> Queue \<Rightarrow> Queue" where
  "updated_queue now req x = x\<lparr> q_Description := uq_Description req, q_UpdatedAt := now,
     q_KeepaliveTimeoutInSeconds := uq_KeepaliveTimeoutInSeconds req, q_RetryStrategy := uq_RetryStrategy req,
     q_DequeuingSettings := uq_DequeuingSettings req, q_DeadLetterQueueConfig := uq_DeadLetterQueueConfig req,
     q_ExpiresInSeconds := uq_ExpiresInSeconds req, q_Version := i64 (q_Version x + 1) \<rparr>"

definition new_schedule :: "int \<Rightarrow> CreateScheduleRequest \<Rightarrow> uint64 \<Rightarrow> int \<Rightarrow> Schedule" where
  "new_schedule now req q tick =
    \<lparr> sch_Id = \<lparr> sid_AccountId = cs_AccountId req, sid_QueueId = q, sid_ScheduleId = cs_ScheduleId req \<rparr>,
      sch_Name = cs_ScheduleName req, sch_Description = cs_Description req, sch_CreatedAt = now, sch_UpdatedAt = now, sch_Version = 1,
      sch_Cron = cs_Cron req, sch_Payload = cs_Payload req, sch_DedupeKey = cs_DedupeKey req,
      sch_ExpiresInSeconds = cs_ExpiresInSeconds req, sch_RetryStrategy = cs_RetryStrategy req, sch_Timezone = cs_Timezone req,
      sch_LastCheckedAt = 0, sch_NextScheduledAt = tick, sch_LastEnqueuedFor = 0 \<rparr>"

definition updated_schedule :: "int \<Rightarrow> UpdateScheduleRequest \<Rightarrow> int \<Rightarrow> Schedule \<Rightarrow> Schedule" where
  "updated_schedule now req tick y = y\<lparr> sch_Description := us_Description req, sch_UpdatedAt := now, sch_Payload := us_Payload req,
     sch_DedupeKey := us_DedupeKey req, sch_Cron := us_Cron req, sch_RetryStrategy := us_RetryStrategy req,
     sch_ExpiresInSeconds := us_ExpiresInSeconds req, sch_Timezone := us_Timezone req, sch_Version := i64 (sch_Version y + 1),
     sch_NextScheduledAt := tick \<rparr>"

definition reported_schedule :: "int \<Rightarrow> ReportSchedulesStatusRequest \<Rightarrow> Schedule \<Rightarrow> Schedule" where
  "reported_schedule now req y = (let y1 = y\<lparr> sch_NextScheduledAt := rss_NextScheduledAt req, sch_LastCheckedAt := now \<rparr> in
     if rss_LastEnqueuedFor req \<noteq> 0 then y1\<lparr> sch_LastEnqueuedFor := rss_LastEnqueuedFor req \<rparr> else y1)"

text \<open>The next tick of a cron expression in a time zone.\<close>

definition tick_of :: "cron_pkg \<Rightarrow> string \<Rightarrow> string \<Rightarrow> int \<Rightarrow> goerr + int" where
  "tick_of cron zone expr now = (case LoadLocation cron zone of Inl e \<Rightarrow> Inl e
     | Inr tz \<Rightarrow> (case NextTickAfter cron expr \<lparr> tm_UnixNano = now, tm_Location = tz \<rparr> False of Inl e \<Rightarrow> Inl e
       | Inr t \<Rightarrow> Inr (tm_UnixNano t)))"

lemma next_tick_run: "next_tick cron zone expr now s = (case tick_of cron zone expr now of Inl e \<Rightarrow> Inl e | Inr t \<Rightarrow> Inr (t, s))"
  by (auto simp: next_tick_def tick_of_def go_of_sum_def go_run split: sum.splits)

text \<open>A refusal leaves the database as it was.\<close>

definition refused :: "('d, 'r response) handler \<Rightarrow> 'd \<Rightarrow> mrpc_ErrorCode \<Rightarrow> bool" where
  "refused h d code \<longleftrightarrow> (\<exists>err. h d = (Inr (ApplicationError err), d) \<and> err_Code err = code)"

context queues_store
begin

text \<open>\<open>done h d r C\<close>: the handler answers \<open>r\<close> and commits the catalog \<open>C\<close>.\<close>

definition committed :: "('d, 'r) handler \<Rightarrow> 'd \<Rightarrow> 'r \<Rightarrow> catalog \<Rightarrow> bool" where
  "committed h d r C \<longleftrightarrow> (\<exists>d'. h d = (Inr r, d') \<and> catalog_of (dabs d') = C \<and> wf_queues (dabs d'))"

lemma committedI:
  assumes "\<exists>s'. body (bs_Update (qc_badgerStore c) d) = Inr (Commit r, s') \<and> K s' = C \<and> W s'"
  shows "committed (in_update (qc_badgerStore c) body) d r C"
proof -
  obtain s' where s': "body (bs_Update (qc_badgerStore c) d) = Inr (Commit r, s')" "K s' = C" "W s'" using assms by blast
  then show ?thesis using store.in_update_commit[of body d r s'] by (auto simp: committed_def)
qed

lemma refusedI:
  assumes "\<exists>err s'. body (bs_Update (qc_badgerStore c) d) = Inr (Discard (ApplicationError err), s') \<and> err_Code err = code"
  shows "refused (in_update (qc_badgerStore c) body) d code"
proof -
  obtain err s' where s': "body (bs_Update (qc_badgerStore c) d) = Inr (Discard (ApplicationError err), s')" "err_Code err = code"
    using assms by blast
  then show ?thesis using store.in_update_discard[of body d "ApplicationError err" s'] by (auto simp: refused_def)
qed

lemma opened: "K (bs_Update (qc_badgerStore c) d) = catalog_of (dabs d)" "K (bs_View (qc_badgerStore c) d) = catalog_of (dabs d)"
  "W (bs_Update (qc_badgerStore c) d) = wf_queues (dabs d)" "W (bs_View (qc_badgerStore c) d) = wf_queues (dabs d)"
  by (simp_all add: store.Update store.View)

lemma guards_run:
  "go_vacant (queuesTable_Get P (qc_queues c) i) taken rest s = (if cg_queues (K s) (qid_AccountId i, qid_QueueId i) = None then rest s else taken s)"
  "go_vacant (schedulesTable_Get P (qc_schedules c) j) taken rest s =
    (if cg_schedules (K s) (sid_AccountId j, sid_QueueId j, sid_ScheduleId j) = None then rest s else taken s)"
  "go_lookup (schedulesTable_Get P (qc_schedules c) j) absent f s =
    (case cg_schedules (K s) (sid_AccountId j, sid_QueueId j, sid_ScheduleId j) of None \<Rightarrow> absent s | Some y \<Rightarrow> f y s)"
  "go_lookup (queuesTable_Get P (qc_queues c) i) absent' f' s =
    (case cg_queues (K s) (qid_AccountId i, qid_QueueId i) of None \<Rightarrow> absent' s | Some x \<Rightarrow> f' x s)"
  by (auto simp: go_vacant_def go_lookup_def go_run catalog_run split: option.splits)

lemma name_guards_run:
  assumes "good_catalog (K s)"
  shows "go_vacant (queuesTable_GetByName P (qc_queues c) a n) taken rest s = (if cg_names (K s) (a, n) = None then rest s else taken s)"
    "go_lookup (queuesTable_GetByName P (qc_queues c) a n) absent f s =
      (case cg_names (K s) (a, n) of None \<Rightarrow> absent s | Some q \<Rightarrow> f (the (cg_queues (K s) (a, q))) s)"
    "go_vacant (schedulesTable_GetByName P (qc_schedules c) i n) taken' rest' s =
      (if cg_snames (K s) (qid_AccountId i, qid_QueueId i, n) = None then rest' s else taken' s)"
    "go_lookup (schedulesTable_GetByName P (qc_schedules c) i n) absent'' f'' s =
      (case cg_snames (K s) (qid_AccountId i, qid_QueueId i, n) of None \<Rightarrow> absent'' s
       | Some t \<Rightarrow> f'' (the (cg_schedules (K s) (qid_AccountId i, qid_QueueId i, t))) s)"
  by (auto simp: go_vacant_def go_lookup_def go_run catalog_run split: option.splits elim: good_names[OF assms] good_snames[OF assms])

section \<open>Queues\<close>

lemma CreateQueue_cases:
  fixes i :: QueueId
  assumes g: "good_queues (dabs d)" and i: "cq_QueueId req = Some i"
  defines "C \<equiv> catalog_of (dabs d)" and "a \<equiv> qid_AccountId i" and "q \<equiv> qid_QueueId i"
  shows "cg_names C (a, cq_Name req) = Some q' \<Longrightarrow> refused (CreateQueue P c now req) d AlreadyExists"
    and "cg_names C (a, cq_Name req) = None \<Longrightarrow> cq_MaxNumberOfQueues req \<le> qc_NumberOfQueues (cg_counters C a) \<Longrightarrow>
      refused (CreateQueue P c now req) d ResourceExhausted"
    and "cg_names C (a, cq_Name req) = None \<Longrightarrow> qc_NumberOfQueues (cg_counters C a) < cq_MaxNumberOfQueues req \<Longrightarrow>
      cg_queues C (a, q) = Some x \<Longrightarrow> refused (CreateQueue P c now req) d IDCollision"
    and "cg_names C (a, cq_Name req) = None \<Longrightarrow> qc_NumberOfQueues (cg_counters C a) < cq_MaxNumberOfQueues req \<Longrightarrow>
      cg_queues C (a, q) = None \<Longrightarrow>
      committed (CreateQueue P c now req) d (Payload (new_queue now req i)) (add_queue (new_queue now req i) C)"
proof -
  have C: "good_catalog C" "wf_queues (dabs d)" using g by (simp_all add: good_queues_def C_def)
  note n = name_guards_run(1)[of "bs_Update (qc_badgerStore c) d", unfolded opened, folded C_def, OF C(1)]
  note run = CreateQueue_def i go_run catalog_run opened C_def[symmetric] a_def[symmetric] q_def[symmetric] n guards_run
  show "cg_names C (a, cq_Name req) = Some q' \<Longrightarrow> refused (CreateQueue P c now req) d AlreadyExists"
    unfolding CreateQueue_def by (rule refusedI) (simp add: run)
  show "cg_names C (a, cq_Name req) = None \<Longrightarrow> cq_MaxNumberOfQueues req \<le> qc_NumberOfQueues (cg_counters C a) \<Longrightarrow>
      refused (CreateQueue P c now req) d ResourceExhausted"
    unfolding CreateQueue_def by (rule refusedI) (simp add: run)
  show "cg_names C (a, cq_Name req) = None \<Longrightarrow> qc_NumberOfQueues (cg_counters C a) < cq_MaxNumberOfQueues req \<Longrightarrow>
      cg_queues C (a, q) = Some x \<Longrightarrow> refused (CreateQueue P c now req) d IDCollision"
    unfolding CreateQueue_def by (rule refusedI) (simp add: run)
  show "cg_names C (a, cq_Name req) = None \<Longrightarrow> qc_NumberOfQueues (cg_counters C a) < cq_MaxNumberOfQueues req \<Longrightarrow>
      cg_queues C (a, q) = None \<Longrightarrow>
      committed (CreateQueue P c now req) d (Payload (new_queue now req i)) (add_queue (new_queue now req i) C)"
    unfolding CreateQueue_def by (rule committedI) (simp add: run Let_def new_queue_def add_queue_def C)
qed

lemma UpdateQueue_cases:
  assumes g: "good_queues (dabs d)"
  defines "C \<equiv> catalog_of (dabs d)"
  shows "cg_names C (uq_AccountId req, uq_QueueName req) = None \<Longrightarrow> refused (UpdateQueue P c now req) d NotFound"
    and "cg_queues C (uq_AccountId req, q) = Some x \<Longrightarrow> q_Name x = uq_QueueName req \<Longrightarrow> q_Version x \<noteq> uq_ExpectedVersion req \<Longrightarrow>
      refused (UpdateQueue P c now req) d InvalidRequest"
    and "cg_queues C (uq_AccountId req, q) = Some x \<Longrightarrow> q_Name x = uq_QueueName req \<Longrightarrow> q_Version x = uq_ExpectedVersion req \<Longrightarrow>
      committed (UpdateQueue P c now req) d (Payload (updated_queue now req x)) (put_queue (updated_queue now req x) C)"
proof -
  have C: "good_catalog C" "wf_queues (dabs d)" using g by (simp_all add: good_queues_def C_def)
  have named: "cg_queues C (a, q) = Some x \<Longrightarrow> q_Name x = n \<Longrightarrow> cg_names C (a, n) = Some q" for a q x n
    using names_iff[OF goodD(2)[OF C(1)], of a n q] by blast
  note n = name_guards_run(2)[of "bs_Update (qc_badgerStore c) d", unfolded opened, folded C_def, OF C(1)]
  note run = go_run catalog_run opened C_def[symmetric] n
  show "cg_names C (uq_AccountId req, uq_QueueName req) = None \<Longrightarrow> refused (UpdateQueue P c now req) d NotFound"
    unfolding UpdateQueue_def by (rule refusedI) (simp add: run queueNotFoundError_def)
  show "cg_queues C (uq_AccountId req, q) = Some x \<Longrightarrow> q_Name x = uq_QueueName req \<Longrightarrow> q_Version x \<noteq> uq_ExpectedVersion req \<Longrightarrow>
      refused (UpdateQueue P c now req) d InvalidRequest"
    unfolding UpdateQueue_def by (rule refusedI) (simp add: run named)
  show "cg_queues C (uq_AccountId req, q) = Some x \<Longrightarrow> q_Name x = uq_QueueName req \<Longrightarrow> q_Version x = uq_ExpectedVersion req \<Longrightarrow>
      committed (UpdateQueue P c now req) d (Payload (updated_queue now req x)) (put_queue (updated_queue now req x) C)"
    unfolding UpdateQueue_def by (rule committedI) (simp add: run named Let_def updated_queue_def put_queue_def C)
qed

lemma DeleteQueue_cases:
  assumes g: "good_queues (dabs d)"
  defines "C \<equiv> catalog_of (dabs d)"
  shows "cg_names C (dq_AccountId req, dq_QueueName req) = None \<Longrightarrow> refused (DeleteQueue P c req) d NotFound"
    and "cg_queues C (dq_AccountId req, q) = Some x \<Longrightarrow> q_Name x = dq_QueueName req \<Longrightarrow>
      committed (DeleteQueue P c req) d (Payload (q_Id x)) (remove_queue x C)"
proof -
  have C: "good_catalog C" "wf_queues (dabs d)" using g by (simp_all add: good_queues_def C_def)
  have named: "cg_queues C (a, q) = Some x \<Longrightarrow> q_Name x = n \<Longrightarrow> cg_names C (a, n) = Some q" for a q x n
    using names_iff[OF goodD(2)[OF C(1)], of a n q] by blast
  have ids: "cg_queues C (a, q) = Some x \<Longrightarrow> q_Id x = \<lparr> qid_AccountId = a, qid_QueueId = q \<rparr>" for a q x
    using goodD(1)[OF C(1)] by (simp add: ids_ok_def)
  note n = name_guards_run(2)[of "bs_Update (qc_badgerStore c) d", unfolded opened, folded C_def, OF C(1)]
  note run = go_run catalog_run opened C_def[symmetric] n
  show "cg_names C (dq_AccountId req, dq_QueueName req) = None \<Longrightarrow> refused (DeleteQueue P c req) d NotFound"
    unfolding DeleteQueue_def by (rule refusedI) (simp add: run queueNotFoundError_def)
  show "cg_queues C (dq_AccountId req, q) = Some x \<Longrightarrow> q_Name x = dq_QueueName req \<Longrightarrow>
      committed (DeleteQueue P c req) d (Payload (q_Id x)) (remove_queue x C)"
    unfolding DeleteQueue_def by (rule committedI) (simp add: run named ids Let_def remove_queue_def C)
qed

section \<open>Schedules\<close>

lemma CreateSchedule_cases:
  fixes req :: CreateScheduleRequest
  assumes g: "good_queues (dabs d)"
  defines "C \<equiv> catalog_of (dabs d)" and "a \<equiv> cs_AccountId req" and "t \<equiv> cs_ScheduleId req"
  shows "cg_names C (a, cs_QueueName req) = None \<Longrightarrow> refused (CreateSchedule cron P c now req) d NotFound"
    and "cg_queues C (a, q) = Some x \<Longrightarrow> q_Name x = cs_QueueName req \<Longrightarrow> cg_schedules C (a, q, t) = Some y \<Longrightarrow>
      refused (CreateSchedule cron P c now req) d IDCollision"
    and "cg_queues C (a, q) = Some x \<Longrightarrow> q_Name x = cs_QueueName req \<Longrightarrow> cg_schedules C (a, q, t) = None \<Longrightarrow>
      cs_MaxNumberOfSchedulesPerQueue req \<le> q_SchedulesCount x \<Longrightarrow> refused (CreateSchedule cron P c now req) d ResourceExhausted"
    and "cg_queues C (a, q) = Some x \<Longrightarrow> q_Name x = cs_QueueName req \<Longrightarrow> cg_schedules C (a, q, t) = None \<Longrightarrow>
      q_SchedulesCount x < cs_MaxNumberOfSchedulesPerQueue req \<Longrightarrow> cg_snames C (a, q, cs_ScheduleName req) = Some t' \<Longrightarrow>
      refused (CreateSchedule cron P c now req) d AlreadyExists"
    and "cg_queues C (a, q) = Some x \<Longrightarrow> q_Name x = cs_QueueName req \<Longrightarrow> cg_schedules C (a, q, t) = None \<Longrightarrow>
      q_SchedulesCount x < cs_MaxNumberOfSchedulesPerQueue req \<Longrightarrow> cg_snames C (a, q, cs_ScheduleName req) = None \<Longrightarrow>
      tick_of cron (cs_Timezone req) (cs_Cron req) now = Inr tick \<Longrightarrow>
      committed (CreateSchedule cron P c now req) d (Payload (new_schedule now req q tick))
        (count_schedules (a, q) 1 (add_schedule (new_schedule now req q tick) C))"
proof -
  have C: "good_catalog C" "wf_queues (dabs d)" using g by (simp_all add: good_queues_def C_def)
  have named: "cg_queues C (a, q) = Some x \<Longrightarrow> q_Name x = n \<Longrightarrow> cg_names C (a, n) = Some q" for a q x n
    using names_iff[OF goodD(2)[OF C(1)], of a n q] by blast
  have ids: "cg_queues C (a, q) = Some x \<Longrightarrow> q_Id x = \<lparr> qid_AccountId = a, qid_QueueId = q \<rparr>" for a q x
    using goodD(1)[OF C(1)] by (simp add: ids_ok_def)
  note n = name_guards_run(2,3)[of "bs_Update (qc_badgerStore c) d", unfolded opened, folded C_def, OF C(1)]
  note run = go_run catalog_run opened C_def[symmetric] a_def[symmetric] t_def[symmetric] n guards_run next_tick_run named ids Let_def
  show "cg_names C (a, cs_QueueName req) = None \<Longrightarrow> refused (CreateSchedule cron P c now req) d NotFound"
    unfolding CreateSchedule_def by (rule refusedI) (simp add: run queueNotFoundError_def)
  show "cg_queues C (a, q) = Some x \<Longrightarrow> q_Name x = cs_QueueName req \<Longrightarrow> cg_schedules C (a, q, t) = Some y \<Longrightarrow>
      refused (CreateSchedule cron P c now req) d IDCollision"
    unfolding CreateSchedule_def by (rule refusedI) (simp add: run)
  show "cg_queues C (a, q) = Some x \<Longrightarrow> q_Name x = cs_QueueName req \<Longrightarrow> cg_schedules C (a, q, t) = None \<Longrightarrow>
      cs_MaxNumberOfSchedulesPerQueue req \<le> q_SchedulesCount x \<Longrightarrow> refused (CreateSchedule cron P c now req) d ResourceExhausted"
    unfolding CreateSchedule_def by (rule refusedI) (simp add: run)
  show "cg_queues C (a, q) = Some x \<Longrightarrow> q_Name x = cs_QueueName req \<Longrightarrow> cg_schedules C (a, q, t) = None \<Longrightarrow>
      q_SchedulesCount x < cs_MaxNumberOfSchedulesPerQueue req \<Longrightarrow> cg_snames C (a, q, cs_ScheduleName req) = Some t' \<Longrightarrow>
      refused (CreateSchedule cron P c now req) d AlreadyExists"
    unfolding CreateSchedule_def by (rule refusedI) (simp add: run)
  show "cg_queues C (a, q) = Some x \<Longrightarrow> q_Name x = cs_QueueName req \<Longrightarrow> cg_schedules C (a, q, t) = None \<Longrightarrow>
      q_SchedulesCount x < cs_MaxNumberOfSchedulesPerQueue req \<Longrightarrow> cg_snames C (a, q, cs_ScheduleName req) = None \<Longrightarrow>
      tick_of cron (cs_Timezone req) (cs_Cron req) now = Inr tick \<Longrightarrow>
      committed (CreateSchedule cron P c now req) d (Payload (new_schedule now req q tick))
        (count_schedules (a, q) 1 (add_schedule (new_schedule now req q tick) C))"
    unfolding CreateSchedule_def
    by (rule committedI) (simp add: run new_schedule_def count_schedules_def add_schedule_def C)
qed

text \<open>The schedule with a given name of the queue with a given name.\<close>

lemma found_schedule:
  fixes n m :: string
  assumes g: "good_queues (dabs d)"
  defines "C \<equiv> catalog_of (dabs d)"
  assumes "cg_queues C (a, q) = Some x" "q_Name x = n" "cg_schedules C (a, q, t) = Some y" "sch_Name y = m"
  shows "cg_names C (a, n) = Some q" "cg_snames C (a, q, m) = Some t" "q_Id x = \<lparr> qid_AccountId = a, qid_QueueId = q \<rparr>"
    "sch_Id y = \<lparr> sid_AccountId = a, sid_QueueId = q, sid_ScheduleId = t \<rparr>"
proof -
  have C: "good_catalog C" using g by (simp add: good_queues_def C_def)
  show "cg_names C (a, n) = Some q" using names_iff[OF goodD(2)[OF C]] assms(3,4) by blast
  show "cg_snames C (a, q, m) = Some t" using snames_iff[OF goodD(3)[OF C]] assms(5,6) by blast
  show "q_Id x = \<lparr> qid_AccountId = a, qid_QueueId = q \<rparr>" "sch_Id y = \<lparr> sid_AccountId = a, sid_QueueId = q, sid_ScheduleId = t \<rparr>"
    using goodD(1)[OF C] assms(3,5) by (simp_all add: ids_ok_def)
qed

lemma UpdateSchedule_cases:
  fixes req :: UpdateScheduleRequest
  assumes g: "good_queues (dabs d)"
  defines "C \<equiv> catalog_of (dabs d)" and "a \<equiv> us_AccountId req"
  assumes x: "cg_queues C (a, q) = Some x" "q_Name x = us_QueueName req"
    and y: "cg_schedules C (a, q, t) = Some y" "sch_Name y = us_ScheduleName req"
  shows "sch_Version y \<noteq> us_ExpectedVersion req \<Longrightarrow> refused (UpdateSchedule cron P c now req) d InvalidRequest"
    and "sch_Version y = us_ExpectedVersion req \<Longrightarrow> tick_of cron (us_Timezone req) (us_Cron req) now = Inr tick \<Longrightarrow>
      committed (UpdateSchedule cron P c now req) d (Payload (updated_schedule now req tick y))
        (put_schedule (updated_schedule now req tick y) (sch_NextScheduledAt y) C)"
proof -
  have C: "good_catalog C" "wf_queues (dabs d)" using g by (simp_all add: good_queues_def C_def)
  note f = found_schedule[OF g, folded C_def, OF x y]
  note n = name_guards_run(2,4)[of "bs_Update (qc_badgerStore c) d", unfolded opened, folded C_def, OF C(1)]
  note run = go_run catalog_run opened C_def[symmetric] a_def[symmetric] n next_tick_run f x y Let_def
  show "sch_Version y \<noteq> us_ExpectedVersion req \<Longrightarrow> refused (UpdateSchedule cron P c now req) d InvalidRequest"
    unfolding UpdateSchedule_def by (rule refusedI) (simp add: run)
  show "sch_Version y = us_ExpectedVersion req \<Longrightarrow> tick_of cron (us_Timezone req) (us_Cron req) now = Inr tick \<Longrightarrow>
      committed (UpdateSchedule cron P c now req) d (Payload (updated_schedule now req tick y))
        (put_schedule (updated_schedule now req tick y) (sch_NextScheduledAt y) C)"
    unfolding UpdateSchedule_def by (rule committedI) (simp add: run updated_schedule_def put_schedule_def C)
qed

lemma DeleteSchedule_ok:
  fixes req :: DeleteScheduleRequest
  assumes g: "good_queues (dabs d)"
  defines "C \<equiv> catalog_of (dabs d)" and "a \<equiv> dsr_AccountId req"
  assumes x: "cg_queues C (a, q) = Some x" "q_Name x = dsr_QueueName req"
    and y: "cg_schedules C (a, q, t) = Some y" "sch_Name y = dsr_ScheduleName req"
  shows "committed (DeleteSchedule P c req) d (Payload ()) (count_schedules (a, q) (- 1) (remove_schedule y C))"
proof -
  have C: "good_catalog C" "wf_queues (dabs d)" using g by (simp_all add: good_queues_def C_def)
  note f = found_schedule[OF g, folded C_def, OF x y]
  note n = name_guards_run(2,4)[of "bs_Update (qc_badgerStore c) d", unfolded opened, folded C_def, OF C(1)]
  note run = go_run catalog_run opened C_def[symmetric] a_def[symmetric] n f x y Let_def
  show ?thesis
    unfolding DeleteSchedule_def by (rule committedI) (simp add: run count_schedules_def remove_schedule_def C)
qed

lemma ReportSchedulesStatus_cases:
  fixes i :: ScheduleId
  assumes g: "good_queues (dabs d)" and i: "rss_ScheduleId req = Some i"
  defines "C \<equiv> catalog_of (dabs d)" and "k \<equiv> (sid_AccountId i, sid_QueueId i, sid_ScheduleId i)"
  shows "cg_schedules C k = None \<Longrightarrow> refused (ReportSchedulesStatus P c now req) d NotFound"
    and "cg_schedules C k = Some y \<Longrightarrow>
      committed (ReportSchedulesStatus P c now req) d (Payload ()) (put_schedule (reported_schedule now req y) (sch_NextScheduledAt y) C)"
proof -
  have C: "good_catalog C" "wf_queues (dabs d)" using g by (simp_all add: good_queues_def C_def)
  have ids: "cg_schedules C k = Some y \<Longrightarrow> sch_Id y = i" for y using goodD(1)[OF C(1)] by (simp add: ids_ok_def k_def)
  note run = go_run catalog_run opened C_def[symmetric] guards_run i Let_def
  show "cg_schedules C k = None \<Longrightarrow> refused (ReportSchedulesStatus P c now req) d NotFound"
    unfolding ReportSchedulesStatus_def by (rule refusedI) (simp add: run k_def)
  assume y: "cg_schedules C k = Some y"
  let ?y = "reported_schedule now req y"
  have y': "sch_Id ?y = i" "cg_schedules C (sid_AccountId i, sid_QueueId i, sid_ScheduleId i) = Some y"
    using y ids by (simp_all add: reported_schedule_def k_def Let_def)
  show "committed (ReportSchedulesStatus P c now req) d (Payload ()) (put_schedule ?y (sch_NextScheduledAt y) C)"
    unfolding ReportSchedulesStatus_def
    by (rule committedI) (simp add: run y' put_schedule_def C flip: reported_schedule_def[unfolded Let_def])
qed

end

end
