(* ===== verification/Queues_Sweeps.thy ===== *)
theory Queues_Sweeps
  imports Queues_Handlers
begin

text \<open>
  The reads of the queues core, the listing of due schedules and the garbage
  collection of the schedules of deleted queues.
\<close>

section \<open>Due schedules\<close>

definition due_refs_until :: "catalog \<Rightarrow> int \<Rightarrow> (uint64 \<times> sref) list" where
  "due_refs_until C before = filter (\<lambda>(w, _). w \<le> tw before) (sorted_list_of_set (cg_due C))"

definition due_schedules :: "catalog \<Rightarrow> int \<Rightarrow> Schedule list" where
  "due_schedules C before = map (\<lambda>(_, k). the (cg_schedules C k)) (due_refs_until C before)"

definition with_queue :: "catalog \<Rightarrow> Schedule \<Rightarrow> DequeSchedulesResponseEntry" where
  "with_queue C y = \<lparr> dse_Schedule = y, dse_Queue = the (cg_queues C (sch_acc y, sch_que y)) \<rparr>"

lemma due_schedules_set:
  assumes "good_catalog C" "finite (cg_due C)"
  shows "set (due_schedules C before) = {y. \<exists>k. cg_schedules C k = Some y \<and> tw (sch_NextScheduledAt y) \<le> tw before}"
proof (intro equalityI subsetI)
  fix y assume "y \<in> set (due_schedules C before)"
  then obtain w a q t where e: "(w, a, q, t) \<in> cg_due C" "w \<le> tw before" "y = the (cg_schedules C (a, q, t))"
    using assms(2) by (auto simp: due_schedules_def due_refs_until_def)
  then obtain z where "cg_schedules C (a, q, t) = Some z" "w = tw (sch_NextScheduledAt z)"
    using goodD(4)[OF assms(1)] unfolding due_ok_def by blast
  then show "y \<in> {y. \<exists>k. cg_schedules C k = Some y \<and> tw (sch_NextScheduledAt y) \<le> tw before}" using e by auto
next
  fix y assume "y \<in> {y. \<exists>k. cg_schedules C k = Some y \<and> tw (sch_NextScheduledAt y) \<le> tw before}"
  then obtain a q t where y: "cg_schedules C (a, q, t) = Some y" "tw (sch_NextScheduledAt y) \<le> tw before" by auto
  then have "(tw (sch_NextScheduledAt y), a, q, t) \<in> cg_due C" using goodD(4)[OF assms(1)] unfolding due_ok_def by blast
  then have "(tw (sch_NextScheduledAt y), a, q, t) \<in> set (due_refs_until C before)" using y assms(2) by (simp add: due_refs_until_def)
  then show "y \<in> set (due_schedules C before)"
    unfolding due_schedules_def set_map by (rule rev_image_eqI) (simp add: y(1))
qed

context queues_store
begin

lemma scan_due:
  assumes "good_catalog (K s)" "set es \<subseteq> cg_due (K s)" "int (length acc) < limit"
  shows "go_scan (schedules_ListDue_callback P (qc_schedules c) limit) (map (\<lambda>(w, a, q, t). ekey w a q t) es) acc s =
    Inr (acc @ map (\<lambda>(_, k). the (cg_schedules (K s) k)) (take (nat limit - length acc) es), s)"
  using assms(2,3)
proof (induction es arbitrary: acc)
  case Nil
  then show ?case by (simp add: go_run)
next
  case (Cons e es)
  obtain w a q t where e: "e = (w, a, q, t)" by (cases e) auto
  then obtain y where y: "cg_schedules (K s) (a, q, t) = Some y"
    using Cons.prems(1) goodD(4)[OF assms(1)] unfolding due_ok_def by auto
  have step: "schedules_ListDue_callback P (qc_schedules c) limit (ekey w a q t) acc s =
      Inr ((int (length acc) + 1 < limit, acc @ [y]), s)"
    using y by (simp add: schedules_ListDue_callback_def ekey_slices BytesToUint64_be go_run catalog_run Let_def add.commute)
  show ?case
  proof (cases "int (length acc) + 1 < limit")
    case True
    then have "nat limit - length acc = Suc (nat limit - Suc (length acc))" by linarith
    then show ?thesis using Cons.IH[of "acc @ [y]"] Cons.prems(1) True by (simp add: e y step go_run)
  next
    case False
    then have "nat limit - length acc = Suc 0" using Cons.prems(2) by linarith
    then show ?thesis using False by (simp add: e y step go_run)
  qed
qed

lemma ListDue_run:
  assumes "good_catalog (K s)" "W s" "0 < limit"
  shows "schedulesTable_ListDue P (qc_schedules c) before limit s = Inr (take (nat limit) (due_schedules (K s) before), s)"
proof -
  have "si_ListInRange (sct_scheduledIndex (qc_schedules c)) (be64 0) (be64 (tw before)) s =
      Inr (map (\<lambda>(w, a, q, t). ekey w a q t) (due_refs_until (K s) before), s)"
    using due_range_run(1)[OF assms(2), of 0 "tw before"] by (simp add: due_refs_until_def)
  moreover have "set (due_refs_until (K s) before) \<subseteq> cg_due (K s)"
    using due_range_run(2)[OF assms(2)] by (auto simp: due_refs_until_def)
  ultimately show ?thesis
    using scan_due[OF assms(1), of "due_refs_until (K s) before" "[]" limit] assms(3)
    by (simp add: schedulesTable_ListDue_def catalog_keys go_run due_schedules_def take_map tw_def)
qed

lemma entries_run:
  "go_for (\<lambda>schedule entries.
      go_bind (queuesTable_Get P (qc_queues c) \<lparr> qid_AccountId = sch_acc schedule, qid_QueueId = sch_que schedule \<rparr>) (\<lambda>queue.
      go_ret (entries @ [\<lparr> dse_Schedule = schedule, dse_Queue = queue \<rparr>]))) ys acc s =
    (if \<exists>y \<in> set ys. cg_queues (K s) (sch_acc y, sch_que y) = None then Inl ErrNotFound else Inr (acc @ map (with_queue (K s)) ys, s))"
  by (induction ys arbitrary: acc) (auto simp: go_run catalog_run with_queue_def split: option.splits)

lemma DequeSchedules_run:
  fixes before :: int
  assumes "good_queues (dabs d)"
  defines "C \<equiv> catalog_of (dabs d)"
  defines "ys \<equiv> take 250 (due_schedules C before)"
  shows "DequeSchedules P c before d = (if \<exists>y \<in> set ys. cg_queues C (sch_acc y, sch_que y) = None then Inl ErrNotFound
    else Inr (Payload (map (with_queue C) ys)), d)"
proof -
  let ?s = "bs_View (qc_badgerStore c) d"
  have s: "good_catalog (K ?s)" "W ?s" "K ?s = C" using assms(1) by (simp_all add: opened good_queues_def C_def)
  have "schedulesTable_ListDue P (qc_schedules c) before maxDequeueSchedules ?s = Inr (ys, ?s)"
    using ListDue_run[OF s(1,2), of maxDequeueSchedules before] by (simp add: maxDequeueSchedules_def ys_def s(3))
  then show ?thesis
    by (simp add: DequeSchedules_def in_view_def go_run entries_run s(3))
qed

end

section \<open>Garbage collection\<close>

definition schedule_key :: "Schedule \<Rightarrow> sref" where
  "schedule_key y = (sch_acc y, sch_que y, sch_sid y)"

definition queue_of_key :: "sref \<Rightarrow> qref" where
  "queue_of_key k = (fst k, fst (snd k))"

text \<open>Between two states of a sweep: queues, names and counters are the same,
  and \<open>n\<close> schedules, all of deleted queues, are gone.\<close>

definition collected :: "catalog \<Rightarrow> catalog \<Rightarrow> nat \<Rightarrow> bool" where
  "collected C0 C n \<longleftrightarrow> cg_queues C = cg_queues C0 \<and> cg_names C = cg_names C0 \<and> cg_counters C = cg_counters C0 \<and>
    cg_gc C \<subseteq>\<^sub>m cg_gc C0 \<and> cg_schedules C \<subseteq>\<^sub>m cg_schedules C0 \<and>
    (\<forall>k \<in> dom (cg_schedules C0) - dom (cg_schedules C). cg_queues C0 (queue_of_key k) = None) \<and>
    card (dom (cg_schedules C0) - dom (cg_schedules C)) = n"

lemma collected_refl: "collected C C 0"
  by (simp add: collected_def)

lemma finite_srefs [simp]: "finite (A :: sref set)"
  by (rule finite_subset[OF subset_UNIV]) simp

lemma collected_trans:
  assumes "collected C0 C1 m" "collected C1 C2 n"
  shows "collected C0 C2 (m + n)"
proof -
  have sub: "dom (cg_schedules C2) \<subseteq> dom (cg_schedules C1)" "dom (cg_schedules C1) \<subseteq> dom (cg_schedules C0)"
    using assms by (auto simp: collected_def dest: map_le_implies_dom_le)
  then have "dom (cg_schedules C0) - dom (cg_schedules C2) =
      (dom (cg_schedules C0) - dom (cg_schedules C1)) \<union> (dom (cg_schedules C1) - dom (cg_schedules C2))" by auto
  moreover have "card ((dom (cg_schedules C0) - dom (cg_schedules C1)) \<union> (dom (cg_schedules C1) - dom (cg_schedules C2))) = m + n"
    using assms by (subst card_Un_disjoint) (auto simp: collected_def)
  ultimately show ?thesis using assms unfolding collected_def by (metis (no_types, lifting) Un_iff map_le_trans)
qed

lemma collected_one:
  assumes "cg_schedules C (schedule_key y) = Some y" "cg_queues C (sch_acc y, sch_que y) = None"
  shows "collected C (remove_schedule y C) 1"
proof -
  have "dom (cg_schedules C) - dom (cg_schedules (remove_schedule y C)) = {schedule_key y}"
    using assms(1) by (auto simp: remove_schedule_def schedule_key_def split: if_splits)
  then show ?thesis using assms(2) by (auto simp: collected_def remove_schedule_def map_le_def queue_of_key_def schedule_key_def)
qed

lemma collected_drop: "collected C (C\<lparr> cg_gc := (cg_gc C)(aq := None) \<rparr>) 0"
  by (auto simp: collected_def map_le_def)

lemma schedules_of_facts:
  assumes "good_catalog C"
  shows "distinct (map schedule_key (schedules_of C aq))"
    "y \<in> set (schedules_of C aq) \<longleftrightarrow> (\<exists>t. cg_schedules C (fst aq, snd aq, t) = Some y)"
    "y \<in> set (schedules_of C aq) \<Longrightarrow> cg_schedules C (schedule_key y) = Some y \<and> queue_of_key (schedule_key y) = aq"
proof -
  let ?T = "{t. cg_schedules C (fst aq, snd aq, t) \<noteq> None}"
  have fin: "finite ?T" by (rule finite_subset[OF subset_UNIV]) simp
  have key: "schedule_key z = (fst aq, snd aq, t)" if "cg_schedules C (fst aq, snd aq, t) = Some z" for t z
    using goodD(1)[OF assms] that by (simp add: ids_ok_def schedule_key_def)
  have "map schedule_key (schedules_of C aq) = map (\<lambda>t. (fst aq, snd aq, t)) (sorted_list_of_set ?T)"
    unfolding schedules_of_def map_map comp_def
  proof (rule map_cong[OF refl])
    fix t assume "t \<in> set (sorted_list_of_set ?T)"
    then have "cg_schedules C (fst aq, snd aq, t) \<noteq> None" using fin by simp
    then show "schedule_key (the (cg_schedules C (fst aq, snd aq, t))) = (fst aq, snd aq, t)" using key by auto
  qed
  then show "distinct (map schedule_key (schedules_of C aq))" by (simp add: distinct_map inj_on_def)
  show mem: "y \<in> set (schedules_of C aq) \<longleftrightarrow> (\<exists>t. cg_schedules C (fst aq, snd aq, t) = Some y)" for y
    using fin by (force simp: schedules_of_def)
  show "y \<in> set (schedules_of C aq) \<Longrightarrow> cg_schedules C (schedule_key y) = Some y \<and> queue_of_key (schedule_key y) = aq"
    using key by (auto simp: mem queue_of_key_def)
qed

lemma collected_gone: "collected C0 C n \<Longrightarrow> cg_schedules C0 x = None \<Longrightarrow> cg_schedules C x = None"
  unfolding collected_def by (metis domIff map_le_implies_dom_le subsetD)

lemma schedules_of_cong:
  assumes "\<And>x. queue_of_key x \<noteq> aq \<Longrightarrow> cg_schedules C' x = cg_schedules C x" "aq' \<noteq> aq"
  shows "schedules_of C' aq' = schedules_of C aq'"
proof -
  have "cg_schedules C' (fst aq', snd aq', t) = cg_schedules C (fst aq', snd aq', t)" for t
    using assms by (simp add: queue_of_key_def)
  then show ?thesis by (simp add: schedules_of_def)
qed

lemma orDefault_pos: "0 < dflt \<Longrightarrow> 0 < orDefault x dflt"
  by (simp add: orDefault_def)

context queues_store
begin

lemma gc_page_scan:
  assumes "good_catalog (K s)" "W s" "v < maxV" "distinct (map schedule_key ys)"
    and "\<And>y. y \<in> set ys \<Longrightarrow> cg_schedules (K s) (schedule_key y) = Some y \<and> cg_queues (K s) (sch_acc y, sch_que y) = None"
  shows "\<exists>s' k. queues_gc_page P c maxV ys v s = Inr ((v + int k, maxV \<le> v + int k), s') \<and> W s' \<and> good_catalog (K s') \<and>
    k = min (length ys) (nat (maxV - v)) \<and> collected (K s) (K s') k \<and> cg_gc (K s') = cg_gc (K s) \<and>
    cg_schedules (K s') = (cg_schedules (K s)) |` (- set (map schedule_key (take k ys)))"
  using assms
proof (induction ys arbitrary: s v)
  case Nil
  then show ?case
    by (intro exI[of _ s] exI[of _ "0 :: nat"]) (auto simp: queues_gc_page_def go_run collected_refl)
next
  case (Cons y ys)
  have y: "cg_schedules (K s) (schedule_key y) = Some y" "cg_queues (K s) (sch_acc y, sch_que y) = None" using Cons.prems(5)[of y] by simp_all
  let ?d = "schedulesTable_Delete P (qc_schedules c) y" and ?C = "remove_schedule y (K s)"
  have id: "sch_Id y = \<lparr> sid_AccountId = sch_acc y, sid_QueueId = sch_que y, sid_ScheduleId = sch_sid y \<rparr>" by simp
  have y': "cg_schedules (K s) (sch_acc y, sch_que y, sch_sid y) = Some y" using y(1) by (simp add: schedule_key_def)
  have nm: "cg_snames (K s) (sch_acc y, sch_que y, sch_Name y) \<noteq> None" using remove_schedule_parts(6)[OF Cons.prems(1) id y'] by simp
  have pre: "cg_schedules (K s) (sch_acc y, sch_que y, sch_sid y) \<noteq> None" using y' by simp
  let ?s = "go_out ?d s"
  have s1: "?d s = Inr ((), ?s)" "K ?s = ?C" "W ?s"
    using schedule_delete[OF pre nm] Cons.prems(2) by (simp_all add: remove_schedule_def)
  have g1: "good_catalog (K ?s)" unfolding s1(2) by (rule collect_schedule_good[OF Cons.prems(1) id y' y(2)])
  have c1: "collected (K s) (K ?s) 1" unfolding s1(2) by (rule collected_one[OF y])
  have sc: "cg_schedules (K ?s) = (cg_schedules (K s)) |` (- {schedule_key y})" "cg_gc (K ?s) = cg_gc (K s)" "cg_queues (K ?s) = cg_queues (K s)"
    unfolding s1(2) by (auto simp: remove_schedule_def schedule_key_def restrict_map_def fun_eq_iff)
  show ?case
  proof (cases "maxV \<le> v + 1")
    case True
    then have "nat (maxV - v) = 1" using Cons.prems(3) by linarith
    then show ?thesis using True s1 g1 c1 sc
      by (intro exI[of _ ?s] exI[of _ "1 :: nat"]) (auto simp: queues_gc_page_def go_run Let_def)
  next
    case False
    have keys: "z \<in> set ys \<Longrightarrow> cg_schedules (K ?s) (schedule_key z) = Some z \<and> cg_queues (K ?s) (sch_acc z, sch_que z) = None" for z
    proof
      assume z: "z \<in> set ys"
      have "schedule_key z \<noteq> schedule_key y" using Cons.prems(4) z by (metis distinct.simps(2) image_eqI list.simps(9) set_map)
      then show "cg_schedules (K ?s) (schedule_key z) = Some z" using Cons.prems(5)[of z] z sc(1) by simp
      show "cg_queues (K ?s) (sch_acc z, sch_que z) = None" using Cons.prems(5)[of z] z sc(3) by simp
    qed
    obtain s' k where IH: "queues_gc_page P c maxV ys (v + 1) ?s = Inr ((v + 1 + int k, maxV \<le> v + 1 + int k), s')" "W s'" "good_catalog (K s')"
      "k = min (length ys) (nat (maxV - (v + 1)))" "collected (K ?s) (K s') k" "cg_gc (K s') = cg_gc (K ?s)"
      "cg_schedules (K s') = (cg_schedules (K ?s)) |` (- set (map schedule_key (take k ys)))"
      using Cons.IH[of ?s "v + 1", OF g1 s1(3)] False Cons.prems(4) keys by fastforce
    have shift: "v + 1 + int k = v + int (Suc k)" by simp
    have "queues_gc_page P c maxV (y # ys) v s = queues_gc_page P c maxV ys (v + 1) ?s"
      using False s1(1) by (simp add: queues_gc_page_def go_run Let_def)
    then have "queues_gc_page P c maxV (y # ys) v s = Inr ((v + int (Suc k), maxV \<le> v + int (Suc k)), s')"
      unfolding IH(1) shift .
    moreover have "Suc k = min (length (y # ys)) (nat (maxV - v))" using IH(4) False by simp
    moreover have "cg_schedules (K s') = (cg_schedules (K s)) |` (- set (map schedule_key (take (Suc k) (y # ys))))"
      unfolding IH(7) sc(1) by (auto simp: restrict_map_def fun_eq_iff)
    moreover have "collected (K s) (K s') (Suc k)" using collected_trans[OF c1 IH(5)] by simp
    moreover have "cg_gc (K s') = cg_gc (K s)" unfolding IH(6) sc(2) ..
    ultimately show ?thesis using IH(2,3) by blast
  qed
qed

lemma gc_record_run:
  assumes "good_catalog (K s)" "W s" "v < maxV" "0 < n" "cg_gc (K s) aq = Some r"
  shows "\<exists>s' k. queues_gc_record P c n maxV r v s = Inr ((v + int k < maxV, v + int k), s') \<and> W s' \<and> good_catalog (K s') \<and>
    collected (K s) (K s') k \<and> v + int k \<le> maxV \<and> (\<forall>aq'. aq' \<noteq> aq \<longrightarrow> cg_gc (K s') aq' = cg_gc (K s) aq') \<and>
    (\<forall>x. queue_of_key x \<noteq> aq \<longrightarrow> cg_schedules (K s') x = cg_schedules (K s) x) \<and>
    (v + int k < maxV \<and> length (schedules_of (K s) aq) \<le> nat n \<longrightarrow> (\<forall>x. queue_of_key x = aq \<longrightarrow> cg_schedules (K s') x = None))"
proof -
  have r: "qgc_QueueId r = \<lparr> qid_AccountId = fst aq, qid_QueueId = snd aq \<rparr>" using goodD(1)[OF assms(1)] assms(5) by (cases aq) (simp add: ids_ok_def)
  have dead: "cg_queues (K s) aq = None" using goodD(6)[OF assms(1)] assms(5) unfolding gc_ok_def by (metis option.distinct(1))
  let ?R = "schedules_of (K s) aq" and ?ys = "take (nat n) (schedules_of (K s) aq)"
  obtain pg where pg: "schedulesTable_List P (qc_schedules c) (qgc_QueueId r) None n s = Inr (pg, s)" "lsr_Schedules pg = ?ys"
    "nat n < length ?R \<longrightarrow> lsr_NextPaginationToken pg \<noteq> None"
    using schedule_page_run[OF assms(2,4), of "qgc_QueueId r"] by (auto simp: r)
  note f = schedules_of_facts[OF assms(1), where aq = aq]
  have ys: "distinct (map schedule_key ?ys)" using f(1) by (simp add: take_map[symmetric])
  have rows: "y \<in> set ?ys \<Longrightarrow> cg_schedules (K s) (schedule_key y) = Some y \<and> cg_queues (K s) (sch_acc y, sch_que y) = None" for y
    using f(3)[of y] dead by (auto dest!: in_set_takeD simp: queue_of_key_def schedule_key_def)
  obtain s1 k where p: "queues_gc_page P c maxV ?ys v s = Inr ((v + int k, maxV \<le> v + int k), s1)" "W s1" "good_catalog (K s1)"
    "k = min (length ?ys) (nat (maxV - v))" "collected (K s) (K s1) k" "cg_gc (K s1) = cg_gc (K s)"
    "cg_schedules (K s1) = (cg_schedules (K s)) |` (- set (map schedule_key (take k ?ys)))"
    using gc_page_scan[OF assms(1-3) ys rows] by blast
  have other: "queue_of_key x \<noteq> aq \<Longrightarrow> cg_schedules (K s1) x = cg_schedules (K s) x" for x
    using f(3) unfolding p(7) by (auto simp: restrict_map_def dest!: in_set_takeD)
  have le: "v + int k \<le> maxV" using p(4) assms(3) by linarith
  have gone: "cg_schedules (K s1) x = None" if "v + int k < maxV" "length ?R \<le> nat n" "queue_of_key x = aq" for x
  proof (cases "cg_schedules (K s) x")
    case (Some y)
    have all: "take k ?ys = ?R" using that(1,2) p(4) by simp
    have "x = (fst aq, snd aq, snd (snd x))" using that(3) by (cases x) (auto simp: queue_of_key_def)
    then have y: "y \<in> set ?R" using Some unfolding f(2) by metis
    then have "schedule_key y = x" using Some goodD(1)[OF assms(1)] by (cases x) (simp add: ids_ok_def schedule_key_def)
    then show ?thesis using y unfolding p(7) all by (auto simp: restrict_map_def)
  qed (simp add: p(7) restrict_map_def)
  show ?thesis
  proof (cases "maxV \<le> v + int k \<or> lsr_NextPaginationToken pg \<noteq> None")
    case True
    then have "queues_gc_record P c n maxV r v s = Inr ((v + int k < maxV, v + int k), s1)"
      using pg(1,2) p(1) by (auto simp: queues_gc_record_def go_run go_when_def)
    then show ?thesis using p(2,3,5,6) other le gone by (intro exI[of _ s1] exI[of _ k]) auto
  next
    case False
    then have room: "v + int k < maxV" "length ?R \<le> nat n" using pg(3) by auto
    let ?d = "gcRecordsTable_Delete P (qc_gcRecords c) r"
    have pre: "cg_gc (K s1) (qid_AccountId (qgc_QueueId r), qid_QueueId (qgc_QueueId r)) \<noteq> None" using assms(5) p(6) r by simp
    note d = gc_delete[OF pre]
    have K2: "K (go_out ?d s1) = (K s1)\<lparr> cg_gc := (cg_gc (K s1))(aq := None) \<rparr>" using d(2) r by simp
    have run: "queues_gc_record P c n maxV r v s = Inr ((v + int k < maxV, v + int k), go_out ?d s1)"
      using pg(1,2) p(1) d(1) room False by (simp add: queues_gc_record_def go_run go_when_def)
    have good: "good_catalog (K (go_out ?d s1))"
      unfolding K2 by (rule drop_record_good[OF p(3)]) (use gone[OF room] in \<open>simp add: queue_of_key_def\<close>)
    have coll: "collected (K s) (K (go_out ?d s1)) k" using collected_trans[OF p(5) collected_drop[of "K s1" aq]] K2 by simp
    show ?thesis
      by (intro exI[of _ "go_out ?d s1"] exI[of _ k]) (use run good coll le d(3) p(2,6) other gone[OF room] in \<open>simp add: K2\<close>)
  qed
qed

text \<open>The loop over the records: it stops at the visit budget, and short of it
  every visited queue whose schedules fit one page is emptied.\<close>

lemma gc_records_run:
  assumes "good_catalog (K s)" "W s" "v < maxV" "0 < n" "distinct aqs" "\<And>aq. aq \<in> set aqs \<Longrightarrow> cg_gc (K s) aq \<noteq> None"
  shows "\<exists>s' k. go_scan (queues_gc_record P c n maxV) (map (\<lambda>aq. the (cg_gc (K s) aq)) aqs) v s = Inr (v + int k, s') \<and>
    W s' \<and> good_catalog (K s') \<and> collected (K s) (K s') k \<and> v + int k \<le> maxV \<and>
    (v + int k < maxV \<longrightarrow> (\<forall>x. queue_of_key x \<in> set aqs \<and> length (schedules_of (K s) (queue_of_key x)) \<le> nat n \<longrightarrow> cg_schedules (K s') x = None))"
  using assms
proof (induction aqs arbitrary: s v)
  case Nil
  then show ?case
    by (intro exI[of _ s] exI[of _ "0 :: nat"]) (auto simp: go_run collected_refl)
next
  case (Cons aq aqs)
  obtain r where r: "cg_gc (K s) aq = Some r" using Cons.prems(6)[of aq] by auto
  obtain s1 k where h: "queues_gc_record P c n maxV r v s = Inr ((v + int k < maxV, v + int k), s1)" "W s1" "good_catalog (K s1)"
    "collected (K s) (K s1) k" "v + int k \<le> maxV" "\<And>aq'. aq' \<noteq> aq \<Longrightarrow> cg_gc (K s1) aq' = cg_gc (K s) aq'"
    "\<And>x. queue_of_key x \<noteq> aq \<Longrightarrow> cg_schedules (K s1) x = cg_schedules (K s) x"
    "\<And>x. v + int k < maxV \<Longrightarrow> length (schedules_of (K s) aq) \<le> nat n \<Longrightarrow> queue_of_key x = aq \<Longrightarrow> cg_schedules (K s1) x = None"
    using gc_record_run[OF Cons.prems(1-4) r] by blast
  show ?case
  proof (cases "v + int k < maxV")
    case False
    then have "go_scan (queues_gc_record P c n maxV) (map (\<lambda>aq. the (cg_gc (K s) aq)) (aq # aqs)) v s = Inr (v + int k, s1)"
      using h(1) by (simp add: r go_run)
    then show ?thesis using h(2-5) False by blast
  next
    case True
    have ne: "aq' \<noteq> aq" if "aq' \<in> set aqs" for aq' using that Cons.prems(5) by auto
    have recs: "map (\<lambda>aq. the (cg_gc (K s) aq)) aqs = map (\<lambda>aq. the (cg_gc (K s1) aq)) aqs"
      using h(6) ne by (auto intro: map_cong)
    have pend: "cg_gc (K s1) aq' \<noteq> None" if "aq' \<in> set aqs" for aq' using Cons.prems(6)[of aq'] h(6) ne[OF that] that by simp
    have dist: "distinct aqs" using Cons.prems(5) by simp
    obtain s2 j where t: "go_scan (queues_gc_record P c n maxV) (map (\<lambda>aq. the (cg_gc (K s1) aq)) aqs) (v + int k) s1 = Inr (v + int k + int j, s2)"
      "W s2" "good_catalog (K s2)" "collected (K s1) (K s2) j" "v + int k + int j \<le> maxV"
      "\<And>x. v + int k + int j < maxV \<Longrightarrow> queue_of_key x \<in> set aqs \<Longrightarrow> length (schedules_of (K s1) (queue_of_key x)) \<le> nat n \<Longrightarrow> cg_schedules (K s2) x = None"
      using Cons.IH[OF h(3,2) True Cons.prems(4) dist pend] by blast
    have sum: "v + int k + int j = v + int (k + j)" by simp
    have "go_scan (queues_gc_record P c n maxV) (map (\<lambda>aq. the (cg_gc (K s) aq)) (aq # aqs)) v s = Inr (v + int (k + j), s2)"
      using h(1) t(1) True unfolding sum by (simp add: r go_run recs)
    moreover have "cg_schedules (K s2) x = None"
      if "v + int (k + j) < maxV" "queue_of_key x \<in> set (aq # aqs)" "length (schedules_of (K s) (queue_of_key x)) \<le> nat n" for x
    proof (cases "queue_of_key x = aq")
      case True
      then show ?thesis using h(8)[of x] collected_gone[OF t(4)] that(1,3) by simp
    next
      case False
      then show ?thesis using t(6)[of x] that schedules_of_cong[OF h(7) False] by simp
    qed
    ultimately show ?thesis using t(2,3) collected_trans[OF h(4) t(4)] t(5) unfolding sum by blast
  qed
qed

lemma RunQueuesGarbageCollection_run:
  fixes req :: RunQueuesGarbageCollectionRequest
  assumes g: "good_queues (dabs d)"
  defines "C \<equiv> catalog_of (dabs d)"
    and "records \<equiv> nat (orDefault (rqgc_GcRecordsPageSize req) defaultGCRecordsPageSize)"
    and "page \<equiv> nat (orDefault (rqgc_GcRecordSchedulesPageSize req) defaultGCRecordSchedulesPageSize)"
    and "budget \<equiv> orDefault (rqgc_MaxVisitedSchedules req) defaultGCMaxVisitedSchedules"
  shows "\<exists>d' k. RunQueuesGarbageCollection P c req d = (Inr (Payload ()), d') \<and> good_queues (dabs d') \<and>
    collected C (catalog_of (dabs d')) k \<and> int k \<le> budget \<and>
    (int k < budget \<longrightarrow> (\<forall>x. queue_of_key x \<in> set (take records (gc_refs C)) \<and> length (schedules_of C (queue_of_key x)) \<le> page \<longrightarrow>
      cg_schedules (catalog_of (dabs d')) x = None))"
proof -
  let ?s = "bs_Update (qc_badgerStore c) d"
  let ?n = "orDefault (rqgc_GcRecordSchedulesPageSize req) defaultGCRecordSchedulesPageSize"
  let ?m = "orDefault (rqgc_GcRecordsPageSize req) defaultGCRecordsPageSize"
  have s: "good_catalog (K ?s)" "W ?s" "K ?s = C" using g by (simp_all add: opened good_queues_def C_def)
  have pos: "0 < ?m" "0 < ?n" "0 < budget"
    by (simp_all add: orDefault_pos budget_def defaultGCRecordsPageSize_def defaultGCRecordSchedulesPageSize_def defaultGCMaxVisitedSchedules_def)
  note page = gc_page_run[OF s(2) pos(1)]
  let ?aqs = "take (nat ?m) (gc_refs (K ?s))"
  have aqs: "distinct ?aqs" by (simp add: gc_refs_def)
  have pend: "cg_gc (K ?s) aq \<noteq> None" if "aq \<in> set ?aqs" for aq
    using in_set_takeD[OF that] page(2) by (simp add: gc_refs_def)
  obtain s' k where r: "go_scan (queues_gc_record P c ?n budget) (map (\<lambda>aq. the (cg_gc (K ?s) aq)) ?aqs) 0 ?s = Inr (0 + int k, s')"
    "W s'" "good_catalog (K s')" "collected (K ?s) (K s') k" "0 + int k \<le> budget"
    "0 + int k < budget \<longrightarrow> (\<forall>x. queue_of_key x \<in> set ?aqs \<and> length (schedules_of (K ?s) (queue_of_key x)) \<le> nat ?n \<longrightarrow> cg_schedules (K s') x = None)"
    using gc_records_run[OF s(1,2) pos(3,2) aqs pend] by blast
  have "committed (RunQueuesGarbageCollection P c req) d (Payload ()) (K s')"
    unfolding RunQueuesGarbageCollection_def
    by (rule committedI) (use r(1,2) page(1) in \<open>simp add: go_run Let_def flip: budget_def\<close>)
  then show ?thesis using r(3-6) unfolding s(3) page_def records_def by (auto simp: committed_def good_queues_def)
qed

end

end
