(* ===== verification/Queues_Swap.thy ===== *)
theory Queues_Swap
  imports Queues_Sweeps
begin

text \<open>
  \<open>SwapQueueId\<close>: a queue gets a new id and its schedules follow it.  While
  the schedules move, the rows and their indexes agree but the queue row lags
  behind; the invariant holds again once it is swapped.
\<close>

section \<open>Moving a schedule\<close>

definition moved_to :: "uint64 \<Rightarrow> Schedule \<Rightarrow> Schedule" where
  "moved_to q' y = y\<lparr> sch_Id := \<lparr> sid_AccountId = sch_acc y, sid_QueueId = q', sid_ScheduleId = sch_sid y \<rparr> \<rparr>"

definition move_schedule :: "uint64 \<Rightarrow> Schedule \<Rightarrow> catalog \<Rightarrow> catalog" where
  "move_schedule q' y C = add_schedule (moved_to q' y) (remove_schedule y C)"

definition rows_ok :: "catalog \<Rightarrow> bool" where
  "rows_ok C \<longleftrightarrow> ids_ok C \<and> snames_ok C \<and> due_ok C"

lemma moved_to_simps [simp]: "sch_Name (moved_to q' y) = sch_Name y" "sch_NextScheduledAt (moved_to q' y) = sch_NextScheduledAt y"
  "sch_Id (moved_to q' y) = \<lparr> sid_AccountId = sch_acc y, sid_QueueId = q', sid_ScheduleId = sch_sid y \<rparr>"
  by (simp_all add: moved_to_def)

lemma move_schedule_parts:
  assumes "sch_Id y = \<lparr> sid_AccountId = a, sid_QueueId = q, sid_ScheduleId = t \<rparr>"
  shows "cg_schedules (move_schedule q' y C) = (cg_schedules C)((a, q, t) := None, (a, q', t) \<mapsto> moved_to q' y)"
    "cg_snames (move_schedule q' y C) = (cg_snames C)((a, q, sch_Name y) := None, (a, q', sch_Name y) \<mapsto> t)"
    "cg_due (move_schedule q' y C) = insert (tw (sch_NextScheduledAt y), a, q', t) (cg_due C - {(tw (sch_NextScheduledAt y), a, q, t)})"
    "cg_queues (move_schedule q' y C) = cg_queues C" "cg_names (move_schedule q' y C) = cg_names C"
    "cg_counters (move_schedule q' y C) = cg_counters C" "cg_gc (move_schedule q' y C) = cg_gc C"
  using assms by (simp_all add: move_schedule_def add_schedule_def remove_schedule_def)

lemma same_name_same_id:
  assumes "snames_ok C" "cg_schedules C (a, q, t) = Some y" "cg_schedules C (a, q, t') = Some z" "sch_Name y = sch_Name z"
  shows "t = t'"
  using snames_iff[OF assms(1), of a q "sch_Name z"] assms(2-4) by (metis option.inject)

lemma move_schedule_rows:
  assumes r: "rows_ok C" and y: "sch_Id y = \<lparr> sid_AccountId = a, sid_QueueId = q, sid_ScheduleId = t \<rparr>" "cg_schedules C (a, q, t) = Some y"
    and new: "q' \<noteq> q" "cg_schedules C (a, q', t) = None" "cg_snames C (a, q', sch_Name y) = None"
  shows "rows_ok (move_schedule q' y C)"
proof -
  note p = move_schedule_parts[OF y(1), of q' C]
  have i: "ids_ok C" "snames_ok C" "due_ok C" using r by (simp_all add: rows_ok_def)
  have alone: "cg_schedules C (a, q, t') = Some z \<Longrightarrow> sch_Name z = sch_Name y \<Longrightarrow> t' = t" for t' z
    using same_name_same_id[OF i(2) _ y(2)] by blast
  have free: "cg_schedules C (a, q', t') = Some z \<Longrightarrow> sch_Name z \<noteq> sch_Name y" for t' z using new(3) snames_free[OF i(2)] by blast
  have "ids_ok (move_schedule q' y C)" using i(1) y unfolding ids_ok_def p by auto
  moreover have "snames_ok (move_schedule q' y C)"
    unfolding snames_ok_def p by (auto simp: snames_iff[OF i(2)] y new dest: alone free)
  moreover have "due_ok (move_schedule q' y C)" using i(3) y new unfolding due_ok_def p by auto
  ultimately show ?thesis by (simp add: rows_ok_def)
qed

section \<open>Moving the schedules of a queue\<close>

text \<open>From \<open>C\<close> to \<open>C'\<close> the schedules with ids in \<open>T\<close> move from
  queue \<open>q\<close> to queue \<open>q'\<close>.\<close>

definition moved :: "uint64 \<Rightarrow> uint64 \<Rightarrow> uint64 \<Rightarrow> uint64 set \<Rightarrow> catalog \<Rightarrow> catalog \<Rightarrow> bool" where
  "moved a q q' T C C' \<longleftrightarrow> rows_ok C' \<and> cg_queues C' = cg_queues C \<and> cg_names C' = cg_names C \<and>
    cg_counters C' = cg_counters C \<and> cg_gc C' = cg_gc C \<and>
    cg_schedules C' = (\<lambda>(a', k, t). if a' = a \<and> t \<in> T \<and> k = q then None
      else if a' = a \<and> t \<in> T \<and> k = q' then map_option (moved_to q') (cg_schedules C (a, q, t)) else cg_schedules C (a', k, t))"

lemma moved_refl: "rows_ok C \<Longrightarrow> moved a q q' {} C C"
  by (simp add: moved_def)

lemma moved_step:
  assumes "moved a q q' T (move_schedule q' y C) C'" "sch_Id y = \<lparr> sid_AccountId = a, sid_QueueId = q, sid_ScheduleId = t \<rparr>"
    and "cg_schedules C (a, q, t) = Some y" "t \<notin> T" "q' \<noteq> q"
  shows "moved a q q' (insert t T) C C'"
  using assms unfolding moved_def move_schedule_parts[OF assms(2)] by (auto simp: fun_eq_iff)

context queues_store
begin

lemma swap_schedule_run:
  assumes "rows_ok (K s)" "W s" "sch_Id y = \<lparr> sid_AccountId = a, sid_QueueId = q, sid_ScheduleId = t \<rparr>" "cg_schedules (K s) (a, q, t) = Some y"
  shows "\<exists>s'. swap_schedule P c \<lparr> qid_AccountId = a, qid_QueueId = q' \<rparr> y s = Inr ((), s') \<and> W s' \<and> K s' = move_schedule q' y (K s)"
proof -
  have nm: "cg_snames (K s) (a, q, sch_Name y) = Some t" using assms(1,4) snames_iff unfolding rows_ok_def by blast
  have pre: "cg_schedules (K s) (sch_acc y, sch_que y, sch_sid y) \<noteq> None" "cg_snames (K s) (sch_acc y, sch_que y, sch_Name y) \<noteq> None"
    using assms(3,4) nm by simp_all
  have to: "y\<lparr> sch_Id := \<lparr> sid_AccountId = a, sid_QueueId = q', sid_ScheduleId = t \<rparr> \<rparr> = moved_to q' y" using assms(3) by (simp add: moved_to_def)
  let ?s1 = "go_out (schedulesTable_Delete P (qc_schedules c) y) s"
  let ?s2 = "go_out (schedulesTable_Create P (qc_schedules c) (moved_to q' y)) ?s1"
  have "swap_schedule P c \<lparr> qid_AccountId = a, qid_QueueId = q' \<rparr> y s = Inr ((), ?s2)"
    using schedule_delete(1)[OF pre] schedule_create(1)[of "moved_to q' y" ?s1] assms(3) by (simp add: swap_schedule_def go_run Let_def to)
  moreover have "W ?s2" using schedule_delete(3)[OF pre] schedule_create(3) assms(2) by blast
  moreover have "K ?s2 = move_schedule q' y (K s)"
    unfolding schedule_create(2) schedule_delete(2)[OF pre] move_schedule_def add_schedule_def remove_schedule_def ..
  ultimately show ?thesis by blast
qed

lemma swap_page_run:
  assumes "rows_ok (K s)" "W s" "q' \<noteq> q" "distinct (map sch_sid ys)"
    and "\<And>y. y \<in> set ys \<Longrightarrow> sch_acc y = a \<and> sch_que y = q \<and> cg_schedules (K s) (a, q, sch_sid y) = Some y \<and>
      cg_schedules (K s) (a, q', sch_sid y) = None \<and> cg_snames (K s) (a, q', sch_Name y) = None"
  shows "\<exists>s'. go_for (\<lambda>y _. swap_schedule P c \<lparr> qid_AccountId = a, qid_QueueId = q' \<rparr> y) ys () s = Inr ((), s') \<and> W s' \<and>
    moved a q q' (sch_sid ` set ys) (K s) (K s')"
  using assms
proof (induction ys arbitrary: s)
  case Nil
  then show ?case by (simp add: go_run moved_refl)
next
  case (Cons y ys)
  have y: "sch_acc y = a" "sch_que y = q" "cg_schedules (K s) (a, q, sch_sid y) = Some y" "cg_schedules (K s) (a, q', sch_sid y) = None"
    "cg_snames (K s) (a, q', sch_Name y) = None" using Cons.prems(5)[of y] by simp_all
  then have id: "sch_Id y = \<lparr> sid_AccountId = a, sid_QueueId = q, sid_ScheduleId = sch_sid y \<rparr>" by (metis ScheduleId.surjective unit.exhaust)
  obtain s1 where s1: "swap_schedule P c \<lparr> qid_AccountId = a, qid_QueueId = q' \<rparr> y s = Inr ((), s1)" "W s1" "K s1 = move_schedule q' y (K s)"
    using swap_schedule_run[OF Cons.prems(1,2) id y(3), of q'] by blast
  note p = move_schedule_parts[OF id, of q' "K s", folded s1(3)]
  have r1: "rows_ok (K s1)" unfolding s1(3) by (rule move_schedule_rows[OF Cons.prems(1) id y(3) Cons.prems(3) y(4,5)])
  have rest: "sch_acc z = a \<and> sch_que z = q \<and> cg_schedules (K s1) (a, q, sch_sid z) = Some z \<and>
      cg_schedules (K s1) (a, q', sch_sid z) = None \<and> cg_snames (K s1) (a, q', sch_Name z) = None" if z: "z \<in> set ys" for z
  proof -
    have zz: "sch_acc z = a \<and> sch_que z = q \<and> cg_schedules (K s) (a, q, sch_sid z) = Some z \<and>
      cg_schedules (K s) (a, q', sch_sid z) = None \<and> cg_snames (K s) (a, q', sch_Name z) = None"
      by (rule Cons.prems(5)) (simp add: z)
    have "sch_sid y \<notin> sch_sid ` set ys" using Cons.prems(4) by simp
    then have "sch_sid z \<noteq> sch_sid y" using imageI[OF z, of sch_sid] by metis
    moreover from this have "sch_Name z \<noteq> sch_Name y"
      using same_name_same_id[of "K s" a q "sch_sid z" z "sch_sid y" y] Cons.prems(1) y(3) zz by (auto simp: rows_ok_def)
    ultimately show ?thesis using zz Cons.prems(3) unfolding p by simp
  qed
  obtain s2 where s2: "go_for (\<lambda>y _. swap_schedule P c \<lparr> qid_AccountId = a, qid_QueueId = q' \<rparr> y) ys () s1 = Inr ((), s2)" "W s2"
    "moved a q q' (sch_sid ` set ys) (K s1) (K s2)"
    using Cons.IH[OF r1 s1(2) Cons.prems(3) _ rest] Cons.prems(4) by auto
  have "moved a q q' (insert (sch_sid y) (sch_sid ` set ys)) (K s) (K s2)"
    by (rule moved_step[OF s2(3)[unfolded s1(3)] id y(3) _ Cons.prems(3)]) (use Cons.prems(4) in simp)
  then show ?case using s1(1) s2(1,2) by (simp add: go_run)
qed

end

section \<open>Swapping the id of a queue\<close>

definition swapped_queue :: "int \<Rightarrow> uint64 \<Rightarrow> Queue \<Rightarrow> Queue" where
  "swapped_queue now q' x = x\<lparr> q_Id := \<lparr> qid_AccountId = qid_AccountId (q_Id x), qid_QueueId = q' \<rparr>, q_UpdatedAt := now, q_Version := i64 (q_Version x + 1) \<rparr>"

lemma swapped_queue_eq:
  "\<lparr> q_Id = \<lparr> qid_AccountId = qid_AccountId (q_Id x), qid_QueueId = q' \<rparr>, q_Name = q_Name x, q_Description = q_Description x, q_CreatedAt = q_CreatedAt x, q_UpdatedAt = now,
      q_Version = i64 (q_Version x + 1), q_KeepaliveTimeoutInSeconds = q_KeepaliveTimeoutInSeconds x, q_RetryStrategy = q_RetryStrategy x,
      q_DequeuingSettings = q_DequeuingSettings x, q_DeadLetterQueueConfig = q_DeadLetterQueueConfig x,
      q_ExpiresInSeconds = q_ExpiresInSeconds x, q_SchedulesCount = q_SchedulesCount x \<rparr> = swapped_queue now q' x"
  by (simp add: swapped_queue_def)

text \<open>The catalog with the queue at \<open>(a, q)\<close> and its schedules under
  \<open>(a, q')\<close>, as far as rows, names, counters and records go.\<close>

definition swapped :: "uint64 \<Rightarrow> uint64 \<Rightarrow> Queue \<Rightarrow> catalog \<Rightarrow> catalog \<Rightarrow> bool" where
  "swapped a q x' C C' \<longleftrightarrow> (let q' = qid_QueueId (q_Id x') in
    cg_queues C' = (cg_queues C)((a, q') \<mapsto> x', (a, q) := None) \<and> cg_names C' = (cg_names C)((a, q_Name x') \<mapsto> q') \<and>
    cg_counters C' = cg_counters C \<and> cg_gc C' = cg_gc C \<and>
    cg_schedules C' = (\<lambda>(a', k, t). if (a', k) = (a, q) then None
      else if (a', k) = (a, q') then map_option (moved_to q') (cg_schedules C (a, q, t)) else cg_schedules C (a', k, t)))"

lemma moved_all:
  assumes "moved a q q' T C C'" "\<And>t. t \<notin> T \<Longrightarrow> cg_schedules C (a, q, t) = None" "\<And>t. cg_schedules C (a, q', t) = None"
  shows "cg_schedules C' = (\<lambda>(a', k, t). if (a', k) = (a, q) then None
      else if (a', k) = (a, q') then map_option (moved_to q') (cg_schedules C (a, q, t)) else cg_schedules C (a', k, t))"
  using assms unfolding moved_def by (auto simp: fun_eq_iff)

lemma swapped_good:
  assumes g: "good_catalog C" and x: "cg_queues C (a, q) = Some x" and new: "cg_queues C (a, q') = None" "cg_gc C (a, q') = None"
    and sw: "swapped a q x' C C'" "rows_ok C'" and x': "q_Id x' = \<lparr> qid_AccountId = a, qid_QueueId = q' \<rparr>" "q_Name x' = q_Name x" "q_SchedulesCount x' = q_SchedulesCount x"
  shows "good_catalog C'"
proof (rule goodI)
  note i = goodD[OF g]
  have q: "q' \<noteq> q" using x new by auto
  have s: "cg_queues C' = (cg_queues C)((a, q') \<mapsto> x', (a, q) := None)" "cg_names C' = (cg_names C)((a, q_Name x) \<mapsto> q')"
    "cg_counters C' = cg_counters C" "cg_gc C' = cg_gc C"
    "\<And>a' k t. cg_schedules C' (a', k, t) = (if (a', k) = (a, q) then None
      else if (a', k) = (a, q') then map_option (moved_to q') (cg_schedules C (a, q, t)) else cg_schedules C (a', k, t))"
    using sw(1) x'(1,2) by (simp_all add: swapped_def Let_def)
  show "ids_ok C'" "snames_ok C'" "due_ok C'" using sw(2) by (simp_all add: rows_ok_def)
  have alone: "cg_queues C (a, k) = Some z \<Longrightarrow> q_Name z = q_Name x \<Longrightarrow> k = q" for k z
    using names_iff[OF i(2), of a "q_Name x" k] names_iff[OF i(2), of a "q_Name x" q] x by auto
  show "names_ok C'" unfolding names_ok_def s using q by (auto simp: names_iff[OF i(2)] x new x' dest: alone)
  have none: "cg_gc C (a, q) = None" using i(6) x unfolding gc_ok_def by (metis option.distinct(1))
  show "gc_ok C'" using i(6) q new none unfolding gc_ok_def s(1,4) s(5) by auto
  have rc: "row_count (cg_queues C') a' = row_count (cg_queues C) a'" for a'
    using row_count_pos[of "cg_queues C" a q] q unfolding s(1) row_count_upd by (simp add: x new)
  have sc: "sub_count (cg_schedules C') (a, q') = sub_count (cg_schedules C) (a, q)"
    using q unfolding sub_count_def by (simp add: s(5) dom_def)
  have other: "sub_count (cg_schedules C') aq = sub_count (cg_schedules C) aq" if "aq \<noteq> (a, q)" "aq \<noteq> (a, q')" for aq
  proof -
    have "(\<lambda>t. cg_schedules C' (fst aq, snd aq, t)) = (\<lambda>t. cg_schedules C (fst aq, snd aq, t))" using that by (cases aq) (auto simp: s(5))
    then show ?thesis unfolding sub_count_def by simp
  qed
  show "counts_ok C'"
  proof (unfold counts_ok_def s(3) rc, intro conjI allI impI)
    show "qc_NumberOfQueues (cg_counters C a') = i64 (int (queue_count C a'))" for a' using i(5) by (simp add: counts_ok_def)
    fix aq z assume z: "cg_queues C' aq = Some z"
    show "q_SchedulesCount z = i64 (int (schedule_count C' aq))"
    proof (cases "aq = (a, q')")
      case True
      then show ?thesis using z i(5) x x'(3) q unfolding counts_ok_def by (simp add: s(1) sc)
    next
      case False
      then have "aq \<noteq> (a, q)" "cg_queues C aq = Some z" using z by (auto simp: s(1) split: if_splits)
      then show ?thesis using i(5) other[OF _ False] unfolding counts_ok_def by metis
    qed
  qed
qed

text \<open>The first page of the listing of a queue's schedules is its last.\<close>

definition single_page :: "pkgs \<Rightarrow> ('d, 's) QueuesCore \<Rightarrow> QueueId \<Rightarrow> 'd \<Rightarrow> bool" where
  "single_page P c i d \<longleftrightarrow>
    (case schedulesTable_List P (qc_schedules c) i None defaultGCRecordSchedulesPageSize (bs_Update (qc_badgerStore c) d) of
      Inl _ \<Rightarrow> False | Inr (pg, _) \<Rightarrow> lsr_NextPaginationToken pg = None)"

lemma schedule_ids_distinct:
  assumes "good_catalog C"
  shows "distinct (map sch_sid (schedules_of C (a, q)))"
proof -
  have "inj_on sch_sid (set (schedules_of C (a, q)))"
  proof (rule inj_onI)
    fix y z assume "y \<in> set (schedules_of C (a, q))" "z \<in> set (schedules_of C (a, q))" and e: "sch_sid y = sch_sid z"
    then obtain t u where "cg_schedules C (a, q, t) = Some y" "cg_schedules C (a, q, u) = Some z"
      using schedules_of_facts(2)[OF assms, where aq = "(a, q)"] by auto
    moreover from this have "sch_sid y = t" "sch_sid z = u" using goodD(1)[OF assms] by (simp_all add: ids_ok_def)
    ultimately show "y = z" using e by simp
  qed
  moreover have "distinct (schedules_of C (a, q))"
    using schedules_of_facts(1)[OF assms, where aq = "(a, q)"] by (simp add: distinct_map)
  ultimately show ?thesis by (simp add: distinct_map)
qed

context queues_store
begin

lemma swap_schedules_run:
  fixes i j :: QueueId
  assumes C: "good_catalog (K s)" "W s" and i: "i = \<lparr> qid_AccountId = a, qid_QueueId = q \<rparr>" and j: "j = \<lparr> qid_AccountId = a, qid_QueueId = q' \<rparr>"
    and new: "q' \<noteq> q" "cg_queues (K s) (a, q') = None" "cg_gc (K s) (a, q') = None"
    and page: "schedulesTable_List P (qc_schedules c) i None defaultGCRecordSchedulesPageSize s = Inr (pg, s')" "lsr_NextPaginationToken pg = None"
  shows "\<exists>s1. swap_schedules (Suc n) P c i j None s = Inr ((), s1) \<and> W s1 \<and>
    moved a q q' {t. cg_schedules (K s) (a, q, t) \<noteq> None} (K s) (K s1)"
proof -
  let ?C = "K s" and ?ys = "schedules_of (K s) (a, q)"
  have vacant: "cg_schedules ?C (a, q', t) = None" for t by (rule good_no_orphans[OF C(1) new(2,3)])
  have vacant_names: "cg_snames ?C (a, q', m) = None" for m using vacant snames_free[OF goodD(3)[OF C(1)]] by auto
  have pos: "0 < defaultGCRecordSchedulesPageSize" by (simp add: defaultGCRecordSchedulesPageSize_def)
  have pg: "schedulesTable_List P (qc_schedules c) i None defaultGCRecordSchedulesPageSize s = Inr (pg, s)" "lsr_Schedules pg = ?ys"
    using schedule_page_run[OF C(2) pos, of i] page unfolding i by force+
  have at: "sch_acc y = a \<and> sch_que y = q \<and> cg_schedules ?C (a, q, sch_sid y) = Some y \<and>
      cg_schedules ?C (a, q', sch_sid y) = None \<and> cg_snames ?C (a, q', sch_Name y) = None" if "y \<in> set ?ys" for y
    using schedules_of_facts(3)[OF C(1) that] vacant vacant_names by (auto simp: schedule_key_def queue_of_key_def)
  have rows: "rows_ok ?C" using goodD[OF C(1)] by (simp add: rows_ok_def)
  have ids: "sch_sid ` set ?ys = {t. cg_schedules ?C (a, q, t) \<noteq> None}"
  proof (intro equalityI subsetI)
    fix t assume "t \<in> {t. cg_schedules ?C (a, q, t) \<noteq> None}"
    then obtain y where y: "cg_schedules ?C (a, q, t) = Some y" by auto
    then have "y \<in> set ?ys" using schedules_of_facts(2)[OF C(1), where aq = "(a, q)"] by auto
    moreover have "t = sch_sid y" using goodD(1)[OF C(1)] y by (simp add: ids_ok_def)
    ultimately show "t \<in> sch_sid ` set ?ys" by blast
  qed (use at in force)
  obtain s1 where s1: "go_for (\<lambda>y _. swap_schedule P c j y) ?ys () s = Inr ((), s1)" "W s1" "moved a q q' (sch_sid ` set ?ys) ?C (K s1)"
    using swap_page_run[OF rows C(2) new(1) schedule_ids_distinct[OF C(1)] at] unfolding j by blast
  then show ?thesis unfolding ids using pg page(2) by (auto simp: go_run)
qed

lemma SwapQueueId_refused:
  fixes req :: SwapQueueIdRequest
  assumes g: "good_queues (dabs d)"
  defines "C \<equiv> catalog_of (dabs d)" and "a \<equiv> sw_AccountId req"
  shows "cg_names C (a, sw_QueueName req) = None \<Longrightarrow> refused (SwapQueueId n P c now req) d NotFound"
    and "cg_names C (a, sw_QueueName req) = Some q \<Longrightarrow> cg_queues C (a, sw_NewQueueId req) = Some z \<Longrightarrow> refused (SwapQueueId n P c now req) d IDCollision"
proof -
  have C: "good_catalog C" using g by (simp add: good_queues_def C_def)
  note nm = name_guards_run(2)[of "bs_Update (qc_badgerStore c) d", unfolded opened, folded C_def, OF C]
  note run = go_run opened C_def[symmetric] a_def[symmetric] nm guards_run Let_def
  show "cg_names C (a, sw_QueueName req) = None \<Longrightarrow> refused (SwapQueueId n P c now req) d NotFound"
    unfolding SwapQueueId_def by (rule refusedI) (simp add: run queueNotFoundError_def)
  show "cg_names C (a, sw_QueueName req) = Some q \<Longrightarrow> cg_queues C (a, sw_NewQueueId req) = Some z \<Longrightarrow> refused (SwapQueueId n P c now req) d IDCollision"
    unfolding SwapQueueId_def by (rule refusedI) (simp add: run)
qed

lemma SwapQueueId_ok:
  fixes req :: SwapQueueIdRequest
  assumes g: "good_queues (dabs d)"
  defines "C \<equiv> catalog_of (dabs d)" and "a \<equiv> sw_AccountId req" and "q' \<equiv> sw_NewQueueId req"
  assumes x: "cg_queues C (a, q) = Some x" "q_Name x = sw_QueueName req"
    and new: "cg_queues C (a, q') = None" "cg_gc C (a, q') = None" and page: "single_page P c (q_Id x) d"
  shows "\<exists>d'. SwapQueueId (Suc n) P c now req d = (Inr (Payload \<lparr> swr_Queue = swapped_queue now q' x, swr_OldQueueId = q_Id x \<rparr>), d') \<and>
    good_queues (dabs d') \<and> swapped a q (swapped_queue now q' x) C (catalog_of (dabs d'))"
proof -
  let ?s = "bs_Update (qc_badgerStore c) d" and ?i = "\<lparr> qid_AccountId = a, qid_QueueId = q \<rparr>" and ?j = "\<lparr> qid_AccountId = a, qid_QueueId = q' \<rparr>"
  let ?x = "swapped_queue now q' x"
  have C: "good_catalog C" "W ?s" and K: "K ?s = C" using g by (simp_all add: good_queues_def opened C_def)
  have xi: "q_Id x = ?i" using goodD(1)[OF C(1)] x(1) by (simp add: ids_ok_def)
  have nm: "cg_names C (a, sw_QueueName req) = Some q" using names_iff[OF goodD(2)[OF C(1)]] x by blast
  have q: "q' \<noteq> q" using x(1) new(1) by auto
  have vacant: "cg_schedules C (a, q', t) = None" for t by (rule good_no_orphans[OF C(1) new])
  obtain pg s' where pg: "schedulesTable_List P (qc_schedules c) ?i None defaultGCRecordSchedulesPageSize ?s = Inr (pg, s')" "lsr_NextPaginationToken pg = None"
    using page unfolding single_page_def xi by (auto split: sum.splits)
  obtain s1 where s1: "swap_schedules (Suc n) P c ?i ?j None ?s = Inr ((), s1)" "W s1" "moved a q q' {t. cg_schedules C (a, q, t) \<noteq> None} C (K s1)"
    using swap_schedules_run[OF C(1)[folded K] C(2) refl refl q _ _ pg] new unfolding K by blast
  have sch: "cg_schedules (K s1) = (\<lambda>(a', k, t). if (a', k) = (a, q) then None
      else if (a', k) = (a, q') then map_option (moved_to q') (cg_schedules C (a, q, t)) else cg_schedules C (a', k, t))"
    by (rule moved_all[OF s1(3) _ vacant]) simp
  have K1: "cg_queues (K s1) = cg_queues C" "cg_names (K s1) = cg_names C" "cg_counters (K s1) = cg_counters C" "cg_gc (K s1) = cg_gc C" "rows_ok (K s1)"
    using s1(3) unfolding moved_def by blast+
  have xid: "q_Id ?x = ?j" "q_Name ?x = q_Name x" "q_SchedulesCount ?x = q_SchedulesCount x" by (simp_all add: swapped_queue_def xi)
  have pre: "cg_queues (K s1) (qid_AccountId ?i, qid_QueueId ?i) \<noteq> None" using x(1) K1(1) by simp
  let ?s2 = "go_out (queuesTable_SwapId P (qc_queues c) ?i ?x) s1"
  note w = swap_writes[OF pre, of ?x]
  have sw: "swapped a q ?x C (K ?s2)" unfolding swapped_def w(2) using xid q by (simp add: K1 sch fun_upd_twist)
  have rows2: "rows_ok (K ?s2)"
    using K1(5) xid q unfolding w(2) by (auto simp: rows_ok_def ids_ok_def snames_ok_def due_ok_def K1(1))
  have good: "good_catalog (K ?s2)" by (rule swapped_good[OF C(1) x(1) new sw rows2 xid])
  have "committed (SwapQueueId (Suc n) P c now req) d (Payload \<lparr> swr_Queue = ?x, swr_OldQueueId = q_Id x \<rparr>) (K ?s2)"
    unfolding SwapQueueId_def
    by (rule committedI)
       (use s1(1) w(1) w(3)[OF s1(2)] in \<open>simp add: go_run name_guards_run(2)[of ?s, unfolded K, OF C(1)] nm x(1) xi swapped_queue_eq[of x, unfolded xi, simplified] guards_run new(1) K Let_def
          flip: a_def q'_def del: swap_schedules.simps\<close>)
  then show ?thesis using sw good by (auto simp: committed_def good_queues_def)
qed

end

end
