(* ===== verification/Queues_System.thy ===== *)
theory Queues_System
  imports Queues_Swap Tasks_System
begin

text \<open>
  The queues core as a transition system.  \<open>queues_step\<close> is one request of
  any kind that changes the catalog.  A queue gets its id, at its creation or in
  a swap, only when no earlier owner of the id awaits collection, and a swap
  finds the schedules of the queue on one page.  The invariant holds in every
  state a run reaches.
\<close>

section \<open>Refusals\<close>

context queues_store
begin

lemma names_found:
  assumes "good_catalog C"
  obtains "cg_names C (a, n) = None"
  | q x where "cg_names C (a, n) = Some q" "cg_queues C (a, q) = Some x" "q_Name x = n"
  by (metis assms good_names option.exhaust)

lemma snames_found:
  assumes "good_catalog C"
  obtains "cg_snames C (a, q, n) = None"
  | t y where "cg_snames C (a, q, n) = Some t" "cg_schedules C (a, q, t) = Some y" "sch_Name y = n"
  by (metis assms good_snames option.exhaust)

text \<open>A cron expression or time zone that does not parse fails the request and
  changes nothing.\<close>

lemma bad_cron_fails:
  assumes g: "good_queues (dabs d)"
  defines "C \<equiv> catalog_of (dabs d)"
  shows "cg_queues C (cs_AccountId req, q) = Some x \<Longrightarrow> q_Name x = cs_QueueName req \<Longrightarrow> cg_schedules C (cs_AccountId req, q, cs_ScheduleId req) = None \<Longrightarrow>
      q_SchedulesCount x < cs_MaxNumberOfSchedulesPerQueue req \<Longrightarrow> cg_snames C (cs_AccountId req, q, cs_ScheduleName req) = None \<Longrightarrow>
      tick_of cron (cs_Timezone req) (cs_Cron req) now = Inl e \<Longrightarrow> CreateSchedule cron P c now req d = (Inl e, d)"
    and "cg_queues C (us_AccountId ureq, q) = Some x \<Longrightarrow> q_Name x = us_QueueName ureq \<Longrightarrow> cg_schedules C (us_AccountId ureq, q, t) = Some y \<Longrightarrow>
      sch_Name y = us_ScheduleName ureq \<Longrightarrow> sch_Version y = us_ExpectedVersion ureq \<Longrightarrow>
      tick_of cron (us_Timezone ureq) (us_Cron ureq) now = Inl e \<Longrightarrow> UpdateSchedule cron P c now ureq d = (Inl e, d)"
proof -
  have C: "good_catalog C" "wf_queues (dabs d)" using g by (simp_all add: good_queues_def C_def)
  have named: "cg_queues C (a, q) = Some x \<Longrightarrow> q_Name x = n \<Longrightarrow> cg_names C (a, n) = Some q" for a q x n
    using names_iff[OF goodD(2)[OF C(1)], of a n q] by blast
  have ids: "cg_queues C (a, q) = Some x \<Longrightarrow> q_Id x = \<lparr> qid_AccountId = a, qid_QueueId = q \<rparr>" for a q x
    using goodD(1)[OF C(1)] by (simp add: ids_ok_def)
  note n = name_guards_run(2,3,4)[of "bs_Update (qc_badgerStore c) d", unfolded opened, folded C_def, OF C(1)]
  note run = go_run catalog_run opened C_def[symmetric] n guards_run next_tick_run named ids Let_def
  show "cg_queues C (cs_AccountId req, q) = Some x \<Longrightarrow> q_Name x = cs_QueueName req \<Longrightarrow> cg_schedules C (cs_AccountId req, q, cs_ScheduleId req) = None \<Longrightarrow>
      q_SchedulesCount x < cs_MaxNumberOfSchedulesPerQueue req \<Longrightarrow> cg_snames C (cs_AccountId req, q, cs_ScheduleName req) = None \<Longrightarrow>
      tick_of cron (cs_Timezone req) (cs_Cron req) now = Inl e \<Longrightarrow> CreateSchedule cron P c now req d = (Inl e, d)"
    by (simp add: CreateSchedule_def in_update_def run)
  assume u: "cg_queues C (us_AccountId ureq, q) = Some x" "q_Name x = us_QueueName ureq" "cg_schedules C (us_AccountId ureq, q, t) = Some y"
    "sch_Name y = us_ScheduleName ureq"
  show "sch_Version y = us_ExpectedVersion ureq \<Longrightarrow>
      tick_of cron (us_Timezone ureq) (us_Cron ureq) now = Inl e \<Longrightarrow> UpdateSchedule cron P c now ureq d = (Inl e, d)"
    using found_schedule[OF g, folded C_def, OF u] u by (simp add: UpdateSchedule_def in_update_def run)
qed

lemma schedule_not_found:
  assumes g: "good_queues (dabs d)"
  defines "C \<equiv> catalog_of (dabs d)"
  shows "cg_names C (us_AccountId req, us_QueueName req) = None \<Longrightarrow> refused (UpdateSchedule cron P c now req) d NotFound"
    and "cg_names C (us_AccountId req, us_QueueName req) = Some q \<Longrightarrow> cg_snames C (us_AccountId req, q, us_ScheduleName req) = None \<Longrightarrow>
      refused (UpdateSchedule cron P c now req) d NotFound"
    and "cg_names C (dsr_AccountId xreq, dsr_QueueName xreq) = None \<Longrightarrow> refused (DeleteSchedule P c xreq) d NotFound"
    and "cg_names C (dsr_AccountId xreq, dsr_QueueName xreq) = Some q \<Longrightarrow> cg_snames C (dsr_AccountId xreq, q, dsr_ScheduleName xreq) = None \<Longrightarrow>
      refused (DeleteSchedule P c xreq) d NotFound"
proof -
  have C: "good_catalog C" using g by (simp add: good_queues_def C_def)
  have own: "cg_names C (a, n) = Some q \<Longrightarrow> q_Id (the (cg_queues C (a, q))) = \<lparr> qid_AccountId = a, qid_QueueId = q \<rparr>" for a n q
    using good_names[OF C, of a n q] by force
  note n = name_guards_run(2,4)[of "bs_Update (qc_badgerStore c) d", unfolded opened, folded C_def, OF C]
  note run = go_run opened C_def[symmetric] n own queueNotFoundError_def scheduleNotFoundError_def
  show "cg_names C (us_AccountId req, us_QueueName req) = None \<Longrightarrow> refused (UpdateSchedule cron P c now req) d NotFound"
    and "cg_names C (us_AccountId req, us_QueueName req) = Some q \<Longrightarrow> cg_snames C (us_AccountId req, q, us_ScheduleName req) = None \<Longrightarrow>
      refused (UpdateSchedule cron P c now req) d NotFound"
    unfolding UpdateSchedule_def by (rule refusedI, simp add: run)+
  show "cg_names C (dsr_AccountId xreq, dsr_QueueName xreq) = None \<Longrightarrow> refused (DeleteSchedule P c xreq) d NotFound"
    and "cg_names C (dsr_AccountId xreq, dsr_QueueName xreq) = Some q \<Longrightarrow> cg_snames C (dsr_AccountId xreq, q, dsr_ScheduleName xreq) = None \<Longrightarrow>
      refused (DeleteSchedule P c xreq) d NotFound"
    unfolding DeleteSchedule_def by (rule refusedI, simp add: run)+
qed

end

section \<open>Requests as steps\<close>

definition fresh_queue_id :: "CreateQueueRequest \<Rightarrow> catalog \<Rightarrow> bool" where
  "fresh_queue_id req C \<longleftrightarrow> (\<forall>i. cq_QueueId req = Some i \<longrightarrow> cg_gc C (qid_AccountId i, qid_QueueId i) = None)"

definition safe_swap :: "pkgs \<Rightarrow> ('d, 's) QueuesCore \<Rightarrow> SwapQueueIdRequest \<Rightarrow> 'd \<Rightarrow> catalog \<Rightarrow> bool" where
  "safe_swap P c req d C \<longleftrightarrow> cg_gc C (sw_AccountId req, sw_NewQueueId req) = None \<and>
    (\<forall>q x. cg_queues C (sw_AccountId req, q) = Some x \<and> q_Name x = sw_QueueName req \<longrightarrow> single_page P c (q_Id x) d)"

inductive queues_step :: "cron_pkg \<Rightarrow> pkgs \<Rightarrow> ('d, 's) QueuesCore \<Rightarrow> ('d \<Rightarrow> queues_view) \<Rightarrow> 'd \<Rightarrow> 'd \<Rightarrow> bool"
  for cron P c dabs where
  create_queue: "fresh_queue_id creq (catalog_of (dabs d)) \<Longrightarrow> queues_step cron P c dabs d (snd (CreateQueue P c now creq d))"
| update_queue: "queues_step cron P c dabs d (snd (UpdateQueue P c now ureq d))"
| delete_queue: "queues_step cron P c dabs d (snd (DeleteQueue P c dreq d))"
| swap_queue: "safe_swap P c sreq d (catalog_of (dabs d)) \<Longrightarrow> queues_step cron P c dabs d (snd (SwapQueueId (Suc pages) P c now sreq d))"
| create_schedule: "queues_step cron P c dabs d (snd (CreateSchedule cron P c now csreq d))"
| update_schedule: "queues_step cron P c dabs d (snd (UpdateSchedule cron P c now usreq d))"
| delete_schedule: "queues_step cron P c dabs d (snd (DeleteSchedule P c dsreq d))"
| report_schedule: "queues_step cron P c dabs d (snd (ReportSchedulesStatus P c now rreq d))"
| collect: "queues_step cron P c dabs d (snd (RunQueuesGarbageCollection P c greq d))"

lemma refused_same: "refused h d code \<Longrightarrow> snd (h d) = d"
  by (auto simp: refused_def)

context queues_store
begin

lemma committed_good: "committed h d r C \<Longrightarrow> good_catalog C \<Longrightarrow> good_queues (dabs (snd (h d)))"
  by (auto simp: committed_def good_queues_def)

lemma queue_steps:
  assumes g: "good_queues (dabs d)"
  defines "C \<equiv> catalog_of (dabs d)"
  shows "fresh_queue_id creq C \<Longrightarrow> good_queues (dabs (snd (CreateQueue P c now creq d)))"
    and "good_queues (dabs (snd (UpdateQueue P c now ureq d)))"
    and "good_queues (dabs (snd (DeleteQueue P c dreq d)))"
proof -
  have C: "good_catalog C" using g by (simp add: good_queues_def C_def)
  have ids: "cg_queues C (a, q) = Some x \<Longrightarrow> q_Id x = \<lparr> qid_AccountId = a, qid_QueueId = q \<rparr>" for a q x
    using goodD(1)[OF C] by (simp add: ids_ok_def)
  show "good_queues (dabs (snd (CreateQueue P c now creq d)))" if fresh: "fresh_queue_id creq C"
  proof (cases "cq_QueueId creq" rule: QueueId_cases)
    case 1
    then show ?thesis using g by (simp add: CreateQueue_def in_update_no_queue)
  next
    case (2 a q)
    note cases = CreateQueue_cases[OF g 2, folded C_def, simplified]
    consider "cg_names C (a, cq_Name creq) \<noteq> None"
      | "cg_names C (a, cq_Name creq) = None" "cq_MaxNumberOfQueues creq \<le> qc_NumberOfQueues (cg_counters C a)"
      | x where "cg_names C (a, cq_Name creq) = None" "qc_NumberOfQueues (cg_counters C a) < cq_MaxNumberOfQueues creq" "cg_queues C (a, q) = Some x"
      | "cg_names C (a, cq_Name creq) = None" "qc_NumberOfQueues (cg_counters C a) < cq_MaxNumberOfQueues creq" "cg_queues C (a, q) = None"
      by (meson not_le option.exhaust)
    then show ?thesis
    proof cases
      case 4
      have "cg_gc C (a, q) = None" using fresh 2 by (simp add: fresh_queue_id_def)
      then show ?thesis
        by (intro committed_good[OF cases(4)[OF 4]] add_queue_good[OF C]) (use 4 in \<open>simp_all add: new_queue_def\<close>)
    qed (use cases(1-3) g refused_same in \<open>metis option.exhaust\<close>)+
  qed
  show "good_queues (dabs (snd (UpdateQueue P c now ureq d)))"
  proof (cases rule: names_found[OF C, of "uq_AccountId ureq" "uq_QueueName ureq"])
    case (2 q x)
    note cases = UpdateQueue_cases(2,3)[OF g, folded C_def, OF 2(2,3)]
    show ?thesis
    proof (cases "q_Version x = uq_ExpectedVersion ureq")
      case True
      show ?thesis
        by (rule committed_good[OF cases(2)[OF True] put_queue_good[OF C _ 2(2)]]) (simp_all add: updated_queue_def ids[OF 2(2)])
    qed (use cases(1) g refused_same in metis)
  qed (use UpdateQueue_cases(1)[OF g, folded C_def] g refused_same in metis)
  show "good_queues (dabs (snd (DeleteQueue P c dreq d)))"
  proof (cases rule: names_found[OF C, of "dq_AccountId dreq" "dq_QueueName dreq"])
    case (2 q x)
    show ?thesis
      by (rule committed_good[OF DeleteQueue_cases(2)[OF g, folded C_def, OF 2(2,3)] remove_queue_good[OF C ids[OF 2(2)] 2(2)]])
  qed (use DeleteQueue_cases(1)[OF g, folded C_def] g refused_same in metis)
qed

lemma SwapQueueId_step:
  assumes g: "good_queues (dabs d)" and safe: "safe_swap P c req d (catalog_of (dabs d))"
  shows "good_queues (dabs (snd (SwapQueueId (Suc n) P c now req d)))"
proof -
  let ?C = "catalog_of (dabs d)" and ?a = "sw_AccountId req"
  have C: "good_catalog ?C" using g by (simp add: good_queues_def)
  show ?thesis
  proof (cases rule: names_found[OF C, of ?a "sw_QueueName req"])
    case (2 q x)
    show ?thesis
    proof (cases "cg_queues ?C (?a, sw_NewQueueId req)")
      case None
      have "cg_gc ?C (?a, sw_NewQueueId req) = None" "single_page P c (q_Id x) d" using safe 2(2,3) unfolding safe_swap_def by blast+
      from SwapQueueId_ok[OF g 2(2,3) None this, of n now] show ?thesis by auto
    qed (use SwapQueueId_refused(2)[OF g 2(1)] g refused_same in metis)
  qed (use SwapQueueId_refused(1)[OF g] g refused_same in metis)
qed

lemma CreateSchedule_step:
  assumes g: "good_queues (dabs d)"
  shows "good_queues (dabs (snd (CreateSchedule cron P c now req d)))"
proof -
  let ?C = "catalog_of (dabs d)" and ?a = "cs_AccountId req" and ?t = "cs_ScheduleId req"
  have C: "good_catalog ?C" using g by (simp add: good_queues_def)
  note cases = CreateSchedule_cases[OF g, where req = req and cron = cron and now = now]
  show ?thesis
  proof (cases rule: names_found[OF C, of ?a "cs_QueueName req"])
    case (2 q x)
    consider y where "cg_schedules ?C (?a, q, ?t) = Some y"
      | "cg_schedules ?C (?a, q, ?t) = None" "cs_MaxNumberOfSchedulesPerQueue req \<le> q_SchedulesCount x"
      | t' where "cg_schedules ?C (?a, q, ?t) = None" "q_SchedulesCount x < cs_MaxNumberOfSchedulesPerQueue req" "cg_snames ?C (?a, q, cs_ScheduleName req) = Some t'"
      | "cg_schedules ?C (?a, q, ?t) = None" "q_SchedulesCount x < cs_MaxNumberOfSchedulesPerQueue req" "cg_snames ?C (?a, q, cs_ScheduleName req) = None"
      by (meson not_le option.exhaust)
    then show ?thesis
    proof cases
      case 4
      show ?thesis
      proof (cases "tick_of cron (cs_Timezone req) (cs_Cron req) now")
        case (Inl e)
        then show ?thesis using bad_cron_fails(1)[OF g 2(2,3) 4] g by simp
      next
        case (Inr tick)
        show ?thesis
          by (rule committed_good[OF cases(5)[OF 2(2,3) 4 Inr] add_schedule_good[OF C]]) (use 4 2(2) in \<open>simp_all add: new_schedule_def\<close>)
      qed
    qed (use cases(2-4)[OF 2(2,3)] g refused_same in metis)+
  qed (use cases(1) g refused_same in metis)
qed

lemma UpdateSchedule_step:
  assumes g: "good_queues (dabs d)"
  shows "good_queues (dabs (snd (UpdateSchedule cron P c now req d)))"
proof -
  let ?C = "catalog_of (dabs d)" and ?a = "us_AccountId req"
  have C: "good_catalog ?C" using g by (simp add: good_queues_def)
  show ?thesis
  proof (cases rule: names_found[OF C, of ?a "us_QueueName req"])
    case (2 q x)
    show ?thesis
    proof (cases rule: snames_found[OF C, of ?a q "us_ScheduleName req"])
      case 1
      then show ?thesis using schedule_not_found(2)[OF g 2(1) 1] g refused_same by metis
    next
      case y: (2 t y)
      note cases = UpdateSchedule_cases[OF g 2(2,3) y(2,3)] and bad = bad_cron_fails(2)[OF g 2(2,3) y(2,3)]
      show ?thesis
      proof (cases "sch_Version y = us_ExpectedVersion req")
        case True
        show ?thesis
        proof (cases "tick_of cron (us_Timezone req) (us_Cron req) now")
          case (Inl e)
          then show ?thesis using bad[OF True] g by simp
        next
          case (Inr tick)
          show ?thesis
            by (rule committed_good[OF cases(2)[OF True Inr] put_schedule_good[OF C _ y(2)]])
               (simp_all add: updated_schedule_def found_schedule(4)[OF g 2(2,3) y(2,3)])
        qed
      qed (use cases(1) g refused_same in metis)
    qed
  qed (use schedule_not_found(1)[OF g] g refused_same in metis)
qed

lemma schedule_steps:
  assumes g: "good_queues (dabs d)"
  shows "good_queues (dabs (snd (DeleteSchedule P c xreq d)))"
    and "good_queues (dabs (snd (ReportSchedulesStatus P c now rreq d)))"
proof -
  let ?C = "catalog_of (dabs d)"
  have C: "good_catalog ?C" using g by (simp add: good_queues_def)
  show "good_queues (dabs (snd (DeleteSchedule P c xreq d)))"
  proof (cases rule: names_found[OF C, of "dsr_AccountId xreq" "dsr_QueueName xreq"])
    case (2 q x)
    show ?thesis
    proof (cases rule: snames_found[OF C, of "dsr_AccountId xreq" q "dsr_ScheduleName xreq"])
      case 1
      then show ?thesis using schedule_not_found(4)[OF g 2(1) 1] g refused_same by metis
    next
      case y: (2 t y)
      show ?thesis
        by (rule committed_good[OF DeleteSchedule_ok[OF g 2(2,3) y(2,3)] remove_schedule_good[OF C found_schedule(4)[OF g 2(2,3) y(2,3)] y(2)]])
           (simp add: 2(2))
    qed
  qed (use schedule_not_found(3)[OF g] g refused_same in metis)
  show "good_queues (dabs (snd (ReportSchedulesStatus P c now rreq d)))"
  proof (cases "rss_ScheduleId rreq")
    case None
    then show ?thesis using g by (simp add: ReportSchedulesStatus_def in_update_no_queue)
  next
    case (Some i)
    let ?k = "(sid_AccountId i, sid_QueueId i, sid_ScheduleId i)"
    note cases = ReportSchedulesStatus_cases[OF g Some, where now = now]
    show ?thesis
    proof (cases "cg_schedules ?C ?k")
      case (Some y)
      have "sch_Id y = i" using goodD(1)[OF C] Some by (simp add: ids_ok_def)
      then show ?thesis
        by (intro committed_good[OF cases(2)[OF Some] put_schedule_good[OF C _ Some]]) (simp_all add: reported_schedule_def Let_def)
    qed (use cases(1) g refused_same in metis)
  qed
qed

lemma queues_step_good:
  assumes "queues_step cron P c dabs d d'" "good_queues (dabs d)"
  shows "good_queues (dabs d')"
  using assms(1)
proof cases
  case (collect greq)
  then show ?thesis using RunQueuesGarbageCollection_run[OF assms(2), of greq] by auto
next
  case (swap_queue sreq pages now)
  then show ?thesis using SwapQueueId_step[OF assms(2)] by simp
qed (use queue_steps[OF assms(2)] schedule_steps[OF assms(2)] CreateSchedule_step[OF assms(2)] UpdateSchedule_step[OF assms(2)] in simp_all)

lemma queues_run_good:
  assumes "(queues_step cron P c dabs)\<^sup>*\<^sup>* d d'" "good_queues (dabs d)"
  shows "good_queues (dabs d')"
  using assms by (induction rule: rtranclp_induct) (blast intro: queues_step_good)+

end

end
