(* ===== verification/Ref_Queues.thy ===== *)
theory Ref_Queues
  imports Queues_System Ref_Store
begin

text \<open>
  The queues core on the reference store: the storage contracts hold for the
  tables \<open>NewQueuesCore\<close> builds, whatever the replica prefix, and a small
  run creates a queue and a schedule in it and deletes the queue.
\<close>

section \<open>The contracts\<close>

definition ref_queues_view :: "bytes \<Rightarrow> kv \<Rightarrow> queues_view" where
  "ref_queues_view rp s =
    \<lparr> w_queues = tab dest_Queue (rp @ tablePrefixQueues) s,
      w_names = tab dest_U64 (rp @ tablePrefixQueuesNamesIndex) s,
      w_schedules = tab dest_Schedule (rp @ tablePrefixSchedules) s,
      w_snames = tab dest_U64 (rp @ tablePrefixSchedulesNamesIndex) s,
      w_due = tabset (rp @ tablePrefixSchedulesScheduledIndex) s,
      w_counters = tab dest_QueuesCounter (rp @ queues_tablePrefixCounters) s,
      w_gc = tab dest_QueuesGC (rp @ tablePrefixGCRecords) s \<rparr>"

definition refQC :: "bytes \<Rightarrow> (kv, kv) QueuesCore" where
  "refQC rp = NewQueuesCore refP refQH refBs rp 0 (- 1)"

lemma refQC_tables:
  "qt_table (qc_queues (refQC rp)) = ref_table RQueue dest_Queue (rp @ tablePrefixQueues)"
  "qt_namesIndex (qc_queues (refQC rp)) = ref_uint64 (rp @ tablePrefixQueuesNamesIndex)"
  "sct_table (qc_schedules (refQC rp)) = ref_table RSchedule dest_Schedule (rp @ tablePrefixSchedules)"
  "sct_namesIndex (qc_schedules (refQC rp)) = ref_uint64 (rp @ tablePrefixSchedulesNamesIndex)"
  "sct_scheduledIndex (qc_schedules (refQC rp)) = ref_sorted (rp @ tablePrefixSchedulesScheduledIndex)"
  "qct_table (qc_counters (refQC rp)) = ref_table RQueuesCounter dest_QueuesCounter (rp @ queues_tablePrefixCounters)"
  "gct_table (qc_gcRecords (refQC rp)) = ref_table RQueuesGC dest_QueuesGC (rp @ tablePrefixGCRecords)"
  "qc_badgerStore (refQC rp) = refBs"
  by (simp_all add: refQC_def NewQueuesCore_def newQueuesTable_def newSchedulesTable_def queues_newCountersTable_def
      newGCRecordsTable_def refP_def refQH_def)

lemmas ref_queues_simps = ref_queues_view_def replica_tab_upd replica_tab_other upd_idle
  tablePrefixQueues_def tablePrefixQueuesNamesIndex_def tablePrefixSchedules_def tablePrefixSchedulesNamesIndex_def
  tablePrefixSchedulesScheduledIndex_def queues_tablePrefixCounters_def tablePrefixGCRecords_def

interpretation ref_queues: queues_store refP "refQC rp" "ref_queues_view rp" "ref_queues_view rp" for rp
proof (intro queues_store.intro)
  show "utils_pkg refP" by (rule ref_utils.utils_pkg_axioms)
qed (unfold refQC_tables,
    (rule ref_binary_table ref_uint64_table ref_global_index ref_badger_store;
     simp add: ref_queues_simps)+)

section \<open>The run\<close>

definition refQC0 :: "(kv, kv) QueuesCore" where "refQC0 = refQC []"

abbreviation ref_qabs :: "kv \<Rightarrow> queues_view" where "ref_qabs \<equiv> ref_queues_view []"

lemma ref_queues_store [simp]: "queues_store refP refQC0 ref_qabs ref_qabs"
  unfolding refQC0_def by (rule ref_queues.queues_store_axioms)

definition empty_catalog :: catalog where
  "empty_catalog = \<lparr> cg_queues = Map.empty, cg_names = Map.empty, cg_schedules = Map.empty, cg_snames = Map.empty,
     cg_due = {}, cg_counters = (\<lambda>_. QueuesCounter_zero), cg_gc = Map.empty \<rparr>"

lemma ref_catalog_empty [simp]: "catalog_of (ref_queues_view rp []) = empty_catalog"
  by (auto simp: catalog_of_def ref_queues_view_def tab_def tabset_def empty_catalog_def or_zero_def fun_eq_iff)

lemma good_queues_empty [simp]: "good_queues (ref_queues_view rp [])"
proof -
  have "good_catalog empty_catalog"
    by (simp add: catalog_defs empty_catalog_def QueuesCounter_zero_def row_count_def)
  moreover have "wf_queues (ref_queues_view rp [])" by (simp add: wf_queues_def ref_queues_view_def tab_def tabset_def dom_def)
  ultimately show ?thesis by (simp add: good_queues_def)
qed

text \<open>A cron package whose every expression ticks each minute.\<close>

definition refCron :: cron_pkg where
  "refCron = \<lparr> LoadLocation = Inr, NextTickAfter = (\<lambda>expr t incl. Inr (t\<lparr> tm_UnixNano := tm_UnixNano t + 60 \<rparr>)), gronx_IsValid = (\<lambda>_. True) \<rparr>"

definition mail_queue :: CreateQueueRequest where
  "mail_queue = \<lparr> cq_QueueId = Some \<lparr> qid_AccountId = 1, qid_QueueId = 2 \<rparr>, cq_Name = ''mail'', cq_Description = [],
     cq_KeepaliveTimeoutInSeconds = 30, cq_RetryStrategy = None, cq_DequeuingSettings = None, cq_DeadLetterQueueConfig = None,
     cq_ExpiresInSeconds = 3600, cq_MaxNumberOfQueues = 5 \<rparr>"

definition daily :: CreateScheduleRequest where
  "daily = \<lparr> cs_AccountId = 1, cs_QueueName = ''mail'', cs_ScheduleId = 3, cs_ScheduleName = ''daily'', cs_Description = [],
     cs_Cron = ''@daily'', cs_Payload = [], cs_DedupeKey = [], cs_ExpiresInSeconds = 0, cs_RetryStrategy = None,
     cs_Timezone = ''UTC'', cs_MaxNumberOfSchedulesPerQueue = 5 \<rparr>"

definition drop_mail :: DeleteQueueRequest where
  "drop_mail = \<lparr> dq_AccountId = 1, dq_QueueName = ''mail'' \<rparr>"

definition q_made :: kv where "q_made = snd (CreateQueue refP refQC0 100 mail_queue [])"
definition q_sched :: kv where "q_sched = snd (CreateSchedule refCron refP refQC0 100 daily q_made)"
definition q_gone :: kv where "q_gone = snd (DeleteQueue refP refQC0 drop_mail q_sched)"

definition mail :: Queue where "mail = new_queue 100 mail_queue \<lparr> qid_AccountId = 1, qid_QueueId = 2 \<rparr>"
definition mail1 :: Queue where "mail1 = mail\<lparr> q_SchedulesCount := 1 \<rparr>"
definition daily_schedule :: Schedule where "daily_schedule = new_schedule 100 daily 2 160"

lemma mail_simps [simp]:
  "q_Id mail = \<lparr> qid_AccountId = 1, qid_QueueId = 2 \<rparr>" "q_Name mail = ''mail''" "q_Version mail = 1" "q_SchedulesCount mail = 0"
  "q_Id mail1 = \<lparr> qid_AccountId = 1, qid_QueueId = 2 \<rparr>" "q_Name mail1 = ''mail''" "q_Version mail1 = 1" "q_SchedulesCount mail1 = 1"
  "sch_Id daily_schedule = \<lparr> sid_AccountId = 1, sid_QueueId = 2, sid_ScheduleId = 3 \<rparr>" "sch_Name daily_schedule = ''daily''"
  "sch_NextScheduledAt daily_schedule = 160" "sch_Version daily_schedule = 1"
  by (simp_all add: mail_def mail1_def new_queue_def mail_queue_def daily_schedule_def new_schedule_def daily_def)

lemma made_state:
  "CreateQueue refP refQC0 100 mail_queue [] = (Inr (Payload mail), q_made)" "good_queues (ref_qabs q_made)"
  "catalog_of (ref_qabs q_made) = add_queue mail empty_catalog"
proof -
  have "queues_store.committed ref_qabs (CreateQueue refP refQC0 100 mail_queue) [] (Payload mail) (add_queue mail empty_catalog)"
    using queues_store.CreateQueue_cases(4)[OF ref_queues_store, of "[]" mail_queue "\<lparr> qid_AccountId = 1, qid_QueueId = 2 \<rparr>" 100]
    by (simp add: mail_def mail_queue_def empty_catalog_def QueuesCounter_zero_def)
  then obtain d' where d: "CreateQueue refP refQC0 100 mail_queue [] = (Inr (Payload mail), d')" "wf_queues (ref_qabs d')"
    "catalog_of (ref_qabs d') = add_queue mail empty_catalog"
    unfolding queues_store.committed_def[OF ref_queues_store] by blast
  then have d': "d' = q_made" by (simp add: q_made_def)
  show "CreateQueue refP refQC0 100 mail_queue [] = (Inr (Payload mail), q_made)" "catalog_of (ref_qabs q_made) = add_queue mail empty_catalog"
    using d d' by simp_all
  show "good_queues (ref_qabs q_made)"
    using queues_store.queue_steps(1)[OF ref_queues_store, of "[]" mail_queue 100]
    by (simp add: q_made_def fresh_queue_id_def empty_catalog_def)
qed

lemma made_catalog:
  "cg_queues (catalog_of (ref_qabs q_made)) = [(1, 2) \<mapsto> mail]" "cg_names (catalog_of (ref_qabs q_made)) = [(1, ''mail'') \<mapsto> 2]"
  "cg_schedules (catalog_of (ref_qabs q_made)) = Map.empty" "cg_snames (catalog_of (ref_qabs q_made)) = Map.empty"
  "cg_gc (catalog_of (ref_qabs q_made)) = Map.empty"
  by (auto simp: made_state(3) add_queue_def empty_catalog_def)

lemma daily_fields [simp]: "cs_AccountId daily = 1" "cs_QueueName daily = ''mail''" "cs_ScheduleId daily = 3"
  "cs_ScheduleName daily = ''daily''" "cs_MaxNumberOfSchedulesPerQueue daily = 5"
  by (simp_all add: daily_def)

lemma sched_state:
  "CreateSchedule refCron refP refQC0 100 daily q_made = (Inr (Payload daily_schedule), q_sched)" "good_queues (ref_qabs q_sched)"
  "catalog_of (ref_qabs q_sched) = count_schedules (1, 2) 1 (add_schedule daily_schedule (add_queue mail empty_catalog))"
proof -
  let ?C = "count_schedules (1, 2) 1 (add_schedule daily_schedule (add_queue mail empty_catalog))"
  have tick: "tick_of refCron (cs_Timezone daily) (cs_Cron daily) 100 = Inr 160" by (simp add: tick_of_def refCron_def)
  have "queues_store.committed ref_qabs (CreateSchedule refCron refP refQC0 100 daily) q_made (Payload daily_schedule) ?C"
    unfolding daily_schedule_def made_state(3)[symmetric] daily_fields(1)[symmetric]
    by (rule queues_store.CreateSchedule_cases(5)[OF ref_queues_store made_state(2) _ _ _ _ _ tick, where x = mail])
       (simp_all add: made_catalog)
  then obtain d' where d: "CreateSchedule refCron refP refQC0 100 daily q_made = (Inr (Payload daily_schedule), d')"
    "catalog_of (ref_qabs d') = ?C"
    unfolding queues_store.committed_def[OF ref_queues_store] by blast
  then have d': "d' = q_sched" by (simp add: q_sched_def)
  show "CreateSchedule refCron refP refQC0 100 daily q_made = (Inr (Payload daily_schedule), q_sched)" "catalog_of (ref_qabs q_sched) = ?C"
    using d d' by simp_all
  show "good_queues (ref_qabs q_sched)"
    using queues_store.CreateSchedule_step[OF ref_queues_store made_state(2)] by (simp add: q_sched_def)
qed

lemma sched_catalog:
  "cg_queues (catalog_of (ref_qabs q_sched)) = [(1, 2) \<mapsto> mail1]" "cg_names (catalog_of (ref_qabs q_sched)) = [(1, ''mail'') \<mapsto> 2]"
  "cg_schedules (catalog_of (ref_qabs q_sched)) = [(1, 2, 3) \<mapsto> daily_schedule]" "cg_due (catalog_of (ref_qabs q_sched)) = {(tw 160, 1, 2, 3)}"
  "cg_snames (catalog_of (ref_qabs q_sched)) = [(1, 2, ''daily'') \<mapsto> 3]" "cg_gc (catalog_of (ref_qabs q_sched)) = Map.empty"
  "qc_NumberOfQueues (cg_counters (catalog_of (ref_qabs q_sched)) 1) = 1"
  by (auto simp: sched_state(3) count_schedules_def add_schedule_def add_queue_def empty_catalog_def mail1_def QueuesCounter_zero_def)

lemma gone_state:
  "DeleteQueue refP refQC0 drop_mail q_sched = (Inr (Payload \<lparr> qid_AccountId = 1, qid_QueueId = 2 \<rparr>), q_gone)" "good_queues (ref_qabs q_gone)"
  "catalog_of (ref_qabs q_gone) = remove_queue mail1 (catalog_of (ref_qabs q_sched))"
proof -
  have "queues_store.committed ref_qabs (DeleteQueue refP refQC0 drop_mail) q_sched (Payload (q_Id mail1)) (remove_queue mail1 (catalog_of (ref_qabs q_sched)))"
    by (rule queues_store.DeleteQueue_cases(2)[OF ref_queues_store sched_state(2)]) (simp_all add: sched_catalog drop_mail_def)
  then obtain d' where d: "DeleteQueue refP refQC0 drop_mail q_sched = (Inr (Payload (q_Id mail1)), d')"
    "catalog_of (ref_qabs d') = remove_queue mail1 (catalog_of (ref_qabs q_sched))"
    unfolding queues_store.committed_def[OF ref_queues_store] by blast
  then have d': "d' = q_gone" by (simp add: q_gone_def)
  show "DeleteQueue refP refQC0 drop_mail q_sched = (Inr (Payload \<lparr> qid_AccountId = 1, qid_QueueId = 2 \<rparr>), q_gone)"
    "catalog_of (ref_qabs q_gone) = remove_queue mail1 (catalog_of (ref_qabs q_sched))"
    using d d' by simp_all
  show "good_queues (ref_qabs q_gone)"
    using queues_store.queue_steps(3)[OF ref_queues_store sched_state(2)] by (simp add: q_gone_def)
qed

lemma gone_catalog:
  "cg_queues (catalog_of (ref_qabs q_gone)) = Map.empty" "cg_names (catalog_of (ref_qabs q_gone)) = Map.empty"
  "cg_schedules (catalog_of (ref_qabs q_gone)) = [(1, 2, 3) \<mapsto> daily_schedule]" "cg_due (catalog_of (ref_qabs q_gone)) = {(tw 160, 1, 2, 3)}"
  "cg_gc (catalog_of (ref_qabs q_gone)) = [(1, 2) \<mapsto> \<lparr> qgc_QueueId = \<lparr> qid_AccountId = 1, qid_QueueId = 2 \<rparr> \<rparr>]"
  by (auto simp: gone_state(3) remove_queue_def sched_catalog)

end
