(* ===== verification/Queues_Properties.thy ===== *)
theory Queues_Properties
  imports Ref_Queues
begin

text \<open>
  The properties of the queues core.  Each holds for every implementation of
  the storage packages that keeps its documented contract
  (\<open>queues_store\<close>), and is applied at a state of the reference run.
\<close>

section \<open>Shared facts\<close>

lemma i64_suc_neq: "i64 (v + 1) \<noteq> v"
proof
  assume "i64 (v + 1) = v"
  then have "v mod 2 ^ 64 = (v + 1) mod 2 ^ 64" using i64_mod[of "v + 1"] by simp
  then have "(2 :: int) ^ 64 dvd 1" by (simp add: mod_eq_dvd_iff)
  then show False by simp
qed

lemma good_queues_catalog: "good_queues b \<Longrightarrow> good_catalog (catalog_of b)"
  by (simp add: good_queues_def)

lemma counted: "good_catalog C \<Longrightarrow> qc_NumberOfQueues (cg_counters C a) = i64 (int (queue_count C a))"
  "good_catalog C \<Longrightarrow> cg_queues C (a, q) = Some x \<Longrightarrow> q_SchedulesCount x = i64 (int (schedule_count C (a, q)))"
  using goodD(5) by (simp_all add: counts_ok_def)

context queues_store
begin

lemma GetQueueByName_found:
  "cg_names (catalog_of (dabs d)) (gqn_AccountId req, gqn_QueueName req) = Some q \<Longrightarrow>
    cg_queues (catalog_of (dabs d)) (gqn_AccountId req, q) = Some x \<Longrightarrow> GetQueueByName P c req d = (Inr (Payload x), d)"
  by (simp add: GetQueueByName_def in_view_def go_lookup_def go_run catalog_run opened)

lemma reads_run:
  assumes "good_queues (dabs d)"
  defines "C \<equiv> catalog_of (dabs d)"
  shows "cg_names C (gqn_AccountId nreq, gqn_QueueName nreq) = None \<Longrightarrow> refused (GetQueueByName P c nreq) d NotFound"
    and "cg_queues C (qid_AccountId i, qid_QueueId i) = None \<Longrightarrow> refused (GetQueue P c (Some i)) d NotFound"
    and "cg_names C (gs_AccountId sreq, gs_QueueName sreq) = None \<Longrightarrow> refused (GetSchedule P c sreq) d NotFound"
    and "cg_names C (gs_AccountId sreq, gs_QueueName sreq) = Some q \<Longrightarrow> cg_snames C (gs_AccountId sreq, q, gs_ScheduleName sreq) = Some t \<Longrightarrow>
      cg_schedules C (gs_AccountId sreq, q, t) = Some y \<Longrightarrow> GetSchedule P c sreq d = (Inr (Payload y), d)"
proof -
  have C: "good_catalog C" using assms by (simp add: good_queues_def)
  have own: "cg_names C (a, n) = Some q \<Longrightarrow> q_Id (the (cg_queues C (a, q))) = \<lparr> qid_AccountId = a, qid_QueueId = q \<rparr>" for a n q
    using good_names[OF C, of a n q] by force
  note n = name_guards_run(2,4)[of "bs_View (qc_badgerStore c) d", unfolded opened, folded C_def, OF C]
  note run = in_view_def go_run opened C_def[symmetric] n guards_run own refused_def queueNotFoundError_def
  show "cg_names C (gqn_AccountId nreq, gqn_QueueName nreq) = None \<Longrightarrow> refused (GetQueueByName P c nreq) d NotFound"
    by (simp add: GetQueueByName_def run)
  show "cg_queues C (qid_AccountId i, qid_QueueId i) = None \<Longrightarrow> refused (GetQueue P c (Some i)) d NotFound" by (simp add: GetQueue_def run)
  show "cg_names C (gs_AccountId sreq, gs_QueueName sreq) = None \<Longrightarrow> refused (GetSchedule P c sreq) d NotFound"
    "cg_names C (gs_AccountId sreq, gs_QueueName sreq) = Some q \<Longrightarrow> cg_snames C (gs_AccountId sreq, q, gs_ScheduleName sreq) = Some t \<Longrightarrow>
      cg_schedules C (gs_AccountId sreq, q, t) = Some y \<Longrightarrow> GetSchedule P c sreq d = (Inr (Payload y), d)"
    by (simp_all add: GetSchedule_def run)
qed

text \<open>A payload tells which branch a handler took.\<close>

lemma UpdateQueue_payload:
  assumes g: "good_queues (dabs d)" and r: "UpdateQueue P c now req d = (Inr (Payload x'), d')"
  obtains q x where "cg_queues (catalog_of (dabs d)) (uq_AccountId req, q) = Some x" "q_Name x = uq_QueueName req" "q_Version x = uq_ExpectedVersion req"
    "x' = updated_queue now req x" "catalog_of (dabs d') = put_queue x' (catalog_of (dabs d))"
proof (cases rule: names_found[OF good_queues_catalog[OF g], of "uq_AccountId req" "uq_QueueName req"])
  case 1
  then show ?thesis using UpdateQueue_cases(1)[OF g 1, of now] r by (auto simp: refused_def)
next
  case (2 q x)
  note cases = UpdateQueue_cases(2,3)[OF g 2(2,3), of now]
  show ?thesis
  proof (cases "q_Version x = uq_ExpectedVersion req")
    case True
    then show ?thesis using cases(2)[OF True] r that[OF 2(2,3) True] by (auto simp: committed_def)
  qed (use cases(1) r in \<open>auto simp: refused_def\<close>)
qed

lemma DeleteQueue_payload:
  assumes g: "good_queues (dabs d)" and r: "DeleteQueue P c req d = (Inr (Payload i), d')"
  obtains q x where "cg_queues (catalog_of (dabs d)) (dq_AccountId req, q) = Some x" "q_Name x = dq_QueueName req"
    "i = q_Id x" "q_Id x = \<lparr> qid_AccountId = dq_AccountId req, qid_QueueId = q \<rparr>" "catalog_of (dabs d') = remove_queue x (catalog_of (dabs d))"
proof (cases rule: names_found[OF good_queues_catalog[OF g], of "dq_AccountId req" "dq_QueueName req"])
  case 1
  then show ?thesis using DeleteQueue_cases(1)[OF g 1] r by (auto simp: refused_def)
next
  case (2 q x)
  have "q_Id x = \<lparr> qid_AccountId = dq_AccountId req, qid_QueueId = q \<rparr>"
    using goodD(1)[OF good_queues_catalog[OF g]] 2(2) by (simp add: ids_ok_def)
  then show ?thesis using DeleteQueue_cases(2)[OF g 2(2,3)] r that[OF 2(2,3)] by (auto simp: committed_def)
qed

end

lemma due_schedules_sorted:
  assumes "good_catalog C" "finite (cg_due C)"
  shows "sorted (map (\<lambda>y. tw (sch_NextScheduledAt y)) (due_schedules C before))"
proof -
  have fst: "sorted (map fst es)" if "sorted es" for es :: "(uint64 \<times> sref) list"
    using that by (induction es) (auto simp: less_eq_prod_def)
  have "tw (sch_NextScheduledAt (the (cg_schedules C k))) = w" if "(w, k) \<in> set (due_refs_until C before)" for w k
    using that assms(2) goodD(4)[OF assms(1)] by (cases k) (auto simp: due_refs_until_def due_ok_def)
  then have "map (\<lambda>y. tw (sch_NextScheduledAt y)) (due_schedules C before) = map fst (due_refs_until C before)"
    by (auto simp: due_schedules_def)
  then show ?thesis by (simp add: fst due_refs_until_def sorted_filter[of id, simplified])
qed

context queues_store
begin

lemma finite_due: "good_queues (dabs d) \<Longrightarrow> finite (cg_due (catalog_of (dabs d)))"
  using due_range_run(2)[of "bs_View (qc_badgerStore c) d"] by (simp add: good_queues_def opened)

end

section \<open>Facts of the reference run\<close>

lemma tw_160: "tw 160 \<le> tw 200"
  by (simp add: tw_def)



section \<open>Reusing an id\<close>

text \<open>The collision check of CreateQueue looks at the queues only.  A queue
  created under an id whose earlier owner awaits collection is stored with a
  schedule count of zero beside the schedules of that owner, which the next
  sweep deletes from under it: the catalog is not consistent any more.\<close>

lemma reused_id_inherits_schedules:
  "\<exists>d'. CreateQueue refP refQC0 300 mail_queue q_gone = (Inr (Payload (mail\<lparr> q_CreatedAt := 300, q_UpdatedAt := 300 \<rparr>)), d') \<and>
    cg_schedules (catalog_of (ref_qabs d')) (1, 2, 3) = Some daily_schedule \<and> \<not> good_queues (ref_qabs d')"
proof -
  let ?x = "mail\<lparr> q_CreatedAt := 300, q_UpdatedAt := 300 \<rparr>"
  have x: "new_queue 300 mail_queue \<lparr> qid_AccountId = 1, qid_QueueId = 2 \<rparr> = ?x" by (simp add: mail_def new_queue_def)
  have n: "qc_NumberOfQueues (cg_counters (catalog_of (ref_qabs q_gone)) 1) = 0"
    by (simp add: gone_state(3) remove_queue_def sched_catalog)
  have "queues_store.committed ref_qabs (CreateQueue refP refQC0 300 mail_queue) q_gone (Payload ?x) (add_queue ?x (catalog_of (ref_qabs q_gone)))"
    using queues_store.CreateQueue_cases(4)[OF ref_queues_store gone_state(2), of mail_queue "\<lparr> qid_AccountId = 1, qid_QueueId = 2 \<rparr>" 300] n
    unfolding x by (simp add: mail_queue_def gone_catalog)
  then obtain d' where d': "CreateQueue refP refQC0 300 mail_queue q_gone = (Inr (Payload ?x), d')"
    "catalog_of (ref_qabs d') = add_queue ?x (catalog_of (ref_qabs q_gone))"
    unfolding queues_store.committed_def[OF ref_queues_store] by blast
  have "\<not> gc_ok (add_queue ?x (catalog_of (ref_qabs q_gone)))"
    by (auto simp: gc_ok_def add_queue_def gone_catalog)
  then show ?thesis using d' by (simp add: good_queues_def good_catalog_def) (simp add: add_queue_def gone_catalog)
qed

section \<open>The invariant along every run\<close>



section \<open>Queues\<close>

definition queue_refusal :: "catalog \<Rightarrow> CreateQueueRequest \<Rightarrow> QueueId \<Rightarrow> mrpc_ErrorCode option" where
  "queue_refusal C req i =
    (if cg_names C (qid_AccountId i, cq_Name req) \<noteq> None then Some AlreadyExists
     else if cq_MaxNumberOfQueues req \<le> i64 (int (queue_count C (qid_AccountId i))) then Some ResourceExhausted
     else if cg_queues C (qid_AccountId i, qid_QueueId i) \<noteq> None then Some IDCollision
     else None)"

text \<open>C33.  CreateQueue refuses exactly when the name is taken, the account
  has as many queues as it may, or the id is taken, in this order, and a
  refusal changes nothing; otherwise it adds the queue the request describes,
  at version 1, and the queue is found under its name at once.\<close>

theorem create_queue_outcome:
  assumes "queues_store P c qabs dabs" "good_queues (dabs d)" "cq_QueueId req = Some i"
  shows "case queue_refusal (catalog_of (dabs d)) req i of
      Some code \<Rightarrow> refused (CreateQueue P c now req) d code
    | None \<Rightarrow> (\<exists>d'. CreateQueue P c now req d = (Inr (Payload (new_queue now req i)), d') \<and>
        catalog_of (dabs d') = add_queue (new_queue now req i) (catalog_of (dabs d)) \<and>
        GetQueueByName P c \<lparr> gqn_AccountId = qid_AccountId i, gqn_QueueName = cq_Name req \<rparr> d' = (Inr (Payload (new_queue now req i)), d'))"
proof -
  let ?C = "catalog_of (dabs d)" and ?x = "new_queue now req i" and ?a = "qid_AccountId i" and ?q = "qid_QueueId i"
  note cases = queues_store.CreateQueue_cases[OF assms, where now = now] and n = counted(1)[OF good_queues_catalog[OF assms(2)], of ?a]
  show ?thesis
  proof (cases "queue_refusal ?C req i")
    case None
    then have v: "cg_names ?C (?a, cq_Name req) = None" "qc_NumberOfQueues (cg_counters ?C ?a) < cq_MaxNumberOfQueues req" "cg_queues ?C (?a, ?q) = None"
      using n by (auto simp: queue_refusal_def split: if_splits)
    from cases(4)[OF v] obtain d' where d': "CreateQueue P c now req d = (Inr (Payload ?x), d')" "catalog_of (dabs d') = add_queue ?x ?C"
      unfolding queues_store.committed_def[OF assms(1)] by blast
    have "GetQueueByName P c \<lparr> gqn_AccountId = ?a, gqn_QueueName = cq_Name req \<rparr> d' = (Inr (Payload ?x), d')"
      by (rule queues_store.GetQueueByName_found[OF assms(1), where q = ?q]) (simp_all add: d'(2) add_queue_def new_queue_def Let_def)
    then show ?thesis using None d' by simp
  next
    case (Some code)
    then show ?thesis using cases(1-3) n by (auto simp: queue_refusal_def split: if_splits)
  qed
qed

theorem create_queue_outcome_witness:
  "\<exists>d'. CreateQueue refP refQC0 100 mail_queue [] = (Inr (Payload mail), d') \<and> catalog_of (ref_qabs d') = add_queue mail empty_catalog \<and>
    GetQueueByName refP refQC0 \<lparr> gqn_AccountId = 1, gqn_QueueName = ''mail'' \<rparr> d' = (Inr (Payload mail), d')"
proof -
  have v: "queue_refusal (catalog_of (ref_qabs [])) mail_queue \<lparr> qid_AccountId = 1, qid_QueueId = 2 \<rparr> = None"
    by (simp add: queue_refusal_def empty_catalog_def mail_queue_def row_count_def)
  have i: "cq_QueueId mail_queue = Some \<lparr> qid_AccountId = 1, qid_QueueId = 2 \<rparr>" "cq_Name mail_queue = ''mail''" by (simp_all add: mail_queue_def)
  show ?thesis
    using create_queue_outcome[OF ref_queues_store good_queues_empty i(1), of 100] unfolding v i(2) by (simp flip: mail_def)
qed

text \<open>C34.  No update is lost: once an UpdateQueue with some expected version
  has succeeded, the version has moved on, and any other update that expects
  the same version is refused and changes nothing.\<close>

theorem stale_update_refused:
  assumes "queues_store P c qabs dabs" "good_queues (dabs d)" "UpdateQueue P c now req d = (Inr (Payload x'), d')"
    and "uq_AccountId req' = uq_AccountId req" "uq_QueueName req' = uq_QueueName req" "uq_ExpectedVersion req' = uq_ExpectedVersion req"
  shows "q_Version x' = i64 (uq_ExpectedVersion req + 1) \<and> refused (UpdateQueue P c now' req') d' InvalidRequest"
proof -
  obtain q x where x: "cg_queues (catalog_of (dabs d)) (uq_AccountId req, q) = Some x" "q_Name x = uq_QueueName req"
    "q_Version x = uq_ExpectedVersion req" "x' = updated_queue now req x" "catalog_of (dabs d') = put_queue x' (catalog_of (dabs d))"
    by (rule queues_store.UpdateQueue_payload[OF assms(1-3)])
  have id: "q_Id x = \<lparr> qid_AccountId = uq_AccountId req, qid_QueueId = q \<rparr>"
    using goodD(1)[OF good_queues_catalog[OF assms(2)]] x(1) by (simp add: ids_ok_def)
  have g: "good_queues (dabs d')" using queues_store.queue_steps(2)[OF assms(1,2), of now req] assms(3) by simp
  have v: "q_Version x' = i64 (uq_ExpectedVersion req + 1)" using x(3,4) by (simp add: updated_queue_def)
  have "refused (UpdateQueue P c now' req') d' InvalidRequest"
    by (rule queues_store.UpdateQueue_cases(2)[OF assms(1) g, where q = q and x = x'])
       (use assms(4-6) x id v i64_suc_neq in \<open>simp_all add: put_queue_def updated_queue_def\<close>)
  then show ?thesis using v by simp
qed

definition edit_mail :: UpdateQueueRequest where
  "edit_mail = \<lparr> uq_AccountId = 1, uq_QueueName = ''mail'', uq_Description = ''letters'', uq_KeepaliveTimeoutInSeconds = 30, uq_RetryStrategy = None,
     uq_DequeuingSettings = None, uq_DeadLetterQueueConfig = None, uq_ExpiresInSeconds = 60, uq_ExpectedVersion = 1 \<rparr>"

theorem stale_update_refused_witness:
  "refused (UpdateQueue refP refQC0 300 edit_mail) (snd (UpdateQueue refP refQC0 200 edit_mail q_made)) InvalidRequest"
proof -
  have "queues_store.committed ref_qabs (UpdateQueue refP refQC0 200 edit_mail) q_made (Payload (updated_queue 200 edit_mail mail))
      (put_queue (updated_queue 200 edit_mail mail) (catalog_of (ref_qabs q_made)))"
    by (rule queues_store.UpdateQueue_cases(3)[OF ref_queues_store made_state(2)]) (simp_all add: made_catalog edit_mail_def)
  then obtain d' where d': "UpdateQueue refP refQC0 200 edit_mail q_made = (Inr (Payload (updated_queue 200 edit_mail mail)), d')"
    unfolding queues_store.committed_def[OF ref_queues_store] by blast
  from stale_update_refused[OF ref_queues_store made_state(2) this refl refl refl] show ?thesis using d' by simp
qed






section \<open>Schedules\<close>

definition schedule_refusal :: "catalog \<Rightarrow> CreateScheduleRequest \<Rightarrow> uint64 \<Rightarrow> mrpc_ErrorCode option" where
  "schedule_refusal C req q =
    (if cg_schedules C (cs_AccountId req, q, cs_ScheduleId req) \<noteq> None then Some IDCollision
     else if cs_MaxNumberOfSchedulesPerQueue req \<le> i64 (int (schedule_count C (cs_AccountId req, q))) then Some ResourceExhausted
     else if cg_snames C (cs_AccountId req, q, cs_ScheduleName req) \<noteq> None then Some AlreadyExists
     else None)"

text \<open>C36.  CreateSchedule in an existing queue refuses exactly when the id is
  taken, the queue has as many schedules as it may, or the name is taken, in
  this order; it fails, changing nothing, when the cron expression or the time
  zone is not understood; otherwise the schedule is stored with its next tick,
  counted in its queue, and found under its name at once.\<close>

theorem create_schedule_outcome:
  assumes "queues_store P c qabs dabs" "good_queues (dabs d)"
    and "cg_queues (catalog_of (dabs d)) (cs_AccountId req, q) = Some x" "q_Name x = cs_QueueName req"
  shows "case schedule_refusal (catalog_of (dabs d)) req q of
      Some code \<Rightarrow> refused (CreateSchedule cron P c now req) d code
    | None \<Rightarrow> (case tick_of cron (cs_Timezone req) (cs_Cron req) now of
        Inl e \<Rightarrow> CreateSchedule cron P c now req d = (Inl e, d)
      | Inr tick \<Rightarrow> (\<exists>d'. CreateSchedule cron P c now req d = (Inr (Payload (new_schedule now req q tick)), d') \<and>
          catalog_of (dabs d') = count_schedules (cs_AccountId req, q) 1 (add_schedule (new_schedule now req q tick) (catalog_of (dabs d))) \<and>
          GetSchedule P c \<lparr> gs_AccountId = cs_AccountId req, gs_QueueName = cs_QueueName req, gs_ScheduleName = cs_ScheduleName req \<rparr> d' =
            (Inr (Payload (new_schedule now req q tick)), d')))"
proof -
  let ?C = "catalog_of (dabs d)" and ?a = "cs_AccountId req"
  note cases = queues_store.CreateSchedule_cases(2-5)[OF assms(1,2) assms(3,4), where cron = cron and now = now]
    and n = counted(2)[OF good_queues_catalog[OF assms(2)] assms(3)]
  show ?thesis
  proof (cases "schedule_refusal ?C req q")
    case (Some code)
    then show ?thesis using cases(1-3) n by (auto simp: schedule_refusal_def split: if_splits)
  next
    case None
    then have v: "cg_schedules ?C (?a, q, cs_ScheduleId req) = None" "q_SchedulesCount x < cs_MaxNumberOfSchedulesPerQueue req"
      "cg_snames ?C (?a, q, cs_ScheduleName req) = None"
      using n by (auto simp: schedule_refusal_def split: if_splits)
    show ?thesis
    proof (cases "tick_of cron (cs_Timezone req) (cs_Cron req) now")
      case (Inl e)
      then show ?thesis using None queues_store.bad_cron_fails(1)[OF assms(1,2) assms(3,4) v Inl] by simp
    next
      case (Inr tick)
      let ?y = "new_schedule now req q tick"
      from cases(4)[OF v Inr] obtain d' where d': "CreateSchedule cron P c now req d = (Inr (Payload ?y), d')"
        "catalog_of (dabs d') = count_schedules (?a, q) 1 (add_schedule ?y ?C)"
        unfolding queues_store.committed_def[OF assms(1)] by blast
      have g: "good_queues (dabs d')" using queues_store.CreateSchedule_step[OF assms(1,2), of cron now req] d'(1) by simp
      have nm: "cg_names ?C (?a, cs_QueueName req) = Some q"
        using names_iff[OF goodD(2)[OF good_queues_catalog[OF assms(2)]]] assms(3,4) by blast
      have "GetSchedule P c \<lparr> gs_AccountId = ?a, gs_QueueName = cs_QueueName req, gs_ScheduleName = cs_ScheduleName req \<rparr> d' = (Inr (Payload ?y), d')"
        by (rule queues_store.reads_run(4)[OF assms(1) g, where q = q and t = "cs_ScheduleId req"])
           (simp_all add: d'(2) count_schedules_def add_schedule_def new_schedule_def nm)
      then show ?thesis using None Inr d' by simp
    qed
  qed
qed

theorem create_schedule_outcome_witness:
  "\<exists>d'. CreateSchedule refCron refP refQC0 100 daily q_made = (Inr (Payload daily_schedule), d') \<and>
    GetSchedule refP refQC0 \<lparr> gs_AccountId = 1, gs_QueueName = ''mail'', gs_ScheduleName = ''daily'' \<rparr> d' = (Inr (Payload daily_schedule), d')"
proof -
  have v: "schedule_refusal (catalog_of (ref_qabs q_made)) daily 2 = None"
    by (simp add: schedule_refusal_def made_catalog sub_count_def)
  have t: "tick_of refCron (cs_Timezone daily) (cs_Cron daily) 100 = Inr 160" by (simp add: tick_of_def refCron_def)
  show ?thesis
    using create_schedule_outcome[OF ref_queues_store made_state(2), of daily 2 mail refCron 100] unfolding v t
    by (auto simp: made_catalog simp flip: daily_schedule_def)
qed

text \<open>C37.  While no deleted queue awaits collection, DequeSchedules answers the
  first 250 schedules due at the given time, in the order of their next tick,
  each with its queue; due are exactly the schedules whose next tick is not
  after that time.\<close>

theorem deque_schedules_exact:
  assumes "queues_store P c qabs dabs" "good_queues (dabs d)" "cg_gc (catalog_of (dabs d)) = Map.empty"
  shows "\<exists>es. DequeSchedules P c before d = (Inr (Payload es), d) \<and>
    map dse_Schedule es = take 250 (due_schedules (catalog_of (dabs d)) before) \<and>
    (\<forall>e \<in> set es. cg_queues (catalog_of (dabs d)) (sch_acc (dse_Schedule e), sch_que (dse_Schedule e)) = Some (dse_Queue e)) \<and>
    set (due_schedules (catalog_of (dabs d)) before) =
      {y. \<exists>k. cg_schedules (catalog_of (dabs d)) k = Some y \<and> tw (sch_NextScheduledAt y) \<le> tw before} \<and>
    sorted (map (\<lambda>y. tw (sch_NextScheduledAt y)) (due_schedules (catalog_of (dabs d)) before))"
proof -
  let ?C = "catalog_of (dabs d)"
  note g = good_queues_catalog[OF assms(2)] and fin = queues_store.finite_due[OF assms(1,2)]
  have q: "cg_queues ?C (sch_acc y, sch_que y) \<noteq> None" if y: "y \<in> set (take 250 (due_schedules ?C before))" for y
  proof -
    obtain a q t where "cg_schedules ?C (a, q, t) = Some y" using in_set_takeD[OF y] due_schedules_set[OF g fin] by auto
    then show ?thesis using good_no_orphans[OF g, of a q t] goodD(1)[OF g] assms(3) by (auto simp: ids_ok_def)
  qed
  let ?es = "map (with_queue ?C) (take 250 (due_schedules ?C before))"
  have "DequeSchedules P c before d = (Inr (Payload ?es), d)" using queues_store.DequeSchedules_run[OF assms(1,2), of before] q by auto
  moreover have "map dse_Schedule ?es = take 250 (due_schedules ?C before)" by (simp add: with_queue_def comp_def)
  moreover have "\<forall>e \<in> set ?es. cg_queues ?C (sch_acc (dse_Schedule e), sch_que (dse_Schedule e)) = Some (dse_Queue e)"
    using q by (auto simp: with_queue_def)
  ultimately show ?thesis using due_schedules_set[OF g fin] due_schedules_sorted[OF g fin] by blast
qed

theorem deque_schedules_exact_witness:
  "DequeSchedules refP refQC0 200 q_sched = (Inr (Payload [\<lparr> dse_Schedule = daily_schedule, dse_Queue = mail1 \<rparr>]), q_sched)"
proof -
  have due: "due_schedules (catalog_of (ref_qabs q_sched)) 200 = [daily_schedule]"
    by (simp add: due_schedules_def due_refs_until_def sched_catalog tw_160)
  have one: "es = [\<lparr> dse_Schedule = daily_schedule, dse_Queue = mail1 \<rparr>]"
    if "map dse_Schedule es = [daily_schedule]" "\<forall>e \<in> set es. [(1, 2) \<mapsto> mail1] (sch_acc (dse_Schedule e), sch_que (dse_Schedule e)) = Some (dse_Queue e)" for es
    using that by (cases es) auto
  show ?thesis
    using deque_schedules_exact[OF ref_queues_store sched_state(2) sched_catalog(6), of 200] unfolding due sched_catalog(1) by (auto dest: one)
qed





end
