(* ===== verification/Corepb_Requests.thy ===== *)
theory Corepb_Requests
  imports Queues_Core Tasks_Core
begin

text \<open>
  The methods of the request messages: \<open>Validate\<close>
  (\<open>pkg/corepb/validators.go\<close>) and \<open>ShardKey\<close> (\<open>pkg/corepb/sharding.go\<close>).
  A validation result is the text of the first error, or \<open>None\<close>.  A
  message with a single field is represented by that field, as in the cores.
  \<open>strconv.Quote\<close>, behind the verb \<open>%q\<close>, is the parameter \<open>quote\<close>.
\<close>

section \<open>Checks in sequence\<close>

definition check :: "bool \<Rightarrow> string \<Rightarrow> string option" where
  "check bad err = (if bad then Some err else None)"

fun checks :: "string option list \<Rightarrow> string option" where
  "checks [] = None"
| "checks (c # cs) = (case c of Some err \<Rightarrow> Some err | None \<Rightarrow> checks cs)"

text \<open>The loop \<open>for i, e := range\<close> that returns at the first error.\<close>

fun check_each :: "(nat \<Rightarrow> 'a \<Rightarrow> string option) \<Rightarrow> nat \<Rightarrow> 'a list \<Rightarrow> string option" where
  "check_each f i [] = None"
| "check_each f i (x # xs) = (case f i x of Some err \<Rightarrow> Some err | None \<Rightarrow> check_each f (Suc i) xs)"

text \<open>\<open>fmt.Errorf("Entries[%d].%w", i, err)\<close>.\<close>

definition at_entry :: "nat \<Rightarrow> string option \<Rightarrow> string option" where
  "at_entry i r = map_option (\<lambda>err. ''Entries['' @ fmt_nat i @ ''].'' @ err) r"

section \<open>Bounds\<close>

definition maxKeepaliveTimeoutInSeconds :: int where "maxKeepaliveTimeoutInSeconds = 60"
definition minKeepaliveTimeoutInSeconds :: int where "minKeepaliveTimeoutInSeconds = 5"
definition maxExpiresTimeoutInSeconds :: int where "maxExpiresTimeoutInSeconds = 14 * 86400"
definition minExpiresTimeoutInSeconds :: int where "minExpiresTimeoutInSeconds = 60"
definition maxDLQRetentionPeriod :: int where "maxDLQRetentionPeriod = 14 * 86400"
definition maxPayloadSize :: nat where "maxPayloadSize = 64 * 1024"
definition maxNumberOfRetryIntervalsInSeconds :: nat where "maxNumberOfRetryIntervalsInSeconds = 21"
definition maxRetryIntervalInSeconds :: int where "maxRetryIntervalInSeconds = 60 * 15"
definition maxNumberOfTaskIds :: nat where "maxNumberOfTaskIds = 50"
definition maxNumberOfEnqueueRequestEntries :: nat where "maxNumberOfEnqueueRequestEntries = 50"
definition maxNumberOfReportStatusEntries :: nat where "maxNumberOfReportStatusEntries = 50"

section \<open>Parts of messages\<close>

definition validateQueueId :: "QueueId option \<Rightarrow> string option" where
  "validateQueueId v = (case v of None \<Rightarrow> Some ''QueueId must be set''
     | Some i \<Rightarrow> check (qid_QueueId i = 0) ''QueueId.QueueId must be positive'')"

definition validateTaskId :: "TaskId option \<Rightarrow> string option" where
  "validateTaskId v = (case v of None \<Rightarrow> Some ''TaskId must be set''
     | Some i \<Rightarrow> checks [check (tid_QueueId i = 0) ''TaskId.QueueId must be positive'',
         check (tid_TaskId i = 0) ''TaskId.TaskId must be positive''])"

definition validateScheduleId :: "ScheduleId option \<Rightarrow> string option" where
  "validateScheduleId v = (case v of None \<Rightarrow> Some ''ScheduleId must be set''
     | Some i \<Rightarrow> checks [check (sid_QueueId i = 0) ''ScheduleId.QueueId must be positive'',
         check (sid_ScheduleId i = 0) ''ScheduleId.ScheduleId must be positive''])"

definition validateExpiresInSeconds :: "int \<Rightarrow> string option" where
  "validateExpiresInSeconds v = check (v < minExpiresTimeoutInSeconds \<or> v > maxExpiresTimeoutInSeconds)
     (''ExpiresInSeconds must be between '' @ fmt_int minExpiresTimeoutInSeconds @ '' and '' @
      fmt_int maxExpiresTimeoutInSeconds @ '' seconds'')"

definition validateKeepaliveTimeoutInSeconds :: "int \<Rightarrow> string option" where
  "validateKeepaliveTimeoutInSeconds v = check (v < minKeepaliveTimeoutInSeconds \<or> v > maxKeepaliveTimeoutInSeconds)
     (''KeepaliveTimeoutInSeconds must be between '' @ fmt_int minKeepaliveTimeoutInSeconds @ '' and '' @
      fmt_int maxKeepaliveTimeoutInSeconds @ '' seconds'')"

definition validateRetryStrategy :: "RetryStrategy option \<Rightarrow> string option" where
  "validateRetryStrategy v = (case v of None \<Rightarrow> None
     | Some rs \<Rightarrow> checks
        [check (length (rs_RetryIntervalsInSeconds rs) > maxNumberOfRetryIntervalsInSeconds)
           (''RetryStrategy.RetryIntervalsInSeconds exceeds max length ('' @ fmt_nat maxNumberOfRetryIntervalsInSeconds @ '')''),
         check_each (\<lambda>i interval. check (interval < 0 \<or> interval > maxRetryIntervalInSeconds)
           (''RetryStrategy.RetryIntervalsInSeconds['' @ fmt_nat i @ ''] must be between 0 and '' @
            fmt_int maxRetryIntervalInSeconds @ '' seconds'')) 0 (rs_RetryIntervalsInSeconds rs)])"

definition validateDequeuingSettings :: "DequeuingSettings option \<Rightarrow> string option" where
  "validateDequeuingSettings v = (case v of None \<Rightarrow> None
     | Some ds \<Rightarrow> checks
        [check (ds_MaxInProgressTasks ds < 0) ''DequeuingSettings.MaxInProgressTasks must be non-negative'',
         (case ds_RateLimiting ds of None \<Rightarrow> None
          | Some r \<Rightarrow> checks
             [check (tb_Interval r < 0) ''DequeuingSettings.RateLimiting.Interval must be non-negative'',
              check (tb_MaxTokens r < 0) ''DequeuingSettings.RateLimiting.MaxTokens must be non-negative'',
              (case tb_IntervalUnit r of INTERVAL_UNIT_SECONDS \<Rightarrow> None | INTERVAL_UNIT_MINUTES \<Rightarrow> None
               | INTERVAL_UNIT_HOURS \<Rightarrow> None
               | _ \<Rightarrow> Some ''DequeuingSettings.RateLimiting.IntervalUnit: unrecognized value'')])])"

definition validateDeadLetterQueueConfig :: "DeadLetterQueueConfig option \<Rightarrow> string option" where
  "validateDeadLetterQueueConfig v = (case v of None \<Rightarrow> None
     | Some cfg \<Rightarrow> checks
        [check (dlq_MaxSize cfg < 0) ''DeadLetterQueueConfig.MaxSize must be non-negative'',
         check (dlq_RetentionPeriodInSeconds cfg < minExpiresTimeoutInSeconds \<or>
                dlq_RetentionPeriodInSeconds cfg > maxDLQRetentionPeriod)
           (''DeadLetterQueueConfig.RetentionPeriodInSeconds must be between '' @ fmt_int minExpiresTimeoutInSeconds @
            '' and '' @ fmt_int maxDLQRetentionPeriod @ '' seconds'')])"

section \<open>Requests of the queues core\<close>

definition CreateQueueRequest_Validate :: "CreateQueueRequest \<Rightarrow> string option" where
  "CreateQueueRequest_Validate r = checks [validateQueueId (cq_QueueId r), validateExpiresInSeconds (cq_ExpiresInSeconds r),
     validateKeepaliveTimeoutInSeconds (cq_KeepaliveTimeoutInSeconds r), validateRetryStrategy (cq_RetryStrategy r),
     validateDequeuingSettings (cq_DequeuingSettings r), validateDeadLetterQueueConfig (cq_DeadLetterQueueConfig r)]"

definition CreateScheduleRequest_Validate ::
  "cron_pkg \<Rightarrow> (string \<Rightarrow> string) \<Rightarrow> CreateScheduleRequest \<Rightarrow> string option" where
  "CreateScheduleRequest_Validate cron quote r = checks
    [check (\<not> gronx_IsValid cron (cs_Cron r)) (''invalid cron expression: '' @ quote (cs_Cron r)),
     (case LoadLocation cron (cs_Timezone r) of Inl _ \<Rightarrow> Some (''invalid timezone: '' @ quote (cs_Timezone r)) | Inr _ \<Rightarrow> None),
     (if cs_ExpiresInSeconds r \<noteq> 0 then validateExpiresInSeconds (cs_ExpiresInSeconds r) else None),
     validateRetryStrategy (cs_RetryStrategy r),
     check (length (cs_Payload r) > maxPayloadSize) (''Payload exceeds max size ('' @ fmt_nat maxPayloadSize @ '' bytes)'')]"

definition DeleteQueueRequest_Validate :: "DeleteQueueRequest \<Rightarrow> string option" where
  "DeleteQueueRequest_Validate r = None"

definition DeleteScheduleRequest_Validate :: "DeleteScheduleRequest \<Rightarrow> string option" where
  "DeleteScheduleRequest_Validate r = None"

definition DequeSchedulesRequest_Validate :: "int \<Rightarrow> string option" where
  "DequeSchedulesRequest_Validate dueBefore = None"

definition GetQueueRequest_Validate :: "QueueId option \<Rightarrow> string option" where
  "GetQueueRequest_Validate queueId = validateQueueId queueId"

definition GetQueueByNameRequest_Validate :: "GetQueueByNameRequest \<Rightarrow> string option" where
  "GetQueueByNameRequest_Validate r = None"

definition GetScheduleRequest_Validate :: "GetScheduleRequest \<Rightarrow> string option" where
  "GetScheduleRequest_Validate r = None"

definition ListQueuesRequest_Validate :: "ListQueuesRequest \<Rightarrow> string option" where
  "ListQueuesRequest_Validate r = None"

definition ListSchedulesRequest_Validate :: "ListSchedulesRequest \<Rightarrow> string option" where
  "ListSchedulesRequest_Validate r = validateQueueId (ls_QueueId r)"

definition ReportSchedulesStatusRequest_Validate :: "ReportSchedulesStatusRequest \<Rightarrow> string option" where
  "ReportSchedulesStatusRequest_Validate r = checks [validateScheduleId (rss_ScheduleId r),
     check (rss_NextScheduledAt r < 0) ''NextScheduledAt must be non-negative'',
     check (rss_LastEnqueuedFor r < 0) ''LastEnqueuedFor must be non-negative'']"

definition RunQueuesGarbageCollectionRequest_Validate :: "RunQueuesGarbageCollectionRequest \<Rightarrow> string option" where
  "RunQueuesGarbageCollectionRequest_Validate r = None"

definition SwapQueueIdRequest_Validate :: "SwapQueueIdRequest \<Rightarrow> string option" where
  "SwapQueueIdRequest_Validate r = None"

definition UpdateQueueRequest_Validate :: "UpdateQueueRequest \<Rightarrow> string option" where
  "UpdateQueueRequest_Validate r = checks [validateExpiresInSeconds (uq_ExpiresInSeconds r),
     validateKeepaliveTimeoutInSeconds (uq_KeepaliveTimeoutInSeconds r), validateRetryStrategy (uq_RetryStrategy r),
     validateDequeuingSettings (uq_DequeuingSettings r), validateDeadLetterQueueConfig (uq_DeadLetterQueueConfig r)]"

definition UpdateScheduleRequest_Validate ::
  "cron_pkg \<Rightarrow> (string \<Rightarrow> string) \<Rightarrow> UpdateScheduleRequest \<Rightarrow> string option" where
  "UpdateScheduleRequest_Validate cron quote r = checks
    [check (\<not> gronx_IsValid cron (us_Cron r)) (''invalid cron expression: '' @ quote (us_Cron r)),
     (case LoadLocation cron (us_Timezone r) of Inl _ \<Rightarrow> Some (''invalid timezone: '' @ quote (us_Timezone r)) | Inr _ \<Rightarrow> None),
     (if us_ExpiresInSeconds r \<noteq> 0 then validateExpiresInSeconds (us_ExpiresInSeconds r) else None),
     validateRetryStrategy (us_RetryStrategy r),
     check (length (us_Payload r) > maxPayloadSize) (''Payload exceeds max size ('' @ fmt_nat maxPayloadSize @ '' bytes)'')]"

section \<open>Requests of the tasks core\<close>

definition DeleteTasksRequest_Validate :: "DeleteTasksRequest \<Rightarrow> string option" where
  "DeleteTasksRequest_Validate r = checks [validateQueueId (dt_QueueId r),
     check (length (dt_TaskIds r) > maxNumberOfTaskIds) (''TaskIds exceeds max length ('' @ fmt_nat maxNumberOfTaskIds @ '')'')]"

definition DequeueRequest_Validate :: "DequeueRequest \<Rightarrow> string option" where
  "DequeueRequest_Validate r = checks [validateQueueId (deq_QueueId r), validateDequeuingSettings (deq_DequeuingSettings r),
     validateDeadLetterQueueConfig (deq_DeadLetterQueueConfig r),
     (if deq_KeepaliveTimeoutInSeconds r \<noteq> 0 then validateKeepaliveTimeoutInSeconds (deq_KeepaliveTimeoutInSeconds r) else None)]"

definition EnqueueRequest_Validate :: "EnqueueRequest \<Rightarrow> string option" where
  "EnqueueRequest_Validate r = checks [validateQueueId (enq_QueueId r),
     check (length (enq_Entries r) > maxNumberOfEnqueueRequestEntries)
       (''Entries exceeds max number of entries ('' @ fmt_nat maxNumberOfEnqueueRequestEntries @ '')''),
     check_each (\<lambda>i e. at_entry i (checks
       [check (ent_ScheduledAt e < 0) ''ScheduledAt must be non-negative'',
        check (ent_ExpiresAt e < 0) ''ExpiresAt must be non-negative'',
        validateRetryStrategy (ent_RetryStrategy e),
        check (length (ent_Payload e) > maxPayloadSize)
          (''Payload exceeds max payload size ('' @ fmt_nat maxPayloadSize @ '' bytes)'')])) 0 (enq_Entries r)]"

definition GetStatisticsRequest_Validate :: "QueueId option \<Rightarrow> string option" where
  "GetStatisticsRequest_Validate queueId = validateQueueId queueId"

definition GetTaskRequest_Validate :: "TaskId option \<Rightarrow> string option" where
  "GetTaskRequest_Validate taskId = validateTaskId taskId"

definition ListTasksRequest_Validate :: "ListTasksRequest \<Rightarrow> string option" where
  "ListTasksRequest_Validate r = validateQueueId (lt_QueueId r)"

definition PurgeQueueRequest_Validate :: "QueueId option \<Rightarrow> string option" where
  "PurgeQueueRequest_Validate queueId = validateQueueId queueId"

definition ReportStatusRequest_Validate :: "ReportStatusRequest \<Rightarrow> string option" where
  "ReportStatusRequest_Validate r = checks
    [check (length (rsq_Entries r) > maxNumberOfReportStatusEntries)
       (''Entries exceeds max number of entries ('' @ fmt_nat maxNumberOfReportStatusEntries @ '')''),
     check_each (\<lambda>i e. at_entry i (checks [validateTaskId (rse_TaskId e),
       (if rse_KeepaliveTimeoutInSeconds e \<noteq> 0 then validateKeepaliveTimeoutInSeconds (rse_KeepaliveTimeoutInSeconds e) else None)]))
       0 (rsq_Entries r),
     validateDeadLetterQueueConfig (rsq_DeadLetterQueueConfig r)]"

definition RestartTasksRequest_Validate :: "RestartTasksRequest \<Rightarrow> string option" where
  "RestartTasksRequest_Validate r = checks [validateQueueId (rt_QueueId r),
     check (length (rt_Entries r) > maxNumberOfTaskIds) (''Entries exceeds max length ('' @ fmt_nat maxNumberOfTaskIds @ '')''),
     check_each (\<lambda>i e. at_entry i (checks
       [check (rte_ScheduledAt e < 0) ''ScheduledAt must be non-negative'',
        check (rte_ExpiresAt e < 0) ''ExpiresAt must be non-negative''])) 0 (rt_Entries r)]"

definition RunPurgeQueueGarbageCollectionRequest_Validate :: "RunPurgeQueueGarbageCollectionRequest \<Rightarrow> string option" where
  "RunPurgeQueueGarbageCollectionRequest_Validate r = None"

definition RunTasksGarbageCollectionRequest_Validate :: "RunTasksGarbageCollectionRequest \<Rightarrow> string option" where
  "RunTasksGarbageCollectionRequest_Validate r = None"

section \<open>Shard keys\<close>

text \<open>A key that goes through an id which is not set panics.\<close>

definition through :: "('i \<Rightarrow> ShardKey) \<Rightarrow> 'i option \<Rightarrow> goerr + ShardKey" where
  "through key v = (case v of None \<Rightarrow> Inl (Panic ''nil pointer dereference'') | Some i \<Rightarrow> Inr (key i))"

definition CreateQueueRequest_ShardKey :: "pkgs \<Rightarrow> CreateQueueRequest \<Rightarrow> goerr + ShardKey" where
  "CreateQueueRequest_ShardKey P r = through (\<lambda>i. ByAccount P (qid_AccountId i)) (cq_QueueId r)"

definition CreateScheduleRequest_ShardKey :: "pkgs \<Rightarrow> CreateScheduleRequest \<Rightarrow> goerr + ShardKey" where
  "CreateScheduleRequest_ShardKey P r = Inr (ByAccount P (cs_AccountId r))"

definition DeleteQueueRequest_ShardKey :: "pkgs \<Rightarrow> DeleteQueueRequest \<Rightarrow> goerr + ShardKey" where
  "DeleteQueueRequest_ShardKey P r = Inr (ByAccount P (dq_AccountId r))"

definition DeleteScheduleRequest_ShardKey :: "pkgs \<Rightarrow> DeleteScheduleRequest \<Rightarrow> goerr + ShardKey" where
  "DeleteScheduleRequest_ShardKey P r = Inr (ByAccount P (dsr_AccountId r))"

definition DeleteTasksRequest_ShardKey :: "pkgs \<Rightarrow> DeleteTasksRequest \<Rightarrow> goerr + ShardKey" where
  "DeleteTasksRequest_ShardKey P r = through (\<lambda>i. ByAccountAndQueue P (qid_AccountId i) (qid_QueueId i)) (dt_QueueId r)"

definition DequeueRequest_ShardKey :: "pkgs \<Rightarrow> DequeueRequest \<Rightarrow> goerr + ShardKey" where
  "DequeueRequest_ShardKey P r = through (\<lambda>i. ByAccountAndQueue P (qid_AccountId i) (qid_QueueId i)) (deq_QueueId r)"

definition EnqueueRequest_ShardKey :: "pkgs \<Rightarrow> EnqueueRequest \<Rightarrow> goerr + ShardKey" where
  "EnqueueRequest_ShardKey P r = through (\<lambda>i. ByAccountAndQueue P (qid_AccountId i) (qid_QueueId i)) (enq_QueueId r)"

definition GetQueueRequest_ShardKey :: "pkgs \<Rightarrow> QueueId option \<Rightarrow> goerr + ShardKey" where
  "GetQueueRequest_ShardKey P queueId = through (\<lambda>i. ByAccount P (qid_AccountId i)) queueId"

definition GetQueueByNameRequest_ShardKey :: "pkgs \<Rightarrow> GetQueueByNameRequest \<Rightarrow> goerr + ShardKey" where
  "GetQueueByNameRequest_ShardKey P r = Inr (ByAccount P (gqn_AccountId r))"

definition GetScheduleRequest_ShardKey :: "pkgs \<Rightarrow> GetScheduleRequest \<Rightarrow> goerr + ShardKey" where
  "GetScheduleRequest_ShardKey P r = Inr (ByAccount P (gs_AccountId r))"

definition GetStatisticsRequest_ShardKey :: "pkgs \<Rightarrow> QueueId option \<Rightarrow> goerr + ShardKey" where
  "GetStatisticsRequest_ShardKey P queueId = through (\<lambda>i. ByAccountAndQueue P (qid_AccountId i) (qid_QueueId i)) queueId"

definition GetTaskRequest_ShardKey :: "pkgs \<Rightarrow> TaskId option \<Rightarrow> goerr + ShardKey" where
  "GetTaskRequest_ShardKey P taskId = through (\<lambda>i. ByAccountAndQueue P (tid_AccountId i) (tid_QueueId i)) taskId"

definition ListQueuesRequest_ShardKey :: "pkgs \<Rightarrow> ListQueuesRequest \<Rightarrow> goerr + ShardKey" where
  "ListQueuesRequest_ShardKey P r = Inr (ByAccount P (lq_AccountId r))"

definition ListSchedulesRequest_ShardKey :: "pkgs \<Rightarrow> ListSchedulesRequest \<Rightarrow> goerr + ShardKey" where
  "ListSchedulesRequest_ShardKey P r = through (\<lambda>i. ByAccount P (qid_AccountId i)) (ls_QueueId r)"

definition ListTasksRequest_ShardKey :: "pkgs \<Rightarrow> ListTasksRequest \<Rightarrow> goerr + ShardKey" where
  "ListTasksRequest_ShardKey P r = through (\<lambda>i. ByAccountAndQueue P (qid_AccountId i) (qid_QueueId i)) (lt_QueueId r)"

definition PurgeQueueRequest_ShardKey :: "pkgs \<Rightarrow> QueueId option \<Rightarrow> goerr + ShardKey" where
  "PurgeQueueRequest_ShardKey P queueId = through (\<lambda>i. ByAccountAndQueue P (qid_AccountId i) (qid_QueueId i)) queueId"

definition ReportStatusRequest_ShardKey :: "pkgs \<Rightarrow> ReportStatusRequest \<Rightarrow> goerr + ShardKey" where
  "ReportStatusRequest_ShardKey P r = through (\<lambda>i. ByAccountAndQueue P (qid_AccountId i) (qid_QueueId i)) (rsq_QueueId r)"

definition RestartTasksRequest_ShardKey :: "pkgs \<Rightarrow> RestartTasksRequest \<Rightarrow> goerr + ShardKey" where
  "RestartTasksRequest_ShardKey P r = through (\<lambda>i. ByAccountAndQueue P (qid_AccountId i) (qid_QueueId i)) (rt_QueueId r)"

definition SwapQueueIdRequest_ShardKey :: "pkgs \<Rightarrow> SwapQueueIdRequest \<Rightarrow> goerr + ShardKey" where
  "SwapQueueIdRequest_ShardKey P r = Inr (ByAccount P (sw_AccountId r))"

definition UpdateQueueRequest_ShardKey :: "pkgs \<Rightarrow> UpdateQueueRequest \<Rightarrow> goerr + ShardKey" where
  "UpdateQueueRequest_ShardKey P r = Inr (ByAccount P (uq_AccountId r))"

definition UpdateScheduleRequest_ShardKey :: "pkgs \<Rightarrow> UpdateScheduleRequest \<Rightarrow> goerr + ShardKey" where
  "UpdateScheduleRequest_ShardKey P r = Inr (ByAccount P (us_AccountId r))"

section \<open>What a valid request satisfies\<close>

lemma check_None [simp]: "check b err = None \<longleftrightarrow> \<not> b"
  by (simp add: check_def)

lemma checks_None: "checks cs = None \<longleftrightarrow> list_all (\<lambda>c. c = None) cs"
  by (induction cs) (auto split: option.split)

lemma at_entry_None [simp]: "at_entry i r = None \<longleftrightarrow> r = None"
  by (simp add: at_entry_def)

lemma check_each_None: "check_each f n xs = None \<longleftrightarrow> (\<forall>i < length xs. f (n + i) (xs ! i) = None)"
proof (induction xs arbitrary: n)
  case (Cons x xs)
  have "(\<forall>i < length (x # xs). f (n + i) ((x # xs) ! i) = None) \<longleftrightarrow> f n x = None \<and> (\<forall>i < length xs. f (Suc n + i) (xs ! i) = None)"
    by (auto simp: nth_Cons less_Suc_eq_0_disj split: nat.split)
  then show ?case using Cons.IH[of "Suc n"] by (auto split: option.split)
qed simp

lemma check_each_set:
  "(\<And>i x. f i x = None \<longleftrightarrow> ok x) \<Longrightarrow> check_each f n xs = None \<longleftrightarrow> (\<forall>x \<in> set xs. ok x)"
  by (auto simp: check_each_None all_set_conv_all_nth)

end
