(* ===== verification/Coreapis_Cores.thy ===== *)
theory Coreapis_Cores
  imports Corepb_Requests
begin

text \<open>
  \<open>pkg/coreapis\<close>, the side of the cores: the interfaces
  (\<open>api.go\<close>), the validating wrappers (\<open>validation.go\<close>) and the adapters that
  serve encoded requests of a shard (\<open>adapters.go\<close>).  The vtproto codecs of
  the messages and of the envelopes, and \<open>cluster.ShardKey\<close>'s printing, are
  parameters.  Metrics and logging are left out.
\<close>

section \<open>Interfaces\<close>

text \<open>A method of a core takes the time and the payload of its request.\<close>

type_synonym ('d, 'q, 'p) core_method = "int \<Rightarrow> 'q \<Rightarrow> ('d, 'p response) handler"

record 'd MoabQueuesCoreApi =
  qapi_GetQueue :: "('d, QueueId option, Queue) core_method"
  qapi_GetQueueByName :: "('d, GetQueueByNameRequest, Queue) core_method"
  qapi_ListQueues :: "('d, ListQueuesRequest, ListQueuesResponse) core_method"
  qapi_GetSchedule :: "('d, GetScheduleRequest, Schedule) core_method"
  qapi_DequeSchedules :: "('d, int, DequeSchedulesResponseEntry list) core_method"
  qapi_ListSchedules :: "('d, ListSchedulesRequest, ListSchedulesResponse) core_method"
  qapi_CreateQueue :: "('d, CreateQueueRequest, Queue) core_method"
  qapi_UpdateQueue :: "('d, UpdateQueueRequest, Queue) core_method"
  qapi_DeleteQueue :: "('d, DeleteQueueRequest, QueueId) core_method"
  qapi_CreateSchedule :: "('d, CreateScheduleRequest, Schedule) core_method"
  qapi_UpdateSchedule :: "('d, UpdateScheduleRequest, Schedule) core_method"
  qapi_DeleteSchedule :: "('d, DeleteScheduleRequest, unit) core_method"
  qapi_ReportSchedulesStatus :: "('d, ReportSchedulesStatusRequest, unit) core_method"
  qapi_RunQueuesGarbageCollection :: "('d, RunQueuesGarbageCollectionRequest, unit) core_method"
  qapi_SwapQueueId :: "('d, SwapQueueIdRequest, SwapQueueIdResponse) core_method"

record 'd MoabTasksCoreApi =
  tapi_GetTask :: "('d, TaskId option, Task) core_method"
  tapi_GetStatistics :: "('d, QueueId option, GetStatisticsResponse) core_method"
  tapi_ListTasks :: "('d, ListTasksRequest, ListTasksResponse) core_method"
  tapi_Enqueue :: "('d, EnqueueRequest, Task list) core_method"
  tapi_Dequeue :: "('d, DequeueRequest, Task list) core_method"
  tapi_ReportStatus :: "('d, ReportStatusRequest, ReportStatusResponseEntry list) core_method"
  tapi_DeleteTasks :: "('d, DeleteTasksRequest, unit) core_method"
  tapi_RestartTasks :: "('d, RestartTasksRequest, RestartTasksResponseEntry list) core_method"
  tapi_PurgeQueue :: "('d, QueueId option, unit) core_method"
  tapi_RunTasksGarbageCollection :: "('d, RunTasksGarbageCollectionRequest, unit) core_method"
  tapi_RunPurgeQueueGarbageCollection :: "('d, RunPurgeQueueGarbageCollectionRequest, unit) core_method"

text \<open>The two cores as implementations of their interfaces.\<close>

definition queuesCoreApi :: "nat \<Rightarrow> cron_pkg \<Rightarrow> pkgs \<Rightarrow> ('d, 's) QueuesCore \<Rightarrow> 'd MoabQueuesCoreApi" where
  "queuesCoreApi pages cron P c = \<lparr>
    qapi_GetQueue = (\<lambda>now. GetQueue P c),
    qapi_GetQueueByName = (\<lambda>now. GetQueueByName P c),
    qapi_ListQueues = (\<lambda>now. ListQueues P c),
    qapi_GetSchedule = (\<lambda>now. GetSchedule P c),
    qapi_DequeSchedules = (\<lambda>now. DequeSchedules P c),
    qapi_ListSchedules = (\<lambda>now. ListSchedules P c),
    qapi_CreateQueue = CreateQueue P c,
    qapi_UpdateQueue = UpdateQueue P c,
    qapi_DeleteQueue = (\<lambda>now. DeleteQueue P c),
    qapi_CreateSchedule = CreateSchedule cron P c,
    qapi_UpdateSchedule = UpdateSchedule cron P c,
    qapi_DeleteSchedule = (\<lambda>now. DeleteSchedule P c),
    qapi_ReportSchedulesStatus = ReportSchedulesStatus P c,
    qapi_RunQueuesGarbageCollection = (\<lambda>now. RunQueuesGarbageCollection P c),
    qapi_SwapQueueId = SwapQueueId pages P c \<rparr>"

definition tasksCoreApi :: "pkgs \<Rightarrow> ('d, 's) TasksCore \<Rightarrow> 'd MoabTasksCoreApi" where
  "tasksCoreApi P c = \<lparr>
    tapi_GetTask = GetTask P c,
    tapi_GetStatistics = GetStatistics P c,
    tapi_ListTasks = (\<lambda>now. ListTasks P c),
    tapi_Enqueue = Enqueue P c,
    tapi_Dequeue = Dequeue P c,
    tapi_ReportStatus = ReportStatus P c,
    tapi_DeleteTasks = (\<lambda>now. DeleteTasks P c),
    tapi_RestartTasks = RestartTasks P c,
    tapi_PurgeQueue = (\<lambda>now. PurgeQueue P c),
    tapi_RunTasksGarbageCollection = RunTasksGarbageCollection P c,
    tapi_RunPurgeQueueGarbageCollection = (\<lambda>now. RunPurgeQueueGarbageCollection P c) \<rparr>"

section \<open>Validating cores\<close>

text \<open>\<open>mrpc.NewError\<close>.\<close>

definition NewError :: "mrpc_ErrorCode \<Rightarrow> string \<Rightarrow> mrpc_Error" where
  "NewError code msg = \<lparr> err_Code = code, err_Message = msg, err_Context = [] \<rparr>"

definition validated :: "('q \<Rightarrow> string option) \<Rightarrow> ('d, 'q, 'p) core_method \<Rightarrow> ('d, 'q, 'p) core_method" where
  "validated Validate m now req d = (case Validate req of
      Some err \<Rightarrow> (Inr (ApplicationError (NewError InvalidRequest err)), d)
    | None \<Rightarrow> m now req d)"

definition MoabQueuesValidatingCore :: "cron_pkg \<Rightarrow> (string \<Rightarrow> string) \<Rightarrow> 'd MoabQueuesCoreApi \<Rightarrow> 'd MoabQueuesCoreApi" where
  "MoabQueuesValidatingCore cron quote core = \<lparr>
    qapi_GetQueue = validated GetQueueRequest_Validate (qapi_GetQueue core),
    qapi_GetQueueByName = validated GetQueueByNameRequest_Validate (qapi_GetQueueByName core),
    qapi_ListQueues = validated ListQueuesRequest_Validate (qapi_ListQueues core),
    qapi_GetSchedule = validated GetScheduleRequest_Validate (qapi_GetSchedule core),
    qapi_DequeSchedules = validated DequeSchedulesRequest_Validate (qapi_DequeSchedules core),
    qapi_ListSchedules = validated ListSchedulesRequest_Validate (qapi_ListSchedules core),
    qapi_CreateQueue = validated CreateQueueRequest_Validate (qapi_CreateQueue core),
    qapi_UpdateQueue = validated UpdateQueueRequest_Validate (qapi_UpdateQueue core),
    qapi_DeleteQueue = validated DeleteQueueRequest_Validate (qapi_DeleteQueue core),
    qapi_CreateSchedule = validated (CreateScheduleRequest_Validate cron quote) (qapi_CreateSchedule core),
    qapi_UpdateSchedule = validated (UpdateScheduleRequest_Validate cron quote) (qapi_UpdateSchedule core),
    qapi_DeleteSchedule = validated DeleteScheduleRequest_Validate (qapi_DeleteSchedule core),
    qapi_ReportSchedulesStatus = validated ReportSchedulesStatusRequest_Validate (qapi_ReportSchedulesStatus core),
    qapi_RunQueuesGarbageCollection = validated RunQueuesGarbageCollectionRequest_Validate (qapi_RunQueuesGarbageCollection core),
    qapi_SwapQueueId = validated SwapQueueIdRequest_Validate (qapi_SwapQueueId core) \<rparr>"

definition MoabTasksValidatingCore :: "'d MoabTasksCoreApi \<Rightarrow> 'd MoabTasksCoreApi" where
  "MoabTasksValidatingCore core = \<lparr>
    tapi_GetTask = validated GetTaskRequest_Validate (tapi_GetTask core),
    tapi_GetStatistics = validated GetStatisticsRequest_Validate (tapi_GetStatistics core),
    tapi_ListTasks = validated ListTasksRequest_Validate (tapi_ListTasks core),
    tapi_Enqueue = validated EnqueueRequest_Validate (tapi_Enqueue core),
    tapi_Dequeue = validated DequeueRequest_Validate (tapi_Dequeue core),
    tapi_ReportStatus = validated ReportStatusRequest_Validate (tapi_ReportStatus core),
    tapi_DeleteTasks = validated DeleteTasksRequest_Validate (tapi_DeleteTasks core),
    tapi_RestartTasks = validated RestartTasksRequest_Validate (tapi_RestartTasks core),
    tapi_PurgeQueue = validated PurgeQueueRequest_Validate (tapi_PurgeQueue core),
    tapi_RunTasksGarbageCollection = validated RunTasksGarbageCollectionRequest_Validate (tapi_RunTasksGarbageCollection core),
    tapi_RunPurgeQueueGarbageCollection = validated RunPurgeQueueGarbageCollectionRequest_Validate (tapi_RunPurgeQueueGarbageCollection core) \<rparr>"

section \<open>Adapters\<close>

record mrpc_Request =
  rq_Data :: bytes
  rq_IdempotencyToken :: string
  rq_MethodNumber :: int
  rq_Now :: int

record mrpc_Response =
  rsp_Data :: bytes
  rsp_Error :: "mrpc_Error option"

text \<open>What the code uses of Monstera: the envelope codecs and the keys of
  shards.\<close>

record monstera_pkg =
  Request_MarshalVT :: "mrpc_Request \<Rightarrow> goerr + bytes"
  Request_UnmarshalVT :: "bytes \<Rightarrow> goerr + mrpc_Request"
  Response_MarshalVT :: "mrpc_Response \<Rightarrow> goerr + bytes"
  Response_UnmarshalVT :: "bytes \<Rightarrow> goerr + mrpc_Response"
  ShardKey_String :: "ShardKey \<Rightarrow> string"
  ShardKey_Bytes :: "ShardKey \<Rightarrow> bytes"
  ShortenBounds :: "bytes \<Rightarrow> bytes \<Rightarrow> bytes \<times> bytes"
  KeyspacePerApplication :: int

record 'a codec =
  MarshalBinary :: "'a \<Rightarrow> goerr + bytes"
  UnmarshalBinary :: "bytes \<Rightarrow> goerr + 'a"

record ('q, 'p) codecs =
  cd_req :: "'q codec"
  cd_resp :: "'p codec"

record queues_codecs =
  qcd_GetQueue :: "(QueueId option, Queue) codecs"
  qcd_GetQueueByName :: "(GetQueueByNameRequest, Queue) codecs"
  qcd_ListQueues :: "(ListQueuesRequest, ListQueuesResponse) codecs"
  qcd_GetSchedule :: "(GetScheduleRequest, Schedule) codecs"
  qcd_DequeSchedules :: "(int, DequeSchedulesResponseEntry list) codecs"
  qcd_ListSchedules :: "(ListSchedulesRequest, ListSchedulesResponse) codecs"
  qcd_CreateQueue :: "(CreateQueueRequest, Queue) codecs"
  qcd_UpdateQueue :: "(UpdateQueueRequest, Queue) codecs"
  qcd_DeleteQueue :: "(DeleteQueueRequest, QueueId) codecs"
  qcd_CreateSchedule :: "(CreateScheduleRequest, Schedule) codecs"
  qcd_UpdateSchedule :: "(UpdateScheduleRequest, Schedule) codecs"
  qcd_DeleteSchedule :: "(DeleteScheduleRequest, unit) codecs"
  qcd_ReportSchedulesStatus :: "(ReportSchedulesStatusRequest, unit) codecs"
  qcd_RunQueuesGarbageCollection :: "(RunQueuesGarbageCollectionRequest, unit) codecs"
  qcd_SwapQueueId :: "(SwapQueueIdRequest, SwapQueueIdResponse) codecs"

record tasks_codecs =
  tcd_GetTask :: "(TaskId option, Task) codecs"
  tcd_GetStatistics :: "(QueueId option, GetStatisticsResponse) codecs"
  tcd_ListTasks :: "(ListTasksRequest, ListTasksResponse) codecs"
  tcd_Enqueue :: "(EnqueueRequest, Task list) codecs"
  tcd_Dequeue :: "(DequeueRequest, Task list) codecs"
  tcd_ReportStatus :: "(ReportStatusRequest, ReportStatusResponseEntry list) codecs"
  tcd_DeleteTasks :: "(DeleteTasksRequest, unit) codecs"
  tcd_RestartTasks :: "(RestartTasksRequest, RestartTasksResponseEntry list) codecs"
  tcd_PurgeQueue :: "(QueueId option, unit) codecs"
  tcd_RunTasksGarbageCollection :: "(RunTasksGarbageCollectionRequest, unit) codecs"
  tcd_RunPurgeQueueGarbageCollection :: "(RunPurgeQueueGarbageCollectionRequest, unit) codecs"

record 'c adapter =
  ad_shardLowerBound :: ShardKey
  ad_shardUpperBound :: ShardKey
  ad_core :: 'c

definition checkShardBounds :: "monstera_pkg \<Rightarrow> ShardKey \<Rightarrow> ShardKey \<Rightarrow> ShardKey \<Rightarrow> goerr + unit" where
  "checkShardBounds M shardKey lowerBound upperBound =
    (if shardKey < lowerBound \<or> shardKey > upperBound
     then Inl (ErrNew (''routing violation: shard key '' @ ShardKey_String M shardKey @ '' is outside shard bounds ['' @
       ShardKey_String M lowerBound @ '', '' @ ShardKey_String M upperBound @ '']''))
     else Inr ())"

text \<open>The bounds check of a sharded method, and of a method without a key.\<close>

definition in_bounds :: "monstera_pkg \<Rightarrow> 'c adapter \<Rightarrow> ('q \<Rightarrow> goerr + ShardKey) \<Rightarrow> 'q \<Rightarrow> goerr + unit" where
  "in_bounds M a key req = (case key req of Inl e \<Rightarrow> Inl e
     | Inr k \<Rightarrow> checkShardBounds M k (ad_shardLowerBound a) (ad_shardUpperBound a))"

definition any_bounds :: "'q \<Rightarrow> goerr + unit" where
  "any_bounds req = Inr ()"

text \<open>One case of the dispatch: decode, check the bounds, call the core, encode
  the payload.\<close>

definition adapter_method ::
  "('q, 'p) codecs \<Rightarrow> ('q \<Rightarrow> goerr + unit) \<Rightarrow> ('d, 'q, 'p) core_method \<Rightarrow> mrpc_Request \<Rightarrow> ('d, mrpc_Response) handler" where
  "adapter_method C bounds m r d = (case UnmarshalBinary (cd_req C) (rq_Data r) of
      Inl e \<Rightarrow> (Inl e, d)
    | Inr methodReq \<Rightarrow> (case bounds methodReq of
        Inl e \<Rightarrow> (Inl e, d)
      | Inr _ \<Rightarrow> (case m (rq_Now r) methodReq d of
          (Inl e, d') \<Rightarrow> (Inl e, d')
        | (Inr (ApplicationError err), d') \<Rightarrow> (Inr \<lparr> rsp_Data = [], rsp_Error = Some err \<rparr>, d')
        | (Inr (Payload p), d') \<Rightarrow> (case MarshalBinary (cd_resp C) p of
            Inl e \<Rightarrow> (Inl e, d')
          | Inr b \<Rightarrow> (Inr \<lparr> rsp_Data = b, rsp_Error = None \<rparr>, d')))))"

definition no_handler :: "('d, mrpc_Response) handler" where
  "no_handler d = (Inl (ErrNew ''no matching handlers''), d)"

text \<open>The frame of \<open>Update\<close> and \<open>Read\<close> around the dispatch.\<close>

definition adapter_serve ::
  "monstera_pkg \<Rightarrow> (mrpc_Request \<Rightarrow> ('d, mrpc_Response) handler) \<Rightarrow> bytes \<Rightarrow> ('d, bytes) handler" where
  "adapter_serve M dispatch rpcReqBytes d = (case Request_UnmarshalVT M rpcReqBytes of
      Inl e \<Rightarrow> (Inl e, d)
    | Inr rpcReq \<Rightarrow> (case dispatch rpcReq d of
        (Inl e, d') \<Rightarrow> (Inl e, d')
      | (Inr rpcResp, d') \<Rightarrow> (Response_MarshalVT M rpcResp, d')))"

definition MoabQueuesCoreAdapter_Update ::
  "pkgs \<Rightarrow> monstera_pkg \<Rightarrow> queues_codecs \<Rightarrow> 'd MoabQueuesCoreApi adapter \<Rightarrow> bytes \<Rightarrow> ('d, bytes) handler" where
  "MoabQueuesCoreAdapter_Update P M C a = adapter_serve M (\<lambda>r.
    if rq_MethodNumber r = 1 then adapter_method (qcd_CreateQueue C) (in_bounds M a (CreateQueueRequest_ShardKey P)) (qapi_CreateQueue (ad_core a)) r
    else if rq_MethodNumber r = 2 then adapter_method (qcd_UpdateQueue C) (in_bounds M a (UpdateQueueRequest_ShardKey P)) (qapi_UpdateQueue (ad_core a)) r
    else if rq_MethodNumber r = 3 then adapter_method (qcd_DeleteQueue C) (in_bounds M a (DeleteQueueRequest_ShardKey P)) (qapi_DeleteQueue (ad_core a)) r
    else if rq_MethodNumber r = 4 then adapter_method (qcd_CreateSchedule C) (in_bounds M a (CreateScheduleRequest_ShardKey P)) (qapi_CreateSchedule (ad_core a)) r
    else if rq_MethodNumber r = 5 then adapter_method (qcd_UpdateSchedule C) (in_bounds M a (UpdateScheduleRequest_ShardKey P)) (qapi_UpdateSchedule (ad_core a)) r
    else if rq_MethodNumber r = 6 then adapter_method (qcd_DeleteSchedule C) (in_bounds M a (DeleteScheduleRequest_ShardKey P)) (qapi_DeleteSchedule (ad_core a)) r
    else if rq_MethodNumber r = 7 then adapter_method (qcd_ReportSchedulesStatus C) any_bounds (qapi_ReportSchedulesStatus (ad_core a)) r
    else if rq_MethodNumber r = 8 then adapter_method (qcd_RunQueuesGarbageCollection C) any_bounds (qapi_RunQueuesGarbageCollection (ad_core a)) r
    else if rq_MethodNumber r = 9 then adapter_method (qcd_SwapQueueId C) (in_bounds M a (SwapQueueIdRequest_ShardKey P)) (qapi_SwapQueueId (ad_core a)) r
    else no_handler)"

definition MoabQueuesCoreAdapter_Read ::
  "pkgs \<Rightarrow> monstera_pkg \<Rightarrow> queues_codecs \<Rightarrow> 'd MoabQueuesCoreApi adapter \<Rightarrow> bytes \<Rightarrow> ('d, bytes) handler" where
  "MoabQueuesCoreAdapter_Read P M C a = adapter_serve M (\<lambda>r.
    if rq_MethodNumber r = 1 then adapter_method (qcd_GetQueue C) (in_bounds M a (GetQueueRequest_ShardKey P)) (qapi_GetQueue (ad_core a)) r
    else if rq_MethodNumber r = 2 then adapter_method (qcd_GetQueueByName C) (in_bounds M a (GetQueueByNameRequest_ShardKey P)) (qapi_GetQueueByName (ad_core a)) r
    else if rq_MethodNumber r = 3 then adapter_method (qcd_ListQueues C) (in_bounds M a (ListQueuesRequest_ShardKey P)) (qapi_ListQueues (ad_core a)) r
    else if rq_MethodNumber r = 4 then adapter_method (qcd_GetSchedule C) (in_bounds M a (GetScheduleRequest_ShardKey P)) (qapi_GetSchedule (ad_core a)) r
    else if rq_MethodNumber r = 5 then adapter_method (qcd_DequeSchedules C) any_bounds (qapi_DequeSchedules (ad_core a)) r
    else if rq_MethodNumber r = 6 then adapter_method (qcd_ListSchedules C) (in_bounds M a (ListSchedulesRequest_ShardKey P)) (qapi_ListSchedules (ad_core a)) r
    else no_handler)"

definition MoabTasksCoreAdapter_Update ::
  "pkgs \<Rightarrow> monstera_pkg \<Rightarrow> tasks_codecs \<Rightarrow> 'd MoabTasksCoreApi adapter \<Rightarrow> bytes \<Rightarrow> ('d, bytes) handler" where
  "MoabTasksCoreAdapter_Update P M C a = adapter_serve M (\<lambda>r.
    if rq_MethodNumber r = 1 then adapter_method (tcd_Enqueue C) (in_bounds M a (EnqueueRequest_ShardKey P)) (tapi_Enqueue (ad_core a)) r
    else if rq_MethodNumber r = 2 then adapter_method (tcd_Dequeue C) (in_bounds M a (DequeueRequest_ShardKey P)) (tapi_Dequeue (ad_core a)) r
    else if rq_MethodNumber r = 3 then adapter_method (tcd_ReportStatus C) (in_bounds M a (ReportStatusRequest_ShardKey P)) (tapi_ReportStatus (ad_core a)) r
    else if rq_MethodNumber r = 4 then adapter_method (tcd_DeleteTasks C) (in_bounds M a (DeleteTasksRequest_ShardKey P)) (tapi_DeleteTasks (ad_core a)) r
    else if rq_MethodNumber r = 5 then adapter_method (tcd_RestartTasks C) (in_bounds M a (RestartTasksRequest_ShardKey P)) (tapi_RestartTasks (ad_core a)) r
    else if rq_MethodNumber r = 6 then adapter_method (tcd_PurgeQueue C) (in_bounds M a (PurgeQueueRequest_ShardKey P)) (tapi_PurgeQueue (ad_core a)) r
    else if rq_MethodNumber r = 7 then adapter_method (tcd_RunTasksGarbageCollection C) any_bounds (tapi_RunTasksGarbageCollection (ad_core a)) r
    else if rq_MethodNumber r = 8 then adapter_method (tcd_RunPurgeQueueGarbageCollection C) any_bounds (tapi_RunPurgeQueueGarbageCollection (ad_core a)) r
    else no_handler)"

definition MoabTasksCoreAdapter_Read ::
  "pkgs \<Rightarrow> monstera_pkg \<Rightarrow> tasks_codecs \<Rightarrow> 'd MoabTasksCoreApi adapter \<Rightarrow> bytes \<Rightarrow> ('d, bytes) handler" where
  "MoabTasksCoreAdapter_Read P M C a = adapter_serve M (\<lambda>r.
    if rq_MethodNumber r = 1 then adapter_method (tcd_GetTask C) (in_bounds M a (GetTaskRequest_ShardKey P)) (tapi_GetTask (ad_core a)) r
    else if rq_MethodNumber r = 2 then adapter_method (tcd_GetStatistics C) (in_bounds M a (GetStatisticsRequest_ShardKey P)) (tapi_GetStatistics (ad_core a)) r
    else if rq_MethodNumber r = 3 then adapter_method (tcd_ListTasks C) (in_bounds M a (ListTasksRequest_ShardKey P)) (tapi_ListTasks (ad_core a)) r
    else no_handler)"

end
