(* ===== verification/Coreapis_Stubs.thy ===== *)
theory Coreapis_Stubs
  imports Coreapis_Cores
begin

text \<open>
  \<open>pkg/coreapis/stubs.go\<close>, the side of the callers: the stub that sends encoded
  requests through a Monstera client, and the stub that calls the cores of the
  same process.  A result is an error, or the response pointer and the response
  metadata; the value beside a non-nil error is dropped.  \<open>now\<close> is
  \<open>time.Now().UnixNano()\<close> and \<open>token\<close> the idempotency token of the call
  options.  A call holds the lock of its core throughout, so calls are atomic
  steps on the store.
\<close>

section \<open>Results\<close>

datatype rpc_err = Rpc mrpc_Error | GoErr goerr

record ResponseMeta =
  rm_Now :: int
  rm_RaftLogIndex :: uint64

type_synonym ('w, 'p) rpc = "'w \<Rightarrow> (rpc_err + 'p option \<times> ResponseMeta) \<times> 'w"

definition nilifyIfEmpty :: "mrpc_Error option \<Rightarrow> mrpc_Error option" where
  "nilifyIfEmpty v = (case v of None \<Rightarrow> None
     | Some err \<Rightarrow> if err_Code err = ErrorCode_INVALID \<or> err_Code err = ErrorCode_OK then None else Some err)"

section \<open>The clustered stub\<close>

text \<open>\<open>monstera.Client\<close>: updates return the response bytes and the index in
  the log, reads the bytes.\<close>

record 'w monstera_client =
  mc_Update :: "string \<Rightarrow> ShardKey \<Rightarrow> bytes \<Rightarrow> 'w \<Rightarrow> (rpc_err + bytes \<times> uint64) \<times> 'w"
  mc_Read :: "string \<Rightarrow> ShardKey \<Rightarrow> bool \<Rightarrow> bytes \<Rightarrow> 'w \<Rightarrow> (rpc_err + bytes) \<times> 'w"
  mc_UpdateShard :: "string \<Rightarrow> string \<Rightarrow> bytes \<Rightarrow> 'w \<Rightarrow> (rpc_err + bytes \<times> uint64) \<times> 'w"
  mc_ReadShard :: "string \<Rightarrow> string \<Rightarrow> bool \<Rightarrow> bytes \<Rightarrow> 'w \<Rightarrow> (rpc_err + bytes) \<times> 'w"
  mc_ListShards :: "string \<Rightarrow> 'w \<Rightarrow> rpc_err + string list"

text \<open>The four ways to send: by the key of the request or to a named shard; a
  read has no log index.\<close>

definition no_index :: "(rpc_err + bytes) \<times> 'w \<Rightarrow> (rpc_err + bytes \<times> uint64) \<times> 'w" where
  "no_index r = (case r of (Inl e, w) \<Rightarrow> (Inl e, w) | (Inr b, w) \<Rightarrow> (Inr (b, 0), w))"

definition send_update ::
  "'w monstera_client \<Rightarrow> string \<Rightarrow> ('q \<Rightarrow> goerr + ShardKey) \<Rightarrow> 'q \<Rightarrow> bytes \<Rightarrow> 'w \<Rightarrow> (rpc_err + bytes \<times> uint64) \<times> 'w" where
  "send_update client app key req b w = (case key req of Inl e \<Rightarrow> (Inl (GoErr e), w) | Inr k \<Rightarrow> mc_Update client app k b w)"

definition send_read ::
  "'w monstera_client \<Rightarrow> string \<Rightarrow> ('q \<Rightarrow> goerr + ShardKey) \<Rightarrow> 'q \<Rightarrow> bytes \<Rightarrow> 'w \<Rightarrow> (rpc_err + bytes \<times> uint64) \<times> 'w" where
  "send_read client app key req b w = (case key req of Inl e \<Rightarrow> (Inl (GoErr e), w) | Inr k \<Rightarrow> no_index (mc_Read client app k False b w))"

definition send_update_shard ::
  "'w monstera_client \<Rightarrow> string \<Rightarrow> string \<Rightarrow> 'q \<Rightarrow> bytes \<Rightarrow> 'w \<Rightarrow> (rpc_err + bytes \<times> uint64) \<times> 'w" where
  "send_update_shard client app shardId req b w = mc_UpdateShard client app shardId b w"

definition send_read_shard ::
  "'w monstera_client \<Rightarrow> string \<Rightarrow> string \<Rightarrow> 'q \<Rightarrow> bytes \<Rightarrow> 'w \<Rightarrow> (rpc_err + bytes \<times> uint64) \<times> 'w" where
  "send_read_shard client app shardId req b w = no_index (mc_ReadShard client app shardId False b w)"

text \<open>The body all methods of the stub share.\<close>

definition stub_call ::
  "monstera_pkg \<Rightarrow> ('q, 'p) codecs \<Rightarrow> ('q \<Rightarrow> string option) \<Rightarrow> int \<Rightarrow>
   ('q \<Rightarrow> bytes \<Rightarrow> 'w \<Rightarrow> (rpc_err + bytes \<times> uint64) \<times> 'w) \<Rightarrow> int \<Rightarrow> string \<Rightarrow> 'q \<Rightarrow> ('w, 'p) rpc" where
  "stub_call M C Validate methodNumber send now token methodReq w = (case Validate methodReq of
      Some err \<Rightarrow> (Inl (Rpc (NewError InvalidRequest err)), w)
    | None \<Rightarrow> (case MarshalBinary (cd_req C) methodReq of
        Inl e \<Rightarrow> (Inl (GoErr (ErrWrap ''failed to marshal request'' e)), w)
      | Inr methodReqBytes \<Rightarrow>
        (case Request_MarshalVT M \<lparr> rq_Data = methodReqBytes, rq_IdempotencyToken = token, rq_MethodNumber = methodNumber, rq_Now = now \<rparr> of
          Inl e \<Rightarrow> (Inl (GoErr (ErrWrap ''failed to marshal request'' e)), w)
        | Inr rpcReqBytes \<Rightarrow> (case send methodReq rpcReqBytes w of
            (Inl e, w') \<Rightarrow> (Inl e, w')
          | (Inr (b, raftLogIndex), w') \<Rightarrow> (case Response_UnmarshalVT M b of
              Inl e \<Rightarrow> (Inl (GoErr (ErrWrap ''failed to unmarshal response'' e)), w')
            | Inr rpcResp \<Rightarrow> (case UnmarshalBinary (cd_resp C) (rsp_Data rpcResp) of
                Inl e \<Rightarrow> (Inl (GoErr (ErrWrap ''failed to unmarshal response'' e)), w')
              | Inr methodResp \<Rightarrow> (case nilifyIfEmpty (rsp_Error rpcResp) of
                  Some err \<Rightarrow> (Inl (Rpc err), w')
                | None \<Rightarrow> (Inr (Some methodResp, \<lparr> rm_Now = now, rm_RaftLogIndex = raftLogIndex \<rparr>), w'))))))))"

definition MoabMonsteraStub_GetQueue ::
  "pkgs \<Rightarrow> monstera_pkg \<Rightarrow> (QueueId option, Queue) codecs \<Rightarrow> 'w monstera_client \<Rightarrow> int \<Rightarrow> string \<Rightarrow> (QueueId option) \<Rightarrow> ('w, Queue) rpc" where
  "MoabMonsteraStub_GetQueue P M C client now token methodReq =
    stub_call M C GetQueueRequest_Validate 1 (send_read client ''MoabQueues'' (GetQueueRequest_ShardKey P)) now token methodReq"

definition MoabMonsteraStub_GetQueueByName ::
  "pkgs \<Rightarrow> monstera_pkg \<Rightarrow> (GetQueueByNameRequest, Queue) codecs \<Rightarrow> 'w monstera_client \<Rightarrow> int \<Rightarrow> string \<Rightarrow> GetQueueByNameRequest \<Rightarrow> ('w, Queue) rpc" where
  "MoabMonsteraStub_GetQueueByName P M C client now token methodReq =
    stub_call M C GetQueueByNameRequest_Validate 2 (send_read client ''MoabQueues'' (GetQueueByNameRequest_ShardKey P)) now token methodReq"

definition MoabMonsteraStub_ListQueues ::
  "pkgs \<Rightarrow> monstera_pkg \<Rightarrow> (ListQueuesRequest, ListQueuesResponse) codecs \<Rightarrow> 'w monstera_client \<Rightarrow> int \<Rightarrow> string \<Rightarrow> ListQueuesRequest \<Rightarrow> ('w, ListQueuesResponse) rpc" where
  "MoabMonsteraStub_ListQueues P M C client now token methodReq =
    stub_call M C ListQueuesRequest_Validate 3 (send_read client ''MoabQueues'' (ListQueuesRequest_ShardKey P)) now token methodReq"

definition MoabMonsteraStub_GetSchedule ::
  "pkgs \<Rightarrow> monstera_pkg \<Rightarrow> (GetScheduleRequest, Schedule) codecs \<Rightarrow> 'w monstera_client \<Rightarrow> int \<Rightarrow> string \<Rightarrow> GetScheduleRequest \<Rightarrow> ('w, Schedule) rpc" where
  "MoabMonsteraStub_GetSchedule P M C client now token methodReq =
    stub_call M C GetScheduleRequest_Validate 4 (send_read client ''MoabQueues'' (GetScheduleRequest_ShardKey P)) now token methodReq"

definition MoabMonsteraStub_DequeSchedules ::
  "monstera_pkg \<Rightarrow> (int, DequeSchedulesResponseEntry list) codecs \<Rightarrow> 'w monstera_client \<Rightarrow> int \<Rightarrow> string \<Rightarrow> int \<Rightarrow> string \<Rightarrow> ('w, DequeSchedulesResponseEntry list) rpc" where
  "MoabMonsteraStub_DequeSchedules M C client now token methodReq shardId =
    stub_call M C DequeSchedulesRequest_Validate 5 (send_read_shard client ''MoabQueues'' shardId) now token methodReq"

definition MoabMonsteraStub_ListSchedules ::
  "pkgs \<Rightarrow> monstera_pkg \<Rightarrow> (ListSchedulesRequest, ListSchedulesResponse) codecs \<Rightarrow> 'w monstera_client \<Rightarrow> int \<Rightarrow> string \<Rightarrow> ListSchedulesRequest \<Rightarrow> ('w, ListSchedulesResponse) rpc" where
  "MoabMonsteraStub_ListSchedules P M C client now token methodReq =
    stub_call M C ListSchedulesRequest_Validate 6 (send_read client ''MoabQueues'' (ListSchedulesRequest_ShardKey P)) now token methodReq"

definition MoabMonsteraStub_CreateQueue ::
  "pkgs \<Rightarrow> monstera_pkg \<Rightarrow> (CreateQueueRequest, Queue) codecs \<Rightarrow> 'w monstera_client \<Rightarrow> int \<Rightarrow> string \<Rightarrow> CreateQueueRequest \<Rightarrow> ('w, Queue) rpc" where
  "MoabMonsteraStub_CreateQueue P M C client now token methodReq =
    stub_call M C CreateQueueRequest_Validate 1 (send_update client ''MoabQueues'' (CreateQueueRequest_ShardKey P)) now token methodReq"

definition MoabMonsteraStub_UpdateQueue ::
  "pkgs \<Rightarrow> monstera_pkg \<Rightarrow> (UpdateQueueRequest, Queue) codecs \<Rightarrow> 'w monstera_client \<Rightarrow> int \<Rightarrow> string \<Rightarrow> UpdateQueueRequest \<Rightarrow> ('w, Queue) rpc" where
  "MoabMonsteraStub_UpdateQueue P M C client now token methodReq =
    stub_call M C UpdateQueueRequest_Validate 2 (send_update client ''MoabQueues'' (UpdateQueueRequest_ShardKey P)) now token methodReq"

definition MoabMonsteraStub_DeleteQueue ::
  "pkgs \<Rightarrow> monstera_pkg \<Rightarrow> (DeleteQueueRequest, QueueId) codecs \<Rightarrow> 'w monstera_client \<Rightarrow> int \<Rightarrow> string \<Rightarrow> DeleteQueueRequest \<Rightarrow> ('w, QueueId) rpc" where
  "MoabMonsteraStub_DeleteQueue P M C client now token methodReq =
    stub_call M C DeleteQueueRequest_Validate 3 (send_update client ''MoabQueues'' (DeleteQueueRequest_ShardKey P)) now token methodReq"

definition MoabMonsteraStub_CreateSchedule ::
  "cron_pkg \<Rightarrow> (string \<Rightarrow> string) \<Rightarrow> pkgs \<Rightarrow> monstera_pkg \<Rightarrow> (CreateScheduleRequest, Schedule) codecs \<Rightarrow> 'w monstera_client \<Rightarrow> int \<Rightarrow> string \<Rightarrow> CreateScheduleRequest \<Rightarrow> ('w, Schedule) rpc" where
  "MoabMonsteraStub_CreateSchedule cron quote P M C client now token methodReq =
    stub_call M C (CreateScheduleRequest_Validate cron quote) 4 (send_update client ''MoabQueues'' (CreateScheduleRequest_ShardKey P)) now token methodReq"

definition MoabMonsteraStub_UpdateSchedule ::
  "cron_pkg \<Rightarrow> (string \<Rightarrow> string) \<Rightarrow> pkgs \<Rightarrow> monstera_pkg \<Rightarrow> (UpdateScheduleRequest, Schedule) codecs \<Rightarrow> 'w monstera_client \<Rightarrow> int \<Rightarrow> string \<Rightarrow> UpdateScheduleRequest \<Rightarrow> ('w, Schedule) rpc" where
  "MoabMonsteraStub_UpdateSchedule cron quote P M C client now token methodReq =
    stub_call M C (UpdateScheduleRequest_Validate cron quote) 5 (send_update client ''MoabQueues'' (UpdateScheduleRequest_ShardKey P)) now token methodReq"

definition MoabMonsteraStub_DeleteSchedule ::
  "pkgs \<Rightarrow> monstera_pkg \<Rightarrow> (DeleteScheduleRequest, unit) codecs \<Rightarrow> 'w monstera_client \<Rightarrow> int \<Rightarrow> string \<Rightarrow> DeleteScheduleRequest \<Rightarrow> ('w, unit) rpc" where
  "MoabMonsteraStub_DeleteSchedule P M C client now token methodReq =
    stub_call M C DeleteScheduleRequest_Validate 6 (send_update client ''MoabQueues'' (DeleteScheduleRequest_ShardKey P)) now token methodReq"

definition MoabMonsteraStub_ReportSchedulesStatus ::
  "monstera_pkg \<Rightarrow> (ReportSchedulesStatusRequest, unit) codecs \<Rightarrow> 'w monstera_client \<Rightarrow> int \<Rightarrow> string \<Rightarrow> ReportSchedulesStatusRequest \<Rightarrow> string \<Rightarrow> ('w, unit) rpc" where
  "MoabMonsteraStub_ReportSchedulesStatus M C client now token methodReq shardId =
    stub_call M C ReportSchedulesStatusRequest_Validate 7 (send_update_shard client ''MoabQueues'' shardId) now token methodReq"

definition MoabMonsteraStub_RunQueuesGarbageCollection ::
  "monstera_pkg \<Rightarrow> (RunQueuesGarbageCollectionRequest, unit) codecs \<Rightarrow> 'w monstera_client \<Rightarrow> int \<Rightarrow> string \<Rightarrow> RunQueuesGarbageCollectionRequest \<Rightarrow> string \<Rightarrow> ('w, unit) rpc" where
  "MoabMonsteraStub_RunQueuesGarbageCollection M C client now token methodReq shardId =
    stub_call M C RunQueuesGarbageCollectionRequest_Validate 8 (send_update_shard client ''MoabQueues'' shardId) now token methodReq"

definition MoabMonsteraStub_SwapQueueId ::
  "pkgs \<Rightarrow> monstera_pkg \<Rightarrow> (SwapQueueIdRequest, SwapQueueIdResponse) codecs \<Rightarrow> 'w monstera_client \<Rightarrow> int \<Rightarrow> string \<Rightarrow> SwapQueueIdRequest \<Rightarrow> ('w, SwapQueueIdResponse) rpc" where
  "MoabMonsteraStub_SwapQueueId P M C client now token methodReq =
    stub_call M C SwapQueueIdRequest_Validate 9 (send_update client ''MoabQueues'' (SwapQueueIdRequest_ShardKey P)) now token methodReq"

definition MoabMonsteraStub_GetTask ::
  "pkgs \<Rightarrow> monstera_pkg \<Rightarrow> (TaskId option, Task) codecs \<Rightarrow> 'w monstera_client \<Rightarrow> int \<Rightarrow> string \<Rightarrow> (TaskId option) \<Rightarrow> ('w, Task) rpc" where
  "MoabMonsteraStub_GetTask P M C client now token methodReq =
    stub_call M C GetTaskRequest_Validate 1 (send_read client ''MoabTasks'' (GetTaskRequest_ShardKey P)) now token methodReq"

definition MoabMonsteraStub_GetStatistics ::
  "pkgs \<Rightarrow> monstera_pkg \<Rightarrow> (QueueId option, GetStatisticsResponse) codecs \<Rightarrow> 'w monstera_client \<Rightarrow> int \<Rightarrow> string \<Rightarrow> (QueueId option) \<Rightarrow> ('w, GetStatisticsResponse) rpc" where
  "MoabMonsteraStub_GetStatistics P M C client now token methodReq =
    stub_call M C GetStatisticsRequest_Validate 2 (send_read client ''MoabTasks'' (GetStatisticsRequest_ShardKey P)) now token methodReq"

definition MoabMonsteraStub_ListTasks ::
  "pkgs \<Rightarrow> monstera_pkg \<Rightarrow> (ListTasksRequest, ListTasksResponse) codecs \<Rightarrow> 'w monstera_client \<Rightarrow> int \<Rightarrow> string \<Rightarrow> ListTasksRequest \<Rightarrow> ('w, ListTasksResponse) rpc" where
  "MoabMonsteraStub_ListTasks P M C client now token methodReq =
    stub_call M C ListTasksRequest_Validate 3 (send_read client ''MoabTasks'' (ListTasksRequest_ShardKey P)) now token methodReq"

definition MoabMonsteraStub_Enqueue ::
  "pkgs \<Rightarrow> monstera_pkg \<Rightarrow> (EnqueueRequest, Task list) codecs \<Rightarrow> 'w monstera_client \<Rightarrow> int \<Rightarrow> string \<Rightarrow> EnqueueRequest \<Rightarrow> ('w, Task list) rpc" where
  "MoabMonsteraStub_Enqueue P M C client now token methodReq =
    stub_call M C EnqueueRequest_Validate 1 (send_update client ''MoabTasks'' (EnqueueRequest_ShardKey P)) now token methodReq"

definition MoabMonsteraStub_Dequeue ::
  "pkgs \<Rightarrow> monstera_pkg \<Rightarrow> (DequeueRequest, Task list) codecs \<Rightarrow> 'w monstera_client \<Rightarrow> int \<Rightarrow> string \<Rightarrow> DequeueRequest \<Rightarrow> ('w, Task list) rpc" where
  "MoabMonsteraStub_Dequeue P M C client now token methodReq =
    stub_call M C DequeueRequest_Validate 2 (send_update client ''MoabTasks'' (DequeueRequest_ShardKey P)) now token methodReq"

definition MoabMonsteraStub_ReportStatus ::
  "pkgs \<Rightarrow> monstera_pkg \<Rightarrow> (ReportStatusRequest, ReportStatusResponseEntry list) codecs \<Rightarrow> 'w monstera_client \<Rightarrow> int \<Rightarrow> string \<Rightarrow> ReportStatusRequest \<Rightarrow> ('w, ReportStatusResponseEntry list) rpc" where
  "MoabMonsteraStub_ReportStatus P M C client now token methodReq =
    stub_call M C ReportStatusRequest_Validate 3 (send_update client ''MoabTasks'' (ReportStatusRequest_ShardKey P)) now token methodReq"

definition MoabMonsteraStub_DeleteTasks ::
  "pkgs \<Rightarrow> monstera_pkg \<Rightarrow> (DeleteTasksRequest, unit) codecs \<Rightarrow> 'w monstera_client \<Rightarrow> int \<Rightarrow> string \<Rightarrow> DeleteTasksRequest \<Rightarrow> ('w, unit) rpc" where
  "MoabMonsteraStub_DeleteTasks P M C client now token methodReq =
    stub_call M C DeleteTasksRequest_Validate 4 (send_update client ''MoabTasks'' (DeleteTasksRequest_ShardKey P)) now token methodReq"

definition MoabMonsteraStub_RestartTasks ::
  "pkgs \<Rightarrow> monstera_pkg \<Rightarrow> (RestartTasksRequest, RestartTasksResponseEntry list) codecs \<Rightarrow> 'w monstera_client \<Rightarrow> int \<Rightarrow> string \<Rightarrow> RestartTasksRequest \<Rightarrow> ('w, RestartTasksResponseEntry list) rpc" where
  "MoabMonsteraStub_RestartTasks P M C client now token methodReq =
    stub_call M C RestartTasksRequest_Validate 5 (send_update client ''MoabTasks'' (RestartTasksRequest_ShardKey P)) now token methodReq"

definition MoabMonsteraStub_PurgeQueue ::
  "pkgs \<Rightarrow> monstera_pkg \<Rightarrow> (QueueId option, unit) codecs \<Rightarrow> 'w monstera_client \<Rightarrow> int \<Rightarrow> string \<Rightarrow> (QueueId option) \<Rightarrow> ('w, unit) rpc" where
  "MoabMonsteraStub_PurgeQueue P M C client now token methodReq =
    stub_call M C PurgeQueueRequest_Validate 6 (send_update client ''MoabTasks'' (PurgeQueueRequest_ShardKey P)) now token methodReq"

definition MoabMonsteraStub_RunTasksGarbageCollection ::
  "monstera_pkg \<Rightarrow> (RunTasksGarbageCollectionRequest, unit) codecs \<Rightarrow> 'w monstera_client \<Rightarrow> int \<Rightarrow> string \<Rightarrow> RunTasksGarbageCollectionRequest \<Rightarrow> string \<Rightarrow> ('w, unit) rpc" where
  "MoabMonsteraStub_RunTasksGarbageCollection M C client now token methodReq shardId =
    stub_call M C RunTasksGarbageCollectionRequest_Validate 7 (send_update_shard client ''MoabTasks'' shardId) now token methodReq"

definition MoabMonsteraStub_RunPurgeQueueGarbageCollection ::
  "monstera_pkg \<Rightarrow> (RunPurgeQueueGarbageCollectionRequest, unit) codecs \<Rightarrow> 'w monstera_client \<Rightarrow> int \<Rightarrow> string \<Rightarrow> RunPurgeQueueGarbageCollectionRequest \<Rightarrow> string \<Rightarrow> ('w, unit) rpc" where
  "MoabMonsteraStub_RunPurgeQueueGarbageCollection M C client now token methodReq shardId =
    stub_call M C RunPurgeQueueGarbageCollectionRequest_Validate 8 (send_update_shard client ''MoabTasks'' shardId) now token methodReq"

definition MoabMonsteraStub_ListShards :: "'w monstera_client \<Rightarrow> string \<Rightarrow> 'w \<Rightarrow> rpc_err + string list" where
  "MoabMonsteraStub_ListShards client applicationName w = mc_ListShards client applicationName w"

section \<open>The nonclustered stub\<close>

record 'c ncAdapter =
  nca_core :: 'c
  nca_id :: string
  nca_lowerBound :: ShardKey
  nca_upperBound :: ShardKey

record 'd MoabNonclusteredStub =
  ncs_moabQueuesCores :: "'d MoabQueuesCoreApi ncAdapter list"
  ncs_moabTasksCores :: "'d MoabTasksCoreApi ncAdapter list"

text \<open>\<open>sort.Search\<close>: bisection for the first index in \<open>[i, j)\<close> where \<open>f\<close>
  holds.\<close>

function sort_Search :: "(nat \<Rightarrow> bool) \<Rightarrow> nat \<Rightarrow> nat \<Rightarrow> nat" where
  "sort_Search f i j = (if i < j then
      let h = (i + j) div 2 in if \<not> f h then sort_Search f (h + 1) j else sort_Search f i h
    else i)"
  by pat_completeness auto
termination
  by (relation "measure (\<lambda>(f, i, j). j - i)") auto

declare sort_Search.simps [simp del]

definition find_adapter :: "monstera_pkg \<Rightarrow> 'c ncAdapter list \<Rightarrow> ShardKey \<Rightarrow> goerr + 'c ncAdapter" where
  "find_adapter M adapters shardKey =
    (let i = sort_Search (\<lambda>i. nca_lowerBound (adapters ! i) > shardKey) 0 (length adapters) in
     if i > 0 \<and> shardKey \<le> nca_upperBound (adapters ! (i - 1)) then Inr (adapters ! (i - 1))
     else Inl (ErrNew (''no shard found for shardKey: '' @ ShardKey_String M shardKey)))"

definition findMoabQueuesAdapter ::
  "monstera_pkg \<Rightarrow> 'd MoabNonclusteredStub \<Rightarrow> ShardKey \<Rightarrow> goerr + 'd MoabQueuesCoreApi ncAdapter" where
  "findMoabQueuesAdapter M s shardKey = find_adapter M (ncs_moabQueuesCores s) shardKey"

definition findMoabTasksAdapter ::
  "monstera_pkg \<Rightarrow> 'd MoabNonclusteredStub \<Rightarrow> ShardKey \<Rightarrow> goerr + 'd MoabTasksCoreApi ncAdapter" where
  "findMoabTasksAdapter M s shardKey = find_adapter M (ncs_moabTasksCores s) shardKey"

text \<open>What a call does with the result of the core.  An application error
  comes without a payload.\<close>

definition nonclustered_result :: "int \<Rightarrow> (goerr + 'p response) \<times> 'd \<Rightarrow> (rpc_err + 'p option \<times> ResponseMeta) \<times> 'd" where
  "nonclustered_result now r = (case r of
      (Inl e, d) \<Rightarrow> (Inl (GoErr e), d)
    | (Inr (ApplicationError err), d) \<Rightarrow> (case nilifyIfEmpty (Some err) of
        Some e \<Rightarrow> (Inl (Rpc e), d)
      | None \<Rightarrow> (Inr (None, \<lparr> rm_Now = now, rm_RaftLogIndex = 0 \<rparr>), d))
    | (Inr (Payload p), d) \<Rightarrow> (Inr (Some p, \<lparr> rm_Now = now, rm_RaftLogIndex = 0 \<rparr>), d))"

definition nonclustered_call ::
  "(ShardKey \<Rightarrow> goerr + 'c ncAdapter) \<Rightarrow> ('q \<Rightarrow> goerr + ShardKey) \<Rightarrow> ('c \<Rightarrow> ('d, 'q, 'p) core_method) \<Rightarrow> int \<Rightarrow> 'q \<Rightarrow> ('d, 'p) rpc" where
  "nonclustered_call search key m now req d = (case key req of
      Inl e \<Rightarrow> (Inl (GoErr e), d)
    | Inr shardKey \<Rightarrow> (case search shardKey of
        Inl e \<Rightarrow> (Inl (GoErr e), d)
      | Inr adapter \<Rightarrow> nonclustered_result now (m (nca_core adapter) now req d)))"

fun nonclustered_shard_call ::
  "'c ncAdapter list \<Rightarrow> string \<Rightarrow> ('c \<Rightarrow> ('d, 'q, 'p) core_method) \<Rightarrow> int \<Rightarrow> 'q \<Rightarrow> ('d, 'p) rpc" where
  "nonclustered_shard_call [] shardId m now req d = (Inl (GoErr (ErrNew (''no shard found for shardId: '' @ shardId))), d)"
| "nonclustered_shard_call (adapter # adapters) shardId m now req d =
    (if nca_id adapter = shardId then nonclustered_result now (m (nca_core adapter) now req d)
     else nonclustered_shard_call adapters shardId m now req d)"

definition MoabNonclusteredStub_GetQueue ::
  "pkgs \<Rightarrow> monstera_pkg \<Rightarrow> 'd MoabNonclusteredStub \<Rightarrow> int \<Rightarrow> (QueueId option) \<Rightarrow> ('d, Queue) rpc" where
  "MoabNonclusteredStub_GetQueue P M s now req =
    nonclustered_call (findMoabQueuesAdapter M s) (GetQueueRequest_ShardKey P) qapi_GetQueue now req"

definition MoabNonclusteredStub_GetQueueByName ::
  "pkgs \<Rightarrow> monstera_pkg \<Rightarrow> 'd MoabNonclusteredStub \<Rightarrow> int \<Rightarrow> GetQueueByNameRequest \<Rightarrow> ('d, Queue) rpc" where
  "MoabNonclusteredStub_GetQueueByName P M s now req =
    nonclustered_call (findMoabQueuesAdapter M s) (GetQueueByNameRequest_ShardKey P) qapi_GetQueueByName now req"

definition MoabNonclusteredStub_ListQueues ::
  "pkgs \<Rightarrow> monstera_pkg \<Rightarrow> 'd MoabNonclusteredStub \<Rightarrow> int \<Rightarrow> ListQueuesRequest \<Rightarrow> ('d, ListQueuesResponse) rpc" where
  "MoabNonclusteredStub_ListQueues P M s now req =
    nonclustered_call (findMoabQueuesAdapter M s) (ListQueuesRequest_ShardKey P) qapi_ListQueues now req"

definition MoabNonclusteredStub_GetSchedule ::
  "pkgs \<Rightarrow> monstera_pkg \<Rightarrow> 'd MoabNonclusteredStub \<Rightarrow> int \<Rightarrow> GetScheduleRequest \<Rightarrow> ('d, Schedule) rpc" where
  "MoabNonclusteredStub_GetSchedule P M s now req =
    nonclustered_call (findMoabQueuesAdapter M s) (GetScheduleRequest_ShardKey P) qapi_GetSchedule now req"

definition MoabNonclusteredStub_DequeSchedules ::
  "'d MoabNonclusteredStub \<Rightarrow> int \<Rightarrow> int \<Rightarrow> string \<Rightarrow> ('d, DequeSchedulesResponseEntry list) rpc" where
  "MoabNonclusteredStub_DequeSchedules s now req shardId =
    nonclustered_shard_call (ncs_moabQueuesCores s) shardId qapi_DequeSchedules now req"

definition MoabNonclusteredStub_ListSchedules ::
  "pkgs \<Rightarrow> monstera_pkg \<Rightarrow> 'd MoabNonclusteredStub \<Rightarrow> int \<Rightarrow> ListSchedulesRequest \<Rightarrow> ('d, ListSchedulesResponse) rpc" where
  "MoabNonclusteredStub_ListSchedules P M s now req =
    nonclustered_call (findMoabQueuesAdapter M s) (ListSchedulesRequest_ShardKey P) qapi_ListSchedules now req"

definition MoabNonclusteredStub_CreateQueue ::
  "pkgs \<Rightarrow> monstera_pkg \<Rightarrow> 'd MoabNonclusteredStub \<Rightarrow> int \<Rightarrow> CreateQueueRequest \<Rightarrow> ('d, Queue) rpc" where
  "MoabNonclusteredStub_CreateQueue P M s now req =
    nonclustered_call (findMoabQueuesAdapter M s) (CreateQueueRequest_ShardKey P) qapi_CreateQueue now req"

definition MoabNonclusteredStub_UpdateQueue ::
  "pkgs \<Rightarrow> monstera_pkg \<Rightarrow> 'd MoabNonclusteredStub \<Rightarrow> int \<Rightarrow> UpdateQueueRequest \<Rightarrow> ('d, Queue) rpc" where
  "MoabNonclusteredStub_UpdateQueue P M s now req =
    nonclustered_call (findMoabQueuesAdapter M s) (UpdateQueueRequest_ShardKey P) qapi_UpdateQueue now req"

definition MoabNonclusteredStub_DeleteQueue ::
  "pkgs \<Rightarrow> monstera_pkg \<Rightarrow> 'd MoabNonclusteredStub \<Rightarrow> int \<Rightarrow> DeleteQueueRequest \<Rightarrow> ('d, QueueId) rpc" where
  "MoabNonclusteredStub_DeleteQueue P M s now req =
    nonclustered_call (findMoabQueuesAdapter M s) (DeleteQueueRequest_ShardKey P) qapi_DeleteQueue now req"

definition MoabNonclusteredStub_CreateSchedule ::
  "pkgs \<Rightarrow> monstera_pkg \<Rightarrow> 'd MoabNonclusteredStub \<Rightarrow> int \<Rightarrow> CreateScheduleRequest \<Rightarrow> ('d, Schedule) rpc" where
  "MoabNonclusteredStub_CreateSchedule P M s now req =
    nonclustered_call (findMoabQueuesAdapter M s) (CreateScheduleRequest_ShardKey P) qapi_CreateSchedule now req"

definition MoabNonclusteredStub_UpdateSchedule ::
  "pkgs \<Rightarrow> monstera_pkg \<Rightarrow> 'd MoabNonclusteredStub \<Rightarrow> int \<Rightarrow> UpdateScheduleRequest \<Rightarrow> ('d, Schedule) rpc" where
  "MoabNonclusteredStub_UpdateSchedule P M s now req =
    nonclustered_call (findMoabQueuesAdapter M s) (UpdateScheduleRequest_ShardKey P) qapi_UpdateSchedule now req"

definition MoabNonclusteredStub_DeleteSchedule ::
  "pkgs \<Rightarrow> monstera_pkg \<Rightarrow> 'd MoabNonclusteredStub \<Rightarrow> int \<Rightarrow> DeleteScheduleRequest \<Rightarrow> ('d, unit) rpc" where
  "MoabNonclusteredStub_DeleteSchedule P M s now req =
    nonclustered_call (findMoabQueuesAdapter M s) (DeleteScheduleRequest_ShardKey P) qapi_DeleteSchedule now req"

definition MoabNonclusteredStub_ReportSchedulesStatus ::
  "'d MoabNonclusteredStub \<Rightarrow> int \<Rightarrow> ReportSchedulesStatusRequest \<Rightarrow> string \<Rightarrow> ('d, unit) rpc" where
  "MoabNonclusteredStub_ReportSchedulesStatus s now req shardId =
    nonclustered_shard_call (ncs_moabQueuesCores s) shardId qapi_ReportSchedulesStatus now req"

definition MoabNonclusteredStub_RunQueuesGarbageCollection ::
  "'d MoabNonclusteredStub \<Rightarrow> int \<Rightarrow> RunQueuesGarbageCollectionRequest \<Rightarrow> string \<Rightarrow> ('d, unit) rpc" where
  "MoabNonclusteredStub_RunQueuesGarbageCollection s now req shardId =
    nonclustered_shard_call (ncs_moabQueuesCores s) shardId qapi_RunQueuesGarbageCollection now req"

definition MoabNonclusteredStub_SwapQueueId ::
  "pkgs \<Rightarrow> monstera_pkg \<Rightarrow> 'd MoabNonclusteredStub \<Rightarrow> int \<Rightarrow> SwapQueueIdRequest \<Rightarrow> ('d, SwapQueueIdResponse) rpc" where
  "MoabNonclusteredStub_SwapQueueId P M s now req =
    nonclustered_call (findMoabQueuesAdapter M s) (SwapQueueIdRequest_ShardKey P) qapi_SwapQueueId now req"

definition MoabNonclusteredStub_GetTask ::
  "pkgs \<Rightarrow> monstera_pkg \<Rightarrow> 'd MoabNonclusteredStub \<Rightarrow> int \<Rightarrow> (TaskId option) \<Rightarrow> ('d, Task) rpc" where
  "MoabNonclusteredStub_GetTask P M s now req =
    nonclustered_call (findMoabTasksAdapter M s) (GetTaskRequest_ShardKey P) tapi_GetTask now req"

definition MoabNonclusteredStub_GetStatistics ::
  "pkgs \<Rightarrow> monstera_pkg \<Rightarrow> 'd MoabNonclusteredStub \<Rightarrow> int \<Rightarrow> (QueueId option) \<Rightarrow> ('d, GetStatisticsResponse) rpc" where
  "MoabNonclusteredStub_GetStatistics P M s now req =
    nonclustered_call (findMoabTasksAdapter M s) (GetStatisticsRequest_ShardKey P) tapi_GetStatistics now req"

definition MoabNonclusteredStub_ListTasks ::
  "pkgs \<Rightarrow> monstera_pkg \<Rightarrow> 'd MoabNonclusteredStub \<Rightarrow> int \<Rightarrow> ListTasksRequest \<Rightarrow> ('d, ListTasksResponse) rpc" where
  "MoabNonclusteredStub_ListTasks P M s now req =
    nonclustered_call (findMoabTasksAdapter M s) (ListTasksRequest_ShardKey P) tapi_ListTasks now req"

definition MoabNonclusteredStub_Enqueue ::
  "pkgs \<Rightarrow> monstera_pkg \<Rightarrow> 'd MoabNonclusteredStub \<Rightarrow> int \<Rightarrow> EnqueueRequest \<Rightarrow> ('d, Task list) rpc" where
  "MoabNonclusteredStub_Enqueue P M s now req =
    nonclustered_call (findMoabTasksAdapter M s) (EnqueueRequest_ShardKey P) tapi_Enqueue now req"

definition MoabNonclusteredStub_Dequeue ::
  "pkgs \<Rightarrow> monstera_pkg \<Rightarrow> 'd MoabNonclusteredStub \<Rightarrow> int \<Rightarrow> DequeueRequest \<Rightarrow> ('d, Task list) rpc" where
  "MoabNonclusteredStub_Dequeue P M s now req =
    nonclustered_call (findMoabTasksAdapter M s) (DequeueRequest_ShardKey P) tapi_Dequeue now req"

definition MoabNonclusteredStub_ReportStatus ::
  "pkgs \<Rightarrow> monstera_pkg \<Rightarrow> 'd MoabNonclusteredStub \<Rightarrow> int \<Rightarrow> ReportStatusRequest \<Rightarrow> ('d, ReportStatusResponseEntry list) rpc" where
  "MoabNonclusteredStub_ReportStatus P M s now req =
    nonclustered_call (findMoabTasksAdapter M s) (ReportStatusRequest_ShardKey P) tapi_ReportStatus now req"

definition MoabNonclusteredStub_DeleteTasks ::
  "pkgs \<Rightarrow> monstera_pkg \<Rightarrow> 'd MoabNonclusteredStub \<Rightarrow> int \<Rightarrow> DeleteTasksRequest \<Rightarrow> ('d, unit) rpc" where
  "MoabNonclusteredStub_DeleteTasks P M s now req =
    nonclustered_call (findMoabTasksAdapter M s) (DeleteTasksRequest_ShardKey P) tapi_DeleteTasks now req"

definition MoabNonclusteredStub_RestartTasks ::
  "pkgs \<Rightarrow> monstera_pkg \<Rightarrow> 'd MoabNonclusteredStub \<Rightarrow> int \<Rightarrow> RestartTasksRequest \<Rightarrow> ('d, RestartTasksResponseEntry list) rpc" where
  "MoabNonclusteredStub_RestartTasks P M s now req =
    nonclustered_call (findMoabTasksAdapter M s) (RestartTasksRequest_ShardKey P) tapi_RestartTasks now req"

definition MoabNonclusteredStub_PurgeQueue ::
  "pkgs \<Rightarrow> monstera_pkg \<Rightarrow> 'd MoabNonclusteredStub \<Rightarrow> int \<Rightarrow> (QueueId option) \<Rightarrow> ('d, unit) rpc" where
  "MoabNonclusteredStub_PurgeQueue P M s now req =
    nonclustered_call (findMoabTasksAdapter M s) (PurgeQueueRequest_ShardKey P) tapi_PurgeQueue now req"

definition MoabNonclusteredStub_RunTasksGarbageCollection ::
  "'d MoabNonclusteredStub \<Rightarrow> int \<Rightarrow> RunTasksGarbageCollectionRequest \<Rightarrow> string \<Rightarrow> ('d, unit) rpc" where
  "MoabNonclusteredStub_RunTasksGarbageCollection s now req shardId =
    nonclustered_shard_call (ncs_moabTasksCores s) shardId tapi_RunTasksGarbageCollection now req"

definition MoabNonclusteredStub_RunPurgeQueueGarbageCollection ::
  "'d MoabNonclusteredStub \<Rightarrow> int \<Rightarrow> RunPurgeQueueGarbageCollectionRequest \<Rightarrow> string \<Rightarrow> ('d, unit) rpc" where
  "MoabNonclusteredStub_RunPurgeQueueGarbageCollection s now req shardId =
    nonclustered_shard_call (ncs_moabTasksCores s) shardId tapi_RunPurgeQueueGarbageCollection now req"

definition MoabNonclusteredStub_ListShards :: "'d MoabNonclusteredStub \<Rightarrow> string \<Rightarrow> rpc_err + string list" where
  "MoabNonclusteredStub_ListShards s applicationName =
    (if applicationName = ''MoabQueues'' then Inr (map nca_id (ncs_moabQueuesCores s))
     else if applicationName = ''MoabTasks'' then Inr (map nca_id (ncs_moabTasksCores s))
     else Inl (GoErr (ErrNew (''application not found: '' @ applicationName))))"

section \<open>Building the nonclustered stub\<close>

text \<open>The verb \<open>%x\<close> on bytes.\<close>

definition hex_digit :: "nat \<Rightarrow> char" where
  "hex_digit n = char_of (if n < 10 then 48 + n else 87 + n)"

definition fmt_hex :: "bytes \<Rightarrow> string" where
  "fmt_hex bs = concat (map (\<lambda>b. [hex_digit (unat b div 16), hex_digit (unat b mod 16)]) bs)"

definition shard_lower :: "int \<Rightarrow> nat \<Rightarrow> ShardKey" where
  "shard_lower shardSize i = word_of_int (int i * shardSize)"

definition shard_upper :: "int \<Rightarrow> nat \<Rightarrow> ShardKey" where
  "shard_upper shardSize i = word_of_int (int (i + 1) * shardSize - 1)"

definition shard_id :: "monstera_pkg \<Rightarrow> string \<Rightarrow> ShardKey \<Rightarrow> ShardKey \<Rightarrow> string" where
  "shard_id M app lowerBound upperBound =
    (let (sl, su) = ShortenBounds M (ShardKey_Bytes M lowerBound) (ShardKey_Bytes M upperBound) in
     app @ ''_'' @ fmt_hex sl @ ''_'' @ fmt_hex su)"

definition nc_shard ::
  "monstera_pkg \<Rightarrow> string \<Rightarrow> (string \<Rightarrow> ShardKey \<Rightarrow> ShardKey \<Rightarrow> 'c) \<Rightarrow> int \<Rightarrow> nat \<Rightarrow> 'c ncAdapter" where
  "nc_shard M app factory shardSize i =
    (let lowerBound = shard_lower shardSize i; upperBound = shard_upper shardSize i;
         shardId = shard_id M app lowerBound upperBound in
     \<lparr> nca_core = factory shardId lowerBound upperBound, nca_id = shardId, nca_lowerBound = lowerBound, nca_upperBound = upperBound \<rparr>)"

unbundle bit_operations_syntax

definition bad_shard_count :: "monstera_pkg \<Rightarrow> int \<Rightarrow> bool" where
  "bad_shard_count M n \<longleftrightarrow> n < 1 \<or> n > KeyspacePerApplication M \<or> n AND (n - 1) \<noteq> 0"

definition NewMoabNonclusteredStub ::
  "monstera_pkg \<Rightarrow> int \<Rightarrow> (string \<Rightarrow> ShardKey \<Rightarrow> ShardKey \<Rightarrow> 'd MoabQueuesCoreApi) \<Rightarrow>
   (string \<Rightarrow> ShardKey \<Rightarrow> ShardKey \<Rightarrow> 'd MoabTasksCoreApi) \<Rightarrow> goerr + 'd MoabNonclusteredStub" where
  "NewMoabNonclusteredStub M shardsPerApp queuesFactory tasksFactory =
    (if bad_shard_count M shardsPerApp
     then Inl (Panic (''shardsPerApp must be a power of 2 between 1 and 2^32, got '' @ fmt_int shardsPerApp))
     else let shardSize = KeyspacePerApplication M div shardsPerApp in
       Inr \<lparr> ncs_moabQueuesCores = map (nc_shard M ''MoabQueues'' queuesFactory shardSize) [0..<nat shardsPerApp],
             ncs_moabTasksCores = map (nc_shard M ''MoabTasks'' tasksFactory shardSize) [0..<nat shardsPerApp] \<rparr>)"

end
