(* ===== verification/Coreapis_Routing.thy ===== *)
theory Coreapis_Routing
  imports Coreapis_Stubs
begin

text \<open>
  Routing.  The bisection of \<open>sort.Search\<close> finds the shard of a key; the shards
  of the nonclustered stub partition the key space; and a clustered stub whose
  client delivers each request to the shard of its key computes the same
  results as the nonclustered stub over the same cores.
\<close>

section \<open>Bisection\<close>

lemma sort_Search_spec:
  assumes "i \<le> j" "\<And>x y. i \<le> x \<Longrightarrow> x \<le> y \<Longrightarrow> y < j \<Longrightarrow> f x \<Longrightarrow> f y"
  shows "i \<le> sort_Search f i j \<and> sort_Search f i j \<le> j \<and>
    (\<forall>x. i \<le> x \<and> x < sort_Search f i j \<longrightarrow> \<not> f x) \<and> (\<forall>x. sort_Search f i j \<le> x \<and> x < j \<longrightarrow> f x)"
  using assms
proof (induction f i j rule: sort_Search.induct)
  case (1 f i j)
  show ?case
  proof (cases "i < j")
    case True
    define h where "h = (i + j) div 2"
    have h: "i \<le> h" "h < j" using True by (auto simp: h_def)
    show ?thesis
    proof (cases "f h")
      case True
      have eq: "sort_Search f i j = sort_Search f i h" using \<open>i < j\<close> True by (subst sort_Search.simps) (simp add: h_def Let_def)
      have "i \<le> sort_Search f i h \<and> sort_Search f i h \<le> h \<and> (\<forall>x. i \<le> x \<and> x < sort_Search f i h \<longrightarrow> \<not> f x) \<and>
          (\<forall>x. sort_Search f i h \<le> x \<and> x < h \<longrightarrow> f x)"
      proof (rule 1(2)[OF \<open>i < j\<close> h_def])
        show "f y" if "i \<le> x" "x \<le> y" "y < h" "f x" for x y using 1(4)[of x y] that h(2) by linarith
      qed (use True h(1) in \<open>simp_all only: not_not\<close>)
      moreover have up: "f x" if "h \<le> x" "x < j" for x using 1(4)[of h x] that h True by simp
      moreover have "f x" if "sort_Search f i h \<le> x" "x < j" for x
        using calculation(1) up[of x] that by (cases "x < h") auto
      ultimately show ?thesis unfolding eq using h by auto
    next
      case False
      have eq: "sort_Search f i j = sort_Search f (h + 1) j" using \<open>i < j\<close> False by (subst sort_Search.simps) (simp add: h_def Let_def)
      have "h + 1 \<le> sort_Search f (h + 1) j \<and> sort_Search f (h + 1) j \<le> j \<and> (\<forall>x. h + 1 \<le> x \<and> x < sort_Search f (h + 1) j \<longrightarrow> \<not> f x) \<and>
          (\<forall>x. sort_Search f (h + 1) j \<le> x \<and> x < j \<longrightarrow> f x)"
      proof (rule 1(1)[OF \<open>i < j\<close> h_def False])
        show "f y" if "h + 1 \<le> x" "x \<le> y" "y < j" "f x" for x y using 1(4)[of x y] that h(1) by linarith
      qed (use h(2) in simp)
      moreover have down: "\<not> f x" if "i \<le> x" "x \<le> h" for x using 1(4)[of x h] that h False by blast
      moreover have "\<not> f x" if "i \<le> x" "x < sort_Search f (h + 1) j" for x
        using calculation(1) down[of x] that by (cases "x \<le> h") auto
      ultimately show ?thesis unfolding eq using h by auto
    qed
  next
    case False
    then have "sort_Search f i j = i" by (subst sort_Search.simps) simp
    then show ?thesis using 1(3) False by auto
  qed
qed

text \<open>Adapters in ascending, disjoint order: the shard that contains a key is
  the one the bisection finds.\<close>

definition ascending :: "'c ncAdapter list \<Rightarrow> bool" where
  "ascending as \<longleftrightarrow> (\<forall>i j. i < j \<and> j < length as \<longrightarrow> nca_upperBound (as ! i) < nca_lowerBound (as ! j)) \<and>
    (\<forall>i < length as. nca_lowerBound (as ! i) \<le> nca_upperBound (as ! i))"

lemma find_adapter_iff:
  assumes "ascending as"
  shows "find_adapter M as k = Inr a \<longleftrightarrow> a \<in> set as \<and> nca_lowerBound a \<le> k \<and> k \<le> nca_upperBound a"
proof -
  let ?f = "\<lambda>i. k < nca_lowerBound (as ! i)" and ?n = "length as"
  define r where "r = sort_Search ?f 0 ?n"
  have lt: "nca_lowerBound (as ! i) \<le> nca_lowerBound (as ! j)" if "i \<le> j" "j < ?n" for i j
  proof (cases "i = j")
    case False
    then have "nca_upperBound (as ! i) < nca_lowerBound (as ! j)" "nca_lowerBound (as ! i) \<le> nca_upperBound (as ! i)"
      using assms that unfolding ascending_def by simp_all
    then show ?thesis by simp
  qed simp
  have mono: "?f x \<Longrightarrow> ?f y" if "x \<le> y" "y < ?n" for x y using lt[OF that] by (meson less_le_trans)
  have r: "r \<le> ?n" "\<And>x. x < r \<Longrightarrow> \<not> ?f x" "\<And>x. r \<le> x \<Longrightarrow> x < ?n \<Longrightarrow> ?f x"
    using sort_Search_spec[of 0 ?n ?f] mono unfolding r_def by blast+
  have F: "find_adapter M as k = (if 0 < r \<and> k \<le> nca_upperBound (as ! (r - 1)) then Inr (as ! (r - 1))
      else Inl (ErrNew (''no shard found for shardKey: '' @ ShardKey_String M k)))"
    unfolding find_adapter_def Let_def r_def ..
  show ?thesis
  proof
    assume "find_adapter M as k = Inr a"
    then have "0 < r" "k \<le> nca_upperBound (as ! (r - 1))" "a = as ! (r - 1)" unfolding F by (auto split: if_splits)
    then show "a \<in> set as \<and> nca_lowerBound a \<le> k \<and> k \<le> nca_upperBound a" using r(1) r(2)[of "r - 1"] by auto
  next
    assume a: "a \<in> set as \<and> nca_lowerBound a \<le> k \<and> k \<le> nca_upperBound a"
    then obtain i where i: "i < ?n" "a = as ! i" by (auto simp: in_set_conv_nth)
    have "i < r" using r(3)[of i] i a by (meson not_le)
    moreover have "\<not> i < r - 1"
    proof
      assume "i < r - 1"
      then have "nca_upperBound (as ! i) < nca_lowerBound (as ! (r - 1))" using assms r(1) by (simp add: ascending_def)
      moreover have "nca_lowerBound (as ! (r - 1)) \<le> k" using r(2)[of "r - 1"] \<open>i < r\<close> by simp
      moreover have "k \<le> nca_upperBound (as ! i)" using a i(2) by simp
      ultimately show False by (meson leD order_le_less_trans order_trans)
    qed
    ultimately have "i = r - 1" "0 < r" by linarith+
    then show "find_adapter M as k = Inr a" unfolding F using a i by simp
  qed
qed

section \<open>The shards partition the key space\<close>

unbundle bit_operations_syntax

lemma power_of_two:
  assumes "1 \<le> (n :: int)" "n AND (n - 1) = 0"
  shows "\<exists>m. n = 2 ^ m"
  using assms
proof (induction "nat n" arbitrary: n rule: less_induct)
  case less
  show ?case
  proof (cases "even n")
    case True
    then obtain m where m: "n = 2 * m" by (auto elim: evenE)
    have "n - 1 = 2 * (m - 1) + 1" using m by simp
    then have "(n - 1) div 2 = m - 1" by simp
    then have "2 * (m AND (m - 1)) = 0" using less.prems(2) and_int_rec[of n "n - 1"] m by simp
    then have "m AND (m - 1) = 0" by simp
    moreover have "1 \<le> m" "nat m < nat n" using less.prems(1) m by auto
    ultimately obtain l where "m = 2 ^ l" using less.hyps[of m] by blast
    then show ?thesis using m by (intro exI[of _ "Suc l"]) simp
  next
    case False
    then obtain m where m: "n = 2 * m + 1" by (auto elim: oddE)
    have "n AND (n - 1) = 2 * m" using and_int_rec[of n "n - 1"] m by simp
    then have "n = 1" using less.prems(2) m by simp
    then show ?thesis by (intro exI[of _ 0]) simp
  qed
qed

lemma good_shard_count:
  assumes "\<not> bad_shard_count M n" "KeyspacePerApplication M = 2 ^ 32"
  obtains s where "0 < s" "n * s = 2 ^ 32" "KeyspacePerApplication M div n = s" "1 \<le> n"
proof -
  have n: "1 \<le> n" "n \<le> 2 ^ 32" "n AND (n - 1) = 0" using assms by (auto simp: bad_shard_count_def)
  obtain m where m: "n = 2 ^ m" using power_of_two[OF n(1,3)] by blast
  have "m \<le> 32" using n(2) unfolding m by (simp only: power_increasing_iff one_less_numeral_iff semiring_norm)
  then have "n * 2 ^ (32 - m) = 2 ^ 32" unfolding m by (metis le_add_diff_inverse power_add)
  then show thesis using that[of "2 ^ (32 - m)"] assms(2) n(1) by (metis nonzero_mult_div_cancel_left not_one_le_zero zero_less_numeral zero_less_power)
qed

lemma shard_bounds:
  assumes "0 < s" "n * s = 2 ^ 32" "int i < n"
  shows "uint (shard_lower s i) = int i * s" "uint (shard_upper s i) = int (i + 1) * s - 1"
proof -
  have "int i * s + s \<le> n * s" using mult_right_mono[of "int i + 1" n s] assms(1,3) by (simp add: distrib_right)
  moreover have "0 \<le> int i * s" using assms(1) by simp
  ultimately have b: "int i * s < 2 ^ 32" "0 \<le> int i * s" "int (i + 1) * s - 1 < 2 ^ 32" "0 \<le> int (i + 1) * s - 1"
    unfolding of_nat_add distrib_right using assms by (auto simp only: of_nat_1 mult_1)
  have w: "uint (word_of_int x :: ShardKey) = x" if "0 \<le> x" "x < 2 ^ 32" for x
    using that by (simp add: take_bit_int_eq_self unsigned_of_int)
  show "uint (shard_lower s i) = int i * s" unfolding shard_lower_def by (rule w[OF b(2,1)])
  show "uint (shard_upper s i) = int (i + 1) * s - 1" unfolding shard_upper_def by (rule w[OF b(4,3)])
qed

lemma nc_shard_fields [simp]:
  "nca_lowerBound (nc_shard M app f s i) = shard_lower s i" "nca_upperBound (nc_shard M app f s i) = shard_upper s i"
  by (simp_all add: nc_shard_def Let_def)

lemma shards_ascending:
  assumes "0 < s" "n * s = 2 ^ 32"
  shows "ascending (map (nc_shard M app f s) [0..<nat n])"
  unfolding ascending_def
proof (intro conjI allI impI)
  fix i j assume "i < j \<and> j < length (map (nc_shard M app f s) [0..<nat n])"
  then have ij: "i < j" "int j < n" "int i < n" by auto
  have "int (i + 1) * s \<le> int j * s" using ij(1) assms(1) by (intro mult_right_mono) auto
  then show "nca_upperBound (map (nc_shard M app f s) [0..<nat n] ! i) < nca_lowerBound (map (nc_shard M app f s) [0..<nat n] ! j)"
    using shard_bounds[OF assms ij(2)] shard_bounds[OF assms ij(3)] ij by (simp add: word_less_def)
next
  fix i assume "i < length (map (nc_shard M app f s) [0..<nat n])"
  then have i: "int i < n" by auto
  show "nca_lowerBound (map (nc_shard M app f s) [0..<nat n] ! i) \<le> nca_upperBound (map (nc_shard M app f s) [0..<nat n] ! i)"
    using shard_bounds[OF assms i] i assms(1) by (simp add: word_le_def distrib_right)
qed

lemma shards_cover:
  assumes "0 < s" "n * s = 2 ^ 32"
  shows "\<exists>a \<in> set (map (nc_shard M app f s) [0..<nat n]). nca_lowerBound a \<le> k \<and> k \<le> nca_upperBound a"
proof -
  define i where "i = nat (uint k div s)"
  have k: "0 \<le> uint k" "uint k < 2 ^ 32" using uint_lt2p[of k] by simp_all
  have d: "uint k div s * s + uint k mod s = uint k" "0 \<le> uint k mod s" "uint k mod s < s" "0 \<le> uint k div s"
    using assms(1) k(1) by (simp_all add: pos_imp_zdiv_nonneg_iff)
  then have "uint k div s * s < n * s" using assms(2) k(2) by linarith
  then have i: "int i < n" "int i = uint k div s" using assms(1) d(4) by (auto simp: i_def)
  have "shard_lower s i \<le> k \<and> k \<le> shard_upper s i"
    unfolding word_le_def shard_bounds[OF assms i(1)] of_nat_add distrib_right i(2) using d by linarith
  then show ?thesis using i(1) by (intro bexI[of _ "nc_shard M app f s i"]) auto
qed

lemma stub_routes:
  assumes "NewMoabNonclusteredStub M n qf tf = Inr s" "KeyspacePerApplication M = 2 ^ 32"
  shows "ascending (ncs_moabQueuesCores s)" "ascending (ncs_moabTasksCores s)"
    "\<exists>a. findMoabQueuesAdapter M s k = Inr a" "\<exists>a. findMoabTasksAdapter M s k = Inr a"
proof -
  have "\<not> bad_shard_count M n" using assms(1) by (auto simp: NewMoabNonclusteredStub_def split: if_splits)
  then obtain z where z: "0 < z" "n * z = 2 ^ 32" "KeyspacePerApplication M div n = z"
    using good_shard_count[OF _ assms(2)] by metis
  have s: "ncs_moabQueuesCores s = map (nc_shard M ''MoabQueues'' qf z) [0..<nat n]"
    "ncs_moabTasksCores s = map (nc_shard M ''MoabTasks'' tf z) [0..<nat n]"
    using assms(1) z(3) by (auto simp: NewMoabNonclusteredStub_def Let_def split: if_splits)
  show a: "ascending (ncs_moabQueuesCores s)" "ascending (ncs_moabTasksCores s)"
    unfolding s by (rule shards_ascending[OF z(1,2)])+
  show "\<exists>a. findMoabQueuesAdapter M s k = Inr a"
    using shards_cover[OF z(1,2), of M "''MoabQueues''" qf k] find_adapter_iff[OF a(1), of M k] unfolding findMoabQueuesAdapter_def s by blast
  show "\<exists>a. findMoabTasksAdapter M s k = Inr a"
    using shards_cover[OF z(1,2), of M "''MoabTasks''" tf k] find_adapter_iff[OF a(2), of M k] unfolding findMoabTasksAdapter_def s by blast
qed

section \<open>Clustered and nonclustered calls agree\<close>

text \<open>The adapter of a cluster node for a shard of the nonclustered stub.\<close>

definition as_adapter :: "'c ncAdapter \<Rightarrow> 'c adapter" where
  "as_adapter a = \<lparr> ad_shardLowerBound = nca_lowerBound a, ad_shardUpperBound = nca_upperBound a, ad_core = nca_core a \<rparr>"

definition served :: "uint64 \<Rightarrow> (goerr + bytes) \<times> 'w \<Rightarrow> (rpc_err + bytes \<times> uint64) \<times> 'w" where
  "served i r = (case r of (Inl e, w) \<Rightarrow> (Inl (GoErr e), w) | (Inr b, w) \<Rightarrow> (Inr (b, i), w))"

definition served_read :: "(goerr + bytes) \<times> 'w \<Rightarrow> (rpc_err + bytes) \<times> 'w" where
  "served_read r = (case r of (Inl e, w) \<Rightarrow> (Inl (GoErr e), w) | (Inr b, w) \<Rightarrow> (Inr b, w))"

text \<open>A call whose request the codecs carry, and an answer they carry back.\<close>

definition sendable :: "monstera_pkg \<Rightarrow> ('q, 'p) codecs \<Rightarrow> int \<Rightarrow> int \<Rightarrow> string \<Rightarrow> 'q \<Rightarrow> bool" where
  "sendable M C n now token req \<longleftrightarrow> (\<exists>b e. MarshalBinary (cd_req C) req = Inr b \<and> UnmarshalBinary (cd_req C) b = Inr req \<and>
     Request_MarshalVT M \<lparr> rq_Data = b, rq_IdempotencyToken = token, rq_MethodNumber = n, rq_Now = now \<rparr> = Inr e)"

definition answerable :: "monstera_pkg \<Rightarrow> ('q, 'p) codecs \<Rightarrow> goerr + 'p response \<Rightarrow> bool" where
  "answerable M C r \<longleftrightarrow> (case r of Inl e \<Rightarrow> True
     | Inr (Payload p) \<Rightarrow> (\<exists>b e. MarshalBinary (cd_resp C) p = Inr b \<and> UnmarshalBinary (cd_resp C) b = Inr p \<and>
         Response_MarshalVT M \<lparr> rsp_Data = b, rsp_Error = None \<rparr> = Inr e)
     | Inr (ApplicationError err) \<Rightarrow> nilifyIfEmpty (Some err) = Some err \<and>
         (\<exists>z e. UnmarshalBinary (cd_resp C) [] = Inr z \<and> Response_MarshalVT M \<lparr> rsp_Data = [], rsp_Error = Some err \<rparr> = Inr e))"

text \<open>The results without the log index, which only a cluster has.\<close>

definition forget_index :: "(rpc_err + 'p option \<times> ResponseMeta) \<times> 'w \<Rightarrow> (rpc_err + 'p option \<times> ResponseMeta) \<times> 'w" where
  "forget_index r = (case r of (Inl e, w) \<Rightarrow> (Inl e, w) | (Inr (p, meta), w) \<Rightarrow> (Inr (p, meta\<lparr> rm_RaftLogIndex := 0 \<rparr>), w))"

text \<open>What Monstera promises: the envelope codecs invert each other, and the
  client delivers a request to the core of the shard its key falls in.\<close>

locale cluster =
  fixes P :: pkgs and M :: monstera_pkg and C :: tasks_codecs
    and client :: "'d monstera_client" and s :: "'d MoabNonclusteredStub"
  assumes request_env: "Request_MarshalVT M r = Inr b \<Longrightarrow> Request_UnmarshalVT M b = Inr r"
    and response_env: "Response_MarshalVT M r' = Inr b \<Longrightarrow> Response_UnmarshalVT M b = Inr r'"
    and keyspace: "KeyspacePerApplication M = 2 ^ 32"
    and stub: "\<exists>n qf tf. NewMoabNonclusteredStub M n qf tf = Inr s"
    and update: "findMoabTasksAdapter M s k = Inr a \<Longrightarrow>
      \<exists>i. mc_Update client ''MoabTasks'' k b d = served i (MoabTasksCoreAdapter_Update P M C (as_adapter a) b d)"
    and read: "findMoabTasksAdapter M s k = Inr a \<Longrightarrow>
      mc_Read client ''MoabTasks'' k f b d = served_read (MoabTasksCoreAdapter_Read P M C (as_adapter a) b d)"
begin

lemma found:
  obtains a where "findMoabTasksAdapter M s k = Inr a" "nca_lowerBound a \<le> k" "k \<le> nca_upperBound a"
proof -
  obtain n qf tf where s: "NewMoabNonclusteredStub M n qf tf = Inr s" using stub by blast
  then obtain a where a: "findMoabTasksAdapter M s k = Inr a" using stub_routes(4)[OF s keyspace] by blast
  then show thesis using that find_adapter_iff[OF stub_routes(2)[OF s keyspace], of M k a] by (simp add: findMoabTasksAdapter_def)
qed

text \<open>What an adapter makes of a request that was sent to it.\<close>

lemma adapter_run:
  assumes "Request_MarshalVT M r = Inr e" "UnmarshalBinary (cd_req cd) (rq_Data r) = Inr req" "bounds req = Inr ()"
    and "dispatch r = adapter_method cd bounds m r" "answerable M cd (fst (m (rq_Now r) req d))"
  shows "case m (rq_Now r) req d of (Inl err, d') \<Rightarrow> adapter_serve M dispatch e d = (Inl err, d')
    | (Inr (ApplicationError err), d') \<Rightarrow> \<exists>rb. adapter_serve M dispatch e d = (Inr rb, d') \<and>
        Response_UnmarshalVT M rb = Inr \<lparr> rsp_Data = [], rsp_Error = Some err \<rparr>
    | (Inr (Payload p), d') \<Rightarrow> \<exists>rb b. adapter_serve M dispatch e d = (Inr rb, d') \<and>
        Response_UnmarshalVT M rb = Inr \<lparr> rsp_Data = b, rsp_Error = None \<rparr> \<and> UnmarshalBinary (cd_resp cd) b = Inr p"
proof -
  obtain x d' where m: "m (rq_Now r) req d = (x, d')" by (metis surj_pair)
  have serve: "adapter_serve M dispatch e d = (case adapter_method cd bounds m r d of (Inl e, d') \<Rightarrow> (Inl e, d')
      | (Inr rpcResp, d') \<Rightarrow> (Response_MarshalVT M rpcResp, d'))"
    by (simp add: adapter_serve_def request_env[OF assms(1)] assms(4))
  show ?thesis
  proof (cases x)
    case (Inl err)
    then show ?thesis using m assms(2,3) by (simp add: serve adapter_method_def)
  next
    case (Inr y)
    then show ?thesis
      using m assms(2,3,5) response_env
      by (cases y) (fastforce simp: serve adapter_method_def answerable_def)+
  qed
qed

lemma call_agrees:
  assumes V: "Validate req = None" and send: "sendable M cd n now token req"
    and route: "\<And>k a e w. findMoabTasksAdapter M s k = Inr a \<Longrightarrow> key req = Inr k \<Longrightarrow> \<exists>i. transmit req e w = served i (adapter_serve M (D (as_adapter a)) e w)"
    and panic: "\<And>p e w. key req = Inl p \<Longrightarrow> transmit req e w = (Inl (GoErr p), w)"
    and D: "\<And>a r. rq_MethodNumber r = n \<Longrightarrow> D a r = adapter_method cd (in_bounds M a key) (m (ad_core a)) r"
    and ans: "\<And>k a. key req = Inr k \<Longrightarrow> findMoabTasksAdapter M s k = Inr a \<Longrightarrow> answerable M cd (fst (m (nca_core a) now req d))"
  shows "forget_index (stub_call M cd Validate n transmit now token req d) =
    nonclustered_call (findMoabTasksAdapter M s) key m now req d"
proof -
  obtain b e where b: "MarshalBinary (cd_req cd) req = Inr b" "UnmarshalBinary (cd_req cd) b = Inr req"
    "Request_MarshalVT M \<lparr> rq_Data = b, rq_IdempotencyToken = token, rq_MethodNumber = n, rq_Now = now \<rparr> = Inr e"
    using send unfolding sendable_def by blast
  let ?r = "\<lparr> rq_Data = b, rq_IdempotencyToken = token, rq_MethodNumber = n, rq_Now = now \<rparr>"
  show ?thesis
  proof (cases "key req")
    case (Inl p)
    then show ?thesis using V b panic by (simp add: stub_call_def nonclustered_call_def forget_index_def)
  next
    case (Inr k)
    obtain a where a: "findMoabTasksAdapter M s k = Inr a" "nca_lowerBound a \<le> k" "k \<le> nca_upperBound a" by (rule found)
    obtain i where i: "transmit req e d = served i (adapter_serve M (D (as_adapter a)) e d)" using route[OF a(1) Inr] by blast
    have bounds: "in_bounds M (as_adapter a) key req = Inr ()"
      using a(2,3) by (simp add: in_bounds_def Inr checkShardBounds_def as_adapter_def not_less)
    have disp: "D (as_adapter a) ?r = adapter_method cd (in_bounds M (as_adapter a) key) (m (nca_core a)) ?r"
      using D[of ?r "as_adapter a"] by (simp add: as_adapter_def)
    have run: "case m (nca_core a) now req d of (Inl err, d') \<Rightarrow> adapter_serve M (D (as_adapter a)) e d = (Inl err, d')
      | (Inr (ApplicationError err), d') \<Rightarrow> \<exists>rb. adapter_serve M (D (as_adapter a)) e d = (Inr rb, d') \<and>
        Response_UnmarshalVT M rb = Inr \<lparr> rsp_Data = [], rsp_Error = Some err \<rparr>
      | (Inr (Payload p), d') \<Rightarrow> \<exists>rb b. adapter_serve M (D (as_adapter a)) e d = (Inr rb, d') \<and>
        Response_UnmarshalVT M rb = Inr \<lparr> rsp_Data = b, rsp_Error = None \<rparr> \<and> UnmarshalBinary (cd_resp cd) b = Inr p"
      using adapter_run[where cd = cd and req = req and bounds = "in_bounds M (as_adapter a) key" and m = "m (nca_core a)" and r = ?r
          and e = e and dispatch = "D (as_adapter a)" and d = d] b(2,3) bounds disp ans[OF Inr a(1)] by simp
    obtain x d' where m: "m (nca_core a) now req d = (x, d')" by (metis surj_pair)
    have A: "answerable M cd x" using ans[OF Inr a(1)] m by simp
    have L: "stub_call M cd Validate n transmit now token req d = (case transmit req e d of
            (Inl e, w') \<Rightarrow> (Inl e, w')
          | (Inr (b, raftLogIndex), w') \<Rightarrow> (case Response_UnmarshalVT M b of
              Inl e \<Rightarrow> (Inl (GoErr (ErrWrap ''failed to unmarshal response'' e)), w')
            | Inr rpcResp \<Rightarrow> (case UnmarshalBinary (cd_resp cd) (rsp_Data rpcResp) of
                Inl e \<Rightarrow> (Inl (GoErr (ErrWrap ''failed to unmarshal response'' e)), w')
              | Inr methodResp \<Rightarrow> (case nilifyIfEmpty (rsp_Error rpcResp) of
                  Some err \<Rightarrow> (Inl (Rpc err), w')
                | None \<Rightarrow> (Inr (Some methodResp, \<lparr> rm_Now = now, rm_RaftLogIndex = raftLogIndex \<rparr>), w')))))"
      by (simp only: stub_call_def V option.case b sum.case)
    have R: "nonclustered_call (findMoabTasksAdapter M s) key m now req d = nonclustered_result now (x, d')"
      by (simp add: nonclustered_call_def Inr a(1) m)
    show ?thesis
    proof (cases x)
      case (Inl err)
      then show ?thesis using run m by (simp add: L R i served_def forget_index_def nonclustered_result_def)
    next
      case (Inr y)
      then show ?thesis
      proof (cases y)
        case (Payload p)
        then obtain rb b' where "adapter_serve M (D (as_adapter a)) e d = (Inr rb, d')"
          "Response_UnmarshalVT M rb = Inr \<lparr> rsp_Data = b', rsp_Error = None \<rparr>" "UnmarshalBinary (cd_resp cd) b' = Inr p"
          using run m \<open>x = Inr y\<close> by auto
        then show ?thesis using \<open>x = Inr y\<close> Payload
          by (simp add: L R i served_def forget_index_def nonclustered_result_def nilifyIfEmpty_def)
      next
        case (ApplicationError err)
        then obtain rb where "adapter_serve M (D (as_adapter a)) e d = (Inr rb, d')"
          "Response_UnmarshalVT M rb = Inr \<lparr> rsp_Data = [], rsp_Error = Some err \<rparr>"
          using run m \<open>x = Inr y\<close> by auto
        moreover obtain z where "UnmarshalBinary (cd_resp cd) [] = Inr z" "nilifyIfEmpty (Some err) = Some err"
          using A \<open>x = Inr y\<close> ApplicationError by (auto simp: answerable_def)
        ultimately show ?thesis using \<open>x = Inr y\<close> ApplicationError
          by (simp add: L R i served_def forget_index_def nonclustered_result_def)
      qed
    qed
  qed
qed

lemma update_agrees:
  assumes "Validate req = None" "sendable M cd n now token req"
    and "\<And>a. MoabTasksCoreAdapter_Update P M C a = adapter_serve M (D a)"
    and "\<And>a r. rq_MethodNumber r = n \<Longrightarrow> D a r = adapter_method cd (in_bounds M a key) (m (ad_core a)) r"
    and "\<And>k a. key req = Inr k \<Longrightarrow> findMoabTasksAdapter M s k = Inr a \<Longrightarrow> answerable M cd (fst (m (nca_core a) now req d))"
  shows "forget_index (stub_call M cd Validate n (send_update client ''MoabTasks'' key) now token req d) =
    nonclustered_call (findMoabTasksAdapter M s) key m now req d"
proof (rule call_agrees[where D = D])
  show "\<exists>i. send_update client ''MoabTasks'' key req e w = served i (adapter_serve M (D (as_adapter a)) e w)"
    if "findMoabTasksAdapter M s k = Inr a" "key req = Inr k" for k a e w
    using update[OF that(1), of e w] that(2) by (simp add: send_update_def assms(3))
qed (use assms in \<open>simp_all add: send_update_def\<close>)

lemma read_agrees:
  assumes "Validate req = None" "sendable M cd n now token req"
    and "\<And>a. MoabTasksCoreAdapter_Read P M C a = adapter_serve M (D a)"
    and "\<And>a r. rq_MethodNumber r = n \<Longrightarrow> D a r = adapter_method cd (in_bounds M a key) (m (ad_core a)) r"
    and "\<And>k a. key req = Inr k \<Longrightarrow> findMoabTasksAdapter M s k = Inr a \<Longrightarrow> answerable M cd (fst (m (nca_core a) now req d))"
  shows "forget_index (stub_call M cd Validate n (send_read client ''MoabTasks'' key) now token req d) =
    nonclustered_call (findMoabTasksAdapter M s) key m now req d"
proof (rule call_agrees[where D = D])
  show "\<exists>i. send_read client ''MoabTasks'' key req e w = served i (adapter_serve M (D (as_adapter a)) e w)"
    if "findMoabTasksAdapter M s k = Inr a" "key req = Inr k" for k a e w
    using read[OF that(1), of False e w] that(2)
    by (intro exI[of _ 0]) (auto simp: send_read_def assms(3) no_index_def served_def served_read_def split: prod.split sum.split)
qed (use assms in \<open>simp_all add: send_read_def\<close>)

lemmas tasks_calls =
  update_agrees[OF _ _ MoabTasksCoreAdapter_Update_def] read_agrees[OF _ _ MoabTasksCoreAdapter_Read_def]

lemma Enqueue_agrees:
  assumes "EnqueueRequest_Validate req = None" "sendable M (tcd_Enqueue C) 1 now token req"
    and "\<And>k a. EnqueueRequest_ShardKey P req = Inr k \<Longrightarrow> findMoabTasksAdapter M s k = Inr a \<Longrightarrow>
      answerable M (tcd_Enqueue C) (fst (tapi_Enqueue (nca_core a) now req d))"
  shows "forget_index (MoabMonsteraStub_Enqueue P M (tcd_Enqueue C) client now token req d) = MoabNonclusteredStub_Enqueue P M s now req d"
  unfolding MoabMonsteraStub_Enqueue_def MoabNonclusteredStub_Enqueue_def
  by (rule tasks_calls(1)) (use assms in \<open>simp_all\<close>)

lemma Dequeue_agrees:
  assumes "DequeueRequest_Validate req = None" "sendable M (tcd_Dequeue C) 2 now token req"
    and "\<And>k a. DequeueRequest_ShardKey P req = Inr k \<Longrightarrow> findMoabTasksAdapter M s k = Inr a \<Longrightarrow>
      answerable M (tcd_Dequeue C) (fst (tapi_Dequeue (nca_core a) now req d))"
  shows "forget_index (MoabMonsteraStub_Dequeue P M (tcd_Dequeue C) client now token req d) = MoabNonclusteredStub_Dequeue P M s now req d"
  unfolding MoabMonsteraStub_Dequeue_def MoabNonclusteredStub_Dequeue_def
  by (rule tasks_calls(1)) (use assms in \<open>simp_all\<close>)

lemma ReportStatus_agrees:
  assumes "ReportStatusRequest_Validate req = None" "sendable M (tcd_ReportStatus C) 3 now token req"
    and "\<And>k a. ReportStatusRequest_ShardKey P req = Inr k \<Longrightarrow> findMoabTasksAdapter M s k = Inr a \<Longrightarrow>
      answerable M (tcd_ReportStatus C) (fst (tapi_ReportStatus (nca_core a) now req d))"
  shows "forget_index (MoabMonsteraStub_ReportStatus P M (tcd_ReportStatus C) client now token req d) = MoabNonclusteredStub_ReportStatus P M s now req d"
  unfolding MoabMonsteraStub_ReportStatus_def MoabNonclusteredStub_ReportStatus_def
  by (rule tasks_calls(1)) (use assms in \<open>simp_all\<close>)

lemma GetTask_agrees:
  assumes "GetTaskRequest_Validate req = None" "sendable M (tcd_GetTask C) 1 now token req"
    and "\<And>k a. GetTaskRequest_ShardKey P req = Inr k \<Longrightarrow> findMoabTasksAdapter M s k = Inr a \<Longrightarrow>
      answerable M (tcd_GetTask C) (fst (tapi_GetTask (nca_core a) now req d))"
  shows "forget_index (MoabMonsteraStub_GetTask P M (tcd_GetTask C) client now token req d) = MoabNonclusteredStub_GetTask P M s now req d"
  unfolding MoabMonsteraStub_GetTask_def MoabNonclusteredStub_GetTask_def
  by (rule tasks_calls(2)) (use assms in \<open>simp_all\<close>)

end

end
