(* ===== verification/Ref_Cluster.thy ===== *)
theory Ref_Cluster
  imports Coreapis_Routing Ref_Runs
begin

text \<open>
  A reference cluster: prefix codecs for the envelopes and the messages, one
  shard over the reference store, and a client that delivers every request to
  the adapter of the shard its key falls in.  It shows that the contract
  \<open>cluster\<close> can be met.
\<close>

section \<open>Prefix codecs\<close>

text \<open>An encoder that may refuse a value, and a decoder that returns what
  follows the value.\<close>

type_synonym 'a pcodec = "('a \<Rightarrow> bytes option) \<times> (bytes \<Rightarrow> ('a \<times> bytes) option)"

definition pc_ok :: "'a pcodec \<Rightarrow> bool" where
  "pc_ok c \<longleftrightarrow> (\<forall>x b rest. fst c x = Some b \<longrightarrow> snd c (b @ rest) = Some (x, rest))"

definition pc_map :: "('a \<Rightarrow> 'b) \<Rightarrow> ('b \<Rightarrow> 'a) \<Rightarrow> 'b pcodec \<Rightarrow> 'a pcodec" where
  "pc_map f g c = (\<lambda>x. if g (f x) = x then fst c (f x) else None, \<lambda>b. map_option (\<lambda>(y, rest). (g y, rest)) (snd c b))"

definition pc_pair :: "'a pcodec \<Rightarrow> 'b pcodec \<Rightarrow> ('a \<times> 'b) pcodec" where
  "pc_pair c1 c2 = (\<lambda>(x, y). case fst c1 x of None \<Rightarrow> None | Some b \<Rightarrow> map_option (\<lambda>b'. b @ b') (fst c2 y),
    \<lambda>b. case snd c1 b of None \<Rightarrow> None | Some (x, rest) \<Rightarrow> map_option (\<lambda>(y, rest'). ((x, y), rest')) (snd c2 rest))"

definition pc_word :: "uint64 pcodec" where
  "pc_word = (\<lambda>w. Some (be64 w), \<lambda>b. if length b < 8 then None else Some (of_nat (unbe (take 8 b)), drop 8 b))"

definition pc_int :: "int pcodec" where
  "pc_int = pc_map tw sint pc_word"

definition pc_bytes :: "bytes pcodec" where
  "pc_bytes = (\<lambda>bs. if length bs < 2 ^ 64 then Some (be64 (of_nat (length bs)) @ bs) else None,
    \<lambda>b. case snd pc_word b of None \<Rightarrow> None
      | Some (n, rest) \<Rightarrow> if length rest < unat n then None else Some (take (unat n) rest, drop (unat n) rest))"

definition pc_string :: "string pcodec" where
  "pc_string = pc_map str_bytes (map (\<lambda>b. char_of (unat b))) pc_bytes"

fun pc_enc_list :: "'a pcodec \<Rightarrow> 'a list \<Rightarrow> bytes option" where
  "pc_enc_list c [] = Some []"
| "pc_enc_list c (x # xs) = (case fst c x of None \<Rightarrow> None | Some b \<Rightarrow> map_option (\<lambda>b'. b @ b') (pc_enc_list c xs))"

fun pc_dec_list :: "'a pcodec \<Rightarrow> nat \<Rightarrow> bytes \<Rightarrow> ('a list \<times> bytes) option" where
  "pc_dec_list c 0 b = Some ([], b)"
| "pc_dec_list c (Suc n) b = (case snd c b of None \<Rightarrow> None
     | Some (x, rest) \<Rightarrow> map_option (\<lambda>(xs, rest'). (x # xs, rest')) (pc_dec_list c n rest))"

definition pc_list :: "'a pcodec \<Rightarrow> 'a list pcodec" where
  "pc_list c = (\<lambda>xs. if length xs < 2 ^ 64 then map_option (\<lambda>b. be64 (of_nat (length xs)) @ b) (pc_enc_list c xs) else None,
    \<lambda>b. case snd pc_word b of None \<Rightarrow> None | Some (n, rest) \<Rightarrow> pc_dec_list c (unat n) rest)"

definition pc_option :: "'a pcodec \<Rightarrow> 'a option pcodec" where
  "pc_option c = pc_map (\<lambda>v. case v of None \<Rightarrow> [] | Some x \<Rightarrow> [x]) (\<lambda>xs. case xs of [] \<Rightarrow> None | x # _ \<Rightarrow> Some x) (pc_list c)"

lemma pc_okD: "pc_ok c \<Longrightarrow> fst c x = Some b \<Longrightarrow> snd c (b @ rest) = Some (x, rest)"
  by (simp add: pc_ok_def)

lemma pc_map_ok [intro]: "pc_ok c \<Longrightarrow> pc_ok (pc_map f g c)"
  by (auto simp: pc_ok_def pc_map_def split: if_splits)

lemma pc_pair_ok [intro]:
  assumes "pc_ok c1" "pc_ok c2"
  shows "pc_ok (pc_pair c1 c2)"
  using pc_okD[OF assms(1)] pc_okD[OF assms(2)] by (auto simp: pc_ok_def pc_pair_def split: option.splits)

lemma pc_word_ok [intro]: "pc_ok pc_word"
  by (auto simp: pc_ok_def pc_word_def)

lemma pc_word_dec: "snd pc_word (be64 w @ rest) = Some (w, rest)"
  by (rule pc_okD[OF pc_word_ok]) (simp add: pc_word_def)

lemma unat_length: "n < 2 ^ 64 \<Longrightarrow> unat (of_nat n :: uint64) = n"
  by (simp add: unat_of_nat take_bit_nat_eq_self)

lemma pc_bytes_ok [intro]: "pc_ok pc_bytes"
  by (auto simp: pc_ok_def pc_bytes_def pc_word_dec unat_length)

lemma pc_int_ok [intro]: "pc_ok pc_int"
  unfolding pc_int_def by blast

lemma pc_string_ok [intro]: "pc_ok pc_string"
  unfolding pc_string_def by blast

lemma pc_dec_enc_list:
  assumes "pc_ok c" "pc_enc_list c xs = Some b"
  shows "pc_dec_list c (length xs) (b @ rest) = Some (xs, rest)"
  using assms(2)
proof (induction xs arbitrary: b)
  case (Cons x xs)
  then obtain b1 b2 where "fst c x = Some b1" "pc_enc_list c xs = Some b2" "b = b1 @ b2" by (auto split: option.splits)
  then show ?case using Cons.IH[of b2] pc_okD[OF assms(1), of x b1 "b2 @ rest"] by simp
qed simp

lemma pc_list_ok [intro]: "pc_ok c \<Longrightarrow> pc_ok (pc_list c)"
  by (subst pc_ok_def) (auto simp: pc_list_def pc_word_dec unat_length pc_dec_enc_list split: if_splits)

lemma pc_option_ok [intro]: "pc_ok c \<Longrightarrow> pc_ok (pc_option c)"
  unfolding pc_option_def by blast

text \<open>A codec for a whole message; no bytes are the zero message.\<close>

definition whole :: "'a \<Rightarrow> 'a pcodec \<Rightarrow> 'a codec" where
  "whole z c = \<lparr> MarshalBinary = (\<lambda>x. case fst c x of Some b \<Rightarrow> Inr b | None \<Rightarrow> Inl (ErrNew ''cannot encode'')),
     UnmarshalBinary = (\<lambda>b. if b = [] then Inr z else case snd c b of Some (x, []) \<Rightarrow> Inr x | _ \<Rightarrow> Inl (ErrNew ''cannot decode'')) \<rparr>"

lemma whole_roundtrip:
  assumes "pc_ok c" "fst c x = Some b" "b \<noteq> []"
  shows "MarshalBinary (whole z c) x = Inr b" "UnmarshalBinary (whole z c) b = Inr x" "UnmarshalBinary (whole z c) [] = Inr z"
  using assms pc_okD[OF assms(1,2), of "[]"] by (simp_all add: whole_def)

text \<open>A message the reference cluster does not carry.\<close>

definition refusing :: "'a codec" where
  "refusing = \<lparr> MarshalBinary = (\<lambda>_. Inl (ErrNew ''no codec'')), UnmarshalBinary = (\<lambda>_. Inl (ErrNew ''no codec'')) \<rparr>"

definition no_codec :: "('q, 'p) codecs" where
  "no_codec = \<lparr> cd_req = refusing, cd_resp = refusing \<rparr>"

section \<open>Envelopes\<close>

definition pc_Request :: "mrpc_Request pcodec" where
  "pc_Request = pc_map (\<lambda>r. (rq_Data r, rq_IdempotencyToken r, rq_MethodNumber r, rq_Now r))
     (\<lambda>(d, t, m, n). \<lparr> rq_Data = d, rq_IdempotencyToken = t, rq_MethodNumber = m, rq_Now = n \<rparr>)
     (pc_pair pc_bytes (pc_pair pc_string (pc_pair pc_int pc_int)))"

fun code_int :: "mrpc_ErrorCode \<Rightarrow> int" where
  "code_int ErrorCode_INVALID = 0" | "code_int ErrorCode_OK = 1" | "code_int NotFound = 2" | "code_int AlreadyExists = 3"
| "code_int IDCollision = 4" | "code_int InvalidRequest = 5" | "code_int ResourceExhausted = 6" | "code_int (mrpc_ErrorCode_other n) = n"

definition int_code :: "int \<Rightarrow> mrpc_ErrorCode" where
  "int_code n = (if n = 0 then ErrorCode_INVALID else if n = 1 then ErrorCode_OK else if n = 2 then NotFound
     else if n = 3 then AlreadyExists else if n = 4 then IDCollision else if n = 5 then InvalidRequest
     else if n = 6 then ResourceExhausted else mrpc_ErrorCode_other n)"

definition pc_Error :: "mrpc_Error pcodec" where
  "pc_Error = pc_map (\<lambda>e. (code_int (err_Code e), err_Message e, err_Context e))
     (\<lambda>(n, m, c). \<lparr> err_Code = int_code n, err_Message = m, err_Context = c \<rparr>)
     (pc_pair pc_int (pc_pair pc_string (pc_list (pc_pair pc_string pc_string))))"

definition pc_Response :: "mrpc_Response pcodec" where
  "pc_Response = pc_map (\<lambda>r. (rsp_Data r, rsp_Error r)) (\<lambda>(d, e). \<lparr> rsp_Data = d, rsp_Error = e \<rparr>)
     (pc_pair pc_bytes (pc_option pc_Error))"

definition refM :: monstera_pkg where
  "refM = \<lparr> Request_MarshalVT = (\<lambda>r. case fst pc_Request r of Some b \<Rightarrow> Inr b | None \<Rightarrow> Inl (ErrNew ''cannot encode'')),
     Request_UnmarshalVT = (\<lambda>b. case snd pc_Request b of Some (r, []) \<Rightarrow> Inr r | _ \<Rightarrow> Inl (ErrNew ''cannot decode'')),
     Response_MarshalVT = (\<lambda>r. case fst pc_Response r of Some b \<Rightarrow> Inr b | None \<Rightarrow> Inl (ErrNew ''cannot encode'')),
     Response_UnmarshalVT = (\<lambda>b. case snd pc_Response b of Some (r, []) \<Rightarrow> Inr r | _ \<Rightarrow> Inl (ErrNew ''cannot decode'')),
     ShardKey_String = (\<lambda>k. fmt_hex (be32 k)), ShardKey_Bytes = be32, ShortenBounds = Pair,
     KeyspacePerApplication = 2 ^ 32 \<rparr>"

lemma pc_Request_ok: "pc_ok pc_Request" and pc_Response_ok: "pc_ok pc_Response"
  unfolding pc_Request_def pc_Response_def pc_Error_def by blast+

section \<open>Messages\<close>

definition pc_QueueId :: "QueueId pcodec" where
  "pc_QueueId = pc_map (\<lambda>i. (qid_AccountId i, qid_QueueId i)) (\<lambda>(a, q). \<lparr> qid_AccountId = a, qid_QueueId = q \<rparr>) (pc_pair pc_word pc_word)"

definition pc_TaskId :: "TaskId pcodec" where
  "pc_TaskId = pc_map (\<lambda>i. (tid_AccountId i, tid_QueueId i, tid_TaskId i)) (\<lambda>(a, q, t). mkTaskId a q t) (pc_pair pc_word (pc_pair pc_word pc_word))"

definition pc_RetryStrategy :: "RetryStrategy pcodec" where
  "pc_RetryStrategy = pc_map rs_RetryIntervalsInSeconds (\<lambda>xs. \<lparr> rs_RetryIntervalsInSeconds = xs \<rparr>) (pc_list pc_int)"

fun overwrite_int :: "OverwriteOnDuplicate \<Rightarrow> int" where
  "overwrite_int OVERWRITE_ON_DUPLICATE_INVALID = 0" | "overwrite_int OVERWRITE_ON_DUPLICATE_PAYLOAD = 1"
| "overwrite_int OVERWRITE_ON_DUPLICATE_SCHEDULED_AT = 2" | "overwrite_int OVERWRITE_ON_DUPLICATE_EXPIRES_AT = 3"
| "overwrite_int (OverwriteOnDuplicate_other n) = n"

definition int_overwrite :: "int \<Rightarrow> OverwriteOnDuplicate" where
  "int_overwrite n = (if n = 0 then OVERWRITE_ON_DUPLICATE_INVALID else if n = 1 then OVERWRITE_ON_DUPLICATE_PAYLOAD
     else if n = 2 then OVERWRITE_ON_DUPLICATE_SCHEDULED_AT else if n = 3 then OVERWRITE_ON_DUPLICATE_EXPIRES_AT
     else OverwriteOnDuplicate_other n)"

fun state_int :: "TaskState \<Rightarrow> int" where
  "state_int TASK_STATE_INVALID = 0" | "state_int TASK_STATE_ENQUEUED = 1" | "state_int TASK_STATE_IN_PROGRESS = 2"
| "state_int TASK_STATE_DEAD = 3" | "state_int (TaskState_other n) = n"

definition int_state :: "int \<Rightarrow> TaskState" where
  "int_state n = (if n = 0 then TASK_STATE_INVALID else if n = 1 then TASK_STATE_ENQUEUED
     else if n = 2 then TASK_STATE_IN_PROGRESS else if n = 3 then TASK_STATE_DEAD else TaskState_other n)"

definition pc_Entry :: "EnqueueRequestEntry pcodec" where
  "pc_Entry = pc_map
     (\<lambda>e. (ent_Payload e, ent_ScheduledAt e, ent_ExpiresAt e, ent_DedupeKey e, ent_RetryStrategy e, ent_OverwriteOnDuplicate e, ent_ThreadId e))
     (\<lambda>(p, s, x, k, r, ov, t). \<lparr> ent_Payload = p, ent_ScheduledAt = s, ent_ExpiresAt = x, ent_DedupeKey = k, ent_RetryStrategy = r,
        ent_OverwriteOnDuplicate = ov, ent_ThreadId = t \<rparr>)
     (pc_pair pc_bytes (pc_pair pc_int (pc_pair pc_int (pc_pair pc_string (pc_pair (pc_option pc_RetryStrategy)
       (pc_pair (pc_list (pc_map overwrite_int int_overwrite pc_int)) pc_string))))))"

definition pc_EnqueueRequest :: "EnqueueRequest pcodec" where
  "pc_EnqueueRequest = pc_map (\<lambda>r. (enq_QueueId r, enq_Entries r)) (\<lambda>(q, es). \<lparr> enq_QueueId = q, enq_Entries = es \<rparr>)
     (pc_pair (pc_option pc_QueueId) (pc_list pc_Entry))"

definition pc_Task :: "Task pcodec" where
  "pc_Task = pc_map
     (\<lambda>t. (t_Id t, t_Payload t, t_CreatedAt t, t_ScheduledAt t, t_ExpiresAt t, t_DedupeKey t, t_State t, t_Attempts t, t_VisibleAt t,
        t_LastFailedAt t, t_DebugInfo t, t_RetryStrategy t, t_ThreadId t))
     (\<lambda>(i, p, c, s, x, k, st, n, v, f, dbg, r, th). \<lparr> t_Id = i, t_Payload = p, t_CreatedAt = c, t_ScheduledAt = s, t_ExpiresAt = x,
        t_DedupeKey = k, t_State = st, t_Attempts = n, t_VisibleAt = v, t_LastFailedAt = f, t_DebugInfo = dbg, t_RetryStrategy = r, t_ThreadId = th \<rparr>)
     (pc_pair pc_TaskId (pc_pair pc_bytes (pc_pair pc_int (pc_pair pc_int (pc_pair pc_int (pc_pair pc_string
       (pc_pair (pc_map state_int int_state pc_int) (pc_pair pc_int (pc_pair pc_int (pc_pair pc_int (pc_pair pc_bytes
       (pc_pair (pc_option pc_RetryStrategy) pc_string))))))))))))"

lemmas pc_message_defs = pc_QueueId_def pc_TaskId_def pc_RetryStrategy_def pc_Entry_def pc_EnqueueRequest_def pc_Task_def

lemma pc_EnqueueRequest_ok: "pc_ok pc_EnqueueRequest" and pc_Task_ok: "pc_ok pc_Task"
  unfolding pc_message_defs by (intro pc_map_ok pc_pair_ok pc_list_ok pc_option_ok pc_word_ok pc_int_ok pc_bytes_ok pc_string_ok)+

definition zero_task :: Task where
  "zero_task = \<lparr> t_Id = mkTaskId 0 0 0, t_Payload = [], t_CreatedAt = 0, t_ScheduledAt = 0, t_ExpiresAt = 0, t_DedupeKey = [],
     t_State = TASK_STATE_INVALID, t_Attempts = 0, t_VisibleAt = 0, t_LastFailedAt = 0, t_DebugInfo = [], t_RetryStrategy = None, t_ThreadId = [] \<rparr>"

definition refTC :: tasks_codecs where
  "refTC = \<lparr> tcd_GetTask = \<lparr> cd_req = whole None (pc_option pc_TaskId), cd_resp = whole zero_task pc_Task \<rparr>,
     tcd_GetStatistics = no_codec, tcd_ListTasks = no_codec,
     tcd_Enqueue = \<lparr> cd_req = whole \<lparr> enq_QueueId = None, enq_Entries = [] \<rparr> pc_EnqueueRequest, cd_resp = whole [] (pc_list pc_Task) \<rparr>,
     tcd_Dequeue = no_codec, tcd_ReportStatus = no_codec, tcd_DeleteTasks = no_codec, tcd_RestartTasks = no_codec, tcd_PurgeQueue = no_codec,
     tcd_RunTasksGarbageCollection = no_codec, tcd_RunPurgeQueueGarbageCollection = no_codec \<rparr>"

section \<open>One shard over the reference store\<close>

definition ref_tasks :: "string \<Rightarrow> ShardKey \<Rightarrow> ShardKey \<Rightarrow> kv MoabTasksCoreApi" where
  "ref_tasks shardId lower upper = tasksCoreApi refP (NewTasksCore refP refH refBs [] lower upper)"

text \<open>The queues cores are any cores: no call below reaches them.\<close>

definition ref_stub :: "(string \<Rightarrow> ShardKey \<Rightarrow> ShardKey \<Rightarrow> kv MoabQueuesCoreApi) \<Rightarrow> kv MoabNonclusteredStub" where
  "ref_stub qf = \<lparr> ncs_moabQueuesCores = [nc_shard refM ''MoabQueues'' qf (2 ^ 32) 0], ncs_moabTasksCores = [nc_shard refM ''MoabTasks'' ref_tasks (2 ^ 32) 0] \<rparr>"

definition ref_client :: "kv MoabNonclusteredStub \<Rightarrow> kv monstera_client" where
  "ref_client s = \<lparr>
     mc_Update = (\<lambda>app k b d. if app = ''MoabTasks'' then
         case findMoabTasksAdapter refM s k of Inl e \<Rightarrow> (Inl (GoErr e), d)
         | Inr a \<Rightarrow> served 1 (MoabTasksCoreAdapter_Update refP refM refTC (as_adapter a) b d)
       else (Inl (GoErr (ErrNew ''no such application'')), d)),
     mc_Read = (\<lambda>app k f b d. if app = ''MoabTasks'' then
         case findMoabTasksAdapter refM s k of Inl e \<Rightarrow> (Inl (GoErr e), d)
         | Inr a \<Rightarrow> served_read (MoabTasksCoreAdapter_Read refP refM refTC (as_adapter a) b d)
       else (Inl (GoErr (ErrNew ''no such application'')), d)),
     mc_UpdateShard = (\<lambda>app shardId b d. (Inl (GoErr (ErrNew ''no such shard'')), d)),
     mc_ReadShard = (\<lambda>app shardId f b d. (Inl (GoErr (ErrNew ''no such shard'')), d)),
     mc_ListShards = (\<lambda>app d. Inr []) \<rparr>"

lemma ref_stub_new: "NewMoabNonclusteredStub refM 1 qf ref_tasks = Inr (ref_stub qf)"
  by (simp add: NewMoabNonclusteredStub_def bad_shard_count_def refM_def ref_stub_def)

lemma env_inverse:
  assumes "pc_ok c" "(case fst c r of Some b \<Rightarrow> Inr b | None \<Rightarrow> Inl e) = Inr b"
  shows "(case snd c b of Some (r, []) \<Rightarrow> Inr r | _ \<Rightarrow> Inl e') = Inr r"
  using assms(2) pc_okD[OF assms(1), of r b "[]"] by (auto split: option.splits)

interpretation ref_cluster: cluster refP refM refTC "ref_client (ref_stub qf)" "ref_stub qf" for qf
proof
  fix r b assume "Request_MarshalVT refM r = Inr b"
  then show "Request_UnmarshalVT refM b = Inr r" using env_inverse[OF pc_Request_ok] by (simp add: refM_def)
next
  fix r b assume "Response_MarshalVT refM r = Inr b"
  then show "Response_UnmarshalVT refM b = Inr r" using env_inverse[OF pc_Response_ok] by (simp add: refM_def)
next
  show "KeyspacePerApplication refM = 2 ^ 32" by (simp add: refM_def)
next
  show "\<exists>n qf' tf. NewMoabNonclusteredStub refM n qf' tf = Inr (ref_stub qf)" using ref_stub_new by blast
next
  fix k a b d assume "findMoabTasksAdapter refM (ref_stub qf) k = Inr a"
  then show "\<exists>i. mc_Update (ref_client (ref_stub qf)) ''MoabTasks'' k b d = served i (MoabTasksCoreAdapter_Update refP refM refTC (as_adapter a) b d)"
    by (auto simp: ref_client_def)
next
  fix k a f b d assume "findMoabTasksAdapter refM (ref_stub qf) k = Inr a"
  then show "mc_Read (ref_client (ref_stub qf)) ''MoabTasks'' k f b d = served_read (MoabTasksCoreAdapter_Read refP refM refTC (as_adapter a) b d)"
    by (simp add: ref_client_def)
qed

section \<open>What the reference cluster carries\<close>

lemma ref_route:
  assumes "findMoabTasksAdapter refM (ref_stub qf) k = Inr a"
  shows "nca_core a = tasksCoreApi refP refC0"
proof -
  have "a \<in> set (ncs_moabTasksCores (ref_stub qf))"
    using assms find_adapter_iff[OF stub_routes(2)[OF ref_stub_new], where M = refM and k = k and a = a] by (simp add: findMoabTasksAdapter_def refM_def)
  moreover have e: "(4294967295 :: ShardKey) = - 1" by simp
  ultimately show ?thesis
    by (simp add: e ref_stub_def nc_shard_def Let_def ref_tasks_def refC_def refC0_def shard_lower_def shard_upper_def)
qed

definition carries :: "'a pcodec \<Rightarrow> 'a \<Rightarrow> bool" where
  "carries c x \<longleftrightarrow> (case fst c x of None \<Rightarrow> False | Some b \<Rightarrow> b \<noteq> [] \<and> length b < 2 ^ 64)"


lemma carries_whole:
  assumes "pc_ok c" "carries c x"
  obtains b where "MarshalBinary (whole z c) x = Inr b" "UnmarshalBinary (whole z c) b = Inr x" "length b < 2 ^ 64"
  using assms whole_roundtrip[OF assms(1)] by (auto simp: carries_def split: option.splits)

lemma request_carried:
  assumes "length b < 2 ^ 64" "sint (tw n) = n" "sint (tw now) = now"
  shows "\<exists>e. Request_MarshalVT refM \<lparr> rq_Data = b, rq_IdempotencyToken = [], rq_MethodNumber = n, rq_Now = now \<rparr> = Inr e"
  using assms by (simp add: refM_def pc_Request_def pc_map_def pc_pair_def pc_bytes_def pc_string_def str_bytes_def pc_int_def pc_word_def)

lemma response_carried:
  assumes "length b < 2 ^ 64"
  shows "\<exists>e. Response_MarshalVT refM \<lparr> rsp_Data = b, rsp_Error = None \<rparr> = Inr e"
  using assms by (simp add: refM_def pc_Response_def pc_map_def pc_pair_def pc_bytes_def pc_option_def pc_list_def)

lemma sendable_if_carried:
  assumes "pc_ok c" "carries c req" "cd_req C = whole z c" "sint (tw n) = n" "sint (tw now) = now"
  shows "sendable refM C n now [] req"
proof -
  obtain b where "MarshalBinary (whole z c) req = Inr b" "UnmarshalBinary (whole z c) b = Inr req" "length b < 2 ^ 64"
    using carries_whole[OF assms(1,2)] by blast
  then show ?thesis using request_carried[OF _ assms(4,5)] by (auto simp: sendable_def assms(3))
qed

lemma answerable_if_carried:
  assumes "pc_ok c" "carries c p" "cd_resp C = whole z c"
  shows "answerable refM C (Inr (Payload p))"
proof -
  obtain b where "MarshalBinary (whole z c) p = Inr b" "UnmarshalBinary (whole z c) b = Inr p" "length b < 2 ^ 64"
    using carries_whole[OF assms(1,2)] by blast
  then show ?thesis using response_carried by (auto simp: answerable_def assms(3))
qed

lemmas pc_run = carries_def pc_message_defs pc_map_def pc_pair_def pc_bytes_def pc_string_def pc_int_def pc_word_def pc_option_def pc_list_def

lemma be64_nonempty [simp]: "be64 w \<noteq> []"
  using length_be64[of w] by force

lemma str_bytes_inverse [simp]: "map (\<lambda>b. char_of (unat b)) (str_bytes x) = x"
  by (induction x) (simp_all add: str_bytes_def unat_of_char)

lemma carries_the_enqueue: "carries pc_EnqueueRequest the_enqueue"
  by (simp add: pc_run the_enqueue_def the_queue_def the_entry_def)

lemma carries_the_task: "carries pc_Task the_task" "carries (pc_list pc_Task) [the_task]"
  by (simp_all add: pc_run the_task_def new_task_def the_entry_def entry_time_def int_state_def)

lemma carries_the_id: "carries (pc_option pc_TaskId) (Some (mkTaskId 1 2 1))"
  by (simp add: pc_run)

end
