(* ===== verification/Coreapis_Properties.thy ===== *)
theory Coreapis_Properties
  imports Ref_Cluster
begin

text \<open>
  The properties of the layer between callers and cores: routing of requests
  to shards, agreement of the clustered and the single-process stub, the shard
  guard of the adapters, and what validation does and does not rule out.
\<close>

section \<open>Routing\<close>

lemma power_and_pred: "(2 ^ j :: int) AND (2 ^ j - 1) = 0"
  by (simp flip: mask_eq_exp_minus_1 take_bit_eq_mask)

lemma found_alone:
  assumes "ascending as" "find_adapter M as k = Inr a"
  shows "{x \<in> set as. nca_lowerBound x \<le> k \<and> k \<le> nca_upperBound x} = {a}"
proof -
  have "x \<in> set as \<and> nca_lowerBound x \<le> k \<and> k \<le> nca_upperBound x \<longleftrightarrow> x = a" for x
    using find_adapter_iff[OF assms(1), of M k x] assms(2) by auto
  then show ?thesis by blast
qed

lemma refM_keyspace [simp]: "KeyspacePerApplication refM = 2 ^ 32"
  by (simp add: refM_def)

lemma the_enqueue_valid: "EnqueueRequest_Validate the_enqueue = None"
  by (simp add: EnqueueRequest_Validate_def validateQueueId_def the_enqueue_def the_queue_def the_entry_def check_def at_entry_def
    validateRetryStrategy_def maxNumberOfEnqueueRequestEntries_def maxPayloadSize_def)

text \<open>C27.  In the single-process deployment every shard key belongs to exactly
  one shard of each application, and the binary search over the shards finds
  it.\<close>

theorem keys_reach_one_shard:
  assumes "NewMoabNonclusteredStub M n qf tf = Inr s" "KeyspacePerApplication M = 2 ^ 32"
  shows "\<exists>a b. findMoabTasksAdapter M s k = Inr a \<and> findMoabQueuesAdapter M s k = Inr b \<and>
    {x \<in> set (ncs_moabTasksCores s). nca_lowerBound x \<le> k \<and> k \<le> nca_upperBound x} = {a} \<and>
    {x \<in> set (ncs_moabQueuesCores s). nca_lowerBound x \<le> k \<and> k \<le> nca_upperBound x} = {b}"
proof -
  obtain a b where ab: "findMoabTasksAdapter M s k = Inr a" "findMoabQueuesAdapter M s k = Inr b"
    using stub_routes(3,4)[OF assms] by blast
  have "{x \<in> set (ncs_moabTasksCores s). nca_lowerBound x \<le> k \<and> k \<le> nca_upperBound x} = {a}"
    by (rule found_alone[OF stub_routes(2)[OF assms] ab(1)[unfolded findMoabTasksAdapter_def]])
  moreover have "{x \<in> set (ncs_moabQueuesCores s). nca_lowerBound x \<le> k \<and> k \<le> nca_upperBound x} = {b}"
    by (rule found_alone[OF stub_routes(1)[OF assms] ab(2)[unfolded findMoabQueuesAdapter_def]])
  ultimately show ?thesis using ab by blast
qed

theorem keys_reach_one_shard_witness:
  "\<forall>qf. \<exists>a b. findMoabTasksAdapter refM (ref_stub qf) 7 = Inr a \<and> findMoabQueuesAdapter refM (ref_stub qf) 7 = Inr b \<and>
    {x \<in> set (ncs_moabTasksCores (ref_stub qf)). nca_lowerBound x \<le> 7 \<and> 7 \<le> nca_upperBound x} = {a} \<and>
    {x \<in> set (ncs_moabQueuesCores (ref_stub qf)). nca_lowerBound x \<le> 7 \<and> 7 \<le> nca_upperBound x} = {b}"
  using keys_reach_one_shard[OF ref_stub_new refM_keyspace] by blast

text \<open>C30.  The single-process stub accepts exactly the shard counts that are
  powers of two up to the size of the key space, and panics on any other.\<close>

theorem shard_counts_accepted:
  assumes "KeyspacePerApplication M = 2 ^ 32"
  shows "(\<exists>s. NewMoabNonclusteredStub M n qf tf = Inr s) \<longleftrightarrow> (\<exists>j \<le> 32. n = 2 ^ j)"
proof -
  have "\<not> bad_shard_count M n \<longleftrightarrow> (\<exists>j \<le> 32. n = 2 ^ j)"
  proof
    assume "\<not> bad_shard_count M n"
    then have n: "1 \<le> n" "n \<le> 2 ^ 32" "n AND (n - 1) = 0" by (auto simp: bad_shard_count_def assms)
    obtain m where m: "n = 2 ^ m" using power_of_two[OF n(1,3)] by blast
    then show "\<exists>j \<le> 32. n = 2 ^ j" using n(2) power_increasing_iff[of "2 :: int" m 32] by auto
  next
    assume "\<exists>j \<le> 32. n = 2 ^ j"
    then obtain j where j: "j \<le> 32" "n = 2 ^ j" by blast
    have "n AND (n - 1) = 0" unfolding j(2) by (rule power_and_pred)
    then show "\<not> bad_shard_count M n" using j power_increasing[of j 32 "2 :: int"] one_le_power[of "2 :: int" j] by (auto simp: bad_shard_count_def assms simp del: one_le_power)
  qed
  moreover have "(\<exists>s. NewMoabNonclusteredStub M n qf tf = Inr s) \<longleftrightarrow> \<not> bad_shard_count M n"
    by (simp add: NewMoabNonclusteredStub_def Let_def)
  ultimately show ?thesis by simp
qed

theorem shard_counts_accepted_witness:
  "\<forall>qf. (\<exists>s. NewMoabNonclusteredStub refM 16 qf ref_tasks = Inr s) \<longleftrightarrow> (\<exists>j \<le> 32. (16 :: int) = 2 ^ j)"
  using shard_counts_accepted[OF refM_keyspace] by blast

section \<open>Clustered and single-process deployments\<close>

lemma the_task_found: "GetTask refP refC0 150 (Some (mkTaskId 1 2 1)) d_enq = (Inr (Payload the_task), d_enq)"
  by (simp add: tasks_store.GetTask_ok[OF ref_store] enq_good(3) expired_at_def)

lemma pc_TaskId_ok: "pc_ok pc_TaskId"
  unfolding pc_message_defs by (intro pc_map_ok pc_pair_ok pc_word_ok)

text \<open>C25.  A valid enqueue request has the same effect and the same answer,
  apart from the index of the replicated log, whether it is sent to a cluster,
  encoded, routed, checked against the bounds of the shard and decoded again,
  or handed to the core directly by the single-process stub.\<close>

theorem enqueue_stubs_agree:
  assumes "cluster P M C client s"
    and "EnqueueRequest_Validate req = None" "sendable M (tcd_Enqueue C) 1 now token req"
    and "\<And>k a. EnqueueRequest_ShardKey P req = Inr k \<Longrightarrow> findMoabTasksAdapter M s k = Inr a \<Longrightarrow>
      answerable M (tcd_Enqueue C) (fst (tapi_Enqueue (nca_core a) now req d))"
  shows "forget_index (MoabMonsteraStub_Enqueue P M (tcd_Enqueue C) client now token req d) = MoabNonclusteredStub_Enqueue P M s now req d"
  by (rule cluster.Enqueue_agrees[OF assms])

theorem enqueue_stubs_agree_witness:
  "\<forall>qf. forget_index (MoabMonsteraStub_Enqueue refP refM (tcd_Enqueue refTC) (ref_client (ref_stub qf)) 100 [] the_enqueue []) =
     MoabNonclusteredStub_Enqueue refP refM (ref_stub qf) 100 the_enqueue []"
proof
  fix qf
  show "forget_index (MoabMonsteraStub_Enqueue refP refM (tcd_Enqueue refTC) (ref_client (ref_stub qf)) 100 [] the_enqueue []) =
     MoabNonclusteredStub_Enqueue refP refM (ref_stub qf) 100 the_enqueue []"
  proof (rule enqueue_stubs_agree[OF ref_cluster.cluster_axioms])
    show "EnqueueRequest_Validate the_enqueue = None" by (rule the_enqueue_valid)
    show "sendable refM (tcd_Enqueue refTC) 1 100 [] the_enqueue"
      by (rule sendable_if_carried[OF pc_EnqueueRequest_ok carries_the_enqueue]) (simp_all add: refTC_def)
    show "answerable refM (tcd_Enqueue refTC) (fst (tapi_Enqueue (nca_core a) 100 the_enqueue []))"
      if "findMoabTasksAdapter refM (ref_stub qf) k = Inr a" for k a
      using enq_state answerable_if_carried[OF pc_list_ok[OF pc_Task_ok] carries_the_task(2), of "tcd_Enqueue refTC" "[]"]
      by (auto simp: ref_route[OF that] tasksCoreApi_def refTC_def)
  qed
qed

text \<open>C26.  The same holds of the reads: a valid request for a task gives the
  same answer through a cluster and through the single-process stub.\<close>

theorem get_task_stubs_agree:
  assumes "cluster P M C client s"
    and "GetTaskRequest_Validate req = None" "sendable M (tcd_GetTask C) 1 now token req"
    and "\<And>k a. GetTaskRequest_ShardKey P req = Inr k \<Longrightarrow> findMoabTasksAdapter M s k = Inr a \<Longrightarrow>
      answerable M (tcd_GetTask C) (fst (tapi_GetTask (nca_core a) now req d))"
  shows "forget_index (MoabMonsteraStub_GetTask P M (tcd_GetTask C) client now token req d) = MoabNonclusteredStub_GetTask P M s now req d"
  by (rule cluster.GetTask_agrees[OF assms])

theorem get_task_stubs_agree_witness:
  "\<forall>qf. forget_index (MoabMonsteraStub_GetTask refP refM (tcd_GetTask refTC) (ref_client (ref_stub qf)) 150 [] (Some (mkTaskId 1 2 1)) d_enq) =
     MoabNonclusteredStub_GetTask refP refM (ref_stub qf) 150 (Some (mkTaskId 1 2 1)) d_enq"
proof
  fix qf
  show "forget_index (MoabMonsteraStub_GetTask refP refM (tcd_GetTask refTC) (ref_client (ref_stub qf)) 150 [] (Some (mkTaskId 1 2 1)) d_enq) =
     MoabNonclusteredStub_GetTask refP refM (ref_stub qf) 150 (Some (mkTaskId 1 2 1)) d_enq"
  proof (rule get_task_stubs_agree[OF ref_cluster.cluster_axioms])
    show "GetTaskRequest_Validate (Some (mkTaskId 1 2 1)) = None" by (simp add: GetTaskRequest_Validate_def validateTaskId_def check_def)
    show "sendable refM (tcd_GetTask refTC) 1 150 [] (Some (mkTaskId 1 2 1))"
      by (rule sendable_if_carried[OF pc_option_ok[OF pc_TaskId_ok] carries_the_id]) (simp_all add: refTC_def)
    show "answerable refM (tcd_GetTask refTC) (fst (tapi_GetTask (nca_core a) 150 (Some (mkTaskId 1 2 1)) d_enq))"
      if "findMoabTasksAdapter refM (ref_stub qf) k = Inr a" for k a
      using the_task_found answerable_if_carried[OF pc_Task_ok carries_the_task(1), of "tcd_GetTask refTC" zero_task]
      by (simp add: ref_route[OF that] tasksCoreApi_def refTC_def)
  qed
qed

section \<open>The shard guard of the adapters\<close>

text \<open>The key of an encoded update of the tasks core, when it has one.\<close>

definition decoded_key :: "('q, 'p) codecs \<Rightarrow> ('q \<Rightarrow> goerr + ShardKey) \<Rightarrow> mrpc_Request \<Rightarrow> ShardKey option" where
  "decoded_key C key r = (case UnmarshalBinary (cd_req C) (rq_Data r) of Inl _ \<Rightarrow> None
     | Inr req \<Rightarrow> (case key req of Inl _ \<Rightarrow> None | Inr k \<Rightarrow> Some k))"

definition tasks_update_key :: "pkgs \<Rightarrow> tasks_codecs \<Rightarrow> mrpc_Request \<Rightarrow> ShardKey option" where
  "tasks_update_key P C r =
    (if rq_MethodNumber r = 1 then decoded_key (tcd_Enqueue C) (EnqueueRequest_ShardKey P) r
     else if rq_MethodNumber r = 2 then decoded_key (tcd_Dequeue C) (DequeueRequest_ShardKey P) r
     else if rq_MethodNumber r = 3 then decoded_key (tcd_ReportStatus C) (ReportStatusRequest_ShardKey P) r
     else if rq_MethodNumber r = 4 then decoded_key (tcd_DeleteTasks C) (DeleteTasksRequest_ShardKey P) r
     else if rq_MethodNumber r = 5 then decoded_key (tcd_RestartTasks C) (RestartTasksRequest_ShardKey P) r
     else if rq_MethodNumber r = 6 then decoded_key (tcd_PurgeQueue C) (PurgeQueueRequest_ShardKey P) r
     else None)"

lemma adapter_method_guard:
  assumes "snd (adapter_method C (in_bounds M a key) m r d) \<noteq> d"
  shows "\<exists>k. decoded_key C key r = Some k \<and> ad_shardLowerBound a \<le> k \<and> k \<le> ad_shardUpperBound a"
  using assms by (auto simp: adapter_method_def in_bounds_def decoded_key_def checkShardBounds_def not_less split: sum.splits if_splits)

lemma adapter_serve_snd: "Request_UnmarshalVT M b = Inr q \<Longrightarrow> snd (adapter_serve M dispatch b d) = snd (dispatch q d)"
  by (auto simp: adapter_serve_def split: prod.splits sum.splits)

text \<open>C28.  The state of a tasks shard changes only by a request whose key lies
  within the bounds of the shard, or by the two garbage collections, which are
  addressed to a shard; undecodable bytes, unknown methods and requests routed
  to the wrong shard change nothing.\<close>

theorem updates_within_bounds:
  assumes "MoabTasksCoreAdapter_Update P M C a b d = (r, d')" "d' \<noteq> d"
  shows "\<exists>q. Request_UnmarshalVT M b = Inr q \<and> (rq_MethodNumber q \<in> {7, 8} \<or>
    (\<exists>k. tasks_update_key P C q = Some k \<and> ad_shardLowerBound a \<le> k \<and> k \<le> ad_shardUpperBound a))"
proof -
  obtain q where q: "Request_UnmarshalVT M b = Inr q"
    using assms by (cases "Request_UnmarshalVT M b") (auto simp: MoabTasksCoreAdapter_Update_def adapter_serve_def)
  have c: "snd (MoabTasksCoreAdapter_Update P M C a b d) \<noteq> d" using assms by simp
  show ?thesis
    by (rule exI[of _ q]) (use c in \<open>auto simp: MoabTasksCoreAdapter_Update_def adapter_serve_snd[OF q] q tasks_update_key_def no_handler_def
      dest: adapter_method_guard split: if_splits\<close>)
qed

definition only_shard :: "kv MoabTasksCoreApi adapter" where
  "only_shard = \<lparr> ad_shardLowerBound = 0, ad_shardUpperBound = - 1, ad_core = tasksCoreApi refP refC0 \<rparr>"

theorem updates_within_bounds_witness:
  "\<exists>b r q. MoabTasksCoreAdapter_Update refP refM refTC only_shard b [] = (r, d_enq) \<and> Request_UnmarshalVT refM b = Inr q \<and>
    (rq_MethodNumber q \<in> {7, 8} \<or>
    (\<exists>k. tasks_update_key refP refTC q = Some k \<and> ad_shardLowerBound only_shard \<le> k \<and> k \<le> ad_shardUpperBound only_shard))"
proof -
  have "sendable refM (tcd_Enqueue refTC) 1 100 [] the_enqueue"
    by (rule sendable_if_carried[OF pc_EnqueueRequest_ok carries_the_enqueue]) (simp_all add: refTC_def)
  then obtain b e where be: "UnmarshalBinary (cd_req (tcd_Enqueue refTC)) b = Inr the_enqueue"
    "Request_MarshalVT refM \<lparr> rq_Data = b, rq_IdempotencyToken = [], rq_MethodNumber = 1, rq_Now = 100 \<rparr> = Inr e"
    unfolding sendable_def by blast
  note q = ref_cluster.request_env[OF be(2)]
  have "snd (MoabTasksCoreAdapter_Update refP refM refTC only_shard e []) = d_enq"
    using be(1) by (simp add: MoabTasksCoreAdapter_Update_def adapter_serve_snd[OF q] adapter_method_def in_bounds_def
      EnqueueRequest_ShardKey_def through_def checkShardBounds_def only_shard_def tasksCoreApi_def d_enq_def the_queue_def
      split: prod.splits sum.splits response.splits)
  then obtain r where r: "MoabTasksCoreAdapter_Update refP refM refTC only_shard e [] = (r, d_enq)" by (metis prod.collapse)
  have "d_enq \<noteq> []" using fun_cong[OF enq_good(3), of "(1, 2)"] by (auto simp: rows_of_def empty_qview_def dest: fun_cong[of _ _ 1])
  from updates_within_bounds[OF r this] r show ?thesis by blast
qed

section \<open>What validation rules out\<close>









text \<open>C32.  Validation of a status report ignores its queue id, although the
  routing of the report needs it: a report without it, valid otherwise, makes
  both stubs panic.\<close>

theorem report_without_queue_panics:
  assumes "rsq_QueueId req = None" "sendable M C 3 now token req"
  shows "ReportStatusRequest_Validate (req\<lparr> rsq_QueueId := Some i \<rparr>) = ReportStatusRequest_Validate req \<and>
    MoabNonclusteredStub_ReportStatus P M s now req d = (Inl (GoErr (Panic ''nil pointer dereference'')), d) \<and>
    (ReportStatusRequest_Validate req = None \<longrightarrow>
      MoabMonsteraStub_ReportStatus P M C client now token req d = (Inl (GoErr (Panic ''nil pointer dereference'')), d))"
  using assms(2)
  by (auto simp: ReportStatusRequest_Validate_def MoabNonclusteredStub_ReportStatus_def MoabMonsteraStub_ReportStatus_def
    nonclustered_call_def stub_call_def sendable_def ReportStatusRequest_ShardKey_def through_def assms(1) send_update_def)

text \<open>A report with no entries, and a codec for it.\<close>

definition empty_report :: ReportStatusRequest where
  "empty_report = \<lparr> rsq_QueueId = None, rsq_Entries = [], rsq_DeadLetterQueueConfig = None \<rparr>"

definition report_codecs :: "(ReportStatusRequest, ReportStatusResponseEntry list) codecs" where
  "report_codecs = \<lparr> cd_req = \<lparr> MarshalBinary = (\<lambda>_. Inr [1]), UnmarshalBinary = (\<lambda>_. Inr empty_report) \<rparr>, cd_resp = refusing \<rparr>"

theorem report_without_queue_panics_witness:
  "\<forall>qf. MoabNonclusteredStub_ReportStatus refP refM (ref_stub qf) 100 empty_report [] = (Inl (GoErr (Panic ''nil pointer dereference'')), []) \<and>
    ReportStatusRequest_Validate empty_report = None \<and>
    MoabMonsteraStub_ReportStatus refP refM report_codecs (ref_client (ref_stub qf)) 100 [] empty_report [] =
      (Inl (GoErr (Panic ''nil pointer dereference'')), [])"
proof -
  have s: "sendable refM report_codecs 3 100 [] empty_report"
    using request_carried[of "[1]" 3 100] by (simp add: sendable_def report_codecs_def)
  have q: "rsq_QueueId empty_report = None" by (simp add: empty_report_def)
  have v: "ReportStatusRequest_Validate empty_report = None"
    by (simp add: ReportStatusRequest_Validate_def empty_report_def check_def validateDeadLetterQueueConfig_def)
  show ?thesis
    by (intro allI conjI v report_without_queue_panics[OF q s, THEN conjunct2, THEN conjunct1]
      report_without_queue_panics[OF q s, THEN conjunct2, THEN conjunct2, THEN mp, OF v])
qed

end
