(* ===== verification/Spec2Isabelle.thy ===== *)
theory Spec2Isabelle
  imports Tasks_Properties Queues_Properties Coreapis_Properties
begin

text \<open>
  A verification library for Moab, a sharded task queue with cron schedules
  (\<open>src/\<close>).

  \<^bold>\<open>The program.\<close>  A client request reaches a stub
  (\<open>pkg/coreapis/stubs.go\<close>), which computes the shard key of the request
  (\<open>pkg/corepb/sharding.go\<close>, \<open>pkg/sharding\<close>) and hands it to the
  replica of that shard: through the Monstera client in a cluster, directly in
  a single process.  On the replica an adapter
  (\<open>pkg/coreapis/adapters.go\<close>) checks the shard bounds and calls one of
  two cores, optionally through a validating wrapper
  (\<open>validation.go\<close>, \<open>corepb/validators.go\<close>).  The tasks core
  (\<open>pkg/tasks\<close>) enqueues, delivers, retries, buries, restarts and expires
  tasks; the queues core (\<open>pkg/queues\<close>) keeps queues and their schedules.
  Both store rows and secondary indexes in tables of the imported packages
  \<open>honey\<close> and \<open>store\<close>, inside one transaction per request.

  \<^bold>\<open>Style.\<close>  A Go method that reads and writes a transaction is a
  function of type \<open>('s, 'a) go\<close>: from a transaction state to a Go error
  or a result and a new state (\<open>Moab_Prelude\<close>).  A request handler is a
  function from a database to its answer and the new database:
  \<open>in_update\<close> opens, commits or discards the transaction,
  \<open>in_view\<close> reads only (\<open>Moab_Honey\<close>).  An application error is a
  value of \<open>response\<close>, a Go error or panic a value of \<open>goerr\<close>.
  \<open>uint64\<close> is a 64 bit word, \<open>int64\<close> and \<open>int32\<close> are integers
  with the wrap-around \<open>i64\<close>, \<open>i32\<close> where the code computes.
  Imported packages are parameters: the records \<open>pkgs\<close>, \<open>honey\<close>,
  \<open>queues_honey\<close>, \<open>BadgerStore\<close>, \<open>cron_pkg\<close>, the codecs and the
  Monstera client.  What the code relies on is stated in locales
  (\<open>utils_pkg\<close>, \<open>base62_pkg\<close>, \<open>binary_table\<close>,
  \<open>uint64_table\<close>, \<open>sorted_index\<close>, \<open>global_index\<close>,
  \<open>badger_store\<close>, \<open>cluster\<close>), gathered for the tables of one core
  in \<open>tasks_store\<close> and \<open>queues_store\<close>; all of them are interpreted on
  the reference packages, a flat key-value store under the tables the code's
  own constructors build (\<open>Ref_Packages\<close>, \<open>Ref_Store\<close>,
  \<open>Ref_Queues\<close>, \<open>Ref_Cluster\<close>), and the witnesses run there.

  \<^bold>\<open>Theories and sources.\<close>
  \<^item> \<open>Corepb\<close>, \<open>Corepb_Requests\<close>: the messages of \<open>pkg/corepb\<close>,
    their validators and shard keys.
  \<^item> \<open>Ids_Pagination\<close>: \<open>pkg/ids\<close>, \<open>pkg/pagination\<close>,
    \<open>pkg/sharding\<close>.
  \<^item> \<open>Tasks_Tables\<close>, \<open>Tasks_Core\<close>: the tables of \<open>pkg/tasks\<close>
    and every method of its \<open>core.go\<close>, in the order of the source.
  \<^item> \<open>Queues_Tables\<close>, \<open>Queues_Core\<close>: the same for
    \<open>pkg/queues\<close>.
  \<^item> \<open>Coreapis_Cores\<close>, \<open>Coreapis_Stubs\<close>: interfaces, validating
    cores, adapters and both stubs of \<open>pkg/coreapis\<close>.

  \<^bold>\<open>Lemmas on the tasks core.\<close>  \<open>Tasks_View\<close> abstracts the bytes of
  the twelve tables to typed rows and indexes of one queue
  (\<open>qview\<close>); \<open>Tasks_Run\<close> and \<open>Tasks_Threads\<close> say what each table
  method and each internal function does to it; \<open>Tasks_Coherence\<close> is the
  invariant (\<open>good_view\<close>), kept by the elementary changes
  (\<open>Tasks_Ops\<close>); \<open>Tasks_Spec\<close> is the abstract queue, a map of rows;
  \<open>Tasks_Failure\<close>, \<open>Tasks_Enqueue\<close>, \<open>Tasks_Dequeue\<close>,
  \<open>Tasks_Handlers\<close>, \<open>Tasks_Delivery\<close> and \<open>Tasks_Sweeps\<close> prove
  that the handlers refine it; \<open>Tasks_System\<close> is the step relation, its
  invariant and its consequences.  \<open>tasks_step\<close> keeps clear of the known
  defects of thread coordination by the side conditions \<open>safe_enqueue\<close>,
  \<open>safe_dequeue\<close> and \<open>safe_report\<close>: no threaded task is rescheduled
  past a sibling, and none expires while it waits.

  \<^bold>\<open>Lemmas on the queues core.\<close>  \<open>Queues_View\<close> abstracts the seven
  tables to a \<open>catalog\<close>; \<open>Queues_Invariant\<close> is its invariant
  (\<open>good_queues\<close>) and that elementary changes keep it;
  \<open>Queues_Handlers\<close> gives the outcome of every handler on every branch;
  \<open>Queues_Sweeps\<close> the listing of due schedules and the garbage
  collection; \<open>Queues_Swap\<close> the swap of a queue id; \<open>Queues_System\<close>
  the step relation \<open>queues_step\<close>.  A queue gets an id only when no
  earlier owner of the id awaits collection (\<open>fresh_queue_id\<close>,
  \<open>safe_swap\<close>): without it the invariant fails, as
  \<open>reused_id_inherits_schedules\<close> shows.

  \<^bold>\<open>Lemmas on routing.\<close>  \<open>Coreapis_Routing\<close>: the shards of the
  single process partition the key space and the bisection finds the shard of
  a key; over any faithful client and codecs (\<open>cluster\<close>) both stubs run
  the same handler.

  \<^bold>\<open>Properties.\<close>  \<open>Tasks_Properties\<close>, \<open>Queues_Properties\<close>,
  \<open>Coreapis_Properties\<close> and this theory state them, each over every store
  that keeps its contracts, with a witness on the reference store.

  \<^bold>\<open>Bounds and fuel.\<close>  The loops of the tasks core over index ranges are
  folds over the finite listing the contract gives.  The purge loop
  (\<open>purge_record\<close>) has one unit of fuel per visit of its budget and one
  more: each turn deletes at least one task or ends, so it never runs out.  The page loop of \<open>SwapQueueId\<close>
  (\<open>swap_schedules\<close>) takes its number of pages as an argument; the contract
  of paginated listings covers the first page, so its property is
  about queues whose schedules fit one page of 250 (\<open>single_page\<close>), for
  which one unit is enough.

  \<^bold>\<open>Not modelled.\<close>
  \<^item> Snapshot, Restore, Close and the \<open>EachEntity\<close>, \<open>Clear\<close> and
    most \<open>RestoreEntity\<close> methods: they stream through the imported
    snapshot package; the restore of one task is modelled
    (\<open>Tasks_Core\<close>).
  \<^item> The generated code of \<open>pkg/corepb\<close> other than its message types:
    getters, reflection, the \<open>vtproto\<close> codecs and
    \<open>marshal_gen.go\<close>.
  \<^item> \<open>pkg/server/v0\<close>: the public gRPC front end, written against the
    generated types of another repository.
  \<^item> \<open>pkg/workers\<close>, \<open>pkg/moab\<close>, \<open>cmd\<close>, \<open>tools\<close>:
    tickers, wiring of processes, configuration and load generation.
  \<^item> Logging and metrics, which no answer depends on, and the mutex of the
    single-process stub: each call is one step.
\<close>

text \<open>C40.  Identifiers round-trip: decoding an encoded task, queue or schedule
  id gives the id back, for every base-62 codec that inverts its own
  encoding.\<close>

theorem ids_roundtrip:
  assumes "base62_pkg P"
  shows "DecodeTaskId P (EncodeTaskId P i) = Inr i \<and>
    DecodeQueueId P (EncodeQueueId P j) = Inr j \<and>
    DecodeScheduleId P (EncodeScheduleId P k) = Inr k"
  using base62_pkg.task_id_roundtrip[OF assms] base62_pkg.queue_id_roundtrip[OF assms]
    base62_pkg.schedule_id_roundtrip[OF assms] by simp

theorem ids_roundtrip_witness:
  "DecodeTaskId refP (EncodeTaskId refP 7) = Inr 7 \<and>
    DecodeQueueId refP (EncodeQueueId refP \<lparr> qid_AccountId = 1, qid_QueueId = 2 \<rparr>) =
      Inr \<lparr> qid_AccountId = 1, qid_QueueId = 2 \<rparr> \<and>
    DecodeScheduleId refP (EncodeScheduleId refP \<lparr> sid_AccountId = 1, sid_QueueId = 2, sid_ScheduleId = 3 \<rparr>) =
      Inr \<lparr> sid_AccountId = 1, sid_QueueId = 2, sid_ScheduleId = 3 \<rparr>"
  by (rule ids_roundtrip[OF ref_base62.base62_pkg_axioms])

end
